(* ===== verification/Base.thy ===== *)
theory Base
  imports Main "HOL-Library.Word" "HOL-Library.Monad_Syntax" "HOL-Library.Char_ord"
begin

text \<open>
  Prelude of the development: the memory model of character arrays, unsigned
  \<open>size_t\<close> subtraction, C and C++ string functions the sources call, the
  outcome of system calls, and the lemma collections the component theories share.

  A \<open>char\<close> array is a list of characters. Reading or writing outside of it is
  undefined behaviour in C++; the block operations below return \<open>None\<close> there, so
  that a theorem saying that an operation returns \<open>Some\<close> says that it stays in bounds.
\<close>

type_synonym bytes = string

named_theorems mem_simps \<open>block reads and writes inside the bounds\<close>
named_theorems size_simps \<open>unsigned subtraction without wrap-around\<close>

subsection \<open>Character arrays\<close>

text \<open>\<open>slice off n buf\<close> is the source operand of \<open>memcpy(dst, buf + off, n)\<close>.\<close>

definition slice :: "nat \<Rightarrow> nat \<Rightarrow> 'a list \<Rightarrow> 'a list option" where
  "slice off n buf = (if off + n \<le> length buf then Some (take n (drop off buf)) else None)"

text \<open>\<open>blit off xs buf\<close> is \<open>memcpy(buf + off, xs, |xs|)\<close>.\<close>

definition blit :: "nat \<Rightarrow> 'a list \<Rightarrow> 'a list \<Rightarrow> 'a list option" where
  "blit off xs buf =
     (if off + length xs \<le> length buf
      then Some (take off buf @ xs @ drop (off + length xs) buf) else None)"

lemma slice_Some [mem_simps]: "off + n \<le> length buf \<Longrightarrow> slice off n buf = Some (take n (drop off buf))"
  by (simp add: slice_def)

lemma blit_Some [mem_simps]:
  "off + length xs \<le> length buf \<Longrightarrow> blit off xs buf = Some (take off buf @ xs @ drop (off + length xs) buf)"
  by (simp add: blit_def)

lemma blit_length: "blit off xs buf = Some buf' \<Longrightarrow> length buf' = length buf"
  by (auto simp: blit_def split: if_splits)

lemma slice_length: "slice off n buf = Some xs \<Longrightarrow> length xs = n"
  by (auto simp: slice_def split: if_splits)

lemma slice_all [simp]: "slice 0 (length xs) xs = Some xs"
  by (simp add: slice_def)

lemma slice_prefix: "n \<le> length xs \<Longrightarrow> slice 0 n xs = Some (take n xs)"
  by (simp add: slice_def)

lemma take_drop_split: "a \<le> b \<Longrightarrow> take (b - a) (drop a xs) @ drop b xs = drop a xs"
  by (metis append_take_drop_id drop_drop le_add_diff_inverse2)

subsection \<open>Unsigned sizes\<close>

text \<open>
  A \<open>size_t\<close> is a natural number below \<open>2 ^ 64\<close>. Sums in the code stay far below the
  bound; differences may not, so subtraction writes out the wrap-around.
\<close>

definition sz_sub :: "nat \<Rightarrow> nat \<Rightarrow> nat" where
  "sz_sub a b = (if b \<le> a then a - b else 2 ^ 64 - (b - a))"

lemma sz_sub_ge [size_simps]: "b \<le> a \<Longrightarrow> sz_sub a b = a - b"
  by (simp add: sz_sub_def)

subsection \<open>C strings\<close>

text \<open>The characters of an array up to the terminating NUL, as \<open>strlen\<close> sees them.\<close>

definition NUL :: char where "NUL = CHR 0x00"

definition c_str :: "bytes \<Rightarrow> bytes" where
  "c_str s = takeWhile (\<lambda>c. c \<noteq> NUL) s"

definition strlen :: "bytes \<Rightarrow> nat" where
  "strlen s = length (c_str s)"

lemma c_str_id: "NUL \<notin> set s \<Longrightarrow> c_str s = s"
  by (auto simp: c_str_def takeWhile_eq_all_conv)

lemma c_str_idem [simp]: "c_str (c_str s) = c_str s"
  by (rule c_str_id) (auto simp: c_str_def dest: set_takeWhileD)

lemma NUL_notin_c_str [simp]: "NUL \<notin> set (c_str s)"
  by (auto simp: c_str_def dest: set_takeWhileD)

text \<open>A \<open>char\<close> is signed on the platforms the sources target.\<close>

definition schar :: "char \<Rightarrow> int" where
  "schar c = (let n = (of_char c :: int) in if n \<ge> 128 then n - 256 else n)"

text \<open>\<open>tolower\<close> in the C locale, and \<open>strcasecmp(a, b) == 0\<close>.\<close>

definition tolower :: "char \<Rightarrow> char" where
  "tolower c = (if (65::nat) \<le> of_char c \<and> of_char c \<le> (90::nat) then char_of (of_char c + 32 :: nat) else c)"

definition strcaseeq :: "bytes \<Rightarrow> bytes \<Rightarrow> bool" where
  "strcaseeq a b \<longleftrightarrow> map tolower (c_str a) = map tolower (c_str b)"

lemma strcaseeq_refl [simp]: "strcaseeq a a"
  by (simp add: strcaseeq_def)

lemma strcaseeq_sym: "strcaseeq a b \<Longrightarrow> strcaseeq b a"
  by (simp add: strcaseeq_def)

lemma strcaseeq_trans: "strcaseeq a b \<Longrightarrow> strcaseeq b c \<Longrightarrow> strcaseeq a c"
  by (simp add: strcaseeq_def)

text \<open>\<open>atoi\<close>: blanks, a sign, then the longest run of digits. A value outside of
  \<open>int\<close> is undefined in C; the model keeps the mathematical value.\<close>

definition is_digit :: "char \<Rightarrow> bool" where
  "is_digit c \<longleftrightarrow> (48::nat) \<le> of_char c \<and> of_char c \<le> (57::nat)"

definition is_space :: "char \<Rightarrow> bool" where
  "is_space c \<longleftrightarrow> of_char c = (32::nat) \<or> ((9::nat) \<le> of_char c \<and> of_char c \<le> (13::nat))"

definition digits_val :: "bytes \<Rightarrow> int" where
  "digits_val s = foldl (\<lambda>v c. 10 * v + (of_char c - 48)) 0 (takeWhile is_digit s)"

definition atoi :: "bytes \<Rightarrow> int" where
  "atoi s =
     (case dropWhile is_space (c_str s) of
        [] \<Rightarrow> 0
      | c # cs \<Rightarrow> if c = CHR ''-'' then - digits_val cs
                  else if c = CHR ''+'' then digits_val cs
                  else digits_val (c # cs))"

text \<open>\<open>std::to_string\<close> of a non-negative number.\<close>

fun dec_str :: "nat \<Rightarrow> bytes" where
  "dec_str n = (if n < 10 then [char_of (48 + n)] else dec_str (n div 10) @ [char_of (48 + n mod 10)])"

declare dec_str.simps [simp del]

lemma digit_char: "d < 10 \<Longrightarrow> is_digit (char_of (48 + d))" "d < 10 \<Longrightarrow> of_char (char_of (48 + d :: nat)) = 48 + d"
  by (simp_all add: is_digit_def)

lemma dec_str_digits: "\<forall>c \<in> set (dec_str n). is_digit c"
proof (induction n rule: dec_str.induct)
  case (1 n)
  then show ?case
    by (subst dec_str.simps) (auto intro: digit_char)
qed

lemma dec_str_nonempty [simp]: "dec_str n \<noteq> []"
  by (subst dec_str.simps) simp

lemma digits_val_all: "\<forall>c \<in> set s. is_digit c \<Longrightarrow> digits_val s = foldl (\<lambda>v c. 10 * v + (of_char c - 48)) 0 s"
  unfolding digits_val_def by (metis takeWhile_eq_all_conv)

lemma digit_int: "d < 10 \<Longrightarrow> (of_char (char_of (48 + d :: nat)) :: int) = 48 + int d"
  using of_nat_of_char [of "char_of (48 + d)", where 'a = int] by simp

lemma digits_val_dec_str: "digits_val (dec_str n) = int n"
proof (induction n rule: dec_str.induct)
  case (1 n)
  have "foldl (\<lambda>v c. 10 * v + (of_char c - 48)) 0 (dec_str n) = int n"
  proof (cases "n < 10")
    case True
    then show ?thesis by (subst dec_str.simps) (simp add: digit_int)
  next
    case False
    have "foldl (\<lambda>v c. 10 * v + (of_char c - 48)) 0 (dec_str (n div 10)) = int (n div 10)"
      using 1 [OF False] by (simp add: digits_val_all dec_str_digits)
    moreover have "(of_char (char_of (48 + n mod 10)) :: int) = 48 + int (n mod 10)"
      by (rule digit_int) simp
    ultimately show ?thesis
      using False by (subst dec_str.simps) (simp, presburger)
  qed
  then show ?case by (simp add: digits_val_all dec_str_digits)
qed

lemma digit_not_special:
  "is_digit c \<Longrightarrow> c \<noteq> NUL \<and> \<not> is_space c \<and> c \<noteq> CHR ''-'' \<and> c \<noteq> CHR ''+'' \<and> c \<noteq> CHR ''.'' \<and> c \<noteq> CHR '':''"
  by (auto simp: is_digit_def is_space_def NUL_def)

lemma c_str_dec_str [simp]: "c_str (dec_str n) = dec_str n"
  using dec_str_digits [of n] digit_not_special by (intro c_str_id) blast

lemma atoi_dec_str [simp]: "atoi (dec_str n) = int n"
proof (cases "dec_str n")
  case (Cons c cs)
  then have "is_digit c" using dec_str_digits [of n] by simp
  then show ?thesis
    using Cons digit_not_special [of c] digits_val_dec_str [of n] c_str_dec_str [of n]
    by (simp add: atoi_def)
qed simp

subsection \<open>C++ string searches\<close>

text \<open>\<open>find(c)\<close> of a single character: the first position, \<open>None\<close> for \<open>npos\<close>.\<close>

fun find_char :: "char \<Rightarrow> bytes \<Rightarrow> nat option" where
  "find_char c [] = None"
| "find_char c (x # xs) = (if x = c then Some 0 else map_option Suc (find_char c xs))"

fun is_prefix :: "bytes \<Rightarrow> bytes \<Rightarrow> bool" where
  "is_prefix [] ys = True"
| "is_prefix (x # xs) [] = False"
| "is_prefix (x # xs) (y # ys) = (x = y \<and> is_prefix xs ys)"

text \<open>\<open>find(pat)\<close>: the first position where the pattern starts.\<close>

fun find_str :: "bytes \<Rightarrow> bytes \<Rightarrow> nat option" where
  "find_str p [] = (if p = [] then Some 0 else None)"
| "find_str p (x # xs) = (if is_prefix p (x # xs) then Some 0 else map_option Suc (find_str p xs))"

text \<open>\<open>substr(pos)\<close> and \<open>substr(pos, n)\<close> throw \<open>out_of_range\<close> when \<open>pos > size()\<close>.\<close>

definition substr_from :: "nat \<Rightarrow> bytes \<Rightarrow> bytes option" where
  "substr_from pos s = (if pos \<le> length s then Some (drop pos s) else None)"

definition substr :: "nat \<Rightarrow> nat \<Rightarrow> bytes \<Rightarrow> bytes option" where
  "substr pos n s = (if pos \<le> length s then Some (take n (drop pos s)) else None)"

lemma find_char_Some:
  "find_char c s = Some i \<Longrightarrow> i < length s \<and> s ! i = c \<and> c \<notin> set (take i s)"
  by (induction s arbitrary: i) (auto split: if_splits)

lemma find_char_None [simp]: "find_char c s = None \<longleftrightarrow> c \<notin> set s"
  by (induction s) auto

lemma find_char_append: "c \<notin> set a \<Longrightarrow> find_char c (a @ c # b) = Some (length a)"
  by (induction a) auto

lemma is_prefix_append [simp]: "is_prefix p (p @ s)"
  by (induction p) auto

lemma is_prefix_iff: "is_prefix p s \<longleftrightarrow> take (length p) s = p"
  by (induction p s rule: is_prefix.induct) auto

subsection \<open>Outcomes of system calls\<close>

text \<open>
  The kernel and OpenSSL are not part of the program. One call of theirs is described by
  its return value together with \<open>errno\<close> (or the SSL error code) after the call, and a
  loop that calls them repeatedly takes the list of the outcomes of its successive calls.
\<close>

type_synonym sysres = "int \<times> int"

abbreviation EAGAIN :: int where "EAGAIN \<equiv> 11"
abbreviation EWOULDBLOCK :: int where "EWOULDBLOCK \<equiv> 11"
abbreviation ENOENT :: int where "ENOENT \<equiv> 2"
abbreviation EEXIST :: int where "EEXIST \<equiv> 17"
abbreviation EISCONN :: int where "EISCONN \<equiv> 106"
abbreviation EALREADY :: int where "EALREADY \<equiv> 114"
abbreviation EINPROGRESS :: int where "EINPROGRESS \<equiv> 115"

text \<open>The \<open>TIGER_IO_ERRORS\<close> of \<open>core/tigerso.h\<close>.\<close>

abbreviation TIGERSO_IO_CLOSE :: int where "TIGERSO_IO_CLOSE \<equiv> -2"
abbreviation TIGERSO_IO_ERROR :: int where "TIGERSO_IO_ERROR \<equiv> -1"
abbreviation TIGERSO_IO_RECALL :: int where "TIGERSO_IO_RECALL \<equiv> 0"
abbreviation TIGERSO_IO_OK :: int where "TIGERSO_IO_OK \<equiv> 1"

end
