(* ===== verification/HashHex.thy ===== *)
theory HashHex
  imports Base
begin

text \<open>
  \<open>core/Hash.cpp\<close> (the string hash and the table of primes that sizes hash tables)
  and \<open>core/Dechex.cpp\<close> (hexadecimal numerals, used for chunk sizes and certificate
  names). \<open>unsigned long\<close> is a 64-bit word and \<open>unsigned int\<close> a 32-bit word.
\<close>

unbundle bit_operations_syntax

type_synonym hashkey = "64 word"

definition HASH_PRIMES :: "64 word list" where
  "HASH_PRIMES =
     [53, 97, 193, 389, 769,
      1543, 3079, 6151, 12289, 24593,
      49157, 98317, 196613, 393241, 786433,
      1572869, 3145739, 6291469, 12582917, 25165843,
      50331653, 100663319, 201326611, 402653189, 805306457,
      1610612741, 3221225473, 4294967291]"

text \<open>The loop of \<open>Hash::hash\<close>; it also consumes the terminating NUL.\<close>

fun hash_loop :: "hashkey \<Rightarrow> bytes \<Rightarrow> hashkey" where
  "hash_loop key [] = key"
| "hash_loop key (c # cs) = hash_loop (key * 31 + word_of_int (schar c)) cs"

text \<open>\<open>None\<close> is the division by zero of an empty table.\<close>

definition hash :: "bytes \<Rightarrow> hashkey \<Rightarrow> hashkey option" where
  "hash keyname hashsize =
     (if hashsize = 0 then None
      else Some (hash_loop 0 (c_str keyname @ [NUL]) mod hashsize))"

fun adjust_loop :: "hashkey \<Rightarrow> 64 word list \<Rightarrow> hashkey option" where
  "adjust_loop sz [] = None"
| "adjust_loop sz (p # ps) = (if sz < p then Some p else adjust_loop sz ps)"

definition adjustHashSize :: "hashkey \<Rightarrow> hashkey" where
  "adjustHashSize sz =
     (case adjust_loop sz HASH_PRIMES of Some p \<Rightarrow> p | None \<Rightarrow> last HASH_PRIMES)"

subsection \<open>The hash is a polynomial in 31 reduced modulo the table size\<close>

fun horner :: "int \<Rightarrow> int list \<Rightarrow> int" where
  "horner x [] = 0"
| "horner x (c # cs) = c * x ^ length cs + horner x cs"

lemma hash_loop_horner:
  "hash_loop key cs = key * 31 ^ length cs + word_of_int (horner 31 (map schar cs))"
proof (induction cs arbitrary: key)
  case Nil
  then show ?case by simp
next
  case (Cons c cs)
  show ?case
    by (simp add: Cons.IH algebra_simps)
qed

lemma hash_lt: "hash k n = Some h \<Longrightarrow> unat h < unat n"
  by (auto simp: hash_def unat_mod word_gt_0 unat_gt_0 intro!: mod_less_divisor split: if_splits)

lemma adjust_loop_Some:
  "adjust_loop sz ps = Some p \<Longrightarrow> sorted ps \<Longrightarrow> p \<in> set ps \<and> sz < p \<and> (\<forall>q \<in> set ps. sz < q \<longrightarrow> p \<le> q)"
  by (induction ps) (auto split: if_splits)

lemma adjust_loop_None: "adjust_loop sz ps = None \<longleftrightarrow> (\<forall>q \<in> set ps. q \<le> sz)"
  by (induction ps) (auto simp: not_less)

lemma sorted_HASH_PRIMES: "sorted HASH_PRIMES"
  by (simp add: HASH_PRIMES_def)

lemma HASH_PRIMES_le_last: "q \<in> set HASH_PRIMES \<Longrightarrow> q \<le> last HASH_PRIMES"
  by (auto simp: HASH_PRIMES_def)

subsection \<open>Hexadecimal numerals\<close>

definition HexCharSet :: "char list" where
  "HexCharSet = ''0123456789abcdef''"

definition HEX2CHAR :: "32 word \<Rightarrow> char" where
  "HEX2CHAR h = HexCharSet ! unat h"

text \<open>The two-pointer swap of \<open>REVERSE_STRING\<close> on the characters \<open>beg .. end\<close>.\<close>

function REVERSE_STRING :: "bytes \<Rightarrow> nat \<Rightarrow> nat \<Rightarrow> bytes" where
  "REVERSE_STRING s beg end' =
     (if beg < end' then REVERSE_STRING (s[beg := s ! end', end' := s ! beg]) (beg + 1) (end' - 1)
      else s)"
  by pat_completeness auto
termination
  by (relation "measure (\<lambda>(s, b, e). e - b)") auto

declare REVERSE_STRING.simps [simp del]

text \<open>The digit loop of \<open>dec2hex\<close>; \<open>hexstrbuf\<close> has nine characters, the last of them
  is the terminating NUL, and a tenth write would leave the array.\<close>

function dec2hex_loop :: "32 word \<Rightarrow> bytes \<Rightarrow> bytes option" where
  "dec2hex_loop d buf =
     (if d = 0 then Some buf
      else if length buf \<ge> 9 then None
      else dec2hex_loop (drop_bit 4 d) (buf @ [HEX2CHAR (d AND 15)]))"
  by pat_completeness auto
termination
proof (relation "measure (\<lambda>(d, b). unat d)")
  fix d :: "32 word" and buf :: bytes
  assume "d \<noteq> 0"
  then have "unat d div 16 < unat d"
    by (simp add: unat_gt_0)
  then show "((drop_bit 4 d, buf @ [HEX2CHAR (d AND 15)]), d, buf) \<in> measure (\<lambda>(d, b). unat d)"
    by (simp add: drop_bit_eq_div unat_div)
qed simp

declare dec2hex_loop.simps [simp del]

definition dec2hex :: "32 word \<Rightarrow> bytes option" where
  "dec2hex num =
     (case dec2hex_loop num [] of
        None \<Rightarrow> None
      | Some buf \<Rightarrow> Some (if buf = [] then [] else REVERSE_STRING buf 0 (length buf - 1)))"

definition HEXCHAR2DEC :: "char \<Rightarrow> int" where
  "HEXCHAR2DEC c = (if schar c > schar (CHR ''9'') then schar c - schar (CHR ''a'') + 10
                    else schar c - schar (CHR ''0''))"

text \<open>
  The loop of \<open>hex2dec\<close> runs over the string backwards. A shift by 32 or more is
  undefined, and so is the read before the string that an empty argument causes.
\<close>

fun hex2dec_loop :: "bytes \<Rightarrow> nat \<Rightarrow> 32 word \<Rightarrow> 32 word option" where
  "hex2dec_loop [] i dec = Some dec"
| "hex2dec_loop (c # cs) i dec =
     (if 4 * i \<ge> 32 then None
      else hex2dec_loop cs (i + 1) (dec + push_bit (4 * i) (word_of_int (HEXCHAR2DEC c))))"

definition hex2dec :: "bytes \<Rightarrow> 32 word option" where
  "hex2dec hex = (if c_str hex = [] then None else hex2dec_loop (rev (c_str hex)) 0 0)"

subsection \<open>Reversal in place\<close>

lemma REVERSE_STRING_mid:
  "mid \<noteq> [] \<Longrightarrow> length pre = b \<Longrightarrow>
   REVERSE_STRING (pre @ mid @ post) b (b + length mid - 1) = pre @ rev mid @ post"
proof (induction mid arbitrary: pre post b rule: length_induct)
  case (1 mid)
  show ?case
  proof (cases "length mid = 1")
    case True
    then obtain x where "mid = [x]" by (auto simp: length_Suc_conv)
    with "1.prems" show ?thesis by (simp add: REVERSE_STRING.simps)
  next
    case False
    with "1.prems"(1) obtain x m y where mid: "mid = x # m @ [y]"
      by (metis One_nat_def append_butlast_last_id length_Cons list.exhaust list.size(3))
    let ?e = "b + length mid - 1"
    have e: "?e = Suc (b + length m)" using mid by simp
    have sw: "(pre @ mid @ post)[b := (pre @ mid @ post) ! ?e, ?e := (pre @ mid @ post) ! b]
              = (pre @ [y]) @ m @ (x # post)"
      using "1.prems"(2) by (simp add: mid nth_append list_update_append)
    have step: "REVERSE_STRING (pre @ mid @ post) b ?e
                = REVERSE_STRING ((pre @ [y]) @ m @ (x # post)) (b + 1) (?e - 1)"
      by (subst REVERSE_STRING.simps) (use sw e in simp)
    show ?thesis
    proof (cases "m = []")
      case True
      then show ?thesis
        by (simp only: step) (simp add: e mid REVERSE_STRING.simps)
    next
      case False
      have "REVERSE_STRING ((pre @ [y]) @ m @ (x # post)) (b + 1) (b + 1 + length m - 1)
            = (pre @ [y]) @ rev m @ (x # post)"
        using "1.IH"[rule_format, of m "pre @ [y]" "b + 1" "x # post"] False "1.prems"(2)
        by (simp add: mid)
      then show ?thesis
        by (simp only: step) (simp add: e mid)
    qed
  qed
qed

lemma REVERSE_STRING_rev: "s \<noteq> [] \<Longrightarrow> REVERSE_STRING s 0 (length s - 1) = rev s"
  using REVERSE_STRING_mid [of s "[]" 0 "[]"] by simp

subsection \<open>Digits, least significant first\<close>

fun lsd16 :: "nat \<Rightarrow> nat list" where
  "lsd16 n = (if n = 0 then [] else n mod 16 # lsd16 (n div 16))"

declare lsd16.simps [simp del]

lemma lsd16_0 [simp]: "lsd16 0 = []"
  by (simp add: lsd16.simps)

lemma lsd16_Cons: "0 < n \<Longrightarrow> lsd16 n = n mod 16 # lsd16 (n div 16)"
  by (simp add: lsd16.simps)

lemma lsd16_lt: "d \<in> set (lsd16 n) \<Longrightarrow> d < 16"
proof (induction n rule: lsd16.induct)
  case (1 n)
  then show ?case by (cases "n = 0") (auto simp: lsd16_Cons)
qed

lemma lsd16_length: "n < 16 ^ k \<Longrightarrow> length (lsd16 n) \<le> k"
proof (induction k arbitrary: n)
  case 0
  then show ?case by simp
next
  case (Suc k)
  show ?case
  proof (cases "n = 0")
    case False
    from Suc.prems have "n div 16 < 16 ^ k" by (simp add: less_mult_imp_div_less mult.commute)
    with Suc.IH False show ?thesis by (simp add: lsd16_Cons)
  qed simp
qed

definition hexc :: "nat \<Rightarrow> char" where
  "hexc d = HexCharSet ! d"

lemma hexc_table:
  "\<forall>d \<in> set [0..<16]. HEXCHAR2DEC (hexc d) = int d \<and> hexc d \<noteq> NUL"
  by code_simp

lemma HEXCHAR2DEC_hexc: "d < 16 \<Longrightarrow> HEXCHAR2DEC (hexc d) = int d"
  using hexc_table by simp

lemma hexc_not_NUL: "d < 16 \<Longrightarrow> hexc d \<noteq> NUL"
  using hexc_table by simp

lemma HEX2CHAR_mod: "HEX2CHAR (d AND 15) = hexc (unat d mod 16)"
proof -
  have "d AND 15 = take_bit 4 d"
    using take_bit_eq_mask [of 4 d] by (simp add: mask_eq_exp_minus_1)
  then show ?thesis
    by (simp add: HEX2CHAR_def hexc_def take_bit_eq_mod unat_mod)
qed

lemma dec2hex_loop_lsd:
  "unat d < 16 ^ k \<Longrightarrow> length buf + k \<le> 9 \<Longrightarrow>
   dec2hex_loop d buf = Some (buf @ map hexc (lsd16 (unat d)))"
proof (induction k arbitrary: d buf)
  case 0
  then have "d = 0" by (simp add: unat_eq_zero)
  then show ?case by (simp add: dec2hex_loop.simps)
next
  case (Suc k)
  show ?case
  proof (cases "d = 0")
    case True
    then show ?thesis by (simp add: dec2hex_loop.simps)
  next
    case False
    have u: "unat (drop_bit 4 d) = unat d div 16"
      by (simp add: drop_bit_eq_div unat_div)
    have "unat (drop_bit 4 d) < 16 ^ k"
      using Suc.prems(1) unfolding u by (simp add: less_mult_imp_div_less mult.commute)
    moreover have "length (buf @ [HEX2CHAR (d AND 15)]) + k \<le> 9"
      using Suc.prems(2) by simp
    ultimately have "dec2hex_loop (drop_bit 4 d) (buf @ [HEX2CHAR (d AND 15)]) =
        Some (buf @ HEX2CHAR (d AND 15) # map hexc (lsd16 (unat d div 16)))"
      using Suc.IH u by simp
    moreover have "0 < unat d" using False by (simp add: unat_gt_0)
    ultimately show ?thesis
      using False Suc.prems(2) by (subst dec2hex_loop.simps) (simp add: HEX2CHAR_mod lsd16_Cons)
  qed
qed

lemma dec2hex_eq: "dec2hex n = Some (map hexc (rev (lsd16 (unat n))))"
proof -
  have "unat n < 16 ^ 8" using unsigned_less [of n] by simp
  then have "dec2hex_loop n [] = Some (map hexc (lsd16 (unat n)))"
    using dec2hex_loop_lsd [of n 8 "[]"] by simp
  then show ?thesis
    using REVERSE_STRING_rev [of "map hexc (lsd16 (unat n))"]
    by (simp add: dec2hex_def rev_map)
qed

lemma hex2dec_loop_lsd:
  "n < 16 ^ k \<Longrightarrow> i + k \<le> 8 \<Longrightarrow>
   hex2dec_loop (map hexc (lsd16 n)) i acc = Some (acc + of_nat (n * 16 ^ i))"
proof (induction k arbitrary: n i acc)
  case 0
  then show ?case by simp
next
  case (Suc k)
  show ?case
  proof (cases "n = 0")
    case False
    have p: "(2::32 word) ^ (4 * i) = 16 ^ i"
      by (simp add: power_mult)
    have d: "(word_of_int (HEXCHAR2DEC (hexc (n mod 16))) :: 32 word) = of_nat (n mod 16)"
      by (simp add: HEXCHAR2DEC_hexc)
    have "n div 16 < 16 ^ k"
      using Suc.prems(1) by (simp add: less_mult_imp_div_less mult.commute)
    then have "hex2dec_loop (map hexc (lsd16 n)) i acc =
        Some (acc + of_nat (n mod 16) * 16 ^ i + of_nat (n div 16 * 16 ^ (i + 1)))"
      using False Suc.prems(2) Suc.IH [of "n div 16" "i + 1"]
      by (simp add: lsd16_Cons push_bit_eq_mult p d)
    moreover have "n * 16 ^ i = (n mod 16) * 16 ^ i + n div 16 * 16 ^ (i + 1)"
    proof -
      have gen: "(r + 16 * q) * x = r * x + q * (x * 16)" for q r x :: nat
        by (simp add: algebra_simps)
      have "n mod 16 + 16 * (n div 16) = n" by simp
      then have "n * 16 ^ i = (n mod 16 + 16 * (n div 16)) * 16 ^ i" by (rule arg_cong [THEN sym])
      also have "\<dots> = n mod 16 * 16 ^ i + n div 16 * 16 ^ (i + 1)"
        using gen [of "n mod 16" "n div 16" "16 ^ i"] by (simp only: power_add power_one_right)
      finally show ?thesis .
    qed
    ultimately show ?thesis
      by (simp only: of_nat_add of_nat_mult of_nat_power) (simp add: add.assoc)
  qed simp
qed

subsection \<open>Properties\<close>

text \<open>
  C35. The hash of a key is always an index of the table (below \<open>hashsize\<close>), and it is
  the polynomial of the key's signed characters, terminating NUL included, at 31, reduced
  modulo \<open>2 ^ 64\<close> and then modulo the table size.
\<close>

theorem hash_index_and_polynomial:
  assumes "n \<noteq> 0"
  shows "\<exists>h. hash k n = Some h \<and> unat h < unat n \<and>
             h = word_of_int (horner 31 (map schar (c_str k @ [NUL]))) mod n"
proof -
  let ?h = "hash_loop 0 (c_str k @ [NUL]) mod n"
  have h: "hash k n = Some ?h" using assms by (simp add: hash_def)
  moreover have "?h = word_of_int (horner 31 (map schar (c_str k @ [NUL]))) mod n"
    by (simp only: hash_loop_horner) simp
  ultimately show ?thesis using hash_lt [OF h] by blast
qed

theorem hash_index_and_polynomial_witness:
  "\<exists>h. hash ''ab'' 53 = Some h \<and> unat h < unat (53 :: hashkey) \<and>
       h = word_of_int (horner 31 (map schar (c_str ''ab'' @ [NUL]))) mod 53"
  by (rule hash_index_and_polynomial) simp

text \<open>
  \<open>adjustHashSize\<close> returns an entry of the prime table; when some entry is larger
  than the requested size it is larger than the requested size and the least such entry,
  otherwise it is the last entry.
\<close>

theorem adjustHashSize_least_prime:
  "adjustHashSize sz \<in> set HASH_PRIMES \<and>
   (if sz < last HASH_PRIMES
    then sz < adjustHashSize sz \<and> Min {q \<in> set HASH_PRIMES. sz < q} = adjustHashSize sz
    else adjustHashSize sz = last HASH_PRIMES)"
proof (cases "adjust_loop sz HASH_PRIMES")
  case None
  then have "\<not> sz < last HASH_PRIMES"
    unfolding adjust_loop_None by (auto simp: not_less HASH_PRIMES_def)
  with None show ?thesis by (simp add: adjustHashSize_def HASH_PRIMES_def)
next
  case (Some p)
  note p = adjust_loop_Some [OF Some sorted_HASH_PRIMES]
  then have "sz < last HASH_PRIMES" using HASH_PRIMES_le_last less_le_trans by blast
  moreover have "Min {q \<in> set HASH_PRIMES. sz < q} = p"
    using p by (intro Min_eqI) auto
  ultimately show ?thesis using p Some by (simp add: adjustHashSize_def)
qed

text \<open>
  Hexadecimal round trip: \<open>dec2hex\<close> stays inside its nine-character buffer on every
  input, its result is the lower-case numeral without leading zeros (empty for 0), and
  \<open>hex2dec\<close> reads every non-empty result back.
\<close>

theorem dec2hex_hex2dec_roundtrip:
  "\<exists>s. dec2hex n = Some s \<and> length s \<le> 8 \<and> hex2dec s = (if n = 0 then None else Some n)"
proof -
  let ?s = "map hexc (rev (lsd16 (unat n)))"
  have b: "unat n < 16 ^ 8" using unsigned_less [of n] by simp
  have "NUL \<notin> set ?s" using hexc_not_NUL lsd16_lt by fastforce
  then have c: "c_str ?s = ?s" by (rule c_str_id)
  have "hex2dec_loop (map hexc (lsd16 (unat n))) 0 0 = Some n"
    using hex2dec_loop_lsd [OF b, of 0 0] by simp
  then have "hex2dec ?s = (if n = 0 then None else Some n)"
    unfolding hex2dec_def c by (auto simp: rev_map lsd16_Cons unat_gt_0 simp del: hex2dec_loop.simps)
  with lsd16_length [OF b] show ?thesis by (simp add: dec2hex_eq)
qed

end
