(* ===== verification/Config.thy ===== *)
theory Config
  imports Base
begin

text \<open>
  \<open>core/ConfigParser.cpp\<close>: the line classifier, the loader that fills the section map
  from the lines of the configuration file, reload, and lookup. The file system is a map
  from file names to contents; \<open>std::map::insert\<close> does not overwrite.
\<close>

type_synonym fsys = "bytes \<rightharpoonup> bytes"

abbreviation SECTB :: char where "SECTB \<equiv> CHR ''[''"
abbreviation SECTE :: char where "SECTE \<equiv> CHR '']''"
abbreviation COMTB :: char where "COMTB \<equiv> CHR ''#''"
abbreviation KEYB :: char where "KEYB \<equiv> CHR ''=''"

datatype line_type = SECTION | COMMENT | KEYVAL | ERRLINE

text \<open>\<open>line[idx]\<close>: the position after the last character reads as NUL.\<close>

definition char_at :: "bytes \<Rightarrow> nat \<Rightarrow> char" where
  "char_at line idx = (if idx < length line then line ! idx else NUL)"

function skip_spaces :: "bytes \<Rightarrow> nat \<Rightarrow> nat" where
  "skip_spaces line idx =
     (if char_at line idx \<noteq> CHR '' '' \<or> idx \<ge> length line then idx else skip_spaces line (idx + 1))"
  by pat_completeness auto
termination
  by (relation "measure (\<lambda>(line, idx). length line - idx)") auto

function section_scan :: "bytes \<Rightarrow> nat \<Rightarrow> line_type \<times> bytes" where
  "section_scan line idx =
     (if char_at line idx = SECTB \<or> idx \<ge> length line then
        (if idx \<ge> length line \<and> char_at line idx \<noteq> SECTB then (ERRLINE, [])
         else (SECTION, (if length line < 2 then drop 1 line else take (length line - 2) (drop 1 line))))
      else section_scan line (idx + 1))"
  by pat_completeness auto
termination
  by (relation "measure (\<lambda>(line, idx). length line - idx)") auto

function keyval_scan :: "bytes \<Rightarrow> nat \<Rightarrow> line_type \<times> bytes" where
  "keyval_scan line idx =
     (if char_at line idx = KEYB \<or> idx \<ge> length line then
        (if idx \<ge> length line \<and> char_at line idx \<noteq> KEYB then (ERRLINE, [])
         else (KEYVAL, line))
      else keyval_scan line (idx + 1))"
  by pat_completeness auto
termination
  by (relation "measure (\<lambda>(line, idx). length line - idx)") auto

declare skip_spaces.simps [simp del] section_scan.simps [simp del] keyval_scan.simps [simp del]

definition decideLineType :: "bytes \<Rightarrow> line_type \<times> bytes" where
  "decideLineType line =
     (let emptyLine = (skip_spaces line 0 \<ge> length line);
          lst = char_at line 0
      in if lst = SECTB then section_scan line 0
         else if lst = COMTB then (COMMENT, [])
         else if emptyLine then (ERRLINE, [])
         else keyval_scan line 0)"

text \<open>The loop that looks for the first \<open>=\<close> of a line already classified \<open>KEYVAL\<close>;
  past the end of the string it would be undefined.\<close>

function split_keyval :: "bytes \<Rightarrow> nat \<Rightarrow> (bytes \<times> bytes) option" where
  "split_keyval content idx =
     (if idx > length content then None
      else if char_at content idx = KEYB then Some (take idx content, drop (idx + 1) content)
      else split_keyval content (idx + 1))"
  by pat_completeness auto
termination
  by (relation "measure (\<lambda>(c, idx). Suc (length c) - idx)") auto

declare split_keyval.simps [simp del]

type_synonym kvmap = "bytes \<rightharpoonup> bytes"

definition map_insert :: "'k \<Rightarrow> 'v \<Rightarrow> ('k \<rightharpoonup> 'v) \<Rightarrow> ('k \<rightharpoonup> 'v)" where
  "map_insert k v m = (if m k = None then m(k \<mapsto> v) else m)"

record load_state =
  configMap' :: "bytes \<rightharpoonup> kvmap"
  kvMap :: kvmap
  section' :: bytes
  is1stSec :: bool

definition load_line :: "bytes \<Rightarrow> load_state \<Rightarrow> load_state option" where
  "load_line line s =
     (case decideLineType line of
        (SECTION, content) \<Rightarrow>
          Some (if is1stSec s then s\<lparr>is1stSec := False, section' := content\<rparr>
                else s\<lparr>configMap' := map_insert (section' s) (kvMap s) (configMap' s),
                       kvMap := Map.empty, section' := content\<rparr>)
      | (KEYVAL, content) \<Rightarrow>
          (case split_keyval content 0 of
             None \<Rightarrow> None
           | Some (key, value) \<Rightarrow> Some (s\<lparr>kvMap := map_insert key value (kvMap s)\<rparr>))
      | (_, content) \<Rightarrow> Some s)"

fun load_lines :: "bytes list \<Rightarrow> load_state \<Rightarrow> load_state option" where
  "load_lines [] s = Some s"
| "load_lines (l # ls) s = (case load_line l s of None \<Rightarrow> None | Some s' \<Rightarrow> load_lines ls s')"

text \<open>\<open>getline\<close> until it fails: a final newline does not start another line.\<close>

fun lines_of :: "bytes \<Rightarrow> bytes list" where
  "lines_of [] = []"
| "lines_of (c # cs) =
     (if c = CHR 0x0A then [] # lines_of cs
      else (case lines_of cs of [] \<Rightarrow> [[c]] | l # ls \<Rightarrow> (c # l) # ls))"

record config =
  filename :: bytes
  isFileExisted :: bool
  configMap :: "bytes \<rightharpoonup> kvmap"

text \<open>A file that cannot be opened has no lines.\<close>

definition loadConfig2Map :: "fsys \<Rightarrow> config \<Rightarrow> config option" where
  "loadConfig2Map fs c =
     (case load_lines (case fs (filename c) of None \<Rightarrow> [] | Some txt \<Rightarrow> lines_of txt)
             \<lparr>configMap' = configMap c, kvMap = Map.empty, section' = [], is1stSec = True\<rparr> of
        None \<Rightarrow> None
      | Some s \<Rightarrow> Some (c\<lparr>configMap := map_insert (section' s) (kvMap s) (configMap' s)\<rparr>))"

definition setConfigPath :: "fsys \<Rightarrow> bytes \<Rightarrow> config \<Rightarrow> config option" where
  "setConfigPath fs file c =
     (if fs file = None then Some (c\<lparr>isFileExisted := False\<rparr>)
      else loadConfig2Map fs (c\<lparr>filename := file, configMap := Map.empty\<rparr>))"

definition reload :: "fsys \<Rightarrow> config \<Rightarrow> config option" where
  "reload fs c = loadConfig2Map fs (c\<lparr>configMap := Map.empty\<rparr>)"

definition getValueByKey :: "config \<Rightarrow> bytes \<Rightarrow> bytes \<Rightarrow> bytes" where
  "getValueByKey c sect key =
     (case configMap c sect of
        None \<Rightarrow> []
      | Some kv \<Rightarrow> (case kv key of None \<Rightarrow> [] | Some v \<Rightarrow> v))"

subsection \<open>The classifier, without its loops\<close>

lemma skip_spaces_le: "idx \<le> length line \<Longrightarrow> skip_spaces line idx \<le> length line"
proof (induction line idx rule: skip_spaces.induct)
  case (1 line idx)
  then show ?case by (subst skip_spaces.simps) (auto simp: not_le)
qed

lemma skip_spaces_end:
  "idx \<le> length line \<Longrightarrow> length line \<le> skip_spaces line idx \<Longrightarrow> set (drop idx line) \<subseteq> {CHR '' ''}"
proof (induction line idx rule: skip_spaces.induct)
  case (1 line idx)
  show ?case
  proof (cases "char_at line idx \<noteq> CHR '' '' \<or> idx \<ge> length line")
    case True
    with "1.prems" show ?thesis by (simp add: skip_spaces.simps [of line idx])
  next
    case False
    then have "set (drop (idx + 1) line) \<subseteq> {CHR '' ''}"
      using "1.IH" "1.prems"(2) by (simp add: skip_spaces.simps [of line idx])
    with False show ?thesis
      by (auto simp: char_at_def Cons_nth_drop_Suc [symmetric] not_le split: if_splits)
  qed
qed

lemma keyval_scan_eq:
  "idx \<le> length line \<Longrightarrow>
   keyval_scan line idx = (if KEYB \<in> set (drop idx line) then (KEYVAL, line) else (ERRLINE, []))"
proof (induction line idx rule: keyval_scan.induct)
  case (1 line idx)
  show ?case
  proof (cases "idx < length line")
    case True
    then show ?thesis
      using "1.IH" by (subst keyval_scan.simps) (auto simp: char_at_def Cons_nth_drop_Suc [symmetric])
  next
    case False
    with "1.prems" show ?thesis
      by (subst keyval_scan.simps) (simp add: char_at_def NUL_def)
  qed
qed

definition section_name :: "bytes \<Rightarrow> bytes" where
  "section_name cs = (if cs = [] then [] else butlast cs)"

lemma decideLineType_eq:
  "decideLineType line =
     (case line of [] \<Rightarrow> (ERRLINE, [])
      | c # cs \<Rightarrow> if c = SECTB then (SECTION, section_name cs)
                  else if c = COMTB then (COMMENT, [])
                  else if KEYB \<in> set line then (KEYVAL, line) else (ERRLINE, []))"
proof (cases line)
  case Nil
  then show ?thesis
    by (simp add: decideLineType_def char_at_def NUL_def skip_spaces.simps)
next
  case (Cons c cs)
  have sect: "section_scan line 0 = (SECTION, section_name cs)" if "c = SECTB"
    using that Cons
    by (subst section_scan.simps) (auto simp: char_at_def section_name_def butlast_conv_take)
  have blank: "KEYB \<notin> set line" if "length line \<le> skip_spaces line 0"
    using skip_spaces_end [of 0 line] that by auto
  show ?thesis
    using Cons sect blank keyval_scan_eq [of 0 line]
    by (auto simp: decideLineType_def Let_def char_at_def)
qed

lemma split_keyval_eq:
  "idx \<le> length l \<Longrightarrow> KEYB \<in> set (drop idx l) \<Longrightarrow>
   split_keyval l idx = Some (take idx l @ takeWhile (\<lambda>c. c \<noteq> KEYB) (drop idx l),
                              tl (dropWhile (\<lambda>c. c \<noteq> KEYB) (drop idx l)))"
proof (induction l idx rule: split_keyval.induct)
  case (1 l idx)
  then have lt: "idx < length l" by (cases "idx = length l") auto
  then have d: "drop idx l = l ! idx # drop (idx + 1) l"
    by (simp add: Cons_nth_drop_Suc)
  show ?case
  proof (cases "l ! idx = KEYB")
    case True
    with lt d show ?thesis by (subst split_keyval.simps) (simp add: char_at_def)
  next
    case False
    with lt d "1.IH" "1.prems" show ?thesis
      by (subst split_keyval.simps) (simp add: char_at_def take_Suc_conv_app_nth)
  qed
qed

subsection \<open>Lines as items\<close>

datatype item = Sec bytes | KV bytes bytes | Skip

definition classify :: "bytes \<Rightarrow> item" where
  "classify line =
     (case line of [] \<Rightarrow> Skip
      | c # cs \<Rightarrow> if c = SECTB then Sec (section_name cs)
                  else if c = COMTB then Skip
                  else if KEYB \<in> set line
                  then KV (takeWhile (\<lambda>c. c \<noteq> KEYB) line) (tl (dropWhile (\<lambda>c. c \<noteq> KEYB) line))
                  else Skip)"

fun load_item :: "item \<Rightarrow> load_state \<Rightarrow> load_state" where
  "load_item Skip s = s"
| "load_item (KV k v) s = s\<lparr>kvMap := map_insert k v (kvMap s)\<rparr>"
| "load_item (Sec n) s =
     (if is1stSec s then s\<lparr>is1stSec := False, section' := n\<rparr>
      else s\<lparr>configMap' := map_insert (section' s) (kvMap s) (configMap' s),
             kvMap := Map.empty, section' := n\<rparr>)"

lemma load_line_item: "load_line l s = Some (load_item (classify l) s)"
  by (auto simp: load_line_def classify_def decideLineType_eq split_keyval_eq [of 0]
      split: list.splits if_splits)

lemma load_lines_items: "load_lines ls s = Some (fold load_item (map classify ls) s)"
  by (induction ls arbitrary: s) (simp_all add: load_line_item)

subsection \<open>Specification: blocks of key/value pairs\<close>

text \<open>A file is a list of blocks, a section name with its pairs in order. A header closes
  the block before it, except that the pairs before the first header go to the section of
  that header; a file without a header is one block with the empty name.\<close>

fun blocks_from :: "bytes \<Rightarrow> (bytes \<times> bytes) list \<Rightarrow> item list \<Rightarrow> (bytes \<times> (bytes \<times> bytes) list) list" where
  "blocks_from n ps [] = [(n, ps)]"
| "blocks_from n ps (Skip # is) = blocks_from n ps is"
| "blocks_from n ps (KV k v # is) = blocks_from n (ps @ [(k, v)]) is"
| "blocks_from n ps (Sec m # is) = (n, ps) # blocks_from m [] is"

fun blocks :: "(bytes \<times> bytes) list \<Rightarrow> item list \<Rightarrow> (bytes \<times> (bytes \<times> bytes) list) list" where
  "blocks ps [] = [([], ps)]"
| "blocks ps (Skip # is) = blocks ps is"
| "blocks ps (KV k v # is) = blocks (ps @ [(k, v)]) is"
| "blocks ps (Sec m # is) = blocks_from m ps is"

definition lookup2 :: "(bytes \<times> (bytes \<times> bytes) list) list \<Rightarrow> bytes \<Rightarrow> bytes \<Rightarrow> bytes" where
  "lookup2 bs sect key =
     (case map_of bs sect of None \<Rightarrow> []
      | Some ps \<Rightarrow> (case map_of ps key of None \<Rightarrow> [] | Some v \<Rightarrow> v))"

lemma map_insert_add: "map_insert k v m = [k \<mapsto> v] ++ m"
  by (auto simp: map_insert_def map_add_def fun_eq_iff split: option.splits)

lemma map_insert_snoc [simp]: "map_insert k v (map_of ps) = map_of (ps @ [(k, v)])"
  by (simp add: map_insert_add)

abbreviation finish :: "load_state \<Rightarrow> bytes \<rightharpoonup> kvmap" where
  "finish s \<equiv> map_insert (section' s) (kvMap s) (configMap' s)"

abbreviation kvmaps :: "(bytes \<times> (bytes \<times> bytes) list) list \<Rightarrow> bytes \<rightharpoonup> kvmap" where
  "kvmaps bs \<equiv> map_of (map (\<lambda>(n, ps). (n, map_of ps)) bs)"

lemma fold_items_section:
  "finish (fold load_item is \<lparr>configMap' = cm, kvMap = map_of ps, section' = n, is1stSec = False\<rparr>) =
   kvmaps (blocks_from n ps is) ++ cm"
proof (induction n ps "is" arbitrary: cm rule: blocks_from.induct)
  case (1 n ps)
  then show ?case by (simp add: map_insert_add fun_upd_def)
next
  case (4 n ps m "is")
  then show ?case
    using "4" [of "map_insert n (map_of ps) cm"]
    by (simp add: map_insert_add map_add_def fun_eq_iff split: option.splits)
qed (simp_all del: map_of_append)

lemma fold_items:
  "finish (fold load_item is \<lparr>configMap' = Map.empty, kvMap = map_of ps, section' = [], is1stSec = True\<rparr>) =
   kvmaps (blocks ps is)"
proof (induction ps "is" rule: blocks.induct)
  case (1 ps)
  then show ?case by (simp add: map_insert_add)
next
  case (4 ps m "is")
  then show ?case
    using fold_items_section [of "is" Map.empty ps m] by simp
qed (simp_all del: map_of_append)

lemma kvmaps_lookup: "kvmaps bs sect = map_option map_of (map_of bs sect)"
  by (induction bs) auto

definition config_text :: "fsys \<Rightarrow> bytes \<Rightarrow> bytes list" where
  "config_text fs file = (case fs file of None \<Rightarrow> [] | Some txt \<Rightarrow> lines_of txt)"

lemma load_spec:
  "configMap c = Map.empty \<Longrightarrow>
   loadConfig2Map fs c =
     Some (c\<lparr>configMap := kvmaps (blocks [] (map classify (config_text fs (filename c))))\<rparr>)"
  using fold_items [of "map classify (config_text fs (filename c))" "[]"]
  by (simp add: loadConfig2Map_def load_lines_items config_text_def)

lemma getValueByKey_kvmaps:
  "getValueByKey (c\<lparr>configMap := kvmaps bs\<rparr>) sect key = lookup2 bs sect key"
  by (simp add: getValueByKey_def lookup2_def kvmaps_lookup split: option.splits)

text \<open>
  Loading a configuration never runs past a line, and afterwards a lookup finds the value
  of the first pair with that key in the first block with that section name, and the
  empty string when there is none; \<open>setConfigPath\<close> on a missing file changes nothing but
  the flag.
\<close>

theorem config_load_spec:
  "case fs file of
     None \<Rightarrow> setConfigPath fs file c = Some (c\<lparr>isFileExisted := False\<rparr>)
   | Some content \<Rightarrow>
       (\<exists>c'. setConfigPath fs file c = Some c' \<and> reload fs c' = Some c' \<and> filename c' = file \<and>
             getValueByKey c' = lookup2 (blocks [] (map classify (lines_of content))))"
proof (cases "fs file")
  case None
  then show ?thesis by (simp add: setConfigPath_def)
next
  case (Some content)
  let ?bs = "blocks [] (map classify (lines_of content))"
  let ?c' = "c\<lparr>filename := file, configMap := kvmaps ?bs\<rparr>"
  have "setConfigPath fs file c = Some ?c'"
    using Some by (simp add: setConfigPath_def load_spec config_text_def)
  moreover have "reload fs ?c' = Some ?c'"
    using Some by (simp add: reload_def load_spec config_text_def)
  moreover have "getValueByKey ?c' = lookup2 ?bs"
    by (intro ext) (metis getValueByKey_kvmaps)
  ultimately show ?thesis
    using Some by auto
qed

subsection \<open>Reading back a written configuration\<close>

definition plain :: "bytes \<Rightarrow> bool" where
  "plain s \<longleftrightarrow> CHR 0x0A \<notin> set s"

definition key_ok :: "bytes \<Rightarrow> bool" where
  "key_ok k \<longleftrightarrow> plain k \<and> k \<noteq> [] \<and> KEYB \<notin> set k \<and> hd k \<noteq> SECTB \<and> hd k \<noteq> COMTB"

definition config_ok :: "(bytes \<times> (bytes \<times> bytes) list) list \<Rightarrow> bool" where
  "config_ok bs \<longleftrightarrow> bs \<noteq> [] \<and>
     (\<forall>(n, ps) \<in> set bs. plain n \<and> (\<forall>(k, v) \<in> set ps. key_ok k \<and> plain v))"

definition write_pair :: "bytes \<times> bytes \<Rightarrow> bytes" where
  "write_pair p = fst p @ KEYB # snd p"

definition write_block :: "bytes \<times> (bytes \<times> bytes) list \<Rightarrow> bytes list" where
  "write_block b = (SECTB # fst b @ [SECTE]) # map write_pair (snd b)"

definition write_config :: "(bytes \<times> (bytes \<times> bytes) list) list \<Rightarrow> bytes" where
  "write_config bs = concat (map (\<lambda>l. l @ [CHR 0x0A]) (concat (map write_block bs)))"

lemma lines_of_line: "plain l \<Longrightarrow> lines_of (l @ CHR 0x0A # rest) = l # lines_of rest"
  by (induction l) (auto simp: plain_def)

lemma lines_of_lines: "\<forall>l \<in> set ls. plain l \<Longrightarrow> lines_of (concat (map (\<lambda>l. l @ [CHR 0x0A]) ls)) = ls"
  by (induction ls) (auto simp: lines_of_line)

lemma classify_pair: "key_ok k \<Longrightarrow> classify (write_pair (k, v)) = KV k v"
  by (cases k) (auto simp: classify_def write_pair_def key_ok_def takeWhile_append dropWhile_append)

lemma classify_header: "classify (SECTB # n @ [SECTE]) = Sec n"
  by (simp add: classify_def section_name_def)

lemma blocks_from_pairs:
  "\<forall>p \<in> set ps. key_ok (fst p) \<Longrightarrow>
   blocks_from n qs (map classify (map write_pair ps) @ is) = blocks_from n (qs @ ps) is"
  by (induction ps arbitrary: qs) (auto simp: classify_pair)

lemma blocks_from_blocks:
  "\<forall>b \<in> set bs. \<forall>p \<in> set (snd b). key_ok (fst p) \<Longrightarrow>
   blocks_from n ps (map classify (concat (map write_block bs))) = (n, ps) # bs"
proof (induction bs arbitrary: n ps)
  case (Cons b bs)
  have "blocks_from (fst b) [] (map classify (map write_pair (snd b)) @
          map classify (concat (map write_block bs))) = b # bs"
    using Cons.prems Cons.IH [of "fst b" "snd b"] by (simp add: blocks_from_pairs del: map_map)
  then show ?case
    by (simp add: write_block_def [of b] classify_header del: map_map)
qed simp

lemma blocks_write:
  assumes "config_ok bs"
  shows "blocks [] (map classify (lines_of (write_config bs))) = bs"
proof -
  have "\<forall>l \<in> set (concat (map write_block bs)). plain l"
    using assms by (fastforce simp: config_ok_def write_block_def write_pair_def plain_def key_ok_def)
  then have "lines_of (write_config bs) = concat (map write_block bs)"
    unfolding write_config_def by (rule lines_of_lines)
  moreover obtain b bs' where bs: "bs = b # bs'"
    using assms by (cases bs) (auto simp: config_ok_def)
  have "\<forall>b \<in> set bs. \<forall>p \<in> set (snd b). key_ok (fst p)"
    using assms by (fastforce simp: config_ok_def)
  then have "blocks_from (fst b) [] (map classify (map write_pair (snd b)) @
       map classify (concat (map write_block bs'))) = b # bs'"
    using blocks_from_blocks [of bs' "fst b" "snd b"] by (simp add: bs blocks_from_pairs del: map_map)
  then have "blocks [] (map classify (concat (map write_block bs))) = bs"
    by (simp add: bs write_block_def [of b] classify_header del: map_map)
  ultimately show ?thesis
    by simp
qed

text \<open>
  C24. A configuration written section by section, one \<open>key=value\<close> line per pair, is read back:
  whatever was loaded before, every lookup afterwards is the lookup in the written list.
\<close>

theorem config_roundtrip:
  assumes "config_ok bs" and "fs file = Some (write_config bs)"
  shows "\<exists>c'. setConfigPath fs file c = Some c' \<and>
              (\<forall>sect key. getValueByKey c' sect key = lookup2 bs sect key)"
proof -
  have "setConfigPath fs file c = Some (c\<lparr>filename := file, configMap := kvmaps bs\<rparr>)"
    using assms by (simp add: setConfigPath_def load_spec config_text_def blocks_write)
  then show ?thesis
    by (metis getValueByKey_kvmaps)
qed

theorem config_roundtrip_witness:
  "\<exists>c'. setConfigPath [''a.cfg'' \<mapsto> write_config [(''dns'', [(''ttl'', ''30'')])]] ''a.cfg''
           \<lparr>filename = [], isFileExisted = False, configMap = Map.empty\<rparr> = Some c' \<and>
         (\<forall>sect key. getValueByKey c' sect key = lookup2 [(''dns'', [(''ttl'', ''30'')])] sect key)"
  by (rule config_roundtrip) (simp_all add: config_ok_def key_ok_def plain_def)

end
