(* ===== verification/SSLCtx.thy ===== *)
theory SSLCtx
  imports Base
begin

text \<open>
  \<open>ssl/SSLContext.cpp\<close>: the life of one TLS connection object, its handshake, its reads and
  writes, and the release of the OpenSSL objects it owns. OpenSSL itself is not part of the
  program: an object of it is a number, the heap is the set of numbers that are alive
  together with the descriptor of each \<open>SSL\<close>, a call is described by its return value and the
  value of \<open>SSL_get_error\<close> after it. Freeing an object that is not alive is undefined
  behaviour, and so is a call on a null \<open>SSL\<close>.
\<close>

abbreviation SSL_ERROR_NONE :: int where "SSL_ERROR_NONE \<equiv> 0"
abbreviation SSL_ERROR_WANT_READ :: int where "SSL_ERROR_WANT_READ \<equiv> 2"
abbreviation SSL_ERROR_WANT_WRITE :: int where "SSL_ERROR_WANT_WRITE \<equiv> 3"
abbreviation SCTX_ERROR_ERR :: int where "SCTX_ERROR_ERR \<equiv> -1"
abbreviation SCTX_ERROR_OK :: int where "SCTX_ERROR_OK \<equiv> 0"
abbreviation SCTX_ROLE_UNKNOWN :: int where "SCTX_ROLE_UNKNOWN \<equiv> -1"
abbreviation SCTX_ROLE_CLIENT :: int where "SCTX_ROLE_CLIENT \<equiv> 0"
abbreviation SCTX_ROLE_SERVER :: int where "SCTX_ROLE_SERVER \<equiv> 1"
abbreviation SCTX_IO_ERROR :: int where "SCTX_IO_ERROR \<equiv> -1"
abbreviation SCTX_IO_RECALL :: int where "SCTX_IO_RECALL \<equiv> 0"
abbreviation SCTX_IO_OK :: int where "SCTX_IO_OK \<equiv> 1"

record ssl_heap =
  live :: "nat set"
  ssl_fd :: "nat \<Rightarrow> int"

definition free_handle :: "nat option \<Rightarrow> ssl_heap \<Rightarrow> ssl_heap option" where
  "free_handle x h =
     (case x of
        None \<Rightarrow> Some h
      | Some n \<Rightarrow> if n \<in> live h then Some (h\<lparr>live := live h - {n}\<rparr>) else None)"

record SSLContext =
  serrno :: int
  ssl' :: "nat option"
  peerCert' :: "nat option"
  ownCert' :: "nat option"
  ownPkey' :: "nat option"
  role' :: int

definition new_SSLContext :: SSLContext where
  "new_SSLContext = \<lparr>serrno = SSL_ERROR_NONE, ssl' = None, peerCert' = None, ownCert' = None,
                     ownPkey' = None, role' = SCTX_ROLE_UNKNOWN\<rparr>"

definition validSSL :: "nat option \<Rightarrow> ssl_heap \<Rightarrow> bool" where
  "validSSL x h = (case x of None \<Rightarrow> False | Some n \<Rightarrow> \<not> ssl_fd h n < 0)"

definition ctx_active :: "SSLContext \<Rightarrow> ssl_heap \<Rightarrow> bool" where
  "ctx_active c h = validSSL (ssl' c) h"

definition ctx_reset :: "SSLContext \<Rightarrow> ssl_heap \<Rightarrow> (SSLContext \<times> ssl_heap) option" where
  "ctx_reset c h =
     do { h1 \<leftarrow> free_handle (ssl' c) h;
          h2 \<leftarrow> free_handle (peerCert' c) h1;
          h3 \<leftarrow> free_handle (ownCert' c) h2;
          h4 \<leftarrow> free_handle (ownPkey' c) h3;
          Some (c\<lparr>ssl' := None, peerCert' := None, ownCert' := None, ownPkey' := None,
                  serrno := SSL_ERROR_NONE\<rparr>, h4) }"

definition destory :: "sysres \<Rightarrow> SSLContext \<Rightarrow> ssl_heap \<Rightarrow> (SSLContext \<times> ssl_heap) option" where
  "destory sd c h = ctx_reset (if ctx_active c h then c\<lparr>serrno := snd sd\<rparr> else c) h"

text \<open>\<open>SSLContext::close\<close>; \<open>sd\<close> is the first \<open>SSL_shutdown\<close>, \<open>sd'\<close> that of \<open>destory\<close>.\<close>

definition ctx_close :: "sysres \<Rightarrow> sysres \<Rightarrow> SSLContext \<Rightarrow> ssl_heap \<Rightarrow> (int \<times> SSLContext \<times> ssl_heap) option" where
  "ctx_close sd sd' c h =
     (if ctx_active c h then
        (let c1 = c\<lparr>serrno := snd sd\<rparr>
         in if fst sd \<noteq> 1 then
              (if serrno c1 = SSL_ERROR_WANT_READ \<or> serrno c1 = SSL_ERROR_WANT_WRITE
               then Some (SCTX_IO_RECALL, c1, h)
               else do { (c2, h2) \<leftarrow> destory sd' c1 h; Some (SCTX_IO_ERROR, c2, h2) })
            else do { (c2, h2) \<leftarrow> ctx_reset c1 h; Some (SCTX_IO_OK, c2, h2) })
      else do { (c2, h2) \<leftarrow> ctx_reset c h; Some (SCTX_IO_OK, c2, h2) })"

text \<open>\<open>init\<close>: \<open>SSL_new\<close> on the context of the role; \<open>new\<close> is what it returns.\<close>

definition ctx_init :: "int \<Rightarrow> nat option \<Rightarrow> SSLContext \<Rightarrow> ssl_heap \<Rightarrow> int \<times> SSLContext \<times> ssl_heap" where
  "ctx_init role new c h =
     (let c1 = c\<lparr>role' := role\<rparr>
      in if role = SCTX_ROLE_CLIENT \<or> role = SCTX_ROLE_SERVER
         then (SCTX_ERROR_OK, c1\<lparr>ssl' := new\<rparr>,
               (case new of None \<Rightarrow> h | Some n \<Rightarrow> h\<lparr>live := insert n (live h), ssl_fd := (ssl_fd h)(n := -1)\<rparr>))
         else (SCTX_ERROR_ERR, c1\<lparr>role' := SCTX_ROLE_UNKNOWN\<rparr>, h))"

definition bindSocket :: "int \<Rightarrow> int \<Rightarrow> sysres \<Rightarrow> SSLContext \<Rightarrow> ssl_heap \<Rightarrow> (int \<times> SSLContext \<times> ssl_heap) option" where
  "bindSocket sockfd set_fd sd c h =
     (case ssl' c of
        None \<Rightarrow> Some (SCTX_ERROR_ERR, c, h)
      | Some n \<Rightarrow>
          if set_fd \<noteq> 1 then do { (c2, h2) \<leftarrow> destory sd c h; Some (SCTX_ERROR_ERR, c2, h2) }
          else Some (SCTX_ERROR_OK, c, h\<lparr>ssl_fd := (ssl_fd h)(n := sockfd)\<rparr>))"

text \<open>
  \<open>recv\<close>: \<open>nb\<close> is what setting the descriptor non-blocking returns, \<open>r\<close> describes
  \<open>SSL_read\<close>. The second component is the value stored in \<open>*readn\<close>, if one is.
\<close>

definition ctx_recv :: "int \<Rightarrow> sysres \<Rightarrow> sysres \<Rightarrow> SSLContext \<Rightarrow> ssl_heap
    \<Rightarrow> (int \<times> int option \<times> SSLContext \<times> ssl_heap) option" where
  "ctx_recv nb r sd c h =
     (case ssl' c of
        None \<Rightarrow> None
      | Some n \<Rightarrow>
          if \<not> 0 \<le> ssl_fd h n then Some (SCTX_IO_ERROR, None, c, h)
          else if nb \<noteq> 0 then Some (SCTX_IO_ERROR, None, c, h)
          else
            (let c1 = c\<lparr>serrno := snd r\<rparr>
             in if fst r > 0 then Some (SCTX_IO_OK, Some (fst r), c1, h)
                else if serrno c1 = SSL_ERROR_WANT_READ \<or> serrno c1 = SSL_ERROR_WANT_WRITE
                then Some (SCTX_IO_RECALL, None, c1, h)
                else do { (c2, h2) \<leftarrow> destory sd c1 h; Some (SCTX_IO_ERROR, None, c2, h2) }))"

definition ctx_send :: "int \<Rightarrow> sysres \<Rightarrow> sysres \<Rightarrow> SSLContext \<Rightarrow> ssl_heap
    \<Rightarrow> (int \<times> int option \<times> SSLContext \<times> ssl_heap) option" where
  "ctx_send nb r sd c h =
     (case ssl' c of
        None \<Rightarrow> None
      | Some n \<Rightarrow>
          if \<not> 0 \<le> ssl_fd h n then do { (c2, h2) \<leftarrow> destory sd c h; Some (SCTX_IO_ERROR, None, c2, h2) }
          else if nb \<noteq> 0 then Some (SCTX_IO_ERROR, None, c, h)
          else
            (let c1 = c\<lparr>serrno := snd r\<rparr>
             in if fst r > 0 then Some (SCTX_IO_OK, Some (fst r), c1, h)
                else if serrno c1 = SSL_ERROR_WANT_READ \<or> serrno c1 = SSL_ERROR_WANT_WRITE
                then Some (SCTX_IO_RECALL, Some 0, c1, h)
                else do { (c2, h2) \<leftarrow> destory sd c1 h; Some (SCTX_IO_ERROR, None, c2, h2) }))"

text \<open>\<open>accept\<close>; \<open>connect\<close> below is the same code around \<open>SSL_connect\<close>.\<close>

definition ctx_accept :: "sysres \<Rightarrow> sysres \<Rightarrow> SSLContext \<Rightarrow> ssl_heap \<Rightarrow> (int \<times> SSLContext \<times> ssl_heap) option" where
  "ctx_accept r sd c h =
     (if ssl' c = None then None
      else
        (let c1 = c\<lparr>serrno := snd r\<rparr>
         in if fst r \<noteq> 1 then
              (if fst r = 0 then do { (c2, h2) \<leftarrow> destory sd c1 h; Some (SCTX_IO_ERROR, c2, h2) }
               else if serrno c1 = SSL_ERROR_WANT_WRITE \<or> serrno c1 = SSL_ERROR_WANT_READ
               then Some (SCTX_IO_RECALL, c1, h)
               else do { (c2, h2) \<leftarrow> destory sd c1 h; Some (SCTX_IO_ERROR, c2, h2) })
            else Some (SCTX_IO_OK, c1, h)))"

definition ctx_connect :: "sysres \<Rightarrow> sysres \<Rightarrow> SSLContext \<Rightarrow> ssl_heap \<Rightarrow> (int \<times> SSLContext \<times> ssl_heap) option" where
  "ctx_connect r sd c h =
     (if ssl' c = None then None
      else
        (let c1 = c\<lparr>serrno := snd r\<rparr>
         in if fst r \<noteq> 1 then
              (if fst r = 0 then do { (c2, h2) \<leftarrow> destory sd c1 h; Some (SCTX_IO_ERROR, c2, h2) }
               else if serrno c1 = SSL_ERROR_WANT_WRITE \<or> serrno c1 = SSL_ERROR_WANT_READ
               then Some (SCTX_IO_RECALL, c1, h)
               else do { (c2, h2) \<leftarrow> destory sd c1 h; Some (SCTX_IO_ERROR, c2, h2) })
            else Some (SCTX_IO_OK, c1, h)))"

definition setupCertKey :: "sysres \<Rightarrow> sysres \<Rightarrow> sysres \<Rightarrow> SSLContext \<Rightarrow> ssl_heap
    \<Rightarrow> (int \<times> SSLContext \<times> ssl_heap) option" where
  "setupCertKey use_cert use_key sd c h =
     (if ssl' c = None then None
      else
        (let c1 = c\<lparr>serrno := snd use_cert\<rparr>
         in if fst use_cert \<noteq> 1 then do { (c2, h2) \<leftarrow> destory sd c1 h; Some (SCTX_ERROR_ERR, c2, h2) }
            else
              (let c1 = c1\<lparr>serrno := snd use_key\<rparr>
               in if fst use_key \<noteq> 1 then do { (c2, h2) \<leftarrow> destory sd c1 h; Some (SCTX_ERROR_ERR, c2, h2) }
                  else Some (SCTX_ERROR_OK, c1, h))))"

definition resetupCertKey :: "sysres \<Rightarrow> sysres \<Rightarrow> sysres \<Rightarrow> SSLContext \<Rightarrow> ssl_heap
    \<Rightarrow> (int \<times> SSLContext \<times> ssl_heap) option" where
  "resetupCertKey use_cert use_key sd c h =
     (if ownCert' c \<noteq> None \<and> ownPkey' c \<noteq> None then setupCertKey use_cert use_key sd c h
      else Some (SCTX_ERROR_ERR, c, h))"

subsection \<open>Ownership\<close>

fun some_list :: "'a option list \<Rightarrow> 'a list" where
  "some_list [] = []"
| "some_list (None # xs) = some_list xs"
| "some_list (Some x # xs) = x # some_list xs"

definition handles :: "SSLContext \<Rightarrow> nat list" where
  "handles c = some_list [ssl' c, peerCert' c, ownCert' c, ownPkey' c]"

definition owns :: "SSLContext \<Rightarrow> ssl_heap \<Rightarrow> bool" where
  "owns c h \<longleftrightarrow> distinct (handles c) \<and> set (handles c) \<subseteq> live h"

definition released :: "SSLContext \<Rightarrow> ssl_heap \<Rightarrow> SSLContext \<Rightarrow> ssl_heap \<Rightarrow> bool" where
  "released c h c' h' \<longleftrightarrow> handles c' = [] \<and> ssl' c' = None \<and> live h' = live h - set (handles c) \<and>
     ssl_fd h' = ssl_fd h \<and> serrno c' = SSL_ERROR_NONE"

lemma handles_serrno [simp]: "handles (c\<lparr>serrno := e\<rparr>) = handles c"
  by (simp add: handles_def)

lemma owns_serrno [simp]: "owns (c\<lparr>serrno := e\<rparr>) h = owns c h"
  by (simp add: owns_def)

lemma active_serrno [simp]: "ctx_active (c\<lparr>serrno := e\<rparr>) h = ctx_active c h"
  by (simp add: ctx_active_def)

lemma released_serrno [simp]: "released (c\<lparr>serrno := e\<rparr>) h c' h' = released c h c' h'"
  by (simp add: released_def)

lemma reset_releases: "owns c h \<Longrightarrow> \<exists>c' h'. ctx_reset c h = Some (c', h') \<and> released c h c' h'"
  by (cases "ssl' c"; cases "peerCert' c"; cases "ownCert' c"; cases "ownPkey' c")
     (auto simp: owns_def ctx_reset_def handles_def free_handle_def released_def)

lemma destory_releases: "owns c h \<Longrightarrow> \<exists>c' h'. destory sd c h = Some (c', h') \<and> released c h c' h'"
  using reset_releases [of c h] reset_releases [of "c\<lparr>serrno := snd sd\<rparr>" h]
  by (auto simp: destory_def)

definition want :: "int \<Rightarrow> bool" where
  "want e \<longleftrightarrow> e = SSL_ERROR_WANT_READ \<or> e = SSL_ERROR_WANT_WRITE"

lemma active_ssl: "ctx_active c h \<Longrightarrow> \<exists>s. ssl' c = Some s \<and> 0 \<le> ssl_fd h s"
  by (auto simp: ctx_active_def validSSL_def split: option.splits)

text \<open>
  On a connection that owns its objects, a TLS read or write reports \<open>OK\<close> with the byte
  count when OpenSSL transferred data, \<open>RECALL\<close> with the connection kept when OpenSSL wants
  to be called again, and in every other case releases each owned object exactly once,
  leaves no connection and reports \<open>ERROR\<close>; it is never undefined.
\<close>

theorem ssl_io_outcomes:
  assumes "owns c h" and "ctx_active c h"
  shows "if 0 < r then ctx_recv 0 (r, e) sd c h = Some (SCTX_IO_OK, Some r, c\<lparr>serrno := e\<rparr>, h) \<and>
                       ctx_send 0 (r, e) sd c h = Some (SCTX_IO_OK, Some r, c\<lparr>serrno := e\<rparr>, h)
         else if want e
         then ctx_recv 0 (r, e) sd c h = Some (SCTX_IO_RECALL, None, c\<lparr>serrno := e\<rparr>, h) \<and>
              ctx_send 0 (r, e) sd c h = Some (SCTX_IO_RECALL, Some 0, c\<lparr>serrno := e\<rparr>, h)
         else \<exists>c' h'. ctx_recv 0 (r, e) sd c h = Some (SCTX_IO_ERROR, None, c', h') \<and>
                      ctx_send 0 (r, e) sd c h = Some (SCTX_IO_ERROR, None, c', h') \<and>
                      released c h c' h'"
proof -
  obtain s where "ssl' c = Some s" "0 \<le> ssl_fd h s"
    using active_ssl [OF assms(2)] by blast
  then show ?thesis
    using destory_releases [of "c\<lparr>serrno := e\<rparr>" h sd] assms(1)
    by (auto simp: ctx_recv_def ctx_send_def want_def)
qed

definition demo_ctx :: SSLContext where
  "demo_ctx = \<lparr>serrno = 0, ssl' = Some 1, peerCert' = Some 2, ownCert' = None, ownPkey' = None, role' = 0\<rparr>"

definition demo_heap :: ssl_heap where
  "demo_heap = \<lparr>live = {1, 2, 3}, ssl_fd = (\<lambda>_. 7)\<rparr>"

lemma demo_owns: "owns demo_ctx demo_heap" "ctx_active demo_ctx demo_heap"
  by (simp_all add: owns_def handles_def demo_ctx_def demo_heap_def ctx_active_def validSSL_def)

theorem ssl_io_outcomes_witness:
  "\<exists>c' h'. ctx_recv 0 (-1, 5) (0, 0) demo_ctx demo_heap = Some (SCTX_IO_ERROR, None, c', h') \<and>
           live h' = {3}"
  using ssl_io_outcomes [OF demo_owns, of "-1" 5 "(0, 0)"]
  by (auto simp: want_def released_def handles_def demo_ctx_def demo_heap_def)

text \<open>
  A TLS handshake, from either side: success keeps the connection, a handshake OpenSSL
  wants to continue is reported \<open>RECALL\<close> with the connection kept, and a refused one (return
  value 0, whatever the error code) or a broken one releases everything and is an \<open>ERROR\<close>.
\<close>

theorem ssl_handshake_outcomes:
  assumes "owns c h" and "ctx_active c h"
  shows "ctx_connect (r, e) sd c h = ctx_accept (r, e) sd c h \<and>
    (if r = 1 then ctx_accept (r, e) sd c h = Some (SCTX_IO_OK, c\<lparr>serrno := e\<rparr>, h)
     else if r \<noteq> 0 \<and> want e then ctx_accept (r, e) sd c h = Some (SCTX_IO_RECALL, c\<lparr>serrno := e\<rparr>, h)
     else \<exists>c' h'. ctx_accept (r, e) sd c h = Some (SCTX_IO_ERROR, c', h') \<and> released c h c' h')"
proof -
  obtain s where "ssl' c = Some s"
    using active_ssl [OF assms(2)] by blast
  then show ?thesis
    using destory_releases [of "c\<lparr>serrno := e\<rparr>" h sd] assms(1)
    by (auto simp: ctx_accept_def ctx_connect_def want_def Let_def)
qed

theorem ssl_handshake_outcomes_witness:
  "\<exists>c' h'. ctx_accept (0, 2) (1, 0) demo_ctx demo_heap = Some (SCTX_IO_ERROR, c', h') \<and> live h' = {3}"
proof -
  have "set (handles demo_ctx) = {1, 2}" "live demo_heap = {1, 2, 3}"
    by (auto simp: handles_def demo_ctx_def demo_heap_def)
  then show ?thesis
    using ssl_handshake_outcomes [OF demo_owns, of 0 2 "(1, 0)"] by (auto simp: released_def)
qed

subsection \<open>Sequences of operations\<close>

text \<open>An operation with the outcomes of the OpenSSL calls it makes. The callers test
  \<open>active()\<close> before every input or output, as \<open>do_op\<close> does.\<close>

datatype ctx_op =
    OpInit int nat | OpBind int int sysres | OpRecv int sysres sysres | OpSend int sysres sysres
  | OpAccept sysres sysres | OpConnect sysres sysres | OpResetup sysres sysres sysres
  | OpClose sysres sysres | OpDestory sysres

fun do_op :: "ctx_op \<Rightarrow> SSLContext \<times> ssl_heap \<Rightarrow> (SSLContext \<times> ssl_heap) option" where
  "do_op (OpInit role n) (c, h) =
     (if ssl' c \<noteq> None \<or> n \<in> live h then Some (c, h) else Some (snd (ctx_init role (Some n) c h)))"
| "do_op (OpBind fd r sd) (c, h) = map_option snd (bindSocket fd r sd c h)"
| "do_op (OpRecv nb r sd) (c, h) =
     (if ctx_active c h then map_option (snd \<circ> snd) (ctx_recv nb r sd c h) else Some (c, h))"
| "do_op (OpSend nb r sd) (c, h) =
     (if ctx_active c h then map_option (snd \<circ> snd) (ctx_send nb r sd c h) else Some (c, h))"
| "do_op (OpAccept r sd) (c, h) =
     (if ctx_active c h then map_option snd (ctx_accept r sd c h) else Some (c, h))"
| "do_op (OpConnect r sd) (c, h) =
     (if ctx_active c h then map_option snd (ctx_connect r sd c h) else Some (c, h))"
| "do_op (OpResetup r1 r2 sd) (c, h) =
     (if ctx_active c h then map_option snd (resetupCertKey r1 r2 sd c h) else Some (c, h))"
| "do_op (OpClose sd sd') (c, h) = map_option snd (ctx_close sd sd' c h)"
| "do_op (OpDestory sd) (c, h) = destory sd c h"

fun do_ops :: "ctx_op list \<Rightarrow> SSLContext \<times> ssl_heap \<Rightarrow> (SSLContext \<times> ssl_heap) option" where
  "do_ops [] s = Some s"
| "do_ops (x # xs) s = (case do_op x s of None \<Rightarrow> None | Some s' \<Rightarrow> do_ops xs s')"

text \<open>The objects alive and not owned by the connection are left alone, except that
  \<open>SSL_new\<close> may create one that the connection then owns.\<close>

definition others :: "SSLContext \<times> ssl_heap \<Rightarrow> nat set" where
  "others s = live (snd s) - set (handles (fst s))"

definition good :: "SSLContext \<times> ssl_heap \<Rightarrow> SSLContext \<times> ssl_heap \<Rightarrow> bool" where
  "good s s' \<longleftrightarrow> owns (fst s') (snd s') \<and> others s' = others s"

lemma released_good: "owns c h \<Longrightarrow> released c h c' h' \<Longrightarrow> good (c, h) (c', h')"
  by (auto simp: good_def others_def released_def owns_def)

lemma same_good [simp]: "owns c h \<Longrightarrow> good (c, h) (c\<lparr>serrno := e\<rparr>, h)" "owns c h \<Longrightarrow> good (c, h) (c, h)"
  by (auto simp: good_def others_def)

lemma good_fd [simp]: "owns c h \<Longrightarrow> good (c, h) (c, h\<lparr>ssl_fd := f\<rparr>)"
  by (auto simp: good_def others_def owns_def)

lemma destory_good: "owns c h \<Longrightarrow> \<exists>s'. destory sd (c\<lparr>serrno := e\<rparr>) h = Some s' \<and> good (c, h) s'"
  using destory_releases [of "c\<lparr>serrno := e\<rparr>" h sd] released_good [of c h] by auto

lemma destory_good': "owns c h \<Longrightarrow> \<exists>s'. destory sd c h = Some s' \<and> good (c, h) s'"
  using destory_releases [of c h sd] released_good [of c h] by auto

lemma reset_good: "owns c h \<Longrightarrow> \<exists>s'. ctx_reset (c\<lparr>serrno := e\<rparr>) h = Some s' \<and> good (c, h) s'"
  using reset_releases [of "c\<lparr>serrno := e\<rparr>" h] released_good [of c h] by auto

lemma reset_good': "owns c h \<Longrightarrow> \<exists>s'. ctx_reset c h = Some s' \<and> good (c, h) s'"
  using reset_releases [of c h] released_good [of c h] by auto

lemma init_good:
  assumes "owns c h" "ssl' c = None" "n \<notin> live h"
  shows "good (c, h) (snd (ctx_init role (Some n) c h))"
  using assms
  by (cases "peerCert' c"; cases "ownCert' c"; cases "ownPkey' c")
     (auto simp: good_def others_def owns_def ctx_init_def handles_def Let_def)

lemma do_op_good:
  assumes "owns c h"
  shows "\<exists>s'. do_op x (c, h) = Some s' \<and> good (c, h) s'"
proof -
  note d = destory_good [OF assms] destory_good' [OF assms] reset_good [OF assms] reset_good' [OF assms]
  show ?thesis
  proof (cases x)
    case (OpInit role n)
    then show ?thesis using assms init_good [of c h n role] by (auto simp del: split_paired_Ex)
  next
    case (OpBind fd r sd)
    then show ?thesis
      using assms d(2) [of sd] by (auto simp: bindSocket_def split: option.splits)
  next
    case (OpRecv nb r sd)
    then show ?thesis
      using assms d(1) [of sd "snd r"] active_ssl [of c h] by (auto simp: ctx_recv_def Let_def)
  next
    case (OpSend nb r sd)
    then show ?thesis
      using assms d(1) [of sd "snd r"] active_ssl [of c h] by (auto simp: ctx_send_def Let_def)
  next
    case (OpAccept r sd)
    then show ?thesis
      using assms d(1) [of sd "snd r"] active_ssl [of c h] by (auto simp: ctx_accept_def Let_def)
  next
    case (OpConnect r sd)
    then show ?thesis
      using assms d(1) [of sd "snd r"] active_ssl [of c h] by (auto simp: ctx_connect_def Let_def)
  next
    case (OpResetup r1 r2 sd)
    then show ?thesis
      using assms d(1) [of sd "snd r1"] d(1) [of sd "snd r2"] active_ssl [of c h]
      by (auto simp: resetupCertKey_def setupCertKey_def Let_def)
  next
    case (OpClose sd sd')
    then show ?thesis
      using assms d(1) [of sd' "snd sd"] d(3) [of "snd sd"] d(4)
      by (auto simp: ctx_close_def Let_def)
  next
    case (OpDestory sd)
    then show ?thesis using d(2) by simp
  qed
qed

text \<open>
  C12. Ownership: whatever sequence of operations a connection goes through, whatever OpenSSL
  answers, no object is freed twice or used after it was freed, the connection owns what it
  refers to, and the objects of other connections are neither freed nor leaked into it.
\<close>

theorem ssl_ownership:
  assumes "owns c h"
  shows "\<exists>s'. do_ops ops (c, h) = Some s' \<and> owns (fst s') (snd s') \<and> others s' = others (c, h)"
  using assms
proof (induction ops arbitrary: c h)
  case Nil
  then show ?case by simp
next
  case (Cons x xs)
  obtain c1 h1 where 1: "do_op x (c, h) = Some (c1, h1)" "good (c, h) (c1, h1)"
    using do_op_good [OF Cons.prems, of x] by auto
  then show ?case
    using Cons.IH [of c1 h1] by (auto simp: good_def)
qed

theorem ssl_ownership_witness:
  "\<exists>s'. do_ops [OpRecv 0 (-1, 5) (0, 0), OpDestory (0, 0), OpInit 1 9, OpClose (0, 2) (0, 0)]
           (demo_ctx, demo_heap) = Some s' \<and> owns (fst s') (snd s') \<and>
        others s' = others (demo_ctx, demo_heap)"
  by (rule ssl_ownership [OF demo_owns(1)])

end
