(* ===== verification/ByteQueue.thy ===== *)
theory ByteQueue
  imports Base
begin

text \<open>
  The interface of the two byte buffers between a socket and the code that fills or drains
  it: a first-in first-out queue of bytes. A provider offers an invariant, its content, an
  operation that accepts a prefix of what it is given and one that removes bytes from the
  front; \<open>adm\<close> restricts the bytes it may hold. The client runs any sequence of them.
\<close>

datatype queue_op = Put bytes | Get nat

text \<open>The bytes accepted and the bytes delivered by a sequence of operations.\<close>

fun run_queue :: "(bytes \<Rightarrow> 'q \<Rightarrow> (nat \<times> 'q) option) \<Rightarrow> (nat \<Rightarrow> 'q \<Rightarrow> (bytes \<times> 'q) option)
    \<Rightarrow> queue_op list \<Rightarrow> 'q \<Rightarrow> (bytes \<times> bytes \<times> 'q) option" where
  "run_queue put get [] q = Some ([], [], q)"
| "run_queue put get (Put xs # ops) q =
     do { (n, q1) \<leftarrow> put xs q;
          (acc, out, q2) \<leftarrow> run_queue put get ops q1;
          Some (take n xs @ acc, out, q2) }"
| "run_queue put get (Get n # ops) q =
     do { (ys, q1) \<leftarrow> get n q;
          (acc, out, q2) \<leftarrow> run_queue put get ops q1;
          Some (acc, ys @ out, q2) }"

locale byte_queue =
  fixes ok :: "'q \<Rightarrow> bool"
    and content :: "'q \<Rightarrow> bytes"
    and adm :: "bytes \<Rightarrow> bool"
    and put :: "bytes \<Rightarrow> 'q \<Rightarrow> (nat \<times> 'q) option"
    and get :: "nat \<Rightarrow> 'q \<Rightarrow> (bytes \<times> 'q) option"
  assumes put_appends:
      "ok q \<Longrightarrow> adm xs \<Longrightarrow>
       \<exists>n q'. put xs q = Some (n, q') \<and> ok q' \<and> n \<le> length xs \<and> content q' = content q @ take n xs"
    and get_removes:
      "ok q \<Longrightarrow> \<exists>q'. get n q = Some (take n (content q), q') \<and> ok q' \<and> content q' = drop n (content q)"
begin

lemma fifo:
  "ok q \<Longrightarrow> \<forall>xs. Put xs \<in> set ops \<longrightarrow> adm xs \<Longrightarrow>
   \<exists>acc out q'. run_queue put get ops q = Some (acc, out, q') \<and> ok q' \<and>
                out @ content q' = content q @ acc"
proof (induction ops arbitrary: q)
  case Nil
  then show ?case by simp
next
  case (Cons x ops)
  show ?case
  proof (cases x)
    case (Put xs)
    then obtain n q1 where 1: "put xs q = Some (n, q1)" "ok q1" "content q1 = content q @ take n xs"
      using put_appends [OF Cons.prems(1), of xs] Cons.prems(2) by auto
    obtain acc out q2 where "run_queue put get ops q1 = Some (acc, out, q2)" "ok q2"
      "out @ content q2 = content q1 @ acc"
      using Cons.IH [OF 1(2)] Cons.prems(2) by auto
    then show ?thesis using Put 1 by simp
  next
    case (Get n)
    obtain q1 where 1: "get n q = Some (take n (content q), q1)" "ok q1" "content q1 = drop n (content q)"
      using get_removes [OF Cons.prems(1), of n] by blast
    obtain acc out q2 where 2: "run_queue put get ops q1 = Some (acc, out, q2)" "ok q2"
      "out @ content q2 = content q1 @ acc"
      using Cons.IH [OF 1(2)] Cons.prems(2) by auto
    have "(take n (content q) @ out) @ content q2 = content q @ acc"
      using 2(3) 1(3) by (metis append.assoc append_take_drop_id)
    then show ?thesis using Get 1 2 by auto
  qed
qed

end

end
