(* ===== verification/Kernel.thy ===== *)
theory Kernel
  imports Base
begin

text \<open>
  What the program uses of the operating system's files and descriptors: a disk from names
  to contents, access rights, the table of open descriptors with their file positions, and
  the bytes handed to each socket. Which descriptor number a call returns, how many bytes
  it transfers and whether it fails are arguments, so that the theorems hold for every
  answer of the kernel; a transfer is never longer than what was asked for.
\<close>

datatype fdesc = RegFile bytes nat | SockFd

record kern =
  disk :: "bytes \<rightharpoonup> bytes"
  rperm :: "bytes \<Rightarrow> bool"
  wperm :: "bytes \<Rightarrow> bool"
  fds :: "int \<rightharpoonup> fdesc"
  nonblk :: "int \<Rightarrow> bool"
  wire :: "int \<Rightarrow> bytes"

definition valid_fd :: "int \<Rightarrow> bool" where
  "valid_fd fd \<longleftrightarrow> 0 \<le> fd"

text \<open>\<open>open\<close>: \<open>nfd\<close> is the number the kernel picks, negative when the call fails.\<close>

definition sys_open_rd :: "bytes \<Rightarrow> int \<Rightarrow> kern \<Rightarrow> int \<times> kern" where
  "sys_open_rd name nfd k =
     (if nfd < 0 \<or> disk k name = None \<or> \<not> rperm k name then (-1, k)
      else (nfd, k\<lparr>fds := (fds k)(nfd \<mapsto> RegFile name 0)\<rparr>))"

definition sys_open_wr_creat :: "bytes \<Rightarrow> int \<Rightarrow> kern \<Rightarrow> int \<times> kern" where
  "sys_open_wr_creat name nfd k =
     (if nfd < 0 \<or> \<not> wperm k name then (-1, k)
      else (nfd, k\<lparr>disk := (if disk k name = None then (disk k)(name \<mapsto> []) else disk k),
                   fds := (fds k)(nfd \<mapsto> RegFile name 0)\<rparr>))"

definition sys_close :: "int \<Rightarrow> kern \<Rightarrow> kern" where
  "sys_close fd k = k\<lparr>fds := (fds k)(fd := None)\<rparr>"

definition file_content :: "kern \<Rightarrow> bytes \<Rightarrow> bytes" where
  "file_content k name = (case disk k name of None \<Rightarrow> [] | Some c \<Rightarrow> c)"

definition sys_lseek_set :: "int \<Rightarrow> int \<Rightarrow> kern \<Rightarrow> int \<times> kern" where
  "sys_lseek_set fd pos k =
     (case fds k fd of
        Some (RegFile name p) \<Rightarrow>
          if pos < 0 then (-1, k) else (pos, k\<lparr>fds := (fds k)(fd \<mapsto> RegFile name (nat pos))\<rparr>)
      | _ \<Rightarrow> (-1, k))"

definition sys_lseek_cur :: "int \<Rightarrow> kern \<Rightarrow> int" where
  "sys_lseek_cur fd k = (case fds k fd of Some (RegFile name p) \<Rightarrow> int p | _ \<Rightarrow> -1)"

text \<open>\<open>read\<close>: \<open>lim\<close> bounds the transfer, a negative one is an error.\<close>

definition sys_read :: "int \<Rightarrow> nat \<Rightarrow> int \<Rightarrow> kern \<Rightarrow> int \<times> bytes \<times> kern" where
  "sys_read fd len lim k =
     (case fds k fd of
        Some (RegFile name p) \<Rightarrow>
          if lim < 0 then (-1, [], k)
          else (let data = take (min len (nat lim)) (drop p (file_content k name))
                in (int (length data), data, k\<lparr>fds := (fds k)(fd \<mapsto> RegFile name (p + length data))\<rparr>))
      | _ \<Rightarrow> (-1, [], k))"

text \<open>\<open>write\<close>, at the file position or, with \<open>O_APPEND\<close>, at the end.\<close>

definition overwrite :: "nat \<Rightarrow> bytes \<Rightarrow> bytes \<Rightarrow> bytes" where
  "overwrite p xs c = take p (c @ replicate (p - length c) NUL) @ xs @ drop (p + length xs) c"

definition sys_write :: "bool \<Rightarrow> int \<Rightarrow> bytes \<Rightarrow> int \<Rightarrow> kern \<Rightarrow> int \<times> kern" where
  "sys_write app fd xs lim k =
     (case fds k fd of
        Some (RegFile name p) \<Rightarrow>
          if lim < 0 then (-1, k)
          else (let data = take (nat lim) xs;
                    pos = (if app then length (file_content k name) else p)
                in (int (length data),
                    k\<lparr>disk := (disk k)(name \<mapsto> overwrite pos data (file_content k name)),
                      fds := (fds k)(fd \<mapsto> RegFile name (pos + length data))\<rparr>))
      | _ \<Rightarrow> (-1, k))"

text \<open>\<open>fcntl(oldfd, F_DUPFD, leastfd)\<close> followed by \<open>close(oldfd)\<close>; \<open>dup\<close> is the number.\<close>

definition sys_dupfd :: "int \<Rightarrow> int \<Rightarrow> kern \<Rightarrow> int \<times> kern" where
  "sys_dupfd oldfd dup k =
     (if dup < 0 \<or> fds k oldfd = None then (-1, k) else (dup, k\<lparr>fds := (fds k)(dup := fds k oldfd)\<rparr>))"

text \<open>\<open>sendfile\<close> with an explicit offset, which it advances, and with the file position.\<close>

definition put_wire :: "int \<Rightarrow> bytes \<Rightarrow> kern \<Rightarrow> kern" where
  "put_wire sock xs k = k\<lparr>wire := (wire k)(sock := wire k sock @ xs)\<rparr>"

definition sys_sendfile_off :: "int \<Rightarrow> int \<Rightarrow> int \<Rightarrow> int \<Rightarrow> int \<Rightarrow> kern \<Rightarrow> int \<times> int \<times> kern" where
  "sys_sendfile_off sock fd off len lim k =
     (case fds k fd of
        Some (RegFile name p) \<Rightarrow>
          if lim < 0 then (-1, off, k)
          else (let data = take (nat (min len lim)) (drop (nat off) (file_content k name))
                in (int (length data), off + int (length data), put_wire sock data k))
      | _ \<Rightarrow> (-1, off, k))"

definition sys_sendfile :: "int \<Rightarrow> int \<Rightarrow> int \<Rightarrow> int \<Rightarrow> kern \<Rightarrow> int \<times> kern" where
  "sys_sendfile sock fd len lim k =
     (case fds k fd of
        Some (RegFile name p) \<Rightarrow>
          if lim < 0 then (-1, k)
          else (let data = take (nat (min len lim)) (drop p (file_content k name))
                in (int (length data),
                    put_wire sock data (k\<lparr>fds := (fds k)(fd \<mapsto> RegFile name (p + length data))\<rparr>)))
      | _ \<Rightarrow> (-1, k))"

text \<open>\<open>SocketUtil::RelocateFileDescriptor\<close>.\<close>

definition RelocateFileDescriptor :: "int \<Rightarrow> int \<Rightarrow> int \<Rightarrow> kern \<Rightarrow> int \<times> kern" where
  "RelocateFileDescriptor oldfd leastfd dup k =
     (if leastfd < oldfd then (oldfd, k)
      else (let (newfd, k1) = sys_dupfd oldfd dup k
            in if 0 > newfd then (oldfd, k1) else (newfd, sys_close oldfd k1)))"

lemma overwrite_end [simp]: "overwrite (length c) xs c = c @ xs"
  by (simp add: overwrite_def)

text \<open>Relocating moves the open descriptor: exactly one number refers to it afterwards.\<close>

lemma RelocateFileDescriptor_moves:
  assumes "fds k oldfd = Some d" and "dup \<noteq> oldfd" and "leastfd \<ge> oldfd" and "0 \<le> dup"
  shows "RelocateFileDescriptor oldfd leastfd dup k =
           (dup, k\<lparr>fds := (fds k)(dup \<mapsto> d, oldfd := None)\<rparr>)"
  using assms by (simp add: RelocateFileDescriptor_def sys_dupfd_def sys_close_def)

end
