(* ===== verification/FileIO.thy ===== *)
theory FileIO
  imports Kernel
begin

text \<open>
  \<open>core/File.cpp\<close>: reading, writing and sending a file. Every operation takes the answers
  of the kernel as arguments: \<open>nfd\<close> the descriptor an \<open>open\<close> returns, \<open>lim\<close> the outcome of a
  read or write, \<open>outs\<close> the outcomes of successive \<open>sendfile\<close> calls with their \<open>errno\<close>. A
  sending loop is undefined (\<open>None\<close>) when the outcomes are used up before it returns.
\<close>

abbreviation FILE_READ_ACCESS_DENY :: int where "FILE_READ_ACCESS_DENY \<equiv> -3"
abbreviation FILE_FD_INVALID :: int where "FILE_FD_INVALID \<equiv> -4"
abbreviation FILE_ARGS_INVALID :: int where "FILE_ARGS_INVALID \<equiv> -6"
abbreviation FILE_SENDFILE_ERROR :: int where "FILE_SENDFILE_ERROR \<equiv> -1"
abbreviation FILE_SENDFILE_RECALL :: int where "FILE_SENDFILE_RECALL \<equiv> 0"
abbreviation FILE_SENDFILE_DONE :: int where "FILE_SENDFILE_DONE \<equiv> 1"

record File =
  f_fd :: int
  f_size :: int
  f_cur :: int
  f_readdone :: bool
  f_filename :: bytes

definition File_exist :: "bytes \<Rightarrow> kern \<Rightarrow> bool" where
  "File_exist name k \<longleftrightarrow> disk k name \<noteq> None"

definition File_readable :: "bytes \<Rightarrow> kern \<Rightarrow> bool" where
  "File_readable name k \<longleftrightarrow> disk k name \<noteq> None \<and> rperm k name"

definition File_writeable :: "bytes \<Rightarrow> kern \<Rightarrow> bool" where
  "File_writeable name k \<longleftrightarrow> disk k name \<noteq> None \<and> wperm k name"

definition File_size :: "bytes \<Rightarrow> kern \<Rightarrow> int" where
  "File_size name k = (if c_str name = [] \<or> \<not> File_exist (c_str name) k then 0
                       else int (length (file_content k (c_str name))))"

text \<open>The name the system calls see, and the tests on it.\<close>

definition fname :: "File \<Rightarrow> bytes" where
  "fname f = c_str (f_filename f)"

definition testExist :: "File \<Rightarrow> kern \<Rightarrow> bool" where
  "testExist f k = File_exist (fname f) k"

definition testRead :: "File \<Rightarrow> kern \<Rightarrow> bool" where
  "testRead f k = File_readable (fname f) k"

definition File_close :: "File \<Rightarrow> kern \<Rightarrow> File \<times> kern" where
  "File_close f k = (f\<lparr>f_fd := -1\<rparr>, sys_close (f_fd f) k)"

definition File_reset :: "File \<Rightarrow> kern \<Rightarrow> File \<times> kern" where
  "File_reset f k = (let (f1, k1) = File_close f k in (f1\<lparr>f_size := 0, f_cur := 0, f_readdone := False\<rparr>, k1))"

definition getFileSize :: "File \<Rightarrow> kern \<Rightarrow> int" where
  "getFileSize f k =
     (if fname f = [] \<or> \<not> testExist f k then 0 else int (length (file_content k (fname f))))"

text \<open>\<open>setFilename\<close> copies the name into an array of 1024 zeroed characters; a longer name
  runs past the array. \<open>File(filename)\<close> does the same after computing a bound it ignores.\<close>

definition setFilename :: "bytes option \<Rightarrow> File \<Rightarrow> kern \<Rightarrow> (File \<times> kern) option" where
  "setFilename name f k =
     (let (f1, k1) = File_reset f k
      in case name of
           None \<Rightarrow> Some (f1, k1)
         | Some s \<Rightarrow>
             do { arr \<leftarrow> blit 0 (c_str s) (replicate 1024 NUL);
                  Some (f1\<lparr>f_filename := arr\<rparr>, k1) })"

definition File_new :: "bytes \<Rightarrow> File \<Rightarrow> kern \<Rightarrow> (File \<times> kern) option" where
  "File_new s garbage k =
     (let (f1, k1) = File_reset garbage k
      in do { arr \<leftarrow> blit 0 s (replicate 1024 NUL); Some (f1\<lparr>f_filename := arr\<rparr>, k1) })"

definition File_readOut :: "nat \<Rightarrow> int \<Rightarrow> int \<Rightarrow> int \<Rightarrow> File \<Rightarrow> kern \<Rightarrow> int \<times> bytes \<times> int \<times> kern" where
  "File_readOut len offset nfd lim f k =
     (if len = 0 then (FILE_ARGS_INVALID, [], offset, k)
      else if \<not> testExist f k \<or> \<not> testRead f k then (FILE_READ_ACCESS_DENY, [], offset, k)
      else (let (rfd, k1) = sys_open_rd (fname f) nfd k
            in if \<not> valid_fd rfd then (FILE_FD_INVALID, [], offset, k1)
               else (let (_, k2) = sys_lseek_set rfd offset k1;
                         (readn, data, k3) = sys_read rfd len lim k2;
                         off' = sys_lseek_cur rfd k3
                     in (readn, data, off', sys_close rfd k3))))"

definition continuousReadOut :: "nat \<Rightarrow> int \<Rightarrow> int \<Rightarrow> File \<Rightarrow> kern \<Rightarrow> int \<times> bytes \<times> File \<times> kern" where
  "continuousReadOut len nfd lim f k =
     (if len = 0 then (FILE_ARGS_INVALID, [], f, k)
      else if \<not> testExist f k \<or> \<not> testRead f k then (FILE_READ_ACCESS_DENY, [], f, k)
      else (let (f1, k1) = (if \<not> valid_fd (f_fd f)
                            then (let (r, k') = sys_open_rd (fname f) nfd k in (f\<lparr>f_readdone := False, f_fd := r\<rparr>, k'))
                            else (f, k));
                (readn, data, k2) = sys_read (f_fd f1) len lim k1
            in if 0 \<le> readn \<and> readn < int len
               then (readn, data, f1\<lparr>f_readdone := True\<rparr>, sys_close (f_fd f1) k2)
               else (readn, data, f1, k2)))"

definition File_writeIn :: "bytes \<Rightarrow> int \<Rightarrow> int \<Rightarrow> File \<Rightarrow> kern \<Rightarrow> int \<times> kern" where
  "File_writeIn buf nfd lim f k =
     (if buf = [] then (FILE_ARGS_INVALID, k)
      else (let (wfd, k1) = sys_open_wr_creat (fname f) nfd k
            in if \<not> valid_fd wfd then (FILE_FD_INVALID, k1)
               else (let (p, k2) = sys_lseek_set wfd 0 k1
                     in if p = -1 then (FILE_FD_INVALID, k2)
                        else (let (writen, k3) = sys_write False wfd buf lim k2
                              in (writen, sys_close wfd k3)))))"

definition appendWriteIn :: "bytes \<Rightarrow> int \<Rightarrow> int \<Rightarrow> int \<Rightarrow> File \<Rightarrow> kern \<Rightarrow> int \<times> kern" where
  "appendWriteIn buf nfd dup lim f k =
     (if buf = [] \<or> fname f = [] then (FILE_ARGS_INVALID, k)
      else (let (wfd0, k1) = sys_open_wr_creat (fname f) nfd k;
                (wfd, k2) = RelocateFileDescriptor wfd0 65 dup k1;
                (writen, k3) = sys_write True wfd buf lim k2
            in (writen, sys_close wfd k3)))"

subsection \<open>Sending to a socket\<close>

datatype send_end = SDone | SRecall | SError

text \<open>The non-blocking loop of \<open>send2Socket(sockfd, sendn, offset, count)\<close>. The kernel has
  already advanced \<open>offset\<close> when the loop adds \<open>n\<close> to it.\<close>

fun sendfile_loop :: "int \<Rightarrow> int \<Rightarrow> sysres list \<Rightarrow> int \<Rightarrow> int \<Rightarrow> kern \<Rightarrow> (send_end \<times> int \<times> kern) option" where
  "sendfile_loop sock fd [] offset left k = (if left > 0 then None else Some (SDone, offset, k))"
| "sendfile_loop sock fd (r # rs) offset left k =
     (if left > 0 then
        (let (n, off1, k1) = sys_sendfile_off sock fd offset left (fst r) k
         in if n < left then
              (if n < 0 then
                 (if snd r = EAGAIN then Some (SRecall, off1, k1) else Some (SError, off1, k1))
               else sendfile_loop sock fd rs (off1 + n) (left - n) k1)
            else Some (SDone, off1, k1))
      else Some (SDone, offset, k))"

text \<open>The result, what is stored in \<open>sendn\<close> (if anything), the new offset, file and kernel.\<close>

definition send2Socket_range :: "int \<Rightarrow> int \<Rightarrow> int \<Rightarrow> int \<Rightarrow> sysres list \<Rightarrow> File \<Rightarrow> kern
    \<Rightarrow> (int \<times> int option \<times> int \<times> File \<times> kern) option" where
  "send2Socket_range sockfd offset count0 nfd outs f k =
     (if \<not> valid_fd sockfd then Some (FILE_FD_INVALID, None, offset, f, k)
      else if offset \<ge> getFileSize f k then
        (let (f1, k1) = File_reset f k in Some (FILE_SENDFILE_DONE, None, offset, f1, k1))
      else
       (let count = (if offset + count0 > getFileSize f k then getFileSize f k - offset else count0)
        in if \<not> testExist f k \<or> \<not> testRead f k then Some (FILE_READ_ACCESS_DENY, None, offset, f, k)
           else
            (let (f1, k1) = (if \<not> valid_fd (f_fd f)
                             then (let (r, k') = sys_open_rd (fname f) nfd k in (f\<lparr>f_fd := r\<rparr>, k'))
                             else (f, k));
                 old_off = offset
             in if nonblk k1 sockfd then
                  (case sendfile_loop sockfd (f_fd f1) outs offset count k1 of
                     None \<Rightarrow> None
                   | Some (SRecall, off', k2) \<Rightarrow>
                       Some (FILE_SENDFILE_RECALL, Some (off' - old_off), off', f1, k2)
                   | Some (SError, off', k2) \<Rightarrow> Some (FILE_SENDFILE_ERROR, Some 0, off', f1, k2)
                   | Some (SDone, off', k2) \<Rightarrow>
                       (let (_, k3) = sys_lseek_set (f_fd f1) 0 k2; (f2, k4) = File_reset f1 k3
                        in Some (FILE_SENDFILE_DONE, Some (off' - old_off), off', f2, k4)))
                else if count = 0 then
                  (let (_, k3) = sys_lseek_set (f_fd f1) 0 k1; (f2, k4) = File_reset f1 k3
                   in Some (FILE_SENDFILE_DONE, Some 0, offset, f2, k4))
                else
                  (case outs of
                     [] \<Rightarrow> None
                   | r # _ \<Rightarrow>
                       (let (n, off1, k2) = sys_sendfile_off sockfd (f_fd f1) offset count (fst r) k1;
                            off' = off1 + n
                        in if n = -1 then Some (FILE_SENDFILE_ERROR, Some 0, off', f1, k2)
                           else if n < count then
                             Some (FILE_SENDFILE_RECALL, Some (off' - old_off), off', f1, k2)
                           else
                             (let (_, k3) = sys_lseek_set (f_fd f1) 0 k2; (f2, k4) = File_reset f1 k3
                              in Some (FILE_SENDFILE_DONE, Some (off' - old_off), off', f2, k4)))))))"

fun sendfile_cur_loop :: "int \<Rightarrow> int \<Rightarrow> sysres list \<Rightarrow> int \<Rightarrow> kern \<Rightarrow> (send_end \<times> kern) option" where
  "sendfile_cur_loop sock fd [] left k = (if left > 0 then None else Some (SDone, k))"
| "sendfile_cur_loop sock fd (r # rs) left k =
     (if left > 0 then
        (let (n, k1) = sys_sendfile sock fd left (fst r) k
         in if n < left then
              (if n < 0 then
                 (if snd r = EAGAIN then Some (SRecall, k1) else Some (SError, k1))
               else sendfile_cur_loop sock fd rs (left - n) k1)
            else Some (SDone, k1))
      else Some (SDone, k))"

text \<open>\<open>send2Socket(sockfd, sendn)\<close>: the whole file. On \<open>EAGAIN\<close> the code adds the return
  value of the failing call, -1, to \<open>cur_\<close>, and \<open>sendn\<close> is a \<open>size_t\<close>.\<close>

definition File_send2Socket :: "int \<Rightarrow> int \<Rightarrow> sysres list \<Rightarrow> File \<Rightarrow> kern
    \<Rightarrow> (int \<times> int option \<times> File \<times> kern) option" where
  "File_send2Socket sockfd nfd outs f k =
     (if \<not> valid_fd sockfd then Some (FILE_FD_INVALID, None, f, k)
      else if \<not> testExist f k \<or> \<not> testRead f k then Some (FILE_READ_ACCESS_DENY, None, f, k)
      else
       (let (ok, f1, k1) =
              (if \<not> valid_fd (f_fd f)
               then (let (r, k') = sys_open_rd (fname f) nfd k in (True, f\<lparr>f_fd := r\<rparr>, k'))
               else if f_cur f = 0
               then (let (p, k') = sys_lseek_set (f_fd f) 0 k in (p \<noteq> -1, f, k'))
               else (True, f, k))
        in if \<not> ok then Some (FILE_FD_INVALID, None, f1, k1)
           else
            (let f2 = f1\<lparr>f_size := getFileSize f1 k1\<rparr>;
                 left = f_size f2 - f_cur f2;
                 old_off = f_cur f2
             in if nonblk k1 sockfd then
                  (case sendfile_cur_loop sockfd (f_fd f2) outs left k1 of
                     None \<Rightarrow> None
                   | Some (SRecall, k2) \<Rightarrow>
                       Some (FILE_SENDFILE_RECALL, Some ((f_cur f2 + (-1) - old_off) mod 2 ^ 64), f2\<lparr>f_cur := f_cur f2 + (-1)\<rparr>, k2)
                   | Some (SError, k2) \<Rightarrow> Some (FILE_SENDFILE_ERROR, Some 0, f2, k2)
                   | Some (SDone, k2) \<Rightarrow>
                       (let (_, k3) = sys_lseek_set (f_fd f2) 0 k2; (f3, k4) = File_reset (f2\<lparr>f_cur := 0\<rparr>) k3
                        in Some (FILE_SENDFILE_DONE, Some (f_cur f2 - old_off), f3, k4)))
                else if left = 0 then
                  (let (f3, k2) = File_reset f2 k1 in Some (FILE_SENDFILE_DONE, Some 0, f3, k2))
                else
                  (case outs of
                     [] \<Rightarrow> None
                   | r # _ \<Rightarrow>
                       (let (n, cur', k2) = sys_sendfile_off sockfd (f_fd f2) (f_cur f2) left (fst r) k1;
                            f3 = f2\<lparr>f_cur := cur'\<rparr>
                        in if n = -1 then Some (FILE_SENDFILE_ERROR, Some 0, f3, k2)
                           else if n < left then
                             Some (FILE_SENDFILE_RECALL, Some (cur' - old_off), f3, k2)
                           else if n = left then
                             (let (_, k3) = sys_lseek_set (f_fd f3) 0 k2; (f4, k4) = File_reset (f3\<lparr>f_cur := 0\<rparr>) k3
                              in Some (FILE_SENDFILE_DONE, Some (cur' - old_off), f4, k4))
                           else Some (FILE_SENDFILE_ERROR, Some 0, f3, k2))))))"

subsection \<open>Naming a file\<close>

lemma c_str_append_NUL: "NUL \<notin> set s \<Longrightarrow> c_str (s @ NUL # r) = s"
  by (induction s) (auto simp: c_str_def)

lemma c_str_pad: "length (c_str s) < n \<Longrightarrow> c_str (c_str s @ drop (length (c_str s)) (replicate n NUL)) = c_str s"
  by (cases "n - length (c_str s)") (auto intro!: c_str_append_NUL)

lemma setFilename_name:
  "length (c_str s) < 1024 \<Longrightarrow>
   \<exists>f'. setFilename (Some s) f k = Some (f', sys_close (f_fd f) k) \<and> fname f' = c_str s \<and> f_fd f' = -1"
  using c_str_pad [of s 1024]
  by (simp add: setFilename_def File_reset_def File_close_def mem_simps fname_def)

subsection \<open>Appending and reading back\<close>

text \<open>The kernel completes every call: it transfers all it is asked for.\<close>

fun append_all :: "bytes list \<Rightarrow> int \<Rightarrow> File \<Rightarrow> kern \<Rightarrow> kern" where
  "append_all [] nfd f k = k"
| "append_all (b # bs) nfd f k = append_all bs nfd f (snd (appendWriteIn b nfd (-1) (int (length b)) f k))"

text \<open>Reading in pieces of \<open>len\<close> until the file reports that it is done.\<close>

fun read_loop :: "nat \<Rightarrow> nat \<Rightarrow> int \<Rightarrow> File \<Rightarrow> kern \<Rightarrow> (bytes \<times> File \<times> kern) option" where
  "read_loop 0 len nfd f k = None"
| "read_loop (Suc fuel) len nfd f k =
     (let (r, data, f', k') = continuousReadOut len nfd (int len) f k
      in if r < 0 then None
         else if f_readdone f' then Some (data, f', k')
         else (case read_loop fuel len nfd f' k' of
                 None \<Rightarrow> None | Some (rest, f'', k'') \<Rightarrow> Some (data @ rest, f'', k'')))"

lemma appendWriteIn_appends:
  assumes "b \<noteq> []" "fname f \<noteq> []" "wperm k (fname f)" "0 \<le> nfd"
  shows "appendWriteIn b nfd (-1) (int (length b)) f k =
           (int (length b),
            k\<lparr>disk := (disk k)(fname f \<mapsto> file_content k (fname f) @ b), fds := (fds k)(nfd := None)\<rparr>)"
  using assms
  by (auto simp: appendWriteIn_def sys_open_wr_creat_def RelocateFileDescriptor_def sys_dupfd_def
      sys_write_def sys_close_def valid_fd_def Let_def file_content_def fun_eq_iff
      split: option.splits)

lemma append_all_content:
  assumes "[] \<notin> set bs" "fname f \<noteq> []" "wperm k (fname f)" "0 \<le> nfd"
  shows "file_content (append_all bs nfd f k) (fname f) = file_content k (fname f) @ concat bs \<and>
         rperm (append_all bs nfd f k) = rperm k \<and>
         (bs \<noteq> [] \<longrightarrow> disk (append_all bs nfd f k) (fname f) \<noteq> None)"
  using assms
proof (induction bs arbitrary: k)
  case (Cons b bs)
  let ?k = "k\<lparr>disk := (disk k)(fname f \<mapsto> file_content k (fname f) @ b), fds := (fds k)(nfd := None)\<rparr>"
  have "append_all (b # bs) nfd f k = append_all bs nfd f ?k"
    using Cons.prems by (subst append_all.simps, subst appendWriteIn_appends) auto
  then show ?case
    using Cons.IH [of ?k] Cons.prems by (cases bs) (auto simp: file_content_def)
qed simp

definition at_pos :: "File \<Rightarrow> kern \<Rightarrow> nat \<Rightarrow> bool" where
  "at_pos f k p \<longleftrightarrow> 0 \<le> f_fd f \<and> fds k (f_fd f) = Some (RegFile (fname f) p) \<and>
     disk k (fname f) \<noteq> None \<and> rperm k (fname f) \<and> \<not> f_readdone f"

lemma continuousReadOut_step:
  assumes "at_pos f k p" "0 < len" "p + len \<le> length (file_content k (fname f))"
  shows "\<exists>k'. continuousReadOut len nfd (int len) f k =
                (int len, take len (drop p (file_content k (fname f))), f, k') \<and>
              at_pos f k' (p + len) \<and> file_content k' (fname f) = file_content k (fname f)"
  using assms
  by (auto simp: at_pos_def continuousReadOut_def testExist_def testRead_def File_exist_def
      File_readable_def valid_fd_def sys_read_def Let_def file_content_def)

lemma continuousReadOut_last:
  assumes "at_pos f k p" "p \<le> length (file_content k (fname f))"
    "length (file_content k (fname f)) < p + len"
  shows "\<exists>k'. continuousReadOut len nfd (int len) f k =
                (int (length (file_content k (fname f)) - p), drop p (file_content k (fname f)),
                 f\<lparr>f_readdone := True\<rparr>, k') \<and> fds k' (f_fd f) = None"
  using assms
  by (auto simp: at_pos_def continuousReadOut_def testExist_def testRead_def File_exist_def
      File_readable_def valid_fd_def sys_read_def sys_close_def Let_def file_content_def)

lemma read_loop_from:
  assumes "at_pos f k p" "p \<le> length (file_content k (fname f))" "0 < len"
    "length (file_content k (fname f)) < p + fuel * len"
  shows "\<exists>f' k'. read_loop fuel len nfd f k = Some (drop p (file_content k (fname f)), f', k') \<and>
                 f_readdone f' \<and> fds k' (f_fd f') = None"
  using assms
proof (induction fuel arbitrary: p k)
  case (Suc fuel)
  let ?c = "file_content k (fname f)"
  show ?case
  proof (cases "p + len \<le> length ?c")
    case True
    obtain k' where k': "continuousReadOut len nfd (int len) f k = (int len, take len (drop p ?c), f, k')"
      "at_pos f k' (p + len)" "file_content k' (fname f) = ?c"
      using continuousReadOut_step [OF Suc.prems(1,3) True] by blast
    have "\<exists>f' k''. read_loop fuel len nfd f k' = Some (drop (p + len) ?c, f', k'') \<and>
                 f_readdone f' \<and> fds k'' (f_fd f') = None"
      using Suc.IH [of k' "p + len"] k' True Suc.prems by (simp add: algebra_simps)
    moreover have "\<not> f_readdone f"
      using Suc.prems(1) by (simp add: at_pos_def)
    moreover have "take len (drop p ?c) @ drop (p + len) ?c = drop p ?c"
      using take_drop_split [of p "p + len" ?c] by simp
    ultimately show ?thesis
      using k' by (auto simp: Let_def)
  next
    case False
    then show ?thesis
      using continuousReadOut_last [OF Suc.prems(1,2), of len nfd] by (auto simp: Let_def)
  qed
qed simp

lemma read_loop_open:
  assumes "f_fd f < 0" "disk k (fname f) \<noteq> None" "rperm k (fname f)" "0 \<le> nfd" "0 < len"
    "length (file_content k (fname f)) < fuel * len"
  shows "\<exists>f' k'. read_loop fuel len nfd f k = Some (file_content k (fname f), f', k') \<and>
                 f_readdone f' \<and> fds k' (f_fd f') = None"
proof -
  let ?f = "f\<lparr>f_readdone := False, f_fd := nfd\<rparr>"
  let ?k = "k\<lparr>fds := (fds k)(nfd \<mapsto> RegFile (fname f) 0)\<rparr>"
  have n [simp]: "fname ?f = fname f" by (simp add: fname_def)
  have "continuousReadOut len nfd (int len) f k = continuousReadOut len nfd (int len) ?f ?k"
    using assms
    by (auto simp: continuousReadOut_def testExist_def testRead_def File_exist_def
        File_readable_def valid_fd_def sys_open_rd_def fname_def)
  moreover obtain fuel' where "fuel = Suc fuel'"
    using assms(6) by (cases fuel) auto
  ultimately have "read_loop fuel len nfd f k = read_loop fuel len nfd ?f ?k"
    by simp
  moreover have "at_pos ?f ?k 0"
    using assms by (simp add: at_pos_def fname_def)
  ultimately show ?thesis
    using read_loop_from [of ?f ?k 0 len fuel nfd] assms by (simp add: file_content_def fname_def)
qed


definition demo_kern :: kern where
  "demo_kern = \<lparr>disk = Map.empty, rperm = (\<lambda>_. True), wperm = (\<lambda>_. True), fds = Map.empty,
                nonblk = (\<lambda>_. True), wire = (\<lambda>_. [])\<rparr>"

definition demo_file :: "int \<Rightarrow> File" where
  "demo_file fd = \<lparr>f_fd = fd, f_size = 0, f_cur = 0, f_readdone = False, f_filename = ''body''\<rparr>"

lemma demo_fname [simp]: "fname (demo_file fd) = ''body''"
  by (simp add: fname_def demo_file_def c_str_def NUL_def)


subsection \<open>The double advance of the offset\<close>

lemma sendfile_loop_stuck:
  assumes "fds k fd = Some (RegFile name p)" "int (length (file_content k name)) \<le> off" "0 < left"
    "\<forall>r \<in> set outs. 0 \<le> fst r"
  shows "sendfile_loop sock fd outs off left k = None"
  using assms
proof (induction outs arbitrary: k)
  case (Cons r rs)
  have "put_wire sock [] k = k"
    by (simp add: put_wire_def)
  then show ?case
    using Cons by (simp add: sys_sendfile_off_def Let_def)
qed simp

lemma sendfile_step:
  assumes "fds k fd = Some (RegFile name p)" "0 \<le> off" "0 \<le> n" "n \<le> len"
    "off + len \<le> int (length (file_content k name))"
  shows "sys_sendfile_off sock fd off len n k =
           (n, off + n, put_wire sock (take (nat n) (drop (nat off) (file_content k name))) k)"
  using assms by (simp add: sys_sendfile_off_def Let_def min_def) arith

definition sendable :: "int \<Rightarrow> int \<Rightarrow> int \<Rightarrow> File \<Rightarrow> kern \<Rightarrow> bool" where
  "sendable sock off count f k \<longleftrightarrow>
     0 \<le> sock \<and> nonblk k sock \<and> fname f \<noteq> [] \<and> 0 \<le> f_fd f \<and>
     (\<exists>p. fds k (f_fd f) = Some (RegFile (fname f) p)) \<and> disk k (fname f) \<noteq> None \<and>
     rperm k (fname f) \<and> 0 \<le> off \<and> 0 < count \<and> off + count \<le> int (length (file_content k (fname f)))"

lemma send2Socket_range_nonblk:
  assumes "sendable sock off count f k"
  shows "send2Socket_range sock off count nfd outs f k =
     (case sendfile_loop sock (f_fd f) outs off count k of
        None \<Rightarrow> None
      | Some (SRecall, off', k2) \<Rightarrow> Some (FILE_SENDFILE_RECALL, Some (off' - off), off', f, k2)
      | Some (SError, off', k2) \<Rightarrow> Some (FILE_SENDFILE_ERROR, Some 0, off', f, k2)
      | Some (SDone, off', k2) \<Rightarrow>
          (let (f2, k4) = File_reset f (snd (sys_lseek_set (f_fd f) 0 k2))
           in Some (FILE_SENDFILE_DONE, Some (off' - off), off', f2, k4)))"
  using assms
  by (auto simp: sendable_def send2Socket_range_def valid_fd_def getFileSize_def testExist_def
      testRead_def File_exist_def File_readable_def Let_def split_beta
      split: option.splits send_end.splits)

text \<open>
  Sending a part of a file over a non-blocking socket. If the first \<open>sendfile\<close> takes
  everything, exactly the requested bytes are on the wire, the offset stands behind them and
  the result is \<open>DONE\<close>; if the socket is full, nothing moved and the result is \<open>RECALL\<close>. But
  if it takes only a part that reaches at least halfway to the end of the file, the offset,
  advanced by the kernel and again by the code, is past the end, and the call never returns.
\<close>

theorem send2Socket_range_outcomes:
  assumes "sendable sock off count f k" "0 \<le> n"
  shows "if count \<le> n
         then \<exists>f' k'. send2Socket_range sock off count nfd ((n, e) # outs) f k =
                        Some (FILE_SENDFILE_DONE, Some count, off + count, f', k') \<and>
                      wire k' sock = wire k sock @ take (nat count) (drop (nat off) (file_content k (fname f))) \<and>
                      f_fd f' = -1 \<and> fds k' (f_fd f) = None
         else send2Socket_range sock off count nfd ((-1, EAGAIN) # outs) f k =
                Some (FILE_SENDFILE_RECALL, Some 0, off, f, k) \<and>
              (int (length (file_content k (fname f))) \<le> off + 2 * n \<and> 0 < n \<and> (\<forall>r \<in> set outs. 0 \<le> fst r)
               \<longrightarrow> send2Socket_range sock off count nfd ((n, e) # outs) f k = None)"
proof -
  obtain p where p: "fds k (f_fd f) = Some (RegFile (fname f) p)"
    using assms by (auto simp: sendable_def)
  note b = send2Socket_range_nonblk [OF assms(1)]
  show ?thesis
  proof (cases "count \<le> n")
    case True
    have "sys_sendfile_off sock (f_fd f) off count n k = sys_sendfile_off sock (f_fd f) off count count k"
      using True assms p by (simp add: sys_sendfile_off_def sendable_def min_def)
    then show ?thesis
      using True assms p sendfile_step [OF p, of off count count sock]
      by (auto simp: b sendable_def sys_lseek_set_def File_reset_def File_close_def sys_close_def
          put_wire_def)
  next
    case False
    let ?k = "put_wire sock (take (nat n) (drop (nat off) (file_content k (fname f)))) k"
    have "sendfile_loop sock (f_fd f) ((n, e) # outs) off count k =
          sendfile_loop sock (f_fd f) outs (off + n + n) (count - n) ?k"
      using False assms sendfile_step [OF p, of off n count sock] by (simp add: sendable_def)
    moreover have "sendfile_loop sock (f_fd f) outs (off + n + n) (count - n) ?k = None"
      if "int (length (file_content k (fname f))) \<le> off + 2 * n" "\<forall>r \<in> set outs. 0 \<le> fst r"
      using that False p
      by (intro sendfile_loop_stuck [where name = "fname f" and p = p])
         (auto simp: put_wire_def file_content_def)
    ultimately show ?thesis
      using False assms p by (auto simp: b sendable_def sys_sendfile_off_def)
  qed
qed

definition demo_kern2 :: kern where
  "demo_kern2 = demo_kern\<lparr>disk := [''body'' \<mapsto> ''abcdef''], fds := [7 \<mapsto> RegFile ''body'' 0]\<rparr>"

theorem send2Socket_range_outcomes_witness:
  "send2Socket_range 9 0 6 8 [(4, 0), (5, 0), (5, 0)] (demo_file 7) demo_kern2 = None"
  using send2Socket_range_outcomes [of 9 0 6 "demo_file 7" demo_kern2 4 8 0 "[(5, 0), (5, 0)]"]
  by (simp add: sendable_def demo_kern_def demo_kern2_def file_content_def) (simp add: demo_file_def)

end
