(* ===== verification/TimeWheel.thy ===== *)
theory TimeWheel
  imports Base
begin

text \<open>
  \<open>net/TimeWheelEvent.cpp\<close>: the ring of time nodes. A node is the set of the channels
  (numbers) that time out when the clock reaches it; the circular list of nodes is a list
  with the index of \<open>_current\<close>. The abstract view of a wheel is the number of clock ticks
  each channel has left.
\<close>

record wheel =
  nodes :: "nat set list"
  cur :: nat

text \<open>\<open>init\<close>: the head node, and \<open>nodenum - 1\<close> more when that is positive.\<close>

fun init_loop :: "nat \<Rightarrow> nat set list \<Rightarrow> nat set list" where
  "init_loop 0 ns = ns"
| "init_loop (Suc num) ns = (if Suc num > 1 then init_loop num (ns @ [{}]) else ns)"

definition init_wheel :: "nat \<Rightarrow> wheel" where
  "init_wheel nodenum = \<lparr>nodes = init_loop nodenum [{}], cur = 0\<rparr>"

definition next_node :: "wheel \<Rightarrow> nat \<Rightarrow> nat" where
  "next_node w i = (i + 1) mod length (nodes w)"

definition deleteChannelFromTimeNode :: "nat \<Rightarrow> nat \<Rightarrow> wheel \<Rightarrow> int \<times> wheel" where
  "deleteChannelFromTimeNode i c w =
     (if c \<in> nodes w ! i then (0, w\<lparr>nodes := (nodes w)[i := nodes w ! i - {c}]\<rparr>) else (-1, w))"

text \<open>The do-while loop of \<open>eraseChannel\<close> visits every node once, starting at the current
  one, until it finds the channel; the first argument counts the nodes not visited yet.\<close>

fun erase_loop :: "nat \<Rightarrow> nat \<Rightarrow> nat \<Rightarrow> wheel \<Rightarrow> wheel" where
  "erase_loop 0 i c w = w"
| "erase_loop (Suc m) i c w =
     (let (ret, w') = deleteChannelFromTimeNode i c w
      in if ret = 0 then w' else erase_loop m (next_node w i) c w)"

definition eraseChannel :: "nat \<Rightarrow> wheel \<Rightarrow> wheel" where
  "eraseChannel c w = erase_loop (length (nodes w)) (cur w) c w"

definition insert_current :: "nat \<Rightarrow> wheel \<Rightarrow> wheel" where
  "insert_current c w = w\<lparr>nodes := (nodes w)[cur w := insert c (nodes w ! cur w)]\<rparr>"

text \<open>\<open>updateChannel\<close>; \<open>skip\<close> is the answer of \<open>isSkipChannel\<close>.\<close>

definition timer_updateChannel :: "bool \<Rightarrow> nat \<Rightarrow> wheel \<Rightarrow> wheel" where
  "timer_updateChannel skip c w = (if skip then w else insert_current c (eraseChannel c w))"

definition containsInCurrentTimeNode :: "nat \<Rightarrow> wheel \<Rightarrow> bool" where
  "containsInCurrentTimeNode c w \<longleftrightarrow> c \<in> nodes w ! cur w"

text \<open>
  \<open>clearCurrentTimeNode\<close>: \<open>begin\<close> is the first element of the set, whichever the hash
  table puts first; \<open>alive\<close> says that the channel is registered and has a socket; \<open>cb\<close> lists
  the channels that the timeout callback, or the default close, of a channel removes from
  the wheel. The result lists the channels whose callbacks ran, in order. The loop takes
  fuel; no answer means that it has not ended.
\<close>

fun clear_loop :: "nat \<Rightarrow> (nat set \<Rightarrow> nat) \<Rightarrow> (nat \<Rightarrow> bool) \<Rightarrow> (nat \<Rightarrow> nat list) \<Rightarrow> wheel \<Rightarrow> (nat list \<times> wheel) option" where
  "clear_loop 0 begin' alive cb w = None"
| "clear_loop (Suc fuel) begin' alive cb w =
     (if nodes w ! cur w = {} then Some ([], w)
      else
        (let c = begin' (nodes w ! cur w);
             w1 = (if alive c then fold eraseChannel (cb c) w else w);
             w2 = w1\<lparr>nodes := (nodes w1)[cur w1 := nodes w1 ! cur w1 - {c}]\<rparr>
         in case clear_loop fuel begin' alive cb w2 of
              None \<Rightarrow> None
            | Some (fired, w3) \<Rightarrow> Some ((if alive c then c # fired else fired), w3)))"

definition clockJump :: "nat \<Rightarrow> (nat set \<Rightarrow> nat) \<Rightarrow> (nat \<Rightarrow> bool) \<Rightarrow> (nat \<Rightarrow> nat list) \<Rightarrow> wheel \<Rightarrow> (nat list \<times> wheel) option" where
  "clockJump fuel begin' alive cb w = clear_loop fuel begin' alive cb (w\<lparr>cur := next_node w (cur w)\<rparr>)"

text \<open>\<open>clockEventHandle\<close>: only a full eight-byte read of the timer descriptor is a tick.\<close>

definition clockEventHandle :: "int \<Rightarrow> nat \<Rightarrow> (nat set \<Rightarrow> nat) \<Rightarrow> (nat \<Rightarrow> bool) \<Rightarrow> (nat \<Rightarrow> nat list) \<Rightarrow> wheel
    \<Rightarrow> (int \<times> nat list \<times> wheel) option" where
  "clockEventHandle ret fuel begin' alive cb w =
     (if ret \<noteq> 8 then Some (-1, [], w)
      else map_option (\<lambda>(fired, w'). (0, fired, w')) (clockJump fuel begin' alive cb w))"

subsection \<open>Well-formed wheels and the ticks left\<close>

definition wheel_ok :: "wheel \<Rightarrow> bool" where
  "wheel_ok w \<longleftrightarrow> cur w < length (nodes w) \<and> (\<forall>i < length (nodes w). finite (nodes w ! i)) \<and>
     (\<forall>i < length (nodes w). \<forall>j < length (nodes w). i \<noteq> j \<longrightarrow> nodes w ! i \<inter> nodes w ! j = {})"

text \<open>The node a channel is in, and the number of ticks until the clock reaches it.\<close>

definition node_of :: "wheel \<Rightarrow> nat \<Rightarrow> nat option" where
  "node_of w c = find (\<lambda>i. c \<in> nodes w ! i) [0..<length (nodes w)]"

definition dist :: "wheel \<Rightarrow> nat \<Rightarrow> nat" where
  "dist w i = (if cur w < i then i - cur w else length (nodes w) - cur w + i)"

definition ticks_left :: "wheel \<Rightarrow> nat \<rightharpoonup> nat" where
  "ticks_left w c = map_option (dist w) (node_of w c)"

lemma dist_frame: "cur w' = cur w \<Longrightarrow> length (nodes w') = length (nodes w) \<Longrightarrow> dist w' = dist w"
  by (simp add: dist_def fun_eq_iff)

lemma node_of_Some:
  "wheel_ok w \<Longrightarrow> node_of w c = Some i \<longleftrightarrow> i < length (nodes w) \<and> c \<in> nodes w ! i"
  unfolding node_of_def wheel_ok_def find_Some_iff
  by (auto simp: disjoint_iff)

lemma node_of_None: "node_of w c = None \<longleftrightarrow> (\<forall>i < length (nodes w). c \<notin> nodes w ! i)"
  by (auto simp: node_of_def find_None_iff)

lemma node_of_eqI:
  assumes "wheel_ok w" "wheel_ok w'" "length (nodes w') = length (nodes w)"
    "\<And>i. i < length (nodes w) \<Longrightarrow> c \<in> nodes w' ! i \<longleftrightarrow> c \<in> nodes w ! i"
  shows "node_of w' c = node_of w c"
proof (cases "node_of w c")
  case None
  then have "node_of w' c = None"
    using assms by (simp add: node_of_None)
  then show ?thesis using None by simp
next
  case (Some i)
  then have "node_of w' c = Some i"
    using assms by (simp add: node_of_Some)
  then show ?thesis using Some by simp
qed

lemma length_init_loop: "length (init_loop n ns) = length ns + (n - 1)"
  by (induction n ns rule: init_loop.induct) auto

lemma init_loop_empty: "\<forall>s \<in> set ns. s = {} \<Longrightarrow> \<forall>s \<in> set (init_loop n ns). s = {}"
  by (induction n ns rule: init_loop.induct) auto

lemma init_wheel_ok: "wheel_ok (init_wheel n)" "node_of (init_wheel n) c = None"
proof -
  have "nodes (init_wheel n) ! i = {}" if "i < length (nodes (init_wheel n))" for i
    using init_loop_empty [of "[{}]" n] that by (simp add: init_wheel_def)
  then show "wheel_ok (init_wheel n)" "node_of (init_wheel n) c = None"
    by (auto simp: wheel_ok_def node_of_None) (simp add: init_wheel_def length_init_loop)
qed

lemma erase_loop_absent: "\<forall>i < length (nodes w). c \<notin> nodes w ! i \<Longrightarrow> i < length (nodes w) \<Longrightarrow> erase_loop m i c w = w"
proof (induction m i c w rule: erase_loop.induct)
  case (2 m i c w)
  moreover have "next_node w i < length (nodes w)"
    using "2.prems"(2) unfolding next_node_def by (intro mod_less_divisor) linarith
  ultimately show ?case
    by (simp add: deleteChannelFromTimeNode_def)
qed simp

lemma erase_loop_found:
  assumes "wheel_ok w" "j < length (nodes w)" "c \<in> nodes w ! j" "d < m" "(i + d) mod length (nodes w) = j"
    "i < length (nodes w)"
  shows "erase_loop m i c w = w\<lparr>nodes := (nodes w)[j := nodes w ! j - {c}]\<rparr>"
  using assms(4,5,6)
proof (induction m arbitrary: i d)
  case (Suc m)
  show ?case
  proof (cases "i = j")
    case True
    then show ?thesis using assms(3) by (simp add: deleteChannelFromTimeNode_def)
  next
    case False
    have "c \<notin> nodes w ! i"
      using assms(1-3) Suc.prems(3) False unfolding wheel_ok_def disjoint_iff by blast
    obtain d' where "d = Suc d'"
      using False Suc.prems by (cases d) auto
    moreover have "0 < length (nodes w)"
      using Suc.prems(3) by linarith
    ultimately have "(next_node w i + d') mod length (nodes w) = j" "d' < m" "next_node w i < length (nodes w)"
      using Suc.prems by (auto simp: next_node_def mod_simps)
    then show ?thesis
      using Suc.IH [of d' "next_node w i"] \<open>c \<notin> nodes w ! i\<close>
      by (simp add: deleteChannelFromTimeNode_def)
  qed
qed simp

lemma eraseChannel_eq:
  assumes "wheel_ok w"
  shows "eraseChannel c w = w\<lparr>nodes := map (\<lambda>s. s - {c}) (nodes w)\<rparr>"
proof (cases "\<exists>j < length (nodes w). c \<in> nodes w ! j")
  case True
  then obtain j where j: "j < length (nodes w)" "c \<in> nodes w ! j" by blast
  define d where "d = (length (nodes w) - cur w + j) mod length (nodes w)"
  have lt: "cur w < length (nodes w)"
    using assms by (simp add: wheel_ok_def)
  have "(cur w + d) mod length (nodes w) = (cur w + (length (nodes w) - cur w + j)) mod length (nodes w)"
    by (simp add: d_def mod_simps)
  also have "cur w + (length (nodes w) - cur w + j) = j + length (nodes w)"
    using lt by simp
  also have "(j + length (nodes w)) mod length (nodes w) = j"
    using j by simp
  finally have mid: "(cur w + d) mod length (nodes w) = j" .
  have "d < length (nodes w)"
    unfolding d_def using lt by (intro mod_less_divisor) linarith
  with mid have "eraseChannel c w = w\<lparr>nodes := (nodes w)[j := nodes w ! j - {c}]\<rparr>"
    using assms j lt unfolding eraseChannel_def by (intro erase_loop_found [where d = d])
  moreover have "(nodes w)[j := nodes w ! j - {c}] = map (\<lambda>s. s - {c}) (nodes w)"
    using assms j by (intro nth_equalityI) (auto simp: wheel_ok_def nth_list_update disjoint_iff)
  ultimately show ?thesis by simp
next
  case False
  then have "map (\<lambda>s. s - {c}) (nodes w) = nodes w"
    by (intro nth_equalityI) auto
  then show ?thesis
    using False erase_loop_absent [of w c "cur w"] assms by (simp add: eraseChannel_def wheel_ok_def)
qed

lemma eraseChannel_ok: "wheel_ok w \<Longrightarrow> wheel_ok (eraseChannel c w)"
  by (simp add: eraseChannel_eq) (auto simp: wheel_ok_def)

lemma eraseChannel_node: "wheel_ok w \<Longrightarrow> node_of (eraseChannel c w) = (node_of w)(c := None)"
  using eraseChannel_ok [of w c]
  by (intro ext) (auto simp: node_of_None eraseChannel_eq intro!: node_of_eqI)

lemma eraseChannel_frame [simp]:
  "wheel_ok w \<Longrightarrow> cur (eraseChannel c w) = cur w"
  "wheel_ok w \<Longrightarrow> length (nodes (eraseChannel c w)) = length (nodes w)"
  by (simp_all add: eraseChannel_eq)

lemma insert_current_ok:
  "wheel_ok w \<Longrightarrow> node_of w c = None \<Longrightarrow>
   wheel_ok (insert_current c w) \<and> node_of (insert_current c w) = (node_of w)(c \<mapsto> cur w)"
proof -
  assume ok: "wheel_ok w" and n: "node_of w c = None"
  then have ok': "wheel_ok (insert_current c w)"
    by (auto simp: wheel_ok_def insert_current_def nth_list_update node_of_None)
  have len: "length (nodes (insert_current c w)) = length (nodes w)"
    by (simp add: insert_current_def)
  have *: "d \<in> nodes (insert_current c w) ! i \<longleftrightarrow> d \<in> nodes w ! i" if "d \<noteq> c" "i < length (nodes w)" for d i
    using that ok by (auto simp: insert_current_def nth_list_update wheel_ok_def)
  have "node_of (insert_current c w) d = ((node_of w)(c \<mapsto> cur w)) d" for d
  proof (cases "d = c")
    case True
    then show ?thesis
      using ok ok' by (simp add: node_of_Some) (simp add: insert_current_def wheel_ok_def)
  next
    case False
    then show ?thesis
      using node_of_eqI [OF ok ok' len, of d] * by simp
  qed
  with ok' show ?thesis by blast
qed

text \<open>A channel that is updated has a full round of ticks left.\<close>

lemma node_of_lt: "wheel_ok w \<Longrightarrow> node_of w c = Some i \<Longrightarrow> i < length (nodes w)"
  by (simp add: node_of_Some)

lemma update_spec:
  assumes "wheel_ok w"
  shows "wheel_ok (timer_updateChannel False c w) \<and> cur (timer_updateChannel False c w) = cur w \<and>
         length (nodes (timer_updateChannel False c w)) = length (nodes w) \<and>
         ticks_left (timer_updateChannel False c w) = (ticks_left w)(c \<mapsto> length (nodes w))"
proof -
  let ?e = "eraseChannel c w"
  have "wheel_ok ?e" "node_of ?e c = None"
    using assms by (simp_all add: eraseChannel_ok eraseChannel_node)
  then have "wheel_ok (insert_current c ?e) \<and> node_of (insert_current c ?e) = (node_of ?e)(c \<mapsto> cur ?e)"
    by (rule insert_current_ok)
  moreover have "cur (insert_current c ?e) = cur w" "length (nodes (insert_current c ?e)) = length (nodes w)"
    using assms by (simp_all add: insert_current_def)
  ultimately show ?thesis
    using assms dist_frame [of "insert_current c ?e" w]
    by (auto simp: timer_updateChannel_def ticks_left_def eraseChannel_node intro!: ext)
       (simp add: dist_def wheel_ok_def)
qed

lemma erase_spec: "wheel_ok w \<Longrightarrow> ticks_left (eraseChannel c w) = (ticks_left w)(c := None)"
  using dist_frame [of "eraseChannel c w" w] by (intro ext) (simp add: ticks_left_def eraseChannel_node)

lemma ticks_left_None: "ticks_left w c = None \<longleftrightarrow> node_of w c = None"
  by (simp add: ticks_left_def)

lemma update_members:
  "wheel_ok w \<Longrightarrow> wheel_ok (timer_updateChannel skip c w) \<and>
   (node_of (timer_updateChannel skip c w) d \<noteq> None \<longrightarrow> node_of w d \<noteq> None \<or> (d = c \<and> \<not> skip))"
  using update_spec [of w c]
  by (cases skip) (auto simp: timer_updateChannel_def simp flip: ticks_left_None split: if_splits)

lemma fold_erase:
  "wheel_ok w \<Longrightarrow> wheel_ok (fold eraseChannel cs w) \<and> cur (fold eraseChannel cs w) = cur w \<and>
   fold eraseChannel cs w = w\<lparr>nodes := map (\<lambda>s. s - set cs) (nodes w)\<rparr>"
proof (induction cs arbitrary: w)
  case (Cons c cs)
  have "(\<lambda>s. s - set cs) \<circ> (\<lambda>s. s - {c}) = (\<lambda>s. s - set (c # cs))"
    by auto
  moreover have "fold eraseChannel (c # cs) w = w\<lparr>nodes := map (\<lambda>s. s - set cs) (map (\<lambda>s. s - {c}) (nodes w))\<rparr>"
    using Cons.IH [OF eraseChannel_ok [OF Cons.prems, of c]] Cons.prems by (simp add: eraseChannel_eq)
  moreover have "wheel_ok (fold eraseChannel (c # cs) w) \<and> cur (fold eraseChannel (c # cs) w) = cur w"
    unfolding fold_Cons comp_apply
    using Cons.IH [OF eraseChannel_ok [OF Cons.prems, of c]] eraseChannel_frame(1) [OF Cons.prems, of c]
    by (metis (no_types))
  ultimately show ?case
    by simp
qed simp

subsection \<open>A tick of the clock\<close>

text \<open>Removing a set of channels, and emptying the current node.\<close>

definition without :: "nat set \<Rightarrow> wheel \<Rightarrow> wheel" where
  "without A w = w\<lparr>nodes := map (\<lambda>s. s - A) (nodes w)\<rparr>"

lemma without_ok: "wheel_ok w \<Longrightarrow> wheel_ok (without A w)"
  by (auto simp: wheel_ok_def without_def)

lemma without_frame [simp]: "cur (without A w) = cur w" "without {} w = w"
  by (simp_all add: without_def)

lemma without_without [simp]: "without A (without B w) = without (B \<union> A) w"
proof -
  have "(\<lambda>s. s - A) \<circ> (\<lambda>s. s - B) = (\<lambda>s. s - (B \<union> A))" by auto
  then show ?thesis by (simp add: without_def)
qed

lemma remove_current:
  "wheel_ok w \<Longrightarrow> c \<in> nodes w ! cur w \<Longrightarrow>
   (without A w)\<lparr>nodes := (nodes (without A w))[cur w := nodes (without A w) ! cur w - {c}]\<rparr> =
   without (insert c A) w"
proof -
  assume ok: "wheel_ok w" and c: "c \<in> nodes w ! cur w"
  have "(map (\<lambda>s. s - A) (nodes w))[cur w := nodes w ! cur w - A - {c}] = map (\<lambda>s. s - insert c A) (nodes w)"
    using ok c by (intro nth_equalityI) (auto simp: wheel_ok_def nth_list_update disjoint_iff)
  then show ?thesis
    using ok by (simp add: without_def wheel_ok_def)
qed

definition removed_by :: "(nat \<Rightarrow> nat list) \<Rightarrow> nat list \<Rightarrow> nat set" where
  "removed_by cb fired = (\<Union>c \<in> set fired. set (cb c))"

text \<open>The channels of the current node are timed out one after the other. The channels
  whose callbacks ran are alive, distinct and in the node; those of the node that are alive
  either ran or were removed by the callback of another one; nothing else happened.\<close>

definition cleared :: "nat set \<Rightarrow> (nat \<Rightarrow> bool) \<Rightarrow> (nat \<Rightarrow> nat list) \<Rightarrow> nat list \<Rightarrow> nat set \<Rightarrow> bool" where
  "cleared S alive cb fired A \<longleftrightarrow>
     A = S \<union> removed_by cb fired \<and> distinct fired \<and> set fired \<subseteq> {c \<in> S. alive c} \<and>
     {c \<in> S. alive c} \<subseteq> set fired \<union> removed_by cb fired"

lemma cleared_step:
  assumes "cleared (S - insert c B) alive cb fired A" "c \<in> S" "B = (if alive c then set (cb c) else {})"
  shows "cleared S alive cb (if alive c then c # fired else fired) (insert c B \<union> A)"
proof (cases "alive c")
  case True
  have "insert c B \<union> A = S \<union> removed_by cb (c # fired)"
    using assms True by (auto simp: cleared_def removed_by_def)
  moreover have "distinct (c # fired)" "set (c # fired) \<subseteq> {c \<in> S. alive c}"
    using assms True by (auto simp: cleared_def)
  moreover have "{c \<in> S. alive c} \<subseteq> set (c # fired) \<union> removed_by cb (c # fired)"
    using assms True by (fastforce simp: cleared_def removed_by_def)
  ultimately show ?thesis using True by (simp add: cleared_def)
next
  case False
  then show ?thesis using assms by (auto simp: cleared_def)
qed

lemma clear_loop_spec:
  assumes "wheel_ok w" "\<forall>S. finite S \<longrightarrow> S \<noteq> {} \<longrightarrow> begin' S \<in> S" "card (nodes w ! cur w) < fuel"
  shows "\<exists>fired A. clear_loop fuel begin' alive cb w = Some (fired, without A w) \<and>
                   cleared (nodes w ! cur w) alive cb fired A"
  using assms(1,3)
proof (induction fuel arbitrary: w)
  case (Suc fuel)
  let ?S = "nodes w ! cur w"
  have lt: "cur w < length (nodes w)" and fin: "finite ?S"
    using Suc.prems(1) by (auto simp: wheel_ok_def)
  show ?case
  proof (cases "?S = {}")
    case True
    then show ?thesis by (auto simp: cleared_def removed_by_def intro!: exI [of _ "{}"])
  next
    case False
    define c where "c = begin' ?S"
    then have c: "c \<in> ?S" using assms(2) False fin by blast
    define B where "B = (if alive c then set (cb c) else {})"
    define w1 where "w1 = without (insert c B) w"
    have S1: "nodes w1 ! cur w1 = ?S - insert c B" "cur w1 = cur w"
      using lt by (simp_all add: w1_def without_def)
    have "card (nodes w1 ! cur w1) < card ?S"
      using c fin S1 by (intro psubset_card_mono) auto
    then obtain fired A where IH: "clear_loop fuel begin' alive cb w1 = Some (fired, without A w1)"
      "cleared (?S - insert c B) alive cb fired A"
      using Suc.IH [of w1] Suc.prems without_ok [OF Suc.prems(1)] S1 by (auto simp: w1_def)
    have f: "(if alive c then fold eraseChannel (cb c) w else w) = without B w"
      using fold_erase [OF Suc.prems(1), of "cb c"] by (simp add: B_def without_def [of "set (cb c)"])
    have "clear_loop (Suc fuel) begin' alive cb w =
        (case clear_loop fuel begin' alive cb w1 of None \<Rightarrow> None
         | Some (fired, w3) \<Rightarrow> Some ((if alive c then c # fired else fired), w3))"
      using False remove_current [OF Suc.prems(1) c, of B]
      unfolding clear_loop.simps(2) c_def [symmetric] Let_def f w1_def by simp
    then have "clear_loop (Suc fuel) begin' alive cb w =
        Some ((if alive c then c # fired else fired), without (insert c B \<union> A) w)"
      using IH(1) by (simp add: w1_def)
    then show ?thesis
      using cleared_step [OF IH(2) c B_def] by blast
  qed
qed simp

lemma jump_ticks:
  assumes "wheel_ok w"
  shows "ticks_left (w\<lparr>cur := next_node w (cur w)\<rparr>) c =
           (case ticks_left w c of None \<Rightarrow> None
            | Some d \<Rightarrow> Some (if d = 1 then length (nodes w) else d - 1)) \<and>
         (ticks_left w c = Some 1 \<longleftrightarrow> c \<in> nodes w ! next_node w (cur w)) \<and>
         wheel_ok (w\<lparr>cur := next_node w (cur w)\<rparr>)"
proof -
  have lt: "cur w < length (nodes w)" using assms by (simp add: wheel_ok_def)
  have nx: "next_node w (cur w) = (if Suc (cur w) = length (nodes w) then 0 else Suc (cur w))"
    using lt by (auto simp: next_node_def)
  have ok: "wheel_ok (w\<lparr>cur := next_node w (cur w)\<rparr>)"
    using assms lt by (auto simp: wheel_ok_def nx)
  have n: "node_of (w\<lparr>cur := next_node w (cur w)\<rparr>) = node_of w"
    by (auto simp: node_of_def)
  show ?thesis
  proof (cases "node_of w c")
    case None
    then show ?thesis
      using ok n lt None node_of_None [of w c] by (simp add: ticks_left_def) (auto simp: nx dest: spec [of _ 0])
  next
    case (Some i)
    then have i: "i < length (nodes w)" "c \<in> nodes w ! i"
      using assms by (simp_all add: node_of_Some)
    have "c \<in> nodes w ! next_node w (cur w) \<longleftrightarrow> i = next_node w (cur w)"
      using assms i lt node_of_Some [OF assms, of c "next_node w (cur w)"] Some
      by (auto simp: nx)
    then show ?thesis
      using Some ok n i lt by (auto simp: ticks_left_def dist_def nx)
  qed
qed

lemma without_ticks: "wheel_ok w \<Longrightarrow> ticks_left (without A w) c = (if c \<in> A then None else ticks_left w c)"
proof -
  assume ok: "wheel_ok w"
  have "node_of (without A w) c = (if c \<in> A then None else node_of w c)"
    using node_of_eqI [OF ok without_ok [OF ok, of A], of c]
    by (auto simp: node_of_None without_def)
  moreover have "dist (without A w) = dist w"
    by (rule dist_frame) (simp_all add: without_def)
  ultimately show ?thesis
    by (simp add: ticks_left_def)
qed

text \<open>
  C17. One tick of the time wheel, as the map from channels to the ticks they have left. The
  channels that run out are exactly those with one tick left: every alive one is timed out
  once, unless the callback of another one removed it first; all of them leave the wheel; and
  every other channel has one tick less, or is gone if a callback removed it.
\<close>

theorem clockJump_refines:
  assumes "wheel_ok w" "\<forall>S. finite S \<longrightarrow> S \<noteq> {} \<longrightarrow> begin' S \<in> S"
    "card {c. ticks_left w c = Some 1} < fuel"
  shows "\<exists>fired w'. clockJump fuel begin' alive cb w = Some (fired, w') \<and> wheel_ok w' \<and>
           distinct fired \<and> set fired \<subseteq> {c. ticks_left w c = Some 1 \<and> alive c} \<and>
           {c. ticks_left w c = Some 1 \<and> alive c} \<subseteq> set fired \<union> removed_by cb fired \<and>
           (\<forall>c. ticks_left w' c =
              (if c \<in> removed_by cb fired then None
               else case ticks_left w c of None \<Rightarrow> None | Some d \<Rightarrow> if d = 1 then None else Some (d - 1)))"
proof -
  let ?w = "w\<lparr>cur := next_node w (cur w)\<rparr>"
  have due: "{c. ticks_left w c = Some 1} = nodes ?w ! cur ?w"
    using jump_ticks [OF assms(1)] by auto
  have ok: "wheel_ok ?w"
    using jump_ticks [OF assms(1)] by blast
  obtain fired A where r: "clear_loop fuel begin' alive cb ?w = Some (fired, without A ?w)"
    "cleared {c. ticks_left w c = Some 1} alive cb fired A"
    using clear_loop_spec [OF ok assms(2), of fuel alive cb] assms(3) unfolding due by blast
  have alive: "{c \<in> {c. ticks_left w c = Some 1}. alive c} = {c. ticks_left w c = Some 1 \<and> alive c}"
    by blast
  show ?thesis
  proof (intro exI conjI allI)
    show "clockJump fuel begin' alive cb w = Some (fired, without A ?w)"
      using r(1) by (simp add: clockJump_def)
    show "wheel_ok (without A ?w)"
      by (rule without_ok [OF ok])
    show "distinct fired"
      using r(2) by (simp add: cleared_def)
    show "set fired \<subseteq> {c. ticks_left w c = Some 1 \<and> alive c}"
      using r(2) unfolding cleared_def alive by (elim conjE)
    show "{c. ticks_left w c = Some 1 \<and> alive c} \<subseteq> set fired \<union> removed_by cb fired"
      using r(2) unfolding cleared_def alive by (elim conjE)
    show "ticks_left (without A ?w) c =
        (if c \<in> removed_by cb fired then None
         else case ticks_left w c of None \<Rightarrow> None | Some d \<Rightarrow> if d = 1 then None else Some (d - 1))" for c
      using jump_ticks [OF assms(1), of c] without_ticks [OF ok, of A c] r(2)
      by (auto simp: cleared_def split: option.splits)
  qed
qed

theorem clockJump_refines_witness:
  "\<exists>fired w'. clockJump 2 Min (\<lambda>_. True) (\<lambda>c. [c]) \<lparr>nodes = [{}, {5}, {6}], cur = 0\<rparr> = Some (fired, w') \<and>
              set fired = {5}"
proof -
  let ?w = "\<lparr>nodes = [{}, {5}, {6}], cur = 0\<rparr> :: wheel"
  have ok: "wheel_ok ?w"
    by (auto simp: wheel_ok_def less_Suc_eq numeral_3_eq_3)
  have due: "{c. ticks_left ?w c = Some 1} = {5}"
    using jump_ticks [OF ok] by (auto simp: next_node_def)
  then have card: "card {c. ticks_left ?w c = Some 1} < 2" by simp
  have min: "\<forall>S :: nat set. finite S \<longrightarrow> S \<noteq> {} \<longrightarrow> Min S \<in> S" by simp
  obtain fired w' where "clockJump 2 Min (\<lambda>_. True) (\<lambda>c. [c]) ?w = Some (fired, w')"
    and "set fired \<subseteq> {c. ticks_left ?w c = Some 1 \<and> True}"
    and "{c. ticks_left ?w c = Some 1 \<and> True} \<subseteq> set fired \<union> removed_by (\<lambda>c. [c]) fired"
    using clockJump_refines [OF ok min card, of "\<lambda>_. True" "\<lambda>c. [c]"] by (elim exE conjE) (rule that)
  then have "set fired = {5}"
    using due by (simp add: removed_by_def)
  with \<open>clockJump 2 Min _ _ ?w = _\<close> show ?thesis by blast
qed

text \<open>
  Resetting a timer, as the map from channels to ticks: a new wheel holds no channel; an
  updated channel has a full round of ticks left wherever it was before; erasing a channel
  finds it in whichever node it is; a skipped one (listening socket, the timer itself, no
  descriptor) changes nothing; no other timer is affected.
\<close>

theorem timer_update_erase_refine:
  assumes "wheel_ok w"
  shows "wheel_ok (timer_updateChannel skip c w) \<and> wheel_ok (eraseChannel c w) \<and>
         ticks_left (timer_updateChannel skip c w) =
           (if skip then ticks_left w else (ticks_left w)(c \<mapsto> length (nodes w))) \<and>
         ticks_left (eraseChannel c w) = (ticks_left w)(c := None) \<and>
         ticks_left (init_wheel n) = Map.empty \<and> wheel_ok (init_wheel n)"
proof (cases skip)
  case True
  then show ?thesis
    using assms by (simp add: timer_updateChannel_def eraseChannel_ok erase_spec init_wheel_ok)
      (simp add: ticks_left_def init_wheel_ok fun_eq_iff)
next
  case False
  then show ?thesis
    using assms update_spec [OF assms, of c] by (simp add: eraseChannel_ok erase_spec init_wheel_ok)
      (simp add: ticks_left_def init_wheel_ok fun_eq_iff)
qed

theorem timer_update_erase_refine_witness:
  "ticks_left (timer_updateChannel False 4 (init_wheel 30)) = [4 \<mapsto> 30]"
  using timer_update_erase_refine [OF init_wheel_ok(1) [of 30], of False 4 30]
  by (simp add: init_wheel_def length_init_loop)

end
