(* ===== verification/Events.thy ===== *)
theory Events
  imports TimeWheel
begin

unbundle bit_operations_syntax

text \<open>
  \<open>net/Channel.cpp\<close>, \<open>net/EventsLoop.cpp\<close> and the event part of \<open>net/Socket.cpp\<close>: the
  channel objects, their registration with epoll, the timer wheel and the sockets, the
  deferred deletion of channels, and the dispatch of one batch of events. Channels and
  sockets are numbers; \<open>chans\<close> holds the channel objects that are allocated, so that a use
  of any other number is a use after free (\<open>None\<close>). \<open>sock_chan\<close>, \<open>sock_fd\<close> and
  \<open>sock_listen\<close> are the fields \<open>channelptr\<close>, \<open>sockfd_\<close> and \<open>listening\<close> of the sockets.
\<close>

abbreviation EVENT_CALLBACK_CONTINUE :: int where "EVENT_CALLBACK_CONTINUE \<equiv> 0"
abbreviation EVENT_CALLBACK_BREAK :: int where "EVENT_CALLBACK_BREAK \<equiv> 1"
abbreviation EVENT_CALLBACK_DROPWAITED :: int where "EVENT_CALLBACK_DROPWAITED \<equiv> 2"

type_synonym evf = "32 word"

abbreviation EPOLLIN :: evf where "EPOLLIN \<equiv> 0x1"
abbreviation EPOLLOUT :: evf where "EPOLLOUT \<equiv> 0x4"
abbreviation EPOLLERR :: evf where "EPOLLERR \<equiv> 0x8"
abbreviation EPOLLHUP :: evf where "EPOLLHUP \<equiv> 0x10"
abbreviation EPOLLRDHUP :: evf where "EPOLLRDHUP \<equiv> 0x2000"
abbreviation EPOLLONESHOT :: evf where "EPOLLONESHOT \<equiv> 0x40000000"
abbreviation EPOLLET :: evf where "EPOLLET \<equiv> 0x80000000"

record channel =
  readFlag :: bool
  writeFlag :: bool
  hupFlag :: bool
  edgeFlag :: bool
  keepFlag :: bool
  c_fd :: int
  c_sock :: nat
  before_cb :: "nat option"
  after_cb :: "nat option"
  readable_cb :: "nat option"
  writeable_cb :: "nat option"
  error_cb :: "nat option"
  rdhup_cb :: "nat option"
  timeout_cb :: "nat option"

record evloop =
  chans :: "nat \<rightharpoonup> channel"
  needDeleted :: "nat set"
  epoll :: "int \<rightharpoonup> evf \<times> nat"
  timer :: wheel
  running :: bool
  sock_chan :: "nat \<rightharpoonup> nat"
  sock_fd :: "nat \<Rightarrow> int"
  sock_listen :: "nat \<Rightarrow> bool"
  timer_sock :: nat

definition setEvents :: "bool \<Rightarrow> bool \<Rightarrow> bool \<Rightarrow> bool \<Rightarrow> channel \<Rightarrow> channel" where
  "setEvents rd wr edge keep ch =
     ch\<lparr>readFlag := rd, writeFlag := wr, hupFlag := True, edgeFlag := edge, keepFlag := keep\<rparr>"

definition new_Channel :: "int \<Rightarrow> nat \<Rightarrow> channel" where
  "new_Channel fd s =
     setEvents False False True True
       \<lparr>readFlag = False, writeFlag = False, hupFlag = False, edgeFlag = False, keepFlag = False,
        c_fd = fd, c_sock = s, before_cb = None, after_cb = None, readable_cb = None,
        writeable_cb = None, error_cb = None, rdhup_cb = None, timeout_cb = None\<rparr>"

definition transFlag :: "channel \<Rightarrow> evf" where
  "transFlag ch =
     ((if readFlag ch then EPOLLIN else 0) OR (if writeFlag ch then EPOLLOUT else 0) OR
      (if hupFlag ch then EPOLLRDHUP else 0) OR (if edgeFlag ch then EPOLLET else 0) OR
      (if \<not> keepFlag ch then EPOLLONESHOT else 0))"

subsection \<open>epoll registration\<close>

datatype epoll_op = CTL_ADD | CTL_MOD | CTL_DEL

text \<open>\<open>epoll_ctl\<close>, with the return value and \<open>errno\<close> the manual gives (9 is \<open>EBADF\<close>).\<close>

fun epoll_ctl :: "epoll_op \<Rightarrow> int \<Rightarrow> evf \<times> nat \<Rightarrow> evloop \<Rightarrow> (int \<times> int) \<times> evloop" where
  "epoll_ctl op fd ev l =
     (if fd < 0 then ((-1, 9), l)
      else case op of
             CTL_ADD \<Rightarrow> (if epoll l fd = None then ((0, 0), l\<lparr>epoll := (epoll l)(fd \<mapsto> ev)\<rparr>) else ((-1, EEXIST), l))
           | CTL_MOD \<Rightarrow> (if epoll l fd = None then ((-1, ENOENT), l) else ((0, 0), l\<lparr>epoll := (epoll l)(fd \<mapsto> ev)\<rparr>))
           | CTL_DEL \<Rightarrow> (if epoll l fd = None then ((-1, ENOENT), l) else ((0, 0), l\<lparr>epoll := (epoll l)(fd := None)\<rparr>)))"

declare epoll_ctl.simps [simp del]

definition ctlChannel :: "nat \<Rightarrow> epoll_op \<Rightarrow> evloop \<Rightarrow> ((int \<times> int) \<times> evloop) option" where
  "ctlChannel c op l =
     (case chans l c of
        None \<Rightarrow> None
      | Some ch \<Rightarrow> Some (epoll_ctl op (c_fd ch) (transFlag ch, c) l))"

definition loop_updateChannel :: "nat \<Rightarrow> evloop \<Rightarrow> (int \<times> evloop) option" where
  "loop_updateChannel c l =
     do { ((r, e), l1) \<leftarrow> ctlChannel c CTL_MOD l;
          if r = -1 then
            (if e = ENOENT then do { ((r', _), l2) \<leftarrow> ctlChannel c CTL_ADD l1; Some (r', l2) }
             else Some (-1, l1))
          else Some (0, l1) }"

definition addChannel :: "nat \<Rightarrow> evloop \<Rightarrow> (int \<times> evloop) option" where
  "addChannel c l =
     do { ((r, e), l1) \<leftarrow> ctlChannel c CTL_ADD l;
          if r = -1 then
            (if e = EEXIST then do { ((r', _), l2) \<leftarrow> ctlChannel c CTL_MOD l1; Some (r', l2) }
             else Some (-1, l1))
          else Some (0, l1) }"

definition removeChannel :: "nat \<Rightarrow> evloop \<Rightarrow> (int \<times> evloop) option" where
  "removeChannel c l =
     do { ((r, e), l1) \<leftarrow> ctlChannel c CTL_DEL l;
          if r = -1 then (if e = ENOENT then Some (0, l1) else Some (-1, l1)) else Some (0, l1) }"

definition sock_exist :: "nat \<Rightarrow> evloop \<Rightarrow> bool" where
  "sock_exist s l \<longleftrightarrow> 0 \<le> sock_fd l s"

definition isSkipChannel :: "channel \<Rightarrow> evloop \<Rightarrow> bool" where
  "isSkipChannel ch l \<longleftrightarrow> c_fd ch = -1 \<or>
     (sock_exist (c_sock ch) l \<and> sock_listen l (c_sock ch)) \<or> c_sock ch = timer_sock l"

definition touch_timer :: "nat \<Rightarrow> evloop \<Rightarrow> evloop option" where
  "touch_timer c l =
     (case chans l c of
        None \<Rightarrow> None
      | Some ch \<Rightarrow> Some (l\<lparr>timer := timer_updateChannel (isSkipChannel ch l) c (timer l)\<rparr>))"

text \<open>\<open>registerChannel\<close>; \<open>c\<close> is the address \<open>new Channel\<close> returns, one not in use.\<close>

definition registerChannel :: "nat \<Rightarrow> nat \<Rightarrow> evloop \<Rightarrow> (int \<times> evloop) option" where
  "registerChannel s c l =
     (if \<not> sock_exist s l then Some (-1, l)
      else case sock_chan l s of
             None \<Rightarrow>
               (let l1 = l\<lparr>chans := (chans l)(c \<mapsto> new_Channel (sock_fd l s) s),
                           sock_chan := (sock_chan l)(s \<mapsto> c)\<rparr>
                in do { l2 \<leftarrow> touch_timer c l1; addChannel c l2 })
           | Some c' \<Rightarrow> loop_updateChannel c' l)"

definition unregisterChannel :: "nat \<Rightarrow> evloop \<Rightarrow> (int \<times> evloop) option" where
  "unregisterChannel s l =
     (case sock_chan l s of
        None \<Rightarrow> Some (0, l)
      | Some c \<Rightarrow>
          do { (_, l1) \<leftarrow> removeChannel c l;
               ch \<leftarrow> chans l1 c;
               Some (0, l1\<lparr>chans := (chans l1)(c \<mapsto> ch\<lparr>c_fd := -1\<rparr>),
                           needDeleted := insert c (needDeleted l1),
                           timer := eraseChannel c (timer l1),
                           sock_chan := (sock_chan l1)(s := None)\<rparr>) })"

definition cleanNeedDeletedChannels :: "evloop \<Rightarrow> evloop option" where
  "cleanNeedDeletedChannels l =
     (if needDeleted l \<subseteq> dom (chans l)
      then Some (l\<lparr>chans := (\<lambda>c. if c \<in> needDeleted l then None else chans l c), needDeleted := {}\<rparr>)
      else None)"

subsection \<open>Channel and socket operations\<close>

definition enableReadEvent :: "nat \<Rightarrow> evloop \<Rightarrow> evloop option" where
  "enableReadEvent c l =
     do { ch \<leftarrow> chans l c;
          if readFlag ch then Some l
          else map_option snd (loop_updateChannel c (l\<lparr>chans := (chans l)(c \<mapsto> ch\<lparr>readFlag := True\<rparr>)\<rparr>)) }"

definition disableReadEvent :: "nat \<Rightarrow> evloop \<Rightarrow> evloop option" where
  "disableReadEvent c l =
     do { ch \<leftarrow> chans l c;
          if \<not> readFlag ch then Some l
          else map_option snd (loop_updateChannel c (l\<lparr>chans := (chans l)(c \<mapsto> ch\<lparr>readFlag := False\<rparr>)\<rparr>)) }"

definition enableWriteEvent :: "nat \<Rightarrow> evloop \<Rightarrow> evloop option" where
  "enableWriteEvent c l =
     do { ch \<leftarrow> chans l c;
          if writeFlag ch then Some l
          else map_option snd (loop_updateChannel c (l\<lparr>chans := (chans l)(c \<mapsto> ch\<lparr>writeFlag := True\<rparr>)\<rparr>)) }"

definition disableWriteEvent :: "nat \<Rightarrow> evloop \<Rightarrow> evloop option" where
  "disableWriteEvent c l =
     do { ch \<leftarrow> chans l c;
          if \<not> writeFlag ch then Some l
          else map_option snd (loop_updateChannel c (l\<lparr>chans := (chans l)(c \<mapsto> ch\<lparr>writeFlag := False\<rparr>)\<rparr>)) }"

definition disableAllEvent :: "nat \<Rightarrow> evloop \<Rightarrow> evloop option" where
  "disableAllEvent c l = do { l1 \<leftarrow> disableReadEvent c l; disableWriteEvent c l1 }"

definition Channel_remove :: "nat \<Rightarrow> evloop \<Rightarrow> evloop option" where
  "Channel_remove c l =
     do { l1 \<leftarrow> disableAllEvent c l;
          ch \<leftarrow> chans l1 c;
          map_option snd (unregisterChannel (c_sock ch) l1) }"

abbreviation SOCKET_EVENT_READ :: evf where "SOCKET_EVENT_READ \<equiv> 1"
abbreviation SOCKET_EVENT_WRITE :: evf where "SOCKET_EVENT_WRITE \<equiv> 2"
abbreviation SOCKET_EVENT_BEFORE :: evf where "SOCKET_EVENT_BEFORE \<equiv> 4"
abbreviation SOCKET_EVENT_AFTER :: evf where "SOCKET_EVENT_AFTER \<equiv> 8"
abbreviation SOCKET_EVENT_ERROR :: evf where "SOCKET_EVENT_ERROR \<equiv> 16"
abbreviation SOCKET_EVENT_RDHUP :: evf where "SOCKET_EVENT_RDHUP \<equiv> 32"
abbreviation SOCKET_EVENT_TIMEOUT :: evf where "SOCKET_EVENT_TIMEOUT \<equiv> 64"

definition enableEvent :: "nat \<Rightarrow> evf \<Rightarrow> evloop \<Rightarrow> (bool \<times> evloop) option" where
  "enableEvent s flags l =
     (case sock_chan l s of
        Some c \<Rightarrow>
          if sock_exist s l then
            do { l1 \<leftarrow> (if flags AND SOCKET_EVENT_READ \<noteq> 0 then enableReadEvent c l else Some l);
                 l2 \<leftarrow> (if flags AND SOCKET_EVENT_WRITE \<noteq> 0 then enableWriteEvent c l1 else Some l1);
                 Some (True, l2) }
          else Some (False, l)
      | None \<Rightarrow> Some (False, l))"

definition disableEvent :: "nat \<Rightarrow> evf \<Rightarrow> evloop \<Rightarrow> (bool \<times> evloop) option" where
  "disableEvent s flags l =
     (case sock_chan l s of
        Some c \<Rightarrow>
          if sock_exist s l then
            do { l1 \<leftarrow> (if flags AND SOCKET_EVENT_READ \<noteq> 0 then disableReadEvent c l else Some l);
                 l2 \<leftarrow> (if flags AND SOCKET_EVENT_WRITE \<noteq> 0 then disableWriteEvent c l1 else Some l1);
                 Some (True, l2) }
          else Some (False, l)
      | None \<Rightarrow> Some (False, l))"

definition set_callbacks :: "nat option \<Rightarrow> evf \<Rightarrow> channel \<Rightarrow> channel" where
  "set_callbacks f flag ch =
     ch\<lparr>readable_cb := (if flag AND SOCKET_EVENT_READ \<noteq> 0 then f else readable_cb ch),
        writeable_cb := (if flag AND SOCKET_EVENT_WRITE \<noteq> 0 then f else writeable_cb ch),
        error_cb := (if flag AND SOCKET_EVENT_ERROR \<noteq> 0 then f else error_cb ch),
        before_cb := (if flag AND SOCKET_EVENT_BEFORE \<noteq> 0 then f else before_cb ch),
        after_cb := (if flag AND SOCKET_EVENT_AFTER \<noteq> 0 then f else after_cb ch),
        rdhup_cb := (if flag AND SOCKET_EVENT_RDHUP \<noteq> 0 then f else rdhup_cb ch),
        timeout_cb := (if flag AND SOCKET_EVENT_TIMEOUT \<noteq> 0 then f else timeout_cb ch)\<rparr>"

definition setEventHandle :: "nat \<Rightarrow> nat option \<Rightarrow> evf \<Rightarrow> evloop \<Rightarrow> (bool \<times> evloop) option" where
  "setEventHandle s f flag l =
     (case sock_chan l s of
        None \<Rightarrow> Some (False, l)
      | Some c \<Rightarrow>
          do { ch \<leftarrow> chans l c; Some (True, l\<lparr>chans := (chans l)(c \<mapsto> set_callbacks f flag ch)\<rparr>) })"

subsection \<open>Dispatch\<close>

text \<open>What a callback may do to the loop: the operations above, through its sockets, and
  opening or closing a descriptor. The clock handler of the timer also advances the wheel and
  drops channels from its current node. A callback is the list of what it does, computed from
  the state it finds, and its return value.\<close>

datatype loop_op =
    Register nat nat | Unregister nat | RemoveSock nat | Enable nat evf | Disable nat evf
  | SetHandle nat "nat option" evf | SetFd nat int bool | Advance | DropTimer nat

fun loop_do :: "loop_op \<Rightarrow> evloop \<Rightarrow> evloop option" where
  "loop_do (Register s c) l =
     (if c \<in> dom (chans l) then Some l else map_option snd (registerChannel s c l))"
| "loop_do (Unregister s) l = map_option snd (unregisterChannel s l)"
| "loop_do (RemoveSock s) l =
     (case sock_chan l s of None \<Rightarrow> Some l
      | Some c \<Rightarrow> map_option (\<lambda>l1. l1\<lparr>sock_chan := (sock_chan l1)(s := None)\<rparr>) (Channel_remove c l))"
| "loop_do (Enable s f) l = map_option snd (enableEvent s f l)"
| "loop_do (Disable s f) l = map_option snd (disableEvent s f l)"
| "loop_do (SetHandle s h f) l = map_option snd (setEventHandle s h f l)"
| "loop_do (SetFd s fd lst) l =
     Some (l\<lparr>sock_fd := (sock_fd l)(s := fd), sock_listen := (sock_listen l)(s := lst)\<rparr>)"
| "loop_do Advance l = Some (l\<lparr>timer := (timer l)\<lparr>cur := next_node (timer l) (cur (timer l))\<rparr>\<rparr>)"
| "loop_do (DropTimer c) l = Some (l\<lparr>timer := eraseChannel c (timer l)\<rparr>)"

fun loop_dos :: "loop_op list \<Rightarrow> evloop \<Rightarrow> evloop option" where
  "loop_dos [] l = Some l"
| "loop_dos (x # xs) l = (case loop_do x l of None \<Rightarrow> None | Some l' \<Rightarrow> loop_dos xs l')"

type_synonym callbacks = "nat \<Rightarrow> nat \<Rightarrow> evloop \<Rightarrow> loop_op list \<times> int"

definition validChannel :: "nat \<Rightarrow> evloop \<Rightarrow> bool option" where
  "validChannel c l = map_option (\<lambda>ch. c_fd ch > 0) (chans l c)"

text \<open>One guarded callback of \<open>waitChannel\<close>; without one, or when the channel is not valid
  any more, the code goes on.\<close>

definition call_cb :: "callbacks \<Rightarrow> nat \<Rightarrow> bool \<Rightarrow> (channel \<Rightarrow> nat option) \<Rightarrow> evloop \<Rightarrow> (int \<times> evloop) option" where
  "call_cb cb c due sel l =
     do { ch \<leftarrow> chans l c;
          v \<leftarrow> validChannel c l;
          if due \<and> v then
            (case sel ch of
               None \<Rightarrow> Some (EVENT_CALLBACK_CONTINUE, l)
             | Some f \<Rightarrow>
                 (let (ops, ret) = cb f (c_sock ch) l
                  in do { l1 \<leftarrow> loop_dos ops l; Some (ret, l1) }))
          else Some (EVENT_CALLBACK_CONTINUE, l) }"

text \<open>The callbacks of one event in the order of the code; \<open>BREAK\<close> and \<open>DROPWAITED\<close> skip the
  remaining ones.\<close>

fun call_all :: "callbacks \<Rightarrow> nat \<Rightarrow> (bool \<times> (channel \<Rightarrow> nat option)) list \<Rightarrow> evloop \<Rightarrow> (int \<times> evloop) option" where
  "call_all cb c [] l = Some (EVENT_CALLBACK_CONTINUE, l)"
| "call_all cb c ((due, sel) # rest) l =
     (case call_cb cb c due sel l of
        None \<Rightarrow> None
      | Some (ret, l1) \<Rightarrow>
          if ret = EVENT_CALLBACK_BREAK \<or> ret = EVENT_CALLBACK_DROPWAITED then Some (ret, l1)
          else call_all cb c rest l1)"

definition event_order :: "evf \<Rightarrow> (bool \<times> (channel \<Rightarrow> nat option)) list" where
  "event_order ev =
     [(True, before_cb),
      (ev AND EPOLLRDHUP \<noteq> 0, rdhup_cb),
      (ev AND EPOLLHUP \<noteq> 0, error_cb),
      (ev AND EPOLLERR \<noteq> 0, error_cb),
      (ev AND EPOLLIN \<noteq> 0, readable_cb),
      (ev AND EPOLLOUT \<noteq> 0, writeable_cb),
      (True, after_cb)]"

fun wait_loop :: "callbacks \<Rightarrow> (nat \<times> evf) list \<Rightarrow> int \<Rightarrow> evloop \<Rightarrow> (int \<times> evloop) option" where
  "wait_loop cb [] num l = do { l1 \<leftarrow> cleanNeedDeletedChannels l; Some (num, l1) }"
| "wait_loop cb ((c, ev) # rest) num l =
     (case validChannel c l of
        None \<Rightarrow> None
      | Some False \<Rightarrow> wait_loop cb rest num l
      | Some True \<Rightarrow>
          (case chans l c of
             None \<Rightarrow> None
           | Some ch \<Rightarrow>
               if \<not> sock_exist (c_sock ch) l then wait_loop cb rest num l
               else
                 (case call_all cb c (event_order ev) l of
                    None \<Rightarrow> None
                  | Some (ret, l1) \<Rightarrow>
                      if ret = EVENT_CALLBACK_DROPWAITED
                      then do { l2 \<leftarrow> cleanNeedDeletedChannels l1; Some (EVENT_CALLBACK_DROPWAITED, l2) }
                      else (case touch_timer c l1 of None \<Rightarrow> None | Some l2 \<Rightarrow> wait_loop cb rest num l2))))"

text \<open>\<open>evs\<close> is what \<open>epoll_wait\<close> reports, \<open>None\<close> when it fails.\<close>

definition waitChannel :: "callbacks \<Rightarrow> (nat \<times> evf) list option \<Rightarrow> evloop \<Rightarrow> (int \<times> evloop) option" where
  "waitChannel cb evs l =
     (case evs of
        None \<Rightarrow> Some (-1, l\<lparr>running := False\<rparr>)
      | Some es \<Rightarrow> wait_loop cb es (int (length es)) l)"

text \<open>\<open>loop()\<close> on the batches the kernel reports, until it is stopped or they are used up.\<close>

fun run_loop :: "callbacks \<Rightarrow> (nat \<times> evf) list option list \<Rightarrow> evloop \<Rightarrow> evloop option" where
  "run_loop cb [] l = Some l"
| "run_loop cb (es # rest) l =
     (if \<not> running l then Some l
      else case waitChannel cb es l of None \<Rightarrow> None | Some (_, l1) \<Rightarrow> run_loop cb rest l1)"

subsection \<open>The invariant of the loop\<close>

text \<open>Every reference to a channel (timer wheel, socket, epoll) is to an allocated one; the
  ones waiting for deletion have no descriptor and nothing refers to them.\<close>

definition timer_refs :: "evloop \<Rightarrow> bool" where
  "timer_refs l \<longleftrightarrow> wheel_ok (timer l) \<and>
     (\<forall>c. node_of (timer l) c \<noteq> None \<longrightarrow> (\<exists>ch. chans l c = Some ch \<and> c_fd ch \<noteq> -1))"

definition doomed_refs :: "evloop \<Rightarrow> bool" where
  "doomed_refs l \<longleftrightarrow> (\<forall>c \<in> needDeleted l. \<exists>ch. chans l c = Some ch \<and> c_fd ch = -1)"

definition sock_refs :: "evloop \<Rightarrow> bool" where
  "sock_refs l \<longleftrightarrow> (\<forall>s c. sock_chan l s = Some c \<longrightarrow>
     c \<notin> needDeleted l \<and> (\<exists>ch. chans l c = Some ch \<and> c_sock ch = s))"

definition epoll_refs :: "evloop \<Rightarrow> bool" where
  "epoll_refs l \<longleftrightarrow> (\<forall>fd ev c. epoll l fd = Some (ev, c) \<longrightarrow>
     0 \<le> fd \<and> (\<exists>ch. chans l c = Some ch \<and> c_fd ch = fd))"

definition loop_ok :: "evloop \<Rightarrow> bool" where
  "loop_ok l \<longleftrightarrow> timer_refs l \<and> doomed_refs l \<and> sock_refs l \<and> epoll_refs l"

lemmas refs_defs = loop_ok_def timer_refs_def doomed_refs_def sock_refs_def epoll_refs_def

text \<open>A step that is defined, keeps the invariant and frees no channel.\<close>

definition ok_step :: "evloop \<Rightarrow> evloop option \<Rightarrow> bool" where
  "ok_step l r \<longleftrightarrow> (\<exists>l'. r = Some l' \<and> loop_ok l' \<and> dom (chans l) \<subseteq> dom (chans l'))"

lemma ok_stepI: "loop_ok l' \<Longrightarrow> dom (chans l) \<subseteq> dom (chans l') \<Longrightarrow> ok_step l (Some l')"
  by (simp add: ok_step_def)

lemma ok_step_refl: "loop_ok l \<Longrightarrow> ok_step l (Some l)"
  by (rule ok_stepI) auto

lemma ok_step_bind:
  assumes "ok_step l r" "\<And>l1. loop_ok l1 \<Longrightarrow> dom (chans l) \<subseteq> dom (chans l1) \<Longrightarrow> ok_step l1 (f l1)"
  shows "ok_step l (r \<bind> f)"
proof -
  obtain l1 where l1: "r = Some l1" "loop_ok l1" "dom (chans l) \<subseteq> dom (chans l1)"
    using assms(1) by (auto simp: ok_step_def)
  then obtain l2 where "f l1 = Some l2" "loop_ok l2" "dom (chans l1) \<subseteq> dom (chans l2)"
    using assms(2) [of l1] unfolding ok_step_def by blast
  then show ?thesis
    using l1 by (auto simp: ok_step_def)
qed

lemma loop_ok_chan:
  assumes "loop_ok l" "chans l c = Some ch" "c_fd ch' = c_fd ch" "c_sock ch' = c_sock ch"
  shows "loop_ok (l\<lparr>chans := (chans l)(c \<mapsto> ch')\<rparr>)"
proof -
  have "timer_refs (l\<lparr>chans := (chans l)(c \<mapsto> ch')\<rparr>)" "doomed_refs (l\<lparr>chans := (chans l)(c \<mapsto> ch')\<rparr>)"
    "sock_refs (l\<lparr>chans := (chans l)(c \<mapsto> ch')\<rparr>)" "epoll_refs (l\<lparr>chans := (chans l)(c \<mapsto> ch')\<rparr>)"
    using assms by (fastforce simp: refs_defs)+
  then show ?thesis by (simp add: loop_ok_def)
qed

lemma chan_step:
  "loop_ok l \<Longrightarrow> chans l c = Some ch \<Longrightarrow> c_fd ch' = c_fd ch \<Longrightarrow> c_sock ch' = c_sock ch \<Longrightarrow>
   ok_step l (Some (l\<lparr>chans := (chans l)(c \<mapsto> ch')\<rparr>))"
  by (rule ok_stepI) (auto intro: loop_ok_chan)

lemma epoll_ctl_epoll:
  "\<exists>e. snd (epoll_ctl op fd ev l) = l\<lparr>epoll := e\<rparr> \<and>
       (\<forall>fd' x. e fd' = Some x \<longrightarrow> epoll l fd' = Some x \<or> (fd' = fd \<and> 0 \<le> fd \<and> x = ev))"
proof -
  have "l = l\<lparr>epoll := epoll l\<rparr>" by simp
  moreover have "snd (epoll_ctl op fd ev l) \<in> {l, l\<lparr>epoll := (epoll l)(fd \<mapsto> ev)\<rparr>, l\<lparr>epoll := (epoll l)(fd := None)\<rparr>}"
    "fd < 0 \<Longrightarrow> snd (epoll_ctl op fd ev l) = l"
    by (cases op; simp add: epoll_ctl.simps)+
  ultimately consider "snd (epoll_ctl op fd ev l) = l\<lparr>epoll := epoll l\<rparr>"
    | "0 \<le> fd" "snd (epoll_ctl op fd ev l) = l\<lparr>epoll := (epoll l)(fd \<mapsto> ev)\<rparr>"
    | "snd (epoll_ctl op fd ev l) = l\<lparr>epoll := (epoll l)(fd := None)\<rparr>"
    by (cases "fd < 0") auto
  then show ?thesis
    by cases (rule exI, rule conjI, assumption, simp)+
qed

lemma epoll_step:
  assumes "loop_ok l" "chans l c = Some ch"
  shows "loop_ok (snd (epoll_ctl op (c_fd ch) (ev, c) l)) \<and>
         chans (snd (epoll_ctl op (c_fd ch) (ev, c) l)) = chans l \<and>
         needDeleted (snd (epoll_ctl op (c_fd ch) (ev, c) l)) = needDeleted l \<and>
         timer (snd (epoll_ctl op (c_fd ch) (ev, c) l)) = timer l \<and>
         sock_chan (snd (epoll_ctl op (c_fd ch) (ev, c) l)) = sock_chan l"
proof -
  obtain e where e: "snd (epoll_ctl op (c_fd ch) (ev, c) l) = l\<lparr>epoll := e\<rparr>"
    "\<And>fd' x. e fd' = Some x \<Longrightarrow> epoll l fd' = Some x \<or> (fd' = c_fd ch \<and> 0 \<le> c_fd ch \<and> x = (ev, c))"
    using epoll_ctl_epoll [of op "c_fd ch" "(ev, c)" l] by blast
  have "epoll_refs (l\<lparr>epoll := e\<rparr>)"
    using assms e(2) unfolding loop_ok_def epoll_refs_def by fastforce
  moreover have "timer_refs (l\<lparr>epoll := e\<rparr>)" "doomed_refs (l\<lparr>epoll := e\<rparr>)" "sock_refs (l\<lparr>epoll := e\<rparr>)"
    using assms by (simp_all add: refs_defs)
  ultimately show ?thesis using e(1) by (simp add: loop_ok_def)
qed

lemma loop_updateChannel_step:
  assumes "loop_ok l" "chans l c = Some ch"
  shows "ok_step l (map_option snd (loop_updateChannel c l))"
proof -
  let ?x = "epoll_ctl CTL_MOD (c_fd ch) (transFlag ch, c) l"
  obtain r e l1 where x: "?x = ((r, e), l1)" by (cases ?x) auto
  have 1: "loop_ok l1 \<and> chans l1 = chans l"
    using epoll_step [OF assms, of CTL_MOD "transFlag ch"] x by simp
  obtain r' e' l2 where y: "epoll_ctl CTL_ADD (c_fd ch) (transFlag ch, c) l1 = ((r', e'), l2)"
    by (cases "epoll_ctl CTL_ADD (c_fd ch) (transFlag ch, c) l1") auto
  have 2: "loop_ok l2 \<and> chans l2 = chans l1"
    using epoll_step [of l1 c ch CTL_ADD "transFlag ch"] 1 assms y by simp
  show ?thesis
    using assms x y 1 2 by (auto simp: loop_updateChannel_def ctlChannel_def ok_step_def)
qed

lemma addChannel_step:
  assumes "loop_ok l" "chans l c = Some ch"
  shows "ok_step l (map_option snd (addChannel c l))"
proof -
  let ?x = "epoll_ctl CTL_ADD (c_fd ch) (transFlag ch, c) l"
  obtain r e l1 where x: "?x = ((r, e), l1)" by (cases ?x) auto
  have 1: "loop_ok l1 \<and> chans l1 = chans l"
    using epoll_step [OF assms, of CTL_ADD "transFlag ch"] x by simp
  obtain r' e' l2 where y: "epoll_ctl CTL_MOD (c_fd ch) (transFlag ch, c) l1 = ((r', e'), l2)"
    by (cases "epoll_ctl CTL_MOD (c_fd ch) (transFlag ch, c) l1") auto
  have 2: "loop_ok l2 \<and> chans l2 = chans l1"
    using epoll_step [of l1 c ch CTL_MOD "transFlag ch"] 1 assms y by simp
  show ?thesis
    using assms x y 1 2 by (auto simp: addChannel_def ctlChannel_def ok_step_def)
qed

text \<open>Removing a channel from epoll leaves no entry for it.\<close>

lemma removeChannel_gone:
  assumes "loop_ok l" "chans l c = Some ch"
  shows "\<exists>r l1. removeChannel c l = Some (r, l1) \<and> loop_ok l1 \<and> chans l1 = chans l \<and>
           needDeleted l1 = needDeleted l \<and> timer l1 = timer l \<and> sock_chan l1 = sock_chan l \<and>
           (\<forall>fd ev. epoll l1 fd \<noteq> Some (ev, c))"
proof -
  let ?x = "epoll_ctl CTL_DEL (c_fd ch) (transFlag ch, c) l"
  obtain r e l1 where x: "?x = ((r, e), l1)" by (cases ?x) auto
  have "\<And>fd ev. epoll l fd = Some (ev, c) \<Longrightarrow> fd = c_fd ch \<and> 0 \<le> fd"
    using assms unfolding loop_ok_def epoll_refs_def by fastforce
  then have "\<forall>fd ev. epoll l1 fd \<noteq> Some (ev, c)"
    using x by (fastforce simp: epoll_ctl.simps split: if_splits)
  then show ?thesis
    using epoll_step [OF assms, of CTL_DEL "transFlag ch"] x assms
    by (auto simp: removeChannel_def ctlChannel_def)
qed

lemma touch_timer_step:
  assumes "loop_ok l" "c \<in> dom (chans l)"
  shows "ok_step l (touch_timer c l)"
proof -
  obtain ch where ch: "chans l c = Some ch" using assms(2) by blast
  let ?t = "timer_updateChannel (isSkipChannel ch l) c (timer l)"
  have "wheel_ok (timer l)" using assms(1) by (simp add: refs_defs)
  note u = update_members [OF this, of "isSkipChannel ch l" c]
  have "c_fd ch \<noteq> -1" if "\<not> isSkipChannel ch l"
    using that by (auto simp: isSkipChannel_def)
  then have "timer_refs (l\<lparr>timer := ?t\<rparr>)"
    using assms(1) u ch unfolding loop_ok_def timer_refs_def by auto
  moreover have "doomed_refs (l\<lparr>timer := ?t\<rparr>)" "sock_refs (l\<lparr>timer := ?t\<rparr>)" "epoll_refs (l\<lparr>timer := ?t\<rparr>)"
    using assms(1) by (simp_all add: refs_defs)
  ultimately show ?thesis
    using ch by (simp add: touch_timer_def ok_step_def loop_ok_def)
qed

lemma register_step:
  assumes "loop_ok l" "c \<notin> dom (chans l)"
  shows "ok_step l (map_option snd (registerChannel s c l))"
proof (cases "sock_chan l s")
  case None
  let ?l = "l\<lparr>chans := (chans l)(c \<mapsto> new_Channel (sock_fd l s) s), sock_chan := (sock_chan l)(s \<mapsto> c)\<rparr>"
  have nd: "c \<notin> needDeleted l"
    using assms by (auto simp: loop_ok_def doomed_refs_def)
  have new: "chans l c = None" using assms(2) by blast
  have sub: "chans l d = Some ch \<Longrightarrow> chans ?l d = Some ch" for d ch
    using new by auto
  have same: "timer ?l = timer l" "needDeleted ?l = needDeleted l" "epoll ?l = epoll l" by simp_all
  have "timer_refs ?l"
    using assms(1) sub unfolding loop_ok_def timer_refs_def same by blast
  moreover have "epoll_refs ?l"
    using assms(1) sub unfolding loop_ok_def epoll_refs_def same by blast
  moreover have "doomed_refs ?l"
    using assms(1) sub unfolding loop_ok_def doomed_refs_def same by blast
  moreover have "sock_chan l sa \<noteq> Some c" for sa
    using assms(1) new unfolding loop_ok_def sock_refs_def by fastforce
  then have "sock_refs ?l"
    using assms(1) new nd unfolding loop_ok_def sock_refs_def by (auto simp: new_Channel_def setEvents_def)
  ultimately have ok: "loop_ok ?l" by (simp add: loop_ok_def)
  have "ok_step ?l (touch_timer c ?l \<bind> (\<lambda>l2. map_option snd (addChannel c l2)))"
    using ok by (intro ok_step_bind touch_timer_step) (auto intro!: addChannel_step)
  then show ?thesis
    using None assms by (cases "touch_timer c ?l")
      (auto simp: registerChannel_def ok_step_def Let_def map_option_case split: option.splits)
next
  case (Some c')
  then obtain ch where "chans l c' = Some ch"
    using assms(1) unfolding loop_ok_def sock_refs_def by blast
  then show ?thesis
    using Some assms loop_updateChannel_step by (simp add: registerChannel_def ok_step_refl)
qed

lemma unregister_step:
  assumes "loop_ok l"
  shows "ok_step l (map_option snd (unregisterChannel s l))"
proof (cases "sock_chan l s")
  case None
  then show ?thesis using assms by (simp add: unregisterChannel_def ok_step_refl)
next
  case (Some c)
  then obtain ch where ch: "chans l c = Some ch" "c_sock ch = s"
    using assms unfolding loop_ok_def sock_refs_def by blast
  obtain r l1 where l1: "removeChannel c l = Some (r, l1)" "loop_ok l1" "chans l1 = chans l"
    "needDeleted l1 = needDeleted l" "timer l1 = timer l" "sock_chan l1 = sock_chan l"
    "\<And>fd ev. epoll l1 fd \<noteq> Some (ev, c)"
    using removeChannel_gone [OF assms ch(1)] by blast
  let ?l = "l1\<lparr>chans := (chans l1)(c \<mapsto> ch\<lparr>c_fd := -1\<rparr>), needDeleted := insert c (needDeleted l1),
               timer := eraseChannel c (timer l1), sock_chan := (sock_chan l1)(s := None)\<rparr>"
  have w: "wheel_ok (timer l1)" using l1(2) by (simp add: refs_defs)
  have "timer_refs ?l"
    using l1(2) w by (auto simp: loop_ok_def timer_refs_def eraseChannel_ok eraseChannel_node)
  moreover have "doomed_refs ?l"
    using l1(2) by (auto simp: loop_ok_def doomed_refs_def)
  moreover have "sock_refs ?l"
    using l1(2,3) ch by (fastforce simp: loop_ok_def sock_refs_def)
  moreover have "epoll_refs ?l"
    using l1(2,7) unfolding loop_ok_def epoll_refs_def by fastforce
  ultimately show ?thesis
    using l1 ch Some by (auto simp: unregisterChannel_def ok_step_def loop_ok_def)
qed

lemma flag_step:
  assumes "loop_ok l" "chans l c = Some ch" "c_fd ch' = c_fd ch" "c_sock ch' = c_sock ch"
  shows "ok_step l (map_option snd (loop_updateChannel c (l\<lparr>chans := (chans l)(c \<mapsto> ch')\<rparr>)))"
proof -
  have "ok_step (l\<lparr>chans := (chans l)(c \<mapsto> ch')\<rparr>)
          (map_option snd (loop_updateChannel c (l\<lparr>chans := (chans l)(c \<mapsto> ch')\<rparr>)))"
    using loop_ok_chan [OF assms] by (intro loop_updateChannel_step) auto
  then show ?thesis by (auto simp: ok_step_def)
qed

lemma channel_event_steps:
  assumes "loop_ok l" "c \<in> dom (chans l)"
  shows "ok_step l (enableReadEvent c l)" "ok_step l (disableReadEvent c l)"
    "ok_step l (enableWriteEvent c l)" "ok_step l (disableWriteEvent c l)"
  using assms
  by (auto simp: enableReadEvent_def disableReadEvent_def enableWriteEvent_def disableWriteEvent_def
      intro!: flag_step ok_step_refl)

lemma disableAll_step:
  assumes "loop_ok l" "c \<in> dom (chans l)"
  shows "ok_step l (disableAllEvent c l)"
  unfolding disableAllEvent_def
  using assms by (intro ok_step_bind channel_event_steps) auto

lemma remove_step:
  assumes "loop_ok l" "c \<in> dom (chans l)"
  shows "ok_step l (Channel_remove c l)"
  unfolding Channel_remove_def
proof (rule ok_step_bind [OF disableAll_step [OF assms]])
  fix l1 assume l1: "loop_ok l1" "dom (chans l) \<subseteq> dom (chans l1)"
  then obtain ch where "chans l1 c = Some ch" using assms(2) by blast
  then show "ok_step l1 (chans l1 c \<bind> (\<lambda>ch. map_option snd (unregisterChannel (c_sock ch) l1)))"
    using unregister_step [OF l1(1)] by simp
qed

lemma ok_step_if: "(b \<Longrightarrow> ok_step l x) \<Longrightarrow> (\<not> b \<Longrightarrow> ok_step l y) \<Longrightarrow> ok_step l (if b then x else y)"
  by simp

lemma bind_pair: "map_option snd (r \<bind> (\<lambda>l1. g l1 \<bind> (\<lambda>l2. Some (b, l2)))) = r \<bind> g"
proof (cases r)
  case (Some a)
  then show ?thesis by (cases "g a") simp_all
qed simp

lemma enable_step:
  assumes "loop_ok l"
  shows "ok_step l (map_option snd (enableEvent s f l))" "ok_step l (map_option snd (disableEvent s f l))"
proof -
  have dom: "c \<in> dom (chans l)" if "sock_chan l s = Some c" for c
    using assms that unfolding loop_ok_def sock_refs_def by blast
  have two: "ok_step l ((if a then g l else Some l) \<bind> (\<lambda>l1. if b then h l1 else Some l1))"
    if "\<And>l. loop_ok l \<Longrightarrow> c \<in> dom (chans l) \<Longrightarrow> ok_step l (g l)"
       "\<And>l. loop_ok l \<Longrightarrow> c \<in> dom (chans l) \<Longrightarrow> ok_step l (h l)" "c \<in> dom (chans l)" for a b c g h
    using assms that by (intro ok_step_bind ok_step_if ok_step_refl) blast+
  show "ok_step l (map_option snd (enableEvent s f l))"
  proof (cases "sock_chan l s")
    case (Some c)
    show ?thesis
      using two [where g = "enableReadEvent c" and h = "enableWriteEvent c" and c = c
          and a = "f AND SOCKET_EVENT_READ \<noteq> 0" and b = "f AND SOCKET_EVENT_WRITE \<noteq> 0",
          OF channel_event_steps(1) channel_event_steps(3) dom [OF Some]] assms Some
      by (simp add: enableEvent_def bind_pair ok_step_refl)
  qed (simp add: enableEvent_def ok_step_refl assms)
  show "ok_step l (map_option snd (disableEvent s f l))"
  proof (cases "sock_chan l s")
    case (Some c)
    show ?thesis
      using two [where g = "disableReadEvent c" and h = "disableWriteEvent c" and c = c
          and a = "f AND SOCKET_EVENT_READ \<noteq> 0" and b = "f AND SOCKET_EVENT_WRITE \<noteq> 0",
          OF channel_event_steps(2) channel_event_steps(4) dom [OF Some]] assms Some
      by (simp add: disableEvent_def bind_pair ok_step_refl)
  qed (simp add: disableEvent_def ok_step_refl assms)
qed

lemma handle_step:
  assumes "loop_ok l"
  shows "ok_step l (map_option snd (setEventHandle s h f l))"
proof (cases "sock_chan l s")
  case None
  then show ?thesis using assms by (simp add: setEventHandle_def ok_step_refl)
next
  case (Some c)
  then obtain ch where ch: "chans l c = Some ch"
    using assms unfolding loop_ok_def sock_refs_def by blast
  have "ok_step l (Some (l\<lparr>chans := (chans l)(c \<mapsto> set_callbacks h f ch)\<rparr>))"
    using assms ch by (rule chan_step) (simp_all add: set_callbacks_def)
  then show ?thesis using Some ch by (simp add: setEventHandle_def)
qed

lemma loop_ok_timer:
  assumes "loop_ok l" "wheel_ok t" "\<And>c. node_of t c \<noteq> None \<Longrightarrow> node_of (timer l) c \<noteq> None"
  shows "loop_ok (l\<lparr>timer := t\<rparr>)"
  using assms unfolding refs_defs by auto

lemma loop_do_step:
  assumes "loop_ok l"
  shows "ok_step l (loop_do x l)"
proof (cases x)
  case (Register s c)
  then show ?thesis using assms register_step ok_step_refl by auto
next
  case (Unregister s)
  then show ?thesis using assms unregister_step by simp
next
  case (RemoveSock s)
  show ?thesis
  proof (cases "sock_chan l s")
    case None
    then show ?thesis using assms RemoveSock ok_step_refl by simp
  next
    case (Some c)
    then have "ok_step l (Channel_remove c l)"
      using assms by (intro remove_step) (auto simp: loop_ok_def sock_refs_def)
    moreover have "loop_ok (l1\<lparr>sock_chan := (sock_chan l1)(s := None)\<rparr>)" if "loop_ok l1" for l1
      using that unfolding refs_defs by auto
    ultimately show ?thesis
      using Some RemoveSock by (auto simp: ok_step_def)
  qed
next
  case (Enable s f)
  then show ?thesis using assms enable_step(1) by simp
next
  case (Disable s f)
  then show ?thesis using assms enable_step(2) by simp
next
  case (SetHandle s h f)
  then show ?thesis using assms handle_step by simp
next
  case (SetFd s fd lst)
  have "loop_ok (l\<lparr>sock_fd := (sock_fd l)(s := fd), sock_listen := (sock_listen l)(s := lst)\<rparr>)"
    using assms by (simp add: refs_defs)
  then show ?thesis using SetFd by (simp add: ok_step_def)
next
  case Advance
  have "wheel_ok (timer l)" using assms by (simp add: refs_defs)
  then have "loop_ok (l\<lparr>timer := (timer l)\<lparr>cur := next_node (timer l) (cur (timer l))\<rparr>\<rparr>)"
    using assms jump_ticks by (intro loop_ok_timer) (auto simp: node_of_def)
  then show ?thesis using Advance by (simp add: ok_step_def)
next
  case (DropTimer c)
  have "wheel_ok (timer l)" using assms by (simp add: refs_defs)
  then have "loop_ok (l\<lparr>timer := eraseChannel c (timer l)\<rparr>)"
    using assms by (intro loop_ok_timer) (auto simp: eraseChannel_ok eraseChannel_node split: if_splits)
  then show ?thesis using DropTimer by (simp add: ok_step_def)
qed

lemma loop_dos_step: "loop_ok l \<Longrightarrow> ok_step l (loop_dos xs l)"
proof (induction xs arbitrary: l)
  case Nil
  then show ?case by (simp add: ok_step_refl)
next
  case (Cons x xs)
  obtain l1 where "loop_do x l = Some l1" "loop_ok l1" "dom (chans l) \<subseteq> dom (chans l1)"
    using loop_do_step [OF Cons.prems, of x] by (auto simp: ok_step_def)
  then show ?case
    using Cons.IH [of l1] by (auto simp: ok_step_def)
qed

subsection \<open>Dispatch is safe\<close>

definition ok_result :: "evloop \<Rightarrow> (int \<times> evloop) option \<Rightarrow> bool" where
  "ok_result l r \<longleftrightarrow> ok_step l (map_option snd r)"

lemma call_cb_step:
  assumes "loop_ok l" "c \<in> dom (chans l)"
  shows "ok_result l (call_cb cb c due sel l)"
proof -
  obtain ch where ch: "chans l c = Some ch" using assms(2) by blast
  show ?thesis
  proof (cases "due \<and> 0 < c_fd ch \<and> sel ch \<noteq> None")
    case True
    then obtain f where f: "sel ch = Some f" by blast
    obtain ops ret where p: "cb f (c_sock ch) l = (ops, ret)" by fastforce
    have "ok_step l (loop_dos ops l)" using assms(1) by (rule loop_dos_step)
    then show ?thesis
      using True ch f p by (auto simp: ok_result_def call_cb_def validChannel_def ok_step_def)
  next
    case False
    then show ?thesis
      using ch ok_step_refl [OF assms(1)]
      by (auto simp: ok_result_def call_cb_def validChannel_def split: option.split)
  qed
qed

lemma call_all_step:
  "loop_ok l \<Longrightarrow> c \<in> dom (chans l) \<Longrightarrow> ok_result l (call_all cb c cs l)"
proof (induction cs arbitrary: l)
  case Nil
  then show ?case by (simp add: ok_result_def ok_step_refl)
next
  case (Cons x cs)
  obtain due sel where x: "x = (due, sel)" by fastforce
  obtain ret l1 where l1: "call_cb cb c due sel l = Some (ret, l1)" "loop_ok l1" "dom (chans l) \<subseteq> dom (chans l1)"
    using call_cb_step [OF Cons.prems, of cb due sel] by (auto simp: ok_result_def ok_step_def)
  then have "ok_result l1 (call_all cb c cs l1)"
    using Cons by blast
  then show ?case
    using l1 x by (auto simp: ok_result_def ok_step_def)
qed

lemma clean_ok:
  assumes "loop_ok l"
  shows "\<exists>l'. cleanNeedDeletedChannels l = Some l' \<and> loop_ok l' \<and> needDeleted l' = {}"
proof -
  have sub: "needDeleted l \<subseteq> dom (chans l)"
    using assms by (auto simp: loop_ok_def doomed_refs_def)
  let ?l = "l\<lparr>chans := (\<lambda>c. if c \<in> needDeleted l then None else chans l c), needDeleted := {}\<rparr>"
  have d: "\<And>c ch. c \<in> needDeleted l \<Longrightarrow> chans l c = Some ch \<Longrightarrow> c_fd ch = -1"
    using assms by (fastforce simp: loop_ok_def doomed_refs_def)
  have "timer_refs ?l" "doomed_refs ?l" "sock_refs ?l" "epoll_refs ?l"
    using assms d by (fastforce simp: refs_defs)+
  then show ?thesis
    using sub by (simp add: cleanNeedDeletedChannels_def loop_ok_def)
qed

lemma wait_loop_ok:
  "loop_ok l \<Longrightarrow> \<forall>(c, ev) \<in> set es. c \<in> dom (chans l) \<Longrightarrow>
   \<exists>ret l'. wait_loop cb es num l = Some (ret, l') \<and> loop_ok l' \<and> needDeleted l' = {}"
proof (induction es arbitrary: l)
  case Nil
  then show ?case using clean_ok [of l] by auto
next
  case (Cons x es)
  obtain c ev where x: "x = (c, ev)" by fastforce
  obtain ch where ch: "chans l c = Some ch" using Cons.prems(2) x by auto
  have rest: "\<forall>(c, ev) \<in> set es. c \<in> dom (chans l)" using Cons.prems(2) by simp
  show ?case
  proof (cases "0 < c_fd ch \<and> sock_exist (c_sock ch) l")
    case False
    then show ?thesis
      using Cons.IH [OF Cons.prems(1) rest] ch x by (auto simp: validChannel_def split: bool.split)
  next
    case True
    obtain ret l1 where l1: "call_all cb c (event_order ev) l = Some (ret, l1)" "loop_ok l1"
      "dom (chans l) \<subseteq> dom (chans l1)"
      using call_all_step [OF Cons.prems(1), of c cb "event_order ev"] ch
      by (auto simp: ok_result_def ok_step_def)
    show ?thesis
    proof (cases "ret = EVENT_CALLBACK_DROPWAITED")
      case True
      then show ?thesis
        using clean_ok [OF l1(2)] l1(1) ch x \<open>0 < c_fd ch \<and> sock_exist (c_sock ch) l\<close>
        by (auto simp: validChannel_def)
    next
      case False
      obtain l2 where l2: "touch_timer c l1 = Some l2" "loop_ok l2" "dom (chans l1) \<subseteq> dom (chans l2)"
        using touch_timer_step [OF l1(2), of c] l1(3) ch by (auto simp: ok_step_def)
      have "\<forall>(c, ev) \<in> set es. c \<in> dom (chans l2)"
        using rest l1(3) l2(3) by fastforce
      then show ?thesis
        using Cons.IH [OF l2(2)] False l1(1) l2(1) ch x \<open>0 < c_fd ch \<and> sock_exist (c_sock ch) l\<close>
        by (auto simp: validChannel_def)
    qed
  qed
qed

text \<open>
  C5. Dispatching a batch of events is memory safe, whatever the callbacks do: epoll reports
  channels of its interest list, callbacks register, remove, close and time out any sockets in
  any order, and still no channel is used after it was deleted, every reference left behind
  (socket, epoll, timer wheel) is to an allocated channel, and at the end of the batch exactly
  the channels given up have been deleted.
\<close>

theorem waitChannel_safe:
  assumes "loop_ok l" "\<forall>(c, ev) \<in> set es. \<exists>fd ev'. epoll l fd = Some (ev', c)"
  shows "\<exists>ret l'. waitChannel cb (Some es) l = Some (ret, l') \<and> loop_ok l' \<and> needDeleted l' = {}"
proof -
  have "\<forall>(c, ev) \<in> set es. c \<in> dom (chans l)"
    using assms unfolding loop_ok_def epoll_refs_def by fastforce
  then show ?thesis
    using wait_loop_ok [OF assms(1)] by (simp add: waitChannel_def)
qed

definition demo_loop :: evloop where
  "demo_loop = \<lparr>chans = Map.empty, needDeleted = {}, epoll = Map.empty, timer = init_wheel 30,
                running = True, sock_chan = Map.empty, sock_fd = (\<lambda>s. int s), sock_listen = (\<lambda>_. False),
                timer_sock = 0\<rparr>"

lemma demo_loop_ok: "loop_ok demo_loop"
  using init_wheel_ok by (simp add: refs_defs demo_loop_def)

text \<open>Two connections; the first one's read callback closes the second.\<close>

definition demo_loop2 :: evloop where
  "demo_loop2 = the (loop_dos [Register 5 100, SetHandle 5 (Some 1) SOCKET_EVENT_READ,
                               Register 6 101, SetHandle 6 (Some 2) SOCKET_EVENT_READ] demo_loop)"

lemma demo_loop2_ok: "loop_ok demo_loop2"
  using loop_dos_step [OF demo_loop_ok] unfolding demo_loop2_def ok_step_def by (metis option.sel)

lemma demo_loop2_epoll: "epoll demo_loop2 5 \<noteq> None" "epoll demo_loop2 6 \<noteq> None"
  "\<exists>e. epoll demo_loop2 5 = Some (e, 100)" "\<exists>e. epoll demo_loop2 6 = Some (e, 101)"
  by (simp_all add: demo_loop2_def demo_loop_def registerChannel_def sock_exist_def touch_timer_def
      addChannel_def ctlChannel_def new_Channel_def setEvents_def epoll_ctl.simps setEventHandle_def
      set_callbacks_def)

theorem waitChannel_safe_witness:
  "\<exists>ret l'. waitChannel (\<lambda>f s l. if f = 1 then ([RemoveSock 6, SetFd 6 (-1) False], 0) else ([], 0))
              (Some [(100, EPOLLIN), (101, EPOLLIN)]) demo_loop2 = Some (ret, l') \<and>
            loop_ok l' \<and> needDeleted l' = {}"
  by (rule waitChannel_safe [OF demo_loop2_ok]) (use demo_loop2_epoll in auto)

text \<open>
  A registration is consistent at every level: registering an open socket without a channel
  creates one, tells epoll about it with hang-up and edge-triggered reporting only, points the
  socket at it and starts its timer unless it listens; closing it afterwards undoes all of it,
  and the object waits for deletion instead of being freed while its events may be pending.
\<close>

theorem register_remove:
  assumes "loop_ok l" "c \<notin> dom (chans l)" "sock_chan l s = None" "0 \<le> sock_fd l s"
    "epoll l (sock_fd l s) = None" "s \<noteq> timer_sock l" "\<not> sock_listen l s"
  shows "\<exists>l1. loop_do (Register s c) l = Some l1 \<and>
           epoll l1 (sock_fd l s) = Some (EPOLLRDHUP OR EPOLLET, c) \<and> sock_chan l1 s = Some c \<and>
           ticks_left (timer l1) = (ticks_left (timer l))(c \<mapsto> length (nodes (timer l))) \<and>
           (\<exists>l2. loop_do (RemoveSock s) l1 = Some l2 \<and> epoll l2 = epoll l \<and> sock_chan l2 = sock_chan l \<and>
                 ticks_left (timer l2) = (ticks_left (timer l))(c := None) \<and>
                 needDeleted l2 = insert c (needDeleted l) \<and> c \<in> dom (chans l2))"
proof -
  have w: "wheel_ok (timer l)" using assms(1) by (simp add: refs_defs)
  note u = update_spec [OF w, of c]
  let ?ch = "new_Channel (sock_fd l s) s"
  let ?t = "timer_updateChannel False c (timer l)"
  let ?l1 = "l\<lparr>chans := (chans l)(c \<mapsto> ?ch), sock_chan := (sock_chan l)(s \<mapsto> c), timer := ?t,
               epoll := (epoll l)(sock_fd l s \<mapsto> (EPOLLRDHUP OR EPOLLET, c))\<rparr>"
  have skip: "\<not> isSkipChannel ?ch (l\<lparr>chans := (chans l)(c \<mapsto> ?ch), sock_chan := (sock_chan l)(s \<mapsto> c)\<rparr>)"
    using assms by (simp add: isSkipChannel_def new_Channel_def setEvents_def)
  have flags: "transFlag ?ch = EPOLLRDHUP OR EPOLLET" "c_fd ?ch = sock_fd l s" "c_sock ?ch = s"
    "readFlag ?ch = False" "writeFlag ?ch = False"
    by (simp_all add: transFlag_def new_Channel_def setEvents_def)
  have 1: "loop_do (Register s c) l = Some ?l1"
    using assms(2-5) skip flags
    by (auto simp: registerChannel_def sock_exist_def touch_timer_def addChannel_def ctlChannel_def
        epoll_ctl.simps Let_def)
  have 2: "loop_do (RemoveSock s) ?l1 =
     Some (?l1\<lparr>chans := (chans ?l1)(c \<mapsto> ?ch\<lparr>c_fd := -1\<rparr>), needDeleted := insert c (needDeleted l),
                timer := eraseChannel c ?t, sock_chan := sock_chan l, epoll := epoll l\<rparr>)"
    using assms(3-5) flags
    by (simp add: Channel_remove_def disableAllEvent_def disableReadEvent_def disableWriteEvent_def
        unregisterChannel_def removeChannel_def ctlChannel_def epoll_ctl.simps fun_upd_idem)
  show ?thesis
  proof (intro exI conjI)
    show "loop_do (Register s c) l = Some ?l1" by (rule 1)
    show "loop_do (RemoveSock s) ?l1 =
       Some (?l1\<lparr>chans := (chans ?l1)(c \<mapsto> ?ch\<lparr>c_fd := -1\<rparr>), needDeleted := insert c (needDeleted l),
                  timer := eraseChannel c ?t, sock_chan := sock_chan l, epoll := epoll l\<rparr>)" by (rule 2)
  qed (use u erase_spec [of ?t c] in simp_all)
qed

theorem register_remove_witness:
  "\<exists>l1. loop_do (Register 5 100) demo_loop = Some l1 \<and> epoll l1 5 = Some (EPOLLRDHUP OR EPOLLET, 100)"
  using register_remove [OF demo_loop_ok, of 100 5] by (simp add: demo_loop_def) blast

end
