(* ===== verification/Sockets.thy ===== *)
theory Sockets
  imports SSLCtx Kernel Events
begin

text \<open>
  \<open>net/Socket.cpp\<close> and \<open>net/SocketUtil.cpp\<close>: the state of a socket object, the creation of
  listening, client and datagram sockets, closing, and the plain and TLS reads and writes.
  Each system call is an argument, its return value with \<open>errno\<close>; \<open>dup\<close> is the number
  \<open>fcntl(F_DUPFD)\<close> returns. Closing a socket that has a channel acts on the event loop; the
  operations list what they do to it as operations of the loop.
\<close>

abbreviation SOCKET_ROLE_UINIT :: int where "SOCKET_ROLE_UINIT \<equiv> -1"
abbreviation SOCKET_ROLE_CLIENT :: int where "SOCKET_ROLE_CLIENT \<equiv> 0"
abbreviation SOCKET_ROLE_SERVER :: int where "SOCKET_ROLE_SERVER \<equiv> 1"
abbreviation SOCKET_STAGE_UINIT :: int where "SOCKET_STAGE_UINIT \<equiv> -1"
abbreviation SOCKET_STAGE_BIND :: int where "SOCKET_STAGE_BIND \<equiv> 1"
abbreviation SOCKET_STAGE_LISTEN :: int where "SOCKET_STAGE_LISTEN \<equiv> 2"
abbreviation SOCKET_STAGE_ACCEPT :: int where "SOCKET_STAGE_ACCEPT \<equiv> 3"
abbreviation SOCKET_STAGE_CONNECT :: int where "SOCKET_STAGE_CONNECT \<equiv> 4"
abbreviation SOCKET_STAGE_RECV :: int where "SOCKET_STAGE_RECV \<equiv> 5"
abbreviation SOCKET_STAGE_SEND :: int where "SOCKET_STAGE_SEND \<equiv> 6"
abbreviation SOCKET_STAGE_CLOSE :: int where "SOCKET_STAGE_CLOSE \<equiv> 7"
abbreviation AF_INET :: int where "AF_INET \<equiv> 2"
abbreviation MIN_SOCKET_FD :: int where "MIN_SOCKET_FD \<equiv> 512"

record Socket =
  s_id :: nat
  s_block :: bool
  s_listening :: bool
  s_role :: int
  s_stage :: int
  s_addr :: bytes
  s_port :: bytes
  s_fd :: int
  s_chan :: "nat option"
  s_ctx :: SSLContext

definition new_Socket :: "nat \<Rightarrow> Socket" where
  "new_Socket i = \<lparr>s_id = i, s_block = False, s_listening = False, s_role = SOCKET_ROLE_UINIT,
     s_stage = SOCKET_STAGE_UINIT, s_addr = [], s_port = [], s_fd = -1, s_chan = None,
     s_ctx = new_SSLContext\<rparr>"

definition exist :: "Socket \<Rightarrow> bool" where
  "exist m \<longleftrightarrow> valid_fd (s_fd m)"

definition isNIO :: "Socket \<Rightarrow> bool" where
  "isNIO m \<longleftrightarrow> \<not> s_block m"

definition isListening :: "Socket \<Rightarrow> bool" where
  "isListening m \<longleftrightarrow> exist m \<and> s_listening m"

definition isSSL :: "Socket \<Rightarrow> ssl_heap \<Rightarrow> bool" where
  "isSSL m h \<longleftrightarrow> ctx_active (s_ctx m) h"

definition sock_eq :: "Socket \<Rightarrow> Socket \<Rightarrow> bool" where
  "sock_eq a b \<longleftrightarrow> s_fd a = s_fd b"

definition sock_less :: "Socket \<Rightarrow> Socket \<Rightarrow> bool" where
  "sock_less a b \<longleftrightarrow> s_fd a < s_fd b"

subsection \<open>Addresses\<close>

fun split_on :: "char \<Rightarrow> bytes \<Rightarrow> bytes list" where
  "split_on d [] = [[]]"
| "split_on d (c # cs) =
     (if c = d then [] # split_on d cs
      else (case split_on d cs of [] \<Rightarrow> [[c]] | x # xs \<Rightarrow> (c # x) # xs))"

text \<open>\<open>([0-9]{1,3}\.){3}[0-9]{1,3}\<close>, and the port test.\<close>

definition ValidateAddr :: "bytes \<Rightarrow> bool" where
  "ValidateAddr a \<longleftrightarrow>
     (let ps = split_on (CHR ''.'') a
      in length ps = 4 \<and> list_all (\<lambda>p. 1 \<le> length p \<and> length p \<le> 3 \<and> list_all is_digit p) ps)"

definition ValidatePort :: "bytes \<Rightarrow> bool" where
  "ValidatePort p \<longleftrightarrow> \<not> (atoi p < 0 \<or> atoi p > 65535)"

record sockaddr =
  sin_family :: int
  sin_port :: int
  sin_addr :: "32 word"

text \<open>\<open>inet_addr\<close> is the C library's; the port is kept in host order.\<close>

definition PackSockAddr :: "(bytes \<Rightarrow> 32 word) \<Rightarrow> bytes \<Rightarrow> bytes \<Rightarrow> int \<Rightarrow> sockaddr option" where
  "PackSockAddr inet_addr addr port family =
     (let saddr = (if addr = [] then ''127.0.0.1'' else addr);
          tport = (if port = [] then ''0'' else port)
      in if \<not> ValidateAddr saddr \<or> \<not> ValidatePort tport then None
         else Some \<lparr>sin_family = (if family < 0 then AF_INET else family), sin_port = atoi tport,
                    sin_addr = (if saddr = ''127.0.0.1'' then 0 else inet_addr saddr)\<rparr>)"

definition ResolveSockAddr :: "(32 word \<Rightarrow> bytes) \<Rightarrow> sockaddr \<Rightarrow> bytes \<times> bytes" where
  "ResolveSockAddr inet_ntop sa = (inet_ntop (sin_addr sa), dec_str (nat (sin_port sa)))"

text \<open>\<open>getSockAddr\<close> fails exactly when the port is valid: a negation is missing in the code.\<close>

definition getSockAddr :: "(bytes \<Rightarrow> 32 word) \<Rightarrow> Socket \<Rightarrow> sockaddr option" where
  "getSockAddr inet_addr m =
     (if \<not> ValidateAddr (s_addr m) \<or> ValidatePort (s_port m) then None
      else Some \<lparr>sin_family = AF_INET, sin_port = atoi (s_port m) mod 65536, sin_addr = inet_addr (s_addr m)\<rparr>)"

subsection \<open>Options\<close>

text \<open>\<open>setNIO\<close>: the results of the two \<open>fcntl\<close> calls are arguments.\<close>

definition setNIO :: "bool \<Rightarrow> int \<Rightarrow> int \<Rightarrow> Socket \<Rightarrow> kern \<Rightarrow> Socket \<times> kern" where
  "setNIO unblock getfl setfl m k =
     (if getfl < 0 then (m, k)
      else if setfl < 0 then (m, k)
      else (m\<lparr>s_block := \<not> unblock\<rparr>, k\<lparr>nonblk := (nonblk k)(s_fd m := unblock)\<rparr>))"

definition SetSockOpt :: "int \<Rightarrow> Socket \<Rightarrow> bool" where
  "SetSockOpt ret m = (if \<not> exist m then False else ret = 0)"

definition SetCloseOnExec :: "Socket \<Rightarrow> bool" where
  "SetCloseOnExec m = exist m"

subsection \<open>Closing\<close>

definition SocketUtil_Close :: "Socket \<Rightarrow> kern \<Rightarrow> int \<times> Socket \<times> kern" where
  "SocketUtil_Close m k =
     (if \<not> exist m then (0, m, k)
      else (0, m\<lparr>s_fd := -1, s_stage := SOCKET_STAGE_CLOSE\<rparr>, sys_close (s_fd m) k))"

definition GraceClose :: "int \<Rightarrow> Socket \<Rightarrow> int" where
  "GraceClose ret m = (if \<not> exist m then 0 else ret)"

text \<open>\<open>tcpClose\<close>: the TLS objects, the channel, the descriptor.\<close>

definition tcpClose :: "sysres \<Rightarrow> Socket \<Rightarrow> kern \<Rightarrow> ssl_heap \<Rightarrow> (int \<times> Socket \<times> kern \<times> ssl_heap \<times> loop_op list) option" where
  "tcpClose sd m k h =
     do { (c1, h1) \<leftarrow> destory sd (s_ctx m) h;
          let ops = (if s_chan m \<noteq> None then [RemoveSock (s_id m)] else []);
          let (r, m2, k2) = SocketUtil_Close (m\<lparr>s_ctx := c1, s_chan := None\<rparr>) k;
          Some (r, m2, k2, h1, ops @ [SetFd (s_id m) (s_fd m2) (s_listening m2)]) }"

definition Socket_close :: "sysres \<Rightarrow> sysres \<Rightarrow> Socket \<Rightarrow> kern \<Rightarrow> ssl_heap
    \<Rightarrow> (int \<times> Socket \<times> kern \<times> ssl_heap \<times> loop_op list) option" where
  "Socket_close sd sd' m k h =
     (if isSSL m h then
        (case ctx_close sd sd' (s_ctx m) h of
           None \<Rightarrow> None
         | Some (r, c1, h1) \<Rightarrow>
             if r = SCTX_IO_RECALL then Some (TIGERSO_IO_ERROR, m\<lparr>s_ctx := c1\<rparr>, k, h1, [])
             else tcpClose sd' (m\<lparr>s_ctx := c1\<rparr>) k h1)
      else tcpClose sd' m k h)"

definition prepareSSLContext :: "nat option \<Rightarrow> int \<Rightarrow> sysres \<Rightarrow> Socket \<Rightarrow> ssl_heap \<Rightarrow> (int \<times> Socket \<times> ssl_heap) option" where
  "prepareSSLContext new set_fd sd m h =
     (let (ret, c1, h1) =
            (if s_role m = SOCKET_ROLE_CLIENT then ctx_init SCTX_ROLE_SERVER new (s_ctx m) h
             else if s_role m = SOCKET_ROLE_SERVER then ctx_init SCTX_ROLE_CLIENT new (s_ctx m) h
             else (0, s_ctx m, h))
      in if ret < 0 then Some (-1, m\<lparr>s_ctx := c1\<rparr>, h1)
         else do { (r, c2, h2) \<leftarrow> bindSocket (s_fd m) set_fd sd c1 h1; Some (r, m\<lparr>s_ctx := c2\<rparr>, h2) })"

subsection \<open>Opening\<close>

definition sys_socket :: "int \<Rightarrow> kern \<Rightarrow> int \<times> kern" where
  "sys_socket nfd k = (if nfd < 0 then (-1, k) else (nfd, k\<lparr>fds := (fds k)(nfd \<mapsto> SockFd)\<rparr>))"

definition InitSocket :: "int \<Rightarrow> int \<Rightarrow> Socket \<Rightarrow> kern \<Rightarrow> int \<times> Socket \<times> kern" where
  "InitSocket nfd dup m k =
     (let (fd, k1) = sys_socket nfd k
      in if valid_fd fd
         then (let (fd', k2) = RelocateFileDescriptor fd MIN_SOCKET_FD dup k1 in (0, m\<lparr>s_fd := fd'\<rparr>, k2))
         else (-1, m, k1))"

definition Bind :: "(bytes \<Rightarrow> 32 word) \<Rightarrow> bytes \<Rightarrow> bytes \<Rightarrow> int \<Rightarrow> int \<Rightarrow> Socket \<Rightarrow> int \<times> Socket" where
  "Bind inet_addr addr port family bind_ret m =
     (if \<not> exist m then (-1, m)
      else case PackSockAddr inet_addr addr port family of
             None \<Rightarrow> (-1, m)
           | Some sa \<Rightarrow>
               (let m1 = m\<lparr>s_addr := addr, s_port := port\<rparr>
                in if bind_ret \<noteq> 0 then (-1, m1) else (0, m1\<lparr>s_stage := SOCKET_STAGE_BIND\<rparr>)))"

definition Listen :: "int \<Rightarrow> int \<Rightarrow> Socket \<Rightarrow> kern \<Rightarrow> int \<times> Socket \<times> kern" where
  "Listen dup listen_ret m k =
     (if s_stage m \<noteq> SOCKET_STAGE_BIND then (-1, m, k)
      else (let (fd, k1) = RelocateFileDescriptor (s_fd m) 64 dup k; m1 = m\<lparr>s_fd := fd\<rparr>
            in if listen_ret \<noteq> 0 then (-1, m1, k1)
               else (0, m1\<lparr>s_listening := True, s_role := SOCKET_ROLE_SERVER, s_stage := SOCKET_STAGE_LISTEN\<rparr>, k1)))"

text \<open>\<open>Accept\<close>: the return value of \<open>accept\<close> with \<open>errno\<close>, and the peer's address.\<close>

definition Accept :: "(32 word \<Rightarrow> bytes) \<Rightarrow> sysres \<Rightarrow> sockaddr \<Rightarrow> int \<Rightarrow> Socket \<Rightarrow> kern \<Rightarrow> int \<times> Socket \<times> kern" where
  "Accept inet_ntop r peer dup a k =
     (if fst r < 0 then (if snd r = EAGAIN \<or> snd r = EWOULDBLOCK then (1, a, k) else (-1, a, k))
      else (let k0 = k\<lparr>fds := (fds k)(fst r \<mapsto> SockFd)\<rparr>;
                (fd, k1) = RelocateFileDescriptor (fst r) MIN_SOCKET_FD dup k0;
                (addr, port) = ResolveSockAddr inet_ntop peer
            in (0, a\<lparr>s_fd := fd, s_addr := addr, s_port := port, s_role := SOCKET_ROLE_CLIENT,
                     s_stage := SOCKET_STAGE_ACCEPT\<rparr>, k1)))"

definition Connect :: "(bytes \<Rightarrow> 32 word) \<Rightarrow> bytes \<Rightarrow> bytes \<Rightarrow> int \<Rightarrow> int \<Rightarrow> int \<Rightarrow> int \<Rightarrow> sysres \<Rightarrow> sysres \<Rightarrow> sysres
    \<Rightarrow> Socket \<Rightarrow> kern \<Rightarrow> ssl_heap \<Rightarrow> (int \<times> Socket \<times> kern \<times> ssl_heap \<times> loop_op list) option" where
  "Connect inet_addr addr port nfd dup getfl setfl conn sd sd' m k h =
     (if \<not> ValidateAddr addr \<or> \<not> ValidatePort port then Some (-1, m, k, h, [])
      else case PackSockAddr inet_addr addr port AF_INET of
             None \<Rightarrow> Some (-1, m, k, h, [])
           | Some sa \<Rightarrow>
               (let (fd0, k1) = sys_socket nfd k;
                    (fd, k2) = RelocateFileDescriptor fd0 552 dup k1;
                    m1 = m\<lparr>s_addr := addr, s_port := port, s_role := SOCKET_ROLE_SERVER, s_fd := fd\<rparr>;
                    (m2, k3) = setNIO True getfl setfl m1 k2
                in if fst conn < 0 then
                     (if snd conn = EINPROGRESS \<or> snd conn = EALREADY
                      then Some (1, m2\<lparr>s_stage := SOCKET_STAGE_CONNECT\<rparr>, k3, h, [])
                      else do { (_, m3, k4, h1, ops) \<leftarrow> Socket_close sd sd' m2 k3 h; Some (-1, m3, k4, h1, ops) })
                   else Some (0, m2\<lparr>s_stage := SOCKET_STAGE_CONNECT\<rparr>, k3, h, [])))"

definition TestConnect :: "(bytes \<Rightarrow> 32 word) \<Rightarrow> sysres \<Rightarrow> Socket \<Rightarrow> bool" where
  "TestConnect inet_addr conn m =
     (if \<not> exist m then False
      else if s_role m = SOCKET_ROLE_CLIENT then s_stage m \<ge> SOCKET_STAGE_ACCEPT
      else if s_role m = SOCKET_ROLE_SERVER then
        (if s_stage m = SOCKET_STAGE_CONNECT then
           (case PackSockAddr inet_addr (s_addr m) (s_port m) AF_INET of
              None \<Rightarrow> False
            | Some sa \<Rightarrow> fst conn = 0 \<or> snd conn = EISCONN)
         else s_stage m = SOCKET_STAGE_RECV \<or> s_stage m = SOCKET_STAGE_SEND)
      else False)"

text \<open>The answers the kernel gives while a listening socket is set up.\<close>

record listen_env =
  e_socket :: int
  e_dup1 :: int
  e_reuseaddr :: int
  e_reuseport :: int
  e_getfl :: int
  e_setfl :: int
  e_bind :: int
  e_dup2 :: int
  e_listen :: int

definition CreateListenSocket :: "(bytes \<Rightarrow> 32 word) \<Rightarrow> listen_env \<Rightarrow> bytes \<Rightarrow> bytes \<Rightarrow> bool \<Rightarrow> Socket \<Rightarrow> kern
    \<Rightarrow> int \<times> Socket \<times> kern" where
  "CreateListenSocket inet_addr e ipaddr port unblock m k =
     (let ip = (if ipaddr = [] \<or> \<not> ValidateAddr ipaddr then ''127.0.0.1'' else ipaddr);
          pt = (if \<not> ValidatePort port then ''80'' else port);
          (r1, m1, k1) = InitSocket (e_socket e) (e_dup1 e) m k
      in if r1 \<noteq> 0 then (-1, m1, k1)
         else if \<not> SetSockOpt (e_reuseaddr e) m1 then (1, m1, k1)
         else if \<not> SetSockOpt (e_reuseport e) m1 then (2, m1, k1)
         else (let (m2, k2) = setNIO unblock (e_getfl e) (e_setfl e) m1 k1;
                   (r3, m3) = Bind inet_addr ip pt (-1) (e_bind e) m2
               in if r3 \<noteq> 0 then (4, m3, k2)
                  else (let (r4, m4, k4) = Listen (e_dup2 e) (e_listen e) m3 k2
                        in if r4 \<noteq> 0 then (5, m4, k4) else (0, m4, k4))))"

definition CreateUDPConnect :: "(bytes \<Rightarrow> 32 word) \<Rightarrow> listen_env \<Rightarrow> sysres \<Rightarrow> sysres \<Rightarrow> sysres \<Rightarrow> int \<Rightarrow> int \<Rightarrow> bytes \<Rightarrow> bytes \<Rightarrow> bool
    \<Rightarrow> Socket \<Rightarrow> kern \<Rightarrow> ssl_heap \<Rightarrow> (int \<times> Socket \<times> kern \<times> ssl_heap \<times> loop_op list) option" where
  "CreateUDPConnect inet_addr e conn sd sd' getfl2 setfl2 ipaddr port unblock m k h =
     (if ipaddr = [] \<or> \<not> ValidateAddr ipaddr then Some (-1, m, k, h, [])
      else case Connect inet_addr ipaddr port (e_socket e) (e_dup1 e) (e_getfl e) (e_setfl e) conn sd sd' m k h of
             None \<Rightarrow> None
           | Some (ret, m1, k1, h1, ops) \<Rightarrow>
               if ret < 0 then Some (-1, m1, k1, h1, ops)
               else if \<not> SetSockOpt (e_reuseaddr e) m1 then Some (-1, m1, k1, h1, ops)
               else if \<not> SetSockOpt (e_reuseport e) m1 then Some (-1, m1, k1, h1, ops)
               else (let (m2, k2) = setNIO unblock getfl2 setfl2 m1 k1 in Some (ret, m2, k2, h1, ops)))"

text \<open>\<open>ResolveHost2IP\<close>: \<open>found\<close> are the addresses the resolver of the C library returns, each
  with its family and its length, already printed by \<open>inet_ntop\<close>.\<close>

definition ResolveHost2IP :: "bytes \<Rightarrow> (int \<times> nat \<times> bytes) list \<Rightarrow> bytes list \<Rightarrow> int \<times> bytes list" where
  "ResolveHost2IP host found ips =
     (if host = [] then (-1, ips)
      else (0, ips @ map (\<lambda>(f, n, s). s) (filter (\<lambda>(f, n, s). f = AF_INET \<and> n = 4) found)))"

subsection \<open>Input and output\<close>

text \<open>A value stored in a \<open>size_t\<close>.\<close>

definition to_size :: "int \<Rightarrow> nat" where
  "to_size n = nat (n mod 2 ^ 64)"

text \<open>The third component is the value stored in \<open>*recvn\<close>, if one is.\<close>

definition Recv :: "int \<Rightarrow> sysres \<Rightarrow> sysres \<Rightarrow> Socket \<Rightarrow> ssl_heap \<Rightarrow> (int \<times> nat option \<times> Socket \<times> ssl_heap) option" where
  "Recv nb r sd m h =
     (if \<not> isSSL m h then
        Some (if 0 \<ge> fst r then
                (if EAGAIN = snd r \<or> EWOULDBLOCK = snd r then (TIGERSO_IO_RECALL, Some (to_size (fst r)), m, h)
                 else (TIGERSO_IO_ERROR, None, m, h))
              else (TIGERSO_IO_OK, Some (to_size (fst r)), m, h))
      else
        (case ctx_recv nb r sd (s_ctx m) h of
           None \<Rightarrow> None
         | Some (ret, rn, c1, h1) \<Rightarrow>
             (let m1 = m\<lparr>s_ctx := c1\<rparr>; n = (case rn of None \<Rightarrow> 0 | Some x \<Rightarrow> to_size x)
              in Some (if ret = SCTX_IO_ERROR then (TIGERSO_IO_ERROR, None, m1, h1)
                       else if ret = SCTX_IO_RECALL then (TIGERSO_IO_RECALL, Some n, m1, h1)
                       else (TIGERSO_IO_OK, Some n, m1, h1)))))"

text \<open>In \<open>Send\<close> the test on \<open>errno\<close> is \<open>EAGAIN == errno || EWOULDBLOCK\<close>: the second operand is
  a constant that is not zero.\<close>

definition Send :: "int \<Rightarrow> sysres \<Rightarrow> sysres \<Rightarrow> Socket \<Rightarrow> ssl_heap \<Rightarrow> (int \<times> nat option \<times> Socket \<times> ssl_heap) option" where
  "Send nb r sd m h =
     (if \<not> isSSL m h then
        Some (if 0 > fst r then
                (if EAGAIN = snd r \<or> EWOULDBLOCK \<noteq> 0 then (TIGERSO_IO_RECALL, Some 0, m, h)
                 else (TIGERSO_IO_ERROR, None, m, h))
              else (TIGERSO_IO_OK, Some (to_size (fst r)), m, h))
      else
        (case ctx_send nb r sd (s_ctx m) h of
           None \<Rightarrow> None
         | Some (ret, sn, c1, h1) \<Rightarrow>
             (let m1 = m\<lparr>s_ctx := c1\<rparr>; n = (case sn of None \<Rightarrow> 0 | Some x \<Rightarrow> to_size x)
              in Some (if ret = SCTX_IO_ERROR then (TIGERSO_IO_ERROR, None, m1, h1)
                       else if ret = SCTX_IO_RECALL then (TIGERSO_IO_RECALL, Some n, m1, h1)
                       else (TIGERSO_IO_OK, Some n, m1, h1)))))"

subsection \<open>What the operations guarantee\<close>

lemma relocate_valid: "0 \<le> fd \<Longrightarrow> 0 \<le> fst (RelocateFileDescriptor fd least dup k)"
  by (auto simp: RelocateFileDescriptor_def sys_dupfd_def Let_def split: prod.splits)

lemma relocate_SockFd:
  "fds k fd = Some SockFd \<Longrightarrow> dup \<noteq> fd \<Longrightarrow>
   fds (snd (RelocateFileDescriptor fd least dup k)) (fst (RelocateFileDescriptor fd least dup k)) = Some SockFd"
  by (auto simp: RelocateFileDescriptor_def sys_dupfd_def sys_close_def Let_def split: prod.splits)

lemma loopback_valid: "ValidateAddr ''127.0.0.1''" "ValidatePort ''80''" "ValidatePort ''0''"
  by (simp_all add: ValidateAddr_def is_digit_def Let_def ValidatePort_def atoi_def c_str_def NUL_def
      is_space_def digits_val_def)

lemma PackSockAddr_fallback:
  "PackSockAddr ia (if ip = [] \<or> \<not> ValidateAddr ip then ''127.0.0.1'' else ip)
     (if \<not> ValidatePort pt then ''80'' else pt) fam \<noteq> None"
  using loopback_valid by (auto simp: PackSockAddr_def Let_def)

text \<open>
  Setting up a listening socket. Whatever address and port are given (invalid ones are
  replaced), the result is 0 exactly when every system call succeeds, and then the socket is
  open, listening and in the server role; a positive result tells which step failed, and the
  descriptor is then still open, in the hands of the caller; -1 means that none was opened.
\<close>

theorem CreateListenSocket_outcomes:
  assumes "CreateListenSocket ia e ip port unblock m k = (ret, m', k')"
  shows "(ret = 0 \<longleftrightarrow> 0 \<le> e_socket e \<and> e_reuseaddr e = 0 \<and> e_reuseport e = 0 \<and> e_bind e = 0 \<and> e_listen e = 0) \<and>
         (ret = 0 \<longrightarrow> isListening m' \<and> s_role m' = SOCKET_ROLE_SERVER \<and> s_stage m' = SOCKET_STAGE_LISTEN) \<and>
         (0 \<le> ret \<longrightarrow> exist m') \<and> (ret < 0 \<longrightarrow> ret = -1 \<and> m' = m \<and> k' = k) \<and> ret \<in> {-1, 0, 1, 2, 4, 5}"
proof (cases "0 \<le> e_socket e")
  case False
  then show ?thesis
    using assms by (auto simp: CreateListenSocket_def InitSocket_def sys_socket_def valid_fd_def Let_def)
next
  case True
  obtain fd k1 where init: "InitSocket (e_socket e) (e_dup1 e) m k = (0, m\<lparr>s_fd := fd\<rparr>, k1)" "0 \<le> fd"
  proof -
    let ?r = "RelocateFileDescriptor (e_socket e) MIN_SOCKET_FD (e_dup1 e) (snd (sys_socket (e_socket e) k))"
    have "InitSocket (e_socket e) (e_dup1 e) m k = (0, m\<lparr>s_fd := fst ?r\<rparr>, snd ?r)"
      using True by (simp add: InitSocket_def sys_socket_def valid_fd_def Let_def split_beta)
    then show ?thesis
      using that relocate_valid [OF True] by blast
  qed
  let ?m1 = "m\<lparr>s_fd := fd\<rparr>"
  obtain m2 k2 where nio: "setNIO unblock (e_getfl e) (e_setfl e) ?m1 k1 = (m2, k2)" "s_fd m2 = fd"
  proof -
    obtain m2 k2 where n: "setNIO unblock (e_getfl e) (e_setfl e) ?m1 k1 = (m2, k2)" by fastforce
    then have "s_fd m2 = fd" by (auto simp: setNIO_def split: if_splits)
    with n show ?thesis by (rule that)
  qed
  define ip' where ip': "ip' = (if ip = [] \<or> \<not> ValidateAddr ip then ''127.0.0.1'' else ip)"
  define pt where pt: "pt = (if \<not> ValidatePort port then ''80'' else port)"
  obtain sa where sa: "PackSockAddr ia ip' pt (-1) = Some sa"
    using PackSockAddr_fallback [of ia ip port "-1"] unfolding ip' pt by blast
  let ?m3 = "m2\<lparr>s_addr := ip', s_port := pt\<rparr>"
  have bind: "Bind ia ip' pt (-1) (e_bind e) m2 =
      (if e_bind e \<noteq> 0 then (-1, ?m3) else (0, ?m3\<lparr>s_stage := SOCKET_STAGE_BIND\<rparr>))"
    using sa nio init by (simp add: Bind_def exist_def valid_fd_def)
  have lst: "0 \<le> fst (RelocateFileDescriptor fd 64 (e_dup2 e) k2)"
    using init relocate_valid by blast
  obtain fd' k4 where rel: "RelocateFileDescriptor fd 64 (e_dup2 e) k2 = (fd', k4)" "0 \<le> fd'"
    using lst by (metis prod.collapse)
  have "(ret, m', k') =
      (if e_reuseaddr e \<noteq> 0 then (1, ?m1, k1) else if e_reuseport e \<noteq> 0 then (2, ?m1, k1)
       else if e_bind e \<noteq> 0 then (4, ?m3, k2)
       else if e_listen e \<noteq> 0 then (5, ?m3\<lparr>s_stage := SOCKET_STAGE_BIND, s_fd := fd'\<rparr>, k4)
       else (0, ?m3\<lparr>s_stage := SOCKET_STAGE_LISTEN, s_fd := fd', s_listening := True, s_role := SOCKET_ROLE_SERVER\<rparr>, k4))"
    unfolding assms [symmetric] CreateListenSocket_def Let_def ip' [symmetric] pt [symmetric]
    using init nio bind rel by (simp add: SetSockOpt_def exist_def valid_fd_def Listen_def)
  then show ?thesis
    using True init(2) nio(2) rel(2) by (auto simp: exist_def valid_fd_def isListening_def split: if_splits)
qed

definition demo_env :: listen_env where
  "demo_env = \<lparr>e_socket = 5, e_dup1 = 600, e_reuseaddr = 0, e_reuseport = 0, e_getfl = 2, e_setfl = 0,
               e_bind = 0, e_dup2 = 0, e_listen = 0\<rparr>"

definition demo_net :: kern where
  "demo_net = \<lparr>disk = Map.empty, rperm = (\<lambda>_. True), wperm = (\<lambda>_. True), fds = Map.empty,
               nonblk = (\<lambda>_. False), wire = (\<lambda>_. [])\<rparr>"

theorem CreateListenSocket_outcomes_witness:
  "fst (CreateListenSocket (\<lambda>_. 1) demo_env ''300.x'' ''8080'' True (new_Socket 0) demo_net) = 0"
proof -
  obtain ret m' k' where r: "CreateListenSocket (\<lambda>_. 1) demo_env ''300.x'' ''8080'' True (new_Socket 0) demo_net
      = (ret, m', k')"
    by (cases "CreateListenSocket (\<lambda>_. 1) demo_env ''300.x'' ''8080'' True (new_Socket 0) demo_net") auto
  show ?thesis
    using CreateListenSocket_outcomes [OF r] r by (simp add: demo_env_def)
qed

text \<open>
  Connecting leaks nothing. For a fresh socket object and a valid address: an immediate or
  pending connection leaves exactly one new descriptor, in the object, in the connect stage;
  any other failure closes that descriptor again, releases the TLS objects and reports -1, and
  the table of open descriptors is what it was; an invalid address or port changes nothing.
\<close>

theorem Connect_outcomes:
  assumes "0 \<le> nfd" "nfd \<le> 552" "fds k nfd = None" "0 \<le> dup" "dup \<noteq> nfd" "fds k dup = None"
    "owns (s_ctx m) h" "\<not> isSSL m h"
  shows "if \<not> ValidateAddr addr \<or> \<not> ValidatePort port
         then Connect ia addr port nfd dup g f conn sd sd' m k h = Some (-1, m, k, h, [])
         else \<exists>ret m' k' h' ops.
                Connect ia addr port nfd dup g f conn sd sd' m k h = Some (ret, m', k', h', ops) \<and>
                (if 0 \<le> fst conn \<or> snd conn = EINPROGRESS \<or> snd conn = EALREADY
                 then ret = (if 0 \<le> fst conn then 0 else 1) \<and> s_fd m' = dup \<and> s_stage m' = SOCKET_STAGE_CONNECT \<and>
                      s_role m' = SOCKET_ROLE_SERVER \<and> fds k' = (fds k)(dup \<mapsto> SockFd) \<and> h' = h \<and> ops = []
                 else ret = -1 \<and> \<not> exist m' \<and> s_stage m' = SOCKET_STAGE_CLOSE \<and> s_chan m' = None \<and>
                      fds k' = fds k \<and> handles (s_ctx m') = [] \<and> live h' = live h - set (handles (s_ctx m)) \<and>
                      ops = (if s_chan m \<noteq> None then [RemoveSock (s_id m)] else []) @ [SetFd (s_id m) (-1) (s_listening m)])"
proof (cases "ValidateAddr addr \<and> ValidatePort port")
  case False
  then show ?thesis by (auto simp: Connect_def)
next
  case True
  then have "addr \<noteq> []" by (auto simp: ValidateAddr_def)
  then have "PackSockAddr ia addr port AF_INET \<noteq> None"
    using True loopback_valid(3) by (auto simp: PackSockAddr_def Let_def)
  then obtain sa where sa: "PackSockAddr ia addr port AF_INET = Some sa" by blast
  let ?k1 = "k\<lparr>fds := (fds k)(nfd \<mapsto> SockFd)\<rparr>"
  have rel: "RelocateFileDescriptor nfd 552 dup ?k1 = (dup, k\<lparr>fds := (fds k)(dup \<mapsto> SockFd)\<rparr>)"
    using RelocateFileDescriptor_moves [of ?k1 nfd SockFd dup 552] assms(2-5)
    by (simp add: fun_upd_twist fun_upd_idem)
  let ?m1 = "m\<lparr>s_addr := addr, s_port := port, s_role := SOCKET_ROLE_SERVER, s_fd := dup\<rparr>"
  obtain m2 k3 where nio: "setNIO True g f ?m1 (k\<lparr>fds := (fds k)(dup \<mapsto> SockFd)\<rparr>) = (m2, k3)"
    by fastforce
  then have m2: "s_fd m2 = dup" "s_role m2 = SOCKET_ROLE_SERVER" "s_ctx m2 = s_ctx m" "s_chan m2 = s_chan m"
    "s_id m2 = s_id m" "s_listening m2 = s_listening m" "fds k3 = (fds k)(dup \<mapsto> SockFd)"
    by (auto simp: setNIO_def split: if_splits)
  obtain c' h' where d: "destory sd' (s_ctx m) h = Some (c', h')" "released (s_ctx m) h c' h'"
    using destory_releases [OF assms(7)] by blast
  have close: "Socket_close sd sd' m2 k3 h =
      Some (0, m2\<lparr>s_ctx := c', s_chan := None, s_fd := -1, s_stage := SOCKET_STAGE_CLOSE\<rparr>, sys_close dup k3, h',
            (if s_chan m \<noteq> None then [RemoveSock (s_id m)] else []) @ [SetFd (s_id m) (-1) (s_listening m)])"
    using m2 d assms(4,8)
    by (simp add: Socket_close_def tcpClose_def isSSL_def SocketUtil_Close_def exist_def valid_fd_def)
  have C: "Connect ia addr port nfd dup g f conn sd sd' m k h =
      (if fst conn < 0 then
         if snd conn = EINPROGRESS \<or> snd conn = EALREADY
         then Some (1, m2\<lparr>s_stage := SOCKET_STAGE_CONNECT\<rparr>, k3, h, [])
         else do { (_, m3, k4, h1, ops) \<leftarrow> Socket_close sd sd' m2 k3 h; Some (-1, m3, k4, h1, ops) }
       else Some (0, m2\<lparr>s_stage := SOCKET_STAGE_CONNECT\<rparr>, k3, h, []))"
    using True sa rel nio assms(1) by (simp add: Connect_def sys_socket_def)
  have k4: "fds (sys_close dup k3) = fds k"
    using m2(7) assms(6) by (simp add: sys_close_def fun_upd_idem)
  show ?thesis
    using True m2 d(2) k4 unfolding C close by (auto simp: exist_def valid_fd_def released_def)
qed

theorem Connect_outcomes_witness:
  "\<exists>m' k' h' ops. Connect (\<lambda>_. 1) ''10.0.0.1'' ''80'' 7 600 2 0 (-1, 111) (0, 0) (0, 0) (new_Socket 3) demo_net
        \<lparr>live = {}, ssl_fd = (\<lambda>_. -1)\<rparr> = Some (-1, m', k', h', ops) \<and> fds k' = Map.empty"
proof -
  have "ValidateAddr ''10.0.0.1''" "ValidatePort ''80''"
    using loopback_valid(2) by (simp_all add: ValidateAddr_def is_digit_def)
  then show ?thesis
    using Connect_outcomes [of 7 demo_net 600 "new_Socket 3" "\<lparr>live = {}, ssl_fd = (\<lambda>_. -1)\<rparr>"
        "''10.0.0.1''" "''80''" "\<lambda>_. 1" 2 0 "(-1, 111)" "(0, 0)" "(0, 0)"]
    by (simp add: demo_net_def owns_def handles_def new_Socket_def new_SSLContext_def isSSL_def
        ctx_active_def validSSL_def) blast
qed

text \<open>
  Plain (not TLS) reads and writes. A read returns what arrived, asks to be called again
  when the socket is empty and is an error otherwise, the end of the stream included; but
  a write never reports an error: whatever the failure, a closed or reset connection
  included, it asks to be called again with nothing sent.
\<close>

theorem plain_io_outcomes:
  assumes "\<not> isSSL m h"
  shows "(0 < n \<longrightarrow> Recv nb (n, e) sd m h = Some (TIGERSO_IO_OK, Some (to_size n), m, h)) \<and>
         (n \<le> 0 \<longrightarrow> Recv nb (n, e) sd m h =
            Some (if e = EAGAIN then (TIGERSO_IO_RECALL, Some (to_size n), m, h) else (TIGERSO_IO_ERROR, None, m, h))) \<and>
         Send nb (n, e) sd m h =
            Some (if 0 \<le> n then (TIGERSO_IO_OK, Some (to_size n), m, h) else (TIGERSO_IO_RECALL, Some 0, m, h)) \<and>
         (\<forall>r. Send nb (n, e) sd m h = Some r \<longrightarrow> fst r \<noteq> TIGERSO_IO_ERROR)"
  using assms by (auto simp: Recv_def Send_def)

theorem plain_io_outcomes_witness:
  "Send 0 (-1, 32) (0, 0) (new_Socket 1) demo_heap = Some (TIGERSO_IO_RECALL, Some 0, new_Socket 1, demo_heap)"
  using plain_io_outcomes [of "new_Socket 1" demo_heap "-1" 0 32 "(0, 0)"]
  by (simp add: isSSL_def new_Socket_def new_SSLContext_def ctx_active_def validSSL_def)

end
