(* ===== verification/RingBuf.thy ===== *)
theory RingBuf
  imports ByteQueue FileIO Sockets
begin

text \<open>
  \<open>net/RingBuffer.cpp\<close>: the circular buffer. The array is the list of its \<open>_capacity\<close>
  characters, the read and write pointers are offsets into it; one slot is kept free to
  tell a full buffer from an empty one, but an offset may also stand at the end of the array,
  so that there are two representations of the same place. Outside of the array, memory
  accesses are undefined (\<open>None\<close>). The draining loops take the outcomes of the successive
  calls they make.
\<close>

abbreviation RINGBUFFER_NO_SPACE :: int where "RINGBUFFER_NO_SPACE \<equiv> -3"
abbreviation RINGBUFFER_NO_DATA :: int where "RINGBUFFER_NO_DATA \<equiv> -2"
abbreviation RINGBUFFER_MAX_LENGTH :: nat where "RINGBUFFER_MAX_LENGTH \<equiv> 65536"
abbreviation RINGBUFFER_MIN_LENGTH :: nat where "RINGBUFFER_MIN_LENGTH \<equiv> 1024"

record ring =
  r_buf :: bytes
  r_r :: nat
  r_w :: nat

definition capacity :: "ring \<Rightarrow> nat" where
  "capacity b = length (r_buf b)"

definition rb_clear :: "ring \<Rightarrow> ring" where
  "rb_clear b = b\<lparr>r_r := 0, r_w := 0\<rparr>"

text \<open>The constructor; \<open>fill\<close> is what \<open>malloc\<close> leaves in the array.\<close>

definition ring_new :: "char \<Rightarrow> nat \<Rightarrow> ring" where
  "ring_new fill len =
     (let cap = (if len > RINGBUFFER_MAX_LENGTH then RINGBUFFER_MAX_LENGTH
                 else if len < RINGBUFFER_MIN_LENGTH then RINGBUFFER_MIN_LENGTH else len) + 1
      in rb_clear \<lparr>r_buf = replicate cap fill, r_r = 0, r_w = 0\<rparr>)"

definition space :: "ring \<Rightarrow> nat" where
  "space b =
     (if r_w b \<ge> r_r b then sz_sub (sz_sub (capacity b) (r_w b - r_r b)) 1
      else r_r b - r_w b - 1)"

definition rb_size :: "ring \<Rightarrow> nat" where
  "rb_size b = sz_sub (sz_sub (capacity b) (space b)) 1"

definition isFull :: "ring \<Rightarrow> bool" where
  "isFull b \<longleftrightarrow> space b = 0"

definition isEmpty :: "ring \<Rightarrow> bool" where
  "isEmpty b \<longleftrightarrow> r_r b = r_w b"

definition writeIn :: "bytes option \<Rightarrow> ring \<Rightarrow> (int \<times> ring) option" where
  "writeIn arg b =
     (if isFull b then Some (0, b)
      else case arg of
             None \<Rightarrow> Some (RINGBUFFER_NO_DATA, b)
           | Some buf \<Rightarrow>
               if length buf = 0 then Some (RINGBUFFER_NO_DATA, b)
               else
                 (let len = (if space b < length buf then space b else length buf)
                  in if r_w b \<ge> r_r b then
                       (let right = capacity b - r_w b
                        in if len \<le> right then
                             do { xs \<leftarrow> slice 0 len buf;
                                  m \<leftarrow> blit (r_w b) xs (r_buf b);
                                  Some (int len, b\<lparr>r_buf := m, r_w := r_w b + len\<rparr>) }
                           else
                             do { xs \<leftarrow> slice 0 right buf;
                                  m1 \<leftarrow> blit (r_w b) xs (r_buf b);
                                  ys \<leftarrow> slice right (len - right) buf;
                                  m2 \<leftarrow> blit 0 ys m1;
                                  Some (int len, b\<lparr>r_buf := m2, r_w := len - right\<rparr>) })
                     else
                       do { xs \<leftarrow> slice 0 len buf;
                            m \<leftarrow> blit (r_w b) xs (r_buf b);
                            Some (int len, b\<lparr>r_buf := m, r_w := r_w b + len\<rparr>) }))"

text \<open>\<open>readOut(buf, len)\<close>; the data stored in \<open>buf\<close> is the second component.\<close>

definition readOut :: "nat option \<Rightarrow> ring \<Rightarrow> (int \<times> bytes \<times> ring) option" where
  "readOut arg b =
     (if isEmpty b then Some (0, [], b)
      else case arg of
             None \<Rightarrow> Some (RINGBUFFER_NO_SPACE, [], b)
           | Some len \<Rightarrow>
               if len = 0 then Some (RINGBUFFER_NO_SPACE, [], b)
               else
                 (let readn = (if len > rb_size b then rb_size b else len)
                  in if r_w b > r_r b then
                       do { xs \<leftarrow> slice (r_r b) readn (r_buf b);
                            Some (int readn, xs, b\<lparr>r_r := r_r b + readn\<rparr>) }
                     else
                       (let right = capacity b - r_r b
                        in if readn \<le> right then
                             do { xs \<leftarrow> slice (r_r b) readn (r_buf b);
                                  Some (int readn, xs, b\<lparr>r_r := r_r b + readn\<rparr>) }
                           else
                             do { xs \<leftarrow> slice (r_r b) right (r_buf b);
                                  ys \<leftarrow> slice 0 (readn - right) (r_buf b);
                                  Some (int readn, xs @ ys, b\<lparr>r_r := readn - right\<rparr>) })))"

text \<open>\<open>writeInFromFile\<close>: each \<open>continuousReadOut\<close> stores what it reads at the write pointer;
  \<open>lims\<close> are the outcomes of the reads, \<open>nfd\<close> the descriptor if the file has to be opened.\<close>

definition read_into :: "nat \<Rightarrow> nat \<Rightarrow> int \<Rightarrow> int \<Rightarrow> ring \<Rightarrow> File \<Rightarrow> kern \<Rightarrow> (int \<times> ring \<times> File \<times> kern) option" where
  "read_into off len nfd lim b f k =
     (let (readn, data, f', k') = continuousReadOut len nfd lim f k
      in if off + len \<le> capacity b
         then do { m \<leftarrow> blit off data (r_buf b); Some (readn, b\<lparr>r_buf := m\<rparr>, f', k') }
         else None)"

definition writeInFromFile :: "int \<Rightarrow> int \<Rightarrow> int \<Rightarrow> ring \<Rightarrow> File \<Rightarrow> kern \<Rightarrow> (int \<times> ring \<times> File \<times> kern) option" where
  "writeInFromFile nfd lim1 lim2 b f k =
     (if isFull b then Some (0, b, f, k)
      else
       (let len = space b
        in if r_w b \<ge> r_r b then
             (let right = (if 1 \<le> r_r b then capacity b - r_w b else capacity b - r_w b - 1);
                  left = (if 1 \<le> r_r b then r_r b - 1 else 0)
              in do { (readn, b1, f1, k1) \<leftarrow> read_into (r_w b) right nfd lim1 b f k;
                      if readn < 0 then Some (TIGERSO_IO_ERROR, b1, f1, k1)
                      else
                        (let b2 = b1\<lparr>r_w := r_w b1 + nat readn\<rparr>
                         in if readn < int right then Some (readn, b2, f1, k1)
                            else if left > 0 then
                              do { (readn2, b3, f2, k2) \<leftarrow> read_into 0 left nfd lim2 b2 f1 k1;
                                   if readn2 < 0 then Some (TIGERSO_IO_ERROR, b3, f2, k2)
                                   else
                                     (let b4 = b3\<lparr>r_w := nat readn2\<rparr>
                                      in if readn2 < int left then Some (int right + readn2, b4, f2, k2)
                                         else Some (int len, b4, f2, k2)) }
                            else Some (int len, b2, f1, k1)) })
           else
             do { (readn, b1, f1, k1) \<leftarrow> read_into (r_w b) len nfd lim1 b f k;
                  if readn < 0 then Some (TIGERSO_IO_ERROR, b1, f1, k1)
                  else
                    (let b2 = b1\<lparr>r_w := r_w b1 + nat readn\<rparr>
                     in if readn < int len then Some (readn, b2, f1, k1) else Some (int len, b2, f1, k1)) }))"

text \<open>One round of the draining loops: the chunk up to the write pointer or to the end of the
  array, and the new read pointer after \<open>n\<close> of its bytes were taken.\<close>

definition chunk :: "ring \<Rightarrow> bytes option" where
  "chunk b = slice (r_r b) (if r_w b > r_r b then rb_size b else capacity b - r_r b) (r_buf b)"

definition advance :: "nat \<Rightarrow> ring \<Rightarrow> ring" where
  "advance n b = b\<lparr>r_r := (r_r b + n) mod capacity b\<rparr>"

text \<open>A call never takes more than what it is given.\<close>

definition capped :: "bytes \<Rightarrow> sysres \<Rightarrow> sysres" where
  "capped xs r = (min (fst r) (int (length xs)), snd r)"

text \<open>\<open>readOut2File\<close>: an outcome is the descriptor of the open, its relocation and the limit
  of the write. The loop stops when the buffer is empty or a write fails.\<close>

fun readOut2File_loop :: "(int \<times> int \<times> int) list \<Rightarrow> ring \<Rightarrow> File \<Rightarrow> kern \<Rightarrow> (bool \<times> ring \<times> kern) option" where
  "readOut2File_loop [] b f k = (if rb_size b \<noteq> 0 then None else Some (True, b, k))"
| "readOut2File_loop ((nfd, dup, lim) # outs) b f k =
     (if rb_size b = 0 then Some (True, b, k)
      else do { xs \<leftarrow> chunk b;
                let (ret, k1) = appendWriteIn xs nfd dup lim f k;
                if ret < 0 then Some (False, b, k1)
                else readOut2File_loop outs (advance (nat ret) b) f k1 })"

definition readOut2File :: "(int \<times> int \<times> int) list \<Rightarrow> ring \<Rightarrow> File \<Rightarrow> kern \<Rightarrow> (int \<times> ring \<times> kern) option" where
  "readOut2File outs b f k =
     (if isEmpty b then Some (TIGERSO_IO_OK, b, k)
      else
       (let datasize = rb_size b
        in do { (fin, b1, k1) \<leftarrow> readOut2File_loop outs b f k;
                Some ((if fin then int datasize else TIGERSO_IO_ERROR), b1, k1) }))"

text \<open>\<open>readOut(fd)\<close> and \<open>send2Socket(sockfd)\<close>: the bytes written are the second component, an
  outcome is the result of one \<open>write\<close> or \<open>send\<close> with \<open>errno\<close>.\<close>

fun readOut_fd_loop :: "sysres list \<Rightarrow> ring \<Rightarrow> (int option \<times> bytes \<times> ring) option" where
  "readOut_fd_loop [] b = (if rb_size b \<noteq> 0 then None else Some (None, [], b))"
| "readOut_fd_loop (r # outs) b =
     (if rb_size b = 0 then Some (None, [], b)
      else do { xs \<leftarrow> chunk b;
                if fst r < 0 then Some (Some (fst r), [], b)
                else do { (e, ys, b1) \<leftarrow> readOut_fd_loop outs (advance (nat (fst (capped xs r))) b);
                          Some (e, take (nat (fst (capped xs r))) xs @ ys, b1) } })"

definition readOut_fd :: "int \<Rightarrow> int \<Rightarrow> int \<Rightarrow> sysres list \<Rightarrow> ring \<Rightarrow> (int \<times> bytes \<times> ring) option" where
  "readOut_fd fd old_flags setfl outs b =
     (if isEmpty b then Some (0, [], b)
      else if fd < 0 then Some (RINGBUFFER_NO_SPACE, [], b)
      else if old_flags < 0 then Some (RINGBUFFER_NO_SPACE, [], b)
      else if setfl < 0 then Some (RINGBUFFER_NO_SPACE, [], b)
      else
       (let datasize = rb_size b
        in do { (e, ys, b1) \<leftarrow> readOut_fd_loop outs b;
                Some ((case e of Some ret \<Rightarrow> ret | None \<Rightarrow> int datasize), ys, b1) }))"

fun send_fd_loop :: "nat \<Rightarrow> sysres list \<Rightarrow> ring \<Rightarrow> (int option \<times> bytes \<times> ring) option" where
  "send_fd_loop datasize [] b = (if rb_size b \<noteq> 0 then None else Some (None, [], b))"
| "send_fd_loop datasize (r # outs) b =
     (if rb_size b = 0 then Some (None, [], b)
      else do { xs \<leftarrow> chunk b;
                if fst r < 0 then
                  (if snd r = EAGAIN \<or> snd r = EWOULDBLOCK
                   then Some (Some (int (sz_sub datasize (rb_size b))), [], b)
                   else Some (Some (fst r), [], b))
                else do { (e, ys, b1) \<leftarrow> send_fd_loop datasize outs (advance (nat (fst (capped xs r))) b);
                          Some (e, take (nat (fst (capped xs r))) xs @ ys, b1) } })"

definition send2Socket_fd :: "int \<Rightarrow> int \<Rightarrow> bool \<Rightarrow> int \<Rightarrow> sysres list \<Rightarrow> ring \<Rightarrow> (int \<times> bytes \<times> ring) option" where
  "send2Socket_fd fd flag nonblock setfl outs b =
     (if isEmpty b then Some (0, [], b)
      else if flag < 0 then Some (RINGBUFFER_NO_SPACE, [], b)
      else if \<not> nonblock then readOut_fd fd flag setfl outs b
      else
       (let datasize = rb_size b
        in do { (e, ys, b1) \<leftarrow> send_fd_loop datasize outs b;
                case e of Some ret \<Rightarrow> Some (ret, ys, b1)
                        | None \<Rightarrow> Some (int datasize, ys, rb_clear b1) }))"

text \<open>\<open>send2Socket(Socket&)\<close>: an outcome is one call of \<open>SocketUtil::Send\<close>.\<close>

fun send_sock_loop :: "nat \<Rightarrow> (sysres \<times> sysres) list \<Rightarrow> ring \<Rightarrow> Socket \<Rightarrow> ssl_heap
    \<Rightarrow> (int option \<times> bytes \<times> ring \<times> Socket \<times> ssl_heap) option" where
  "send_sock_loop datasize [] b m h = (if rb_size b \<noteq> 0 then None else Some (None, [], b, m, h))"
| "send_sock_loop datasize ((r, sd) # outs) b m h =
     (if rb_size b = 0 then Some (None, [], b, m, h)
      else do { xs \<leftarrow> chunk b;
                (ret, rn, m1, h1) \<leftarrow> Send 0 (capped xs r) sd m h;
                if ret = TIGERSO_IO_ERROR then Some (Some ret, [], b, m1, h1)
                else if ret = TIGERSO_IO_RECALL
                then Some (Some (int (sz_sub datasize (rb_size b))), [], b, m1, h1)
                else do { n \<leftarrow> rn;
                          (e, ys, b1, m2, h2) \<leftarrow> send_sock_loop datasize outs (advance n b) m1 h1;
                          Some (e, take n xs @ ys, b1, m2, h2) } })"

definition rb_send2Socket :: "(sysres \<times> sysres) list \<Rightarrow> ring \<Rightarrow> Socket \<Rightarrow> ssl_heap
    \<Rightarrow> (int \<times> bytes \<times> ring \<times> Socket \<times> ssl_heap) option" where
  "rb_send2Socket outs b m h =
     (if isEmpty b then Some (0, [], b, m, h)
      else
       (let datasize = rb_size b
        in do { (e, ys, b1, m1, h1) \<leftarrow> send_sock_loop datasize outs b m h;
                case e of Some ret \<Rightarrow> Some (ret, ys, b1, m1, h1)
                        | None \<Rightarrow> Some (int datasize, ys, rb_clear b1, m1, h1) }))"

subsection \<open>The content of a ring\<close>

definition ring_ok :: "ring \<Rightarrow> bool" where
  "ring_ok b \<longleftrightarrow> 1025 \<le> capacity b \<and> capacity b \<le> 65537 \<and> r_r b \<le> capacity b \<and> r_w b \<le> capacity b \<and>
     \<not> (r_r b = 0 \<and> r_w b = capacity b)"

definition content :: "ring \<Rightarrow> bytes" where
  "content b = (if r_r b \<le> r_w b then take (r_w b - r_r b) (drop (r_r b) (r_buf b))
                else drop (r_r b) (r_buf b) @ take (r_w b) (r_buf b))"

lemma ring_new_ok: "ring_ok (ring_new c n) \<and> content (ring_new c n) = []"
  by (simp add: ring_ok_def ring_new_def capacity_def content_def rb_clear_def Let_def)

lemma clear_ok: "ring_ok b \<Longrightarrow> ring_ok (rb_clear b) \<and> content (rb_clear b) = []"
  by (auto simp: ring_ok_def rb_clear_def capacity_def content_def)

lemma space_eq:
  "ring_ok b \<Longrightarrow> space b = (if r_r b \<le> r_w b then capacity b - (r_w b - r_r b) - 1 else r_r b - r_w b - 1)"
  by (auto simp: ring_ok_def space_def size_simps)

lemma size_eq: "ring_ok b \<Longrightarrow> rb_size b = length (content b)"
  by (auto simp: rb_size_def space_eq size_simps ring_ok_def content_def capacity_def)

lemma space_content: "ring_ok b \<Longrightarrow> space b + length (content b) + 1 = capacity b"
  by (auto simp: space_eq ring_ok_def content_def capacity_def)

lemma writeIn_spec:
  assumes ok: "ring_ok b" and nf: "\<not> isFull b" and xs: "xs \<noteq> []"
  shows "\<exists>b'. writeIn (Some xs) b = Some (int (min (space b) (length xs)), b') \<and> ring_ok b' \<and>
              content b' = content b @ take (min (space b) (length xs)) xs \<and> capacity b' = capacity b"
proof -
  define n where "n = min (space b) (length xs)"
  define r where "r = r_r b"
  define w where "w = r_w b"
  define m where "m = r_buf b"
  define cap where "cap = capacity b"
  have lm: "length m = cap" by (simp add: m_def cap_def capacity_def)
  have n: "n \<le> length xs" "n \<le> space b" by (simp_all add: n_def)
  have bnd: "r \<le> cap" "w \<le> cap" "\<not> (r = 0 \<and> w = cap)" "1025 \<le> cap" "cap \<le> 65537"
    using ok by (simp_all add: ring_ok_def r_def w_def cap_def)
  have sp: "space b = (if r \<le> w then cap - (w - r) - 1 else r - w - 1)"
    using space_eq [OF ok] by (simp add: r_def w_def cap_def)
  have len: "(if space b < length xs then space b else length xs) = n"
    by (auto simp: n_def)
  have W: "writeIn (Some xs) b =
     (if r \<le> w then
        if n \<le> cap - w then
          do { m' \<leftarrow> blit w (take n xs) m; Some (int n, b\<lparr>r_buf := m', r_w := w + n\<rparr>) }
        else
          do { m1 \<leftarrow> blit w (take (cap - w) xs) m;
               ys \<leftarrow> slice (cap - w) (n - (cap - w)) xs;
               m2 \<leftarrow> blit 0 ys m1;
               Some (int n, b\<lparr>r_buf := m2, r_w := n - (cap - w)\<rparr>) }
      else do { m' \<leftarrow> blit w (take n xs) m; Some (int n, b\<lparr>r_buf := m', r_w := w + n\<rparr>) })"
    using nf xs n by (simp add: writeIn_def Let_def len slice_prefix r_def w_def m_def cap_def)
  show ?thesis
  proof (cases "r \<le> w")
    case rw: True
    show ?thesis
    proof (cases "n \<le> cap - w")
      case True
      let ?m = "take w m @ take n xs @ drop (w + n) m"
      have "writeIn (Some xs) b = Some (int n, b\<lparr>r_buf := ?m, r_w := w + n\<rparr>)"
        using rw True W bnd n by (simp add: mem_simps lm)
      moreover have "ring_ok (b\<lparr>r_buf := ?m, r_w := w + n\<rparr>) \<and> capacity (b\<lparr>r_buf := ?m, r_w := w + n\<rparr>) = cap"
        using rw True bnd n sp lm by (auto simp: ring_ok_def capacity_def r_def [symmetric])
      moreover have "content (b\<lparr>r_buf := ?m, r_w := w + n\<rparr>) = content b @ take n xs"
        using rw bnd n lm True by (simp add: content_def r_def [symmetric] w_def [symmetric] m_def [symmetric] drop_take)
      ultimately show ?thesis by (auto simp: n_def cap_def)
    next
      case False
      define q where "q = cap - w"
      have q: "q < n" "n - q < r" "w + q = cap"
        using False rw bnd n sp by (auto simp: q_def)
      let ?m1 = "take w m @ take q xs"
      let ?m2 = "take (n - q) (drop q xs) @ drop (n - q) ?m1"
      have "writeIn (Some xs) b = Some (int n, b\<lparr>r_buf := ?m2, r_w := n - q\<rparr>)"
        using rw False W bnd n q lm by (simp add: mem_simps q_def [symmetric])
      moreover have "ring_ok (b\<lparr>r_buf := ?m2, r_w := n - q\<rparr>) \<and> capacity (b\<lparr>r_buf := ?m2, r_w := n - q\<rparr>) = cap"
        using rw bnd n q lm by (auto simp: ring_ok_def capacity_def r_def [symmetric])
      moreover have "content (b\<lparr>r_buf := ?m2, r_w := n - q\<rparr>) = content b @ take n xs"
      proof -
        have "drop r ?m2 = drop r ?m1" using q n lm rw bnd by simp
        also have "\<dots> = drop r (take w m) @ take q xs" using rw bnd lm by simp
        finally have "content (b\<lparr>r_buf := ?m2, r_w := n - q\<rparr>) =
            drop r (take w m) @ take q xs @ take (n - q) (drop q xs)"
          using q n by (simp add: content_def r_def [symmetric])
        also have "take q xs @ take (n - q) (drop q xs) = take n xs"
          using q take_add [of q "n - q" xs] by simp
        finally show ?thesis
          using rw by (simp add: content_def r_def [symmetric] w_def [symmetric] m_def [symmetric] drop_take)
      qed
      ultimately show ?thesis by (auto simp: n_def cap_def)
    qed
  next
    case False
    let ?m = "take w m @ take n xs @ drop (w + n) m"
    have lt: "w + n < r" using False n sp by simp
    have "writeIn (Some xs) b = Some (int n, b\<lparr>r_buf := ?m, r_w := w + n\<rparr>)"
      using False W bnd n lt by (simp add: mem_simps lm)
    moreover have "ring_ok (b\<lparr>r_buf := ?m, r_w := w + n\<rparr>) \<and> capacity (b\<lparr>r_buf := ?m, r_w := w + n\<rparr>) = cap"
      using False bnd n lt lm by (auto simp: ring_ok_def capacity_def r_def [symmetric])
    moreover have "content (b\<lparr>r_buf := ?m, r_w := w + n\<rparr>) = content b @ take n xs"
      using False bnd n lm lt by (simp add: content_def r_def [symmetric] w_def [symmetric] m_def [symmetric])
    ultimately show ?thesis by (auto simp: n_def cap_def)
  qed
qed

lemma readOut_spec:
  assumes ok: "ring_ok b" and ne: "\<not> isEmpty b" and len: "0 < len"
  shows "\<exists>b'. readOut (Some len) b = Some (int (min len (rb_size b)), take len (content b), b') \<and> ring_ok b' \<and>
              content b' = drop len (content b)"
proof -
  define n where "n = min len (rb_size b)"
  define r where "r = r_r b"
  define w where "w = r_w b"
  define m where "m = r_buf b"
  define cap where "cap = capacity b"
  have lm: "length m = cap" by (simp add: m_def cap_def capacity_def)
  have bnd: "r \<le> cap" "w \<le> cap" "\<not> (r = 0 \<and> w = cap)" "1025 \<le> cap" "cap \<le> 65537" "r \<noteq> w"
    using ok ne by (simp_all add: ring_ok_def isEmpty_def r_def w_def cap_def)
  have ct: "content b = (if r \<le> w then take (w - r) (drop r m) else drop r m @ take w m)"
    by (simp add: content_def r_def w_def m_def)
  have sz: "rb_size b = length (content b)" by (rule size_eq [OF ok])
  have tk: "take len (content b) = take n (content b)" "drop len (content b) = drop n (content b)"
    by (simp_all add: n_def sz min_def)
  have rn: "(if len > rb_size b then rb_size b else len) = n" by (auto simp: n_def)
  have R: "readOut (Some len) b =
     (if w > r then do { xs \<leftarrow> slice r n m; Some (int n, xs, b\<lparr>r_r := r + n\<rparr>) }
      else if n \<le> cap - r then do { xs \<leftarrow> slice r n m; Some (int n, xs, b\<lparr>r_r := r + n\<rparr>) }
      else do { xs \<leftarrow> slice r (cap - r) m; ys \<leftarrow> slice 0 (n - (cap - r)) m;
                Some (int n, xs @ ys, b\<lparr>r_r := n - (cap - r)\<rparr>) })"
    using ne len by (simp add: readOut_def Let_def rn r_def w_def m_def cap_def)
  consider (a) "r < w" | (b) "w < r" "n \<le> cap - r" | (c) "w < r" "cap - r < n"
    using bnd by linarith
  then show ?thesis
  proof cases
    case a
    have n: "n \<le> w - r" using a bnd lm by (simp add: n_def sz ct)
    have "readOut (Some len) b = Some (int n, take n (drop r m), b\<lparr>r_r := r + n\<rparr>)"
      using a R n bnd lm by (simp add: mem_simps)
    moreover have "ring_ok (b\<lparr>r_r := r + n\<rparr>)"
      using ok n a by (auto simp: ring_ok_def w_def r_def capacity_def)
    moreover have "content (b\<lparr>r_r := r + n\<rparr>) = drop n (content b)"
    proof -
      have "r + n \<le> w" "w - (r + n) = w - r - n" using a n by auto
      then show ?thesis
        using a by (simp add: ct) (simp add: content_def w_def m_def drop_take add.commute)
    qed
    moreover have "take n (content b) = take n (drop r m)"
      using a n by (simp add: ct min_def)
    ultimately show ?thesis by (auto simp: n_def [symmetric] tk)
  next
    case b
    have "readOut (Some len) b = Some (int n, take n (drop r m), b\<lparr>r_r := r + n\<rparr>)"
      using b R bnd lm by (simp add: mem_simps)
    moreover have "ring_ok (b\<lparr>r_r := r + n\<rparr>)"
      using ok b bnd by (auto simp: ring_ok_def r_def w_def cap_def capacity_def)
    moreover have "content (b\<lparr>r_r := r + n\<rparr>) = drop n (content b)"
      using b bnd lm by (simp add: ct) (simp add: content_def w_def m_def add.commute)
    moreover have "take n (content b) = take n (drop r m)"
      using b bnd lm by (simp add: ct)
    ultimately show ?thesis by (auto simp: n_def [symmetric] tk)
  next
    case c
    have n: "n \<le> cap - r + w" using c bnd lm by (simp add: n_def sz ct)
    have "readOut (Some len) b = Some (int n, drop r m @ take (n - (cap - r)) m, b\<lparr>r_r := n - (cap - r)\<rparr>)"
      using c R bnd lm n by (simp add: mem_simps)
    moreover have "ring_ok (b\<lparr>r_r := n - (cap - r)\<rparr>)"
      using ok c bnd n by (auto simp: ring_ok_def r_def w_def cap_def capacity_def)
    moreover have "content (b\<lparr>r_r := n - (cap - r)\<rparr>) = drop n (content b)"
    proof -
      obtain q where q: "n = cap - r + q" using c(2) by (metis less_imp_le le_Suc_ex)
      then have "q \<le> w" using n by simp
      then show ?thesis
        using c(1) bnd lm q by (simp add: ct) (simp add: content_def w_def m_def drop_take)
    qed
    moreover have "take n (content b) = drop r m @ take (n - (cap - r)) m"
    proof -
      obtain q where q: "n = cap - r + q" using c(2) by (metis less_imp_le le_Suc_ex)
      then have "q \<le> w" using n by simp
      then show ?thesis
        using c(1) bnd lm q by (simp add: ct)
    qed
    ultimately show ?thesis by (auto simp: n_def [symmetric] tk)
  qed
qed

subsection \<open>The ring as a queue\<close>

definition ring_put :: "bytes \<Rightarrow> ring \<Rightarrow> (nat \<times> ring) option" where
  "ring_put xs b = map_option (\<lambda>(n, b'). (nat n, b')) (writeIn (Some xs) b)"

definition ring_get :: "nat \<Rightarrow> ring \<Rightarrow> (bytes \<times> ring) option" where
  "ring_get n b = map_option snd (readOut (Some n) b)"

interpretation ring_queue: byte_queue ring_ok content "\<lambda>_. True" ring_put ring_get
proof
  fix b :: ring and xs :: bytes
  assume ok: "ring_ok b"
  show "\<exists>n q'. ring_put xs b = Some (n, q') \<and> ring_ok q' \<and> n \<le> length xs \<and> content q' = content b @ take n xs"
  proof (cases "isFull b \<or> xs = []")
    case True
    then show ?thesis using ok by (auto simp: ring_put_def writeIn_def)
  next
    case False
    then show ?thesis
      using writeIn_spec [OF ok, of xs] by (auto simp: ring_put_def)
  qed
next
  fix b :: ring and n :: nat
  assume ok: "ring_ok b"
  show "\<exists>q'. ring_get n b = Some (take n (content b), q') \<and> ring_ok q' \<and> content q' = drop n (content b)"
  proof (cases "isEmpty b \<or> n = 0")
    case True
    then show ?thesis
      using ok by (auto simp: ring_get_def readOut_def isEmpty_def content_def)
  next
    case False
    then show ?thesis
      using readOut_spec [OF ok, of n] by (auto simp: ring_get_def)
  qed
qed

text \<open>
  C9. A ring buffer is a first-in first-out queue of bytes: no sequence of writes and reads
  of any sizes touches memory outside of the array, and the bytes read out, followed by what
  is still inside, are what was inside at the start followed by the bytes accepted.
\<close>

theorem ring_fifo:
  assumes "ring_ok b"
  shows "\<exists>acc out b'. run_queue ring_put ring_get ops b = Some (acc, out, b') \<and> ring_ok b' \<and>
                      out @ content b' = content b @ acc"
  using assms by (rule ring_queue.fifo) simp

theorem ring_fifo_witness:
  "\<exists>acc out b'. run_queue ring_put ring_get [Put ''abc'', Get 2, Put ''de'', Get 9] (ring_new CHR ''x'' 8) =
                  Some (acc, out, b') \<and> ring_ok b' \<and> out @ content b' = [] @ acc"
  using ring_fifo [of "ring_new CHR ''x'' 8"] ring_new_ok by metis

subsection \<open>Draining\<close>

text \<open>Both offsets stand inside the array, not at its end.\<close>

definition inner :: "ring \<Rightarrow> bool" where
  "inner b \<longleftrightarrow> ring_ok b \<and> r_r b < capacity b \<and> r_w b < capacity b"

lemma chunk_spec:
  assumes "inner b" "rb_size b \<noteq> 0"
  shows "\<exists>xs ys. chunk b = Some xs \<and> xs \<noteq> [] \<and> content b = xs @ ys"
proof (cases "r_w b > r_r b")
  case True
  then show ?thesis
    using assms size_eq [of b] by (auto simp: inner_def chunk_def slice_def content_def capacity_def ring_ok_def)
next
  case False
  then have "r_w b < r_r b"
    using assms size_eq [of b] by (cases "r_w b = r_r b") (auto simp: inner_def content_def)
  then show ?thesis
    using assms by (auto simp: inner_def chunk_def slice_def content_def capacity_def)
qed

lemma advance_spec:
  assumes "inner b" "chunk b = Some xs" "n \<le> length xs" "rb_size b \<noteq> 0"
  shows "inner (advance n b) \<and> content (advance n b) = drop n (content b) \<and> capacity (advance n b) = capacity b"
proof (cases "r_w b > r_r b")
  case True
  then have "n \<le> r_w b - r_r b"
    using assms size_eq [of b] by (auto simp: inner_def chunk_def slice_def content_def split: if_splits)
  then have "(r_r b + n) mod capacity b = r_r b + n" "r_r b + n \<le> r_w b"
    using assms True by (auto simp: inner_def)
  then show ?thesis
    using assms True by (auto simp: advance_def inner_def ring_ok_def capacity_def content_def drop_take add.commute)
next
  case ge: False
  moreover have "r_w b \<noteq> r_r b"
    using assms size_eq [of b] by (auto simp: inner_def content_def)
  ultimately have False: "\<not> r_r b < r_w b" "r_w b < r_r b" by simp_all
  then have n: "r_r b + n \<le> capacity b"
    using assms by (auto simp: inner_def chunk_def slice_def capacity_def split: if_splits)
  show ?thesis
  proof (cases "r_r b + n = capacity b")
    case True
    then show ?thesis
      using assms False by (auto simp: advance_def inner_def ring_ok_def capacity_def content_def)
  next
    case lt: False
    then have "(r_r b + n) mod capacity b = r_r b + n" using n by simp
    then show ?thesis
      using assms False n lt
      by (auto simp: advance_def inner_def ring_ok_def capacity_def content_def add.commute)
  qed
qed

lemma appendWriteIn_lim:
  assumes "b \<noteq> []" "fname f \<noteq> []" "wperm k (fname f)" "0 \<le> nfd" "0 \<le> lim"
  shows "appendWriteIn b nfd (-1) lim f k =
           (int (min (length b) (nat lim)),
            k\<lparr>disk := (disk k)(fname f \<mapsto> file_content k (fname f) @ take (nat lim) b), fds := (fds k)(nfd := None)\<rparr>)"
  using assms
  by (auto simp: appendWriteIn_def sys_open_wr_creat_def RelocateFileDescriptor_def sys_dupfd_def
      sys_write_def sys_close_def valid_fd_def Let_def file_content_def fun_eq_iff
      split: option.splits)

definition sane :: "int \<times> int \<times> int \<Rightarrow> bool" where
  "sane x \<longleftrightarrow> (case x of (nfd, dup, lim) \<Rightarrow> 0 \<le> nfd \<and> dup = -1 \<and> 1 \<le> lim)"

lemma readOut2File_loop_drains:
  assumes "inner b" "fname f \<noteq> []" "wperm k (fname f)" "\<forall>x \<in> set outs. sane x" "length (content b) \<le> length outs"
  shows "\<exists>b' k'. readOut2File_loop outs b f k = Some (True, b', k') \<and> inner b' \<and> content b' = [] \<and>
                 file_content k' (fname f) = file_content k (fname f) @ content b"
  using assms
proof (induction outs arbitrary: b k)
  case Nil
  then show ?case using size_eq [of b] by (auto simp: inner_def)
next
  case (Cons x outs)
  obtain nfd lim where x: "x = (nfd, -1, lim)" "0 \<le> nfd" "1 \<le> lim"
    using Cons.prems(4) by (auto simp: sane_def)
  show ?case
  proof (cases "rb_size b = 0")
    case True
    then show ?thesis
      using Cons.prems(1) size_eq [of b] x by (auto simp: inner_def)
  next
    case False
    obtain xs ys where xs: "chunk b = Some xs" "xs \<noteq> []" "content b = xs @ ys"
      using chunk_spec [OF Cons.prems(1) False] by blast
    let ?n = "min (length xs) (nat lim)"
    let ?k = "k\<lparr>disk := (disk k)(fname f \<mapsto> file_content k (fname f) @ take (nat lim) xs), fds := (fds k)(nfd := None)\<rparr>"
    have w: "appendWriteIn xs nfd (-1) lim f k = (int ?n, ?k)"
      using appendWriteIn_lim [OF xs(2) Cons.prems(2,3) x(2)] x(3) by simp
    have adv: "inner (advance ?n b)" "content (advance ?n b) = drop ?n (content b)"
      using advance_spec [OF Cons.prems(1) xs(1), of ?n] False by simp_all
    have "1 \<le> ?n" using xs(2) x(3) by (cases xs) auto
    then have "length (content (advance ?n b)) \<le> length outs"
      using Cons.prems(5) unfolding adv(2) length_drop length_Cons by arith
    moreover have "wperm ?k (fname f)" using Cons.prems(3) by simp
    ultimately obtain b' k' where r: "readOut2File_loop outs (advance ?n b) f ?k = Some (True, b', k')" "inner b'"
      "content b' = []" "file_content k' (fname f) = file_content ?k (fname f) @ content (advance ?n b)"
      using Cons.IH [OF adv(1) Cons.prems(2), of ?k] Cons.prems(4) by auto
    have "take (nat lim) xs = take ?n (content b)"
      using xs(3) by (simp add: min_def)
    then have "file_content k' (fname f) = file_content k (fname f) @ content b"
      using r(4) adv(2) by (simp add: file_content_def)
    moreover have "readOut2File_loop (x # outs) b f k = Some (True, b', k')"
      using False xs(1) w r(1) x(1) by simp
    ultimately show ?thesis using r(2,3) by blast
  qed
qed

text \<open>With the write offset at the end of the array the modulo sends the read offset to the
  front instead of meeting it, and the ring looks full again.\<close>

definition wrapped :: "ring \<Rightarrow> bool" where
  "wrapped b \<longleftrightarrow> r_w b = capacity b \<and> r_r b < capacity b \<and> 1025 \<le> capacity b \<and> capacity b \<le> 65537"

lemma wrapped_chunk:
  assumes "wrapped b"
  shows "rb_size b = capacity b - r_r b" "chunk b = Some (drop (r_r b) (r_buf b))"
    "wrapped (advance (capacity b - r_r b) b)" "drop (r_r b) (r_buf b) \<noteq> []"
proof -
  show s: "rb_size b = capacity b - r_r b"
  proof (cases "r_r b = 0")
    case True
    then have "space b = 2 ^ 64 - 1"
      using assms by (simp add: wrapped_def space_def sz_sub_def)
    then show ?thesis
      using assms True by (simp add: rb_size_def sz_sub_def wrapped_def)
  next
    case False
    then have "space b = r_r b - 1"
      using assms by (simp add: wrapped_def space_def size_simps)
    moreover have "r_r b - 1 \<le> capacity b" "1 \<le> capacity b - (r_r b - 1)"
      "capacity b - (r_r b - 1) - 1 = capacity b - r_r b"
      using assms False unfolding wrapped_def by linarith+
    ultimately show ?thesis
      unfolding rb_size_def by (simp only: sz_sub_ge)
  qed
  show "chunk b = Some (drop (r_r b) (r_buf b))"
    using assms s by (auto simp: chunk_def slice_def wrapped_def capacity_def)
  show "wrapped (advance (capacity b - r_r b) b)"
    using assms by (auto simp: wrapped_def advance_def capacity_def)
  show "drop (r_r b) (r_buf b) \<noteq> []"
    using assms by (auto simp: wrapped_def capacity_def)
qed

lemma readOut2File_loop_hangs:
  assumes "wrapped b" "fname f \<noteq> []" "wperm k (fname f)" "0 \<le> nfd" "int (capacity b) \<le> lim"
  shows "readOut2File_loop (replicate n (nfd, -1, lim)) b f k = None"
  using assms
proof (induction n arbitrary: b k)
  case 0
  then show ?case using wrapped_chunk(1) [of b] by (simp add: wrapped_def)
next
  case (Suc n)
  note c = wrapped_chunk [OF Suc.prems(1)]
  let ?xs = "drop (r_r b) (r_buf b)"
  have len: "length ?xs = capacity b - r_r b" by (simp add: capacity_def)
  have "appendWriteIn ?xs nfd (-1) lim f k =
      (int (capacity b - r_r b),
       k\<lparr>disk := (disk k)(fname f \<mapsto> file_content k (fname f) @ ?xs), fds := (fds k)(nfd := None)\<rparr>)"
    using appendWriteIn_lim [OF c(4) Suc.prems(2,3,4), of lim] Suc.prems(5) len
    by (simp add: min_def)
  moreover have "rb_size b \<noteq> 0" using c(1) Suc.prems(1) by (simp add: wrapped_def)
  moreover have "readOut2File_loop (replicate n (nfd, -1, lim)) (advance (capacity b - r_r b) b) f
      (k\<lparr>disk := (disk k)(fname f \<mapsto> file_content k (fname f) @ ?xs), fds := (fds k)(nfd := None)\<rparr>) = None"
    using Suc.prems c(3) by (intro Suc.IH) (simp_all add: advance_def capacity_def)
  ultimately show ?case using c(2) by simp
qed


text \<open>A ring in the state that hangs: one byte read, 1023 more written behind the last one.\<close>

definition demo_ring :: "nat \<Rightarrow> nat \<Rightarrow> ring" where
  "demo_ring r w = \<lparr>r_buf = replicate 1025 CHR ''x'', r_r = r, r_w = w\<rparr>"

lemma demo_ring_simps [simp]:
  "capacity (demo_ring r w) = 1025" "r_r (demo_ring r w) = r" "r_w (demo_ring r w) = w"
  by (simp_all add: demo_ring_def capacity_def)


subsection \<open>Sending to a socket\<close>

lemma send_sock_loop_spec:
  assumes "inner b" "\<not> isSSL m h" "length (content b) \<le> ds"
    "send_sock_loop ds outs b m h = Some (e, ys, b', m', h')"
  shows "inner b' \<and> ys @ content b' = content b \<and> m' = m \<and> h' = h \<and> capacity b' = capacity b \<and>
         (case e of None \<Rightarrow> content b' = [] | Some v \<Rightarrow> v = int (ds - length (content b')) \<and> content b' \<noteq> [])"
  using assms
proof (induction outs arbitrary: b ys)
  case Nil
  then show ?case using size_eq [of b] by (auto simp: inner_def split: if_splits)
next
  case (Cons x outs)
  obtain r sd where x: "x = (r, sd)" by (cases x)
  have sz: "rb_size b = length (content b)" using Cons.prems(1) size_eq by (simp add: inner_def)
  show ?case
  proof (cases "rb_size b = 0")
    case True
    then show ?thesis using Cons.prems x sz by simp
  next
    case False
    obtain xs zs where xs: "chunk b = Some xs" "xs \<noteq> []" "content b = xs @ zs"
      using chunk_spec [OF Cons.prems(1) False] by blast
    show ?thesis
    proof (cases "0 \<le> fst r")
      case neg: False
      then show ?thesis
        using Cons.prems False xs x sz by (auto simp: Send_def capped_def sz_sub_ge of_nat_diff)
    next
      case True
      define n where "n = nat (min (fst r) (int (length xs)))"
      have n: "n \<le> length xs" "int n = fst (capped xs r)"
        using True by (auto simp: n_def capped_def)
      have len: "length xs < 2 ^ 64"
        using xs(1) Cons.prems(1) by (auto simp: chunk_def slice_def inner_def ring_ok_def capacity_def split: if_splits)
      then have "to_size (fst (capped xs r)) = n"
        using n by (simp add: to_size_def flip: n(2))
      then have S: "Send 0 (capped xs r) sd m h = Some (TIGERSO_IO_OK, Some n, m, h)"
        using Cons.prems(2) n(2) by (simp add: Send_def)
      have adv: "inner (advance n b)" "content (advance n b) = drop n (content b)" "capacity (advance n b) = capacity b"
        using advance_spec [OF Cons.prems(1) xs(1) n(1) False] by simp_all
      obtain zs' where rec: "send_sock_loop ds outs (advance n b) m h = Some (e, zs', b', m', h')" "ys = take n xs @ zs'"
        using Cons.prems(4) False xs(1) S x by (auto simp: bind_eq_Some_conv)
      have "length (content (advance n b)) \<le> ds" using Cons.prems(3) adv(2) by simp
      from Cons.IH [OF adv(1) Cons.prems(2) this rec(1)] adv(2,3)
      have "inner b' \<and> zs' @ content b' = drop n (content b) \<and> m' = m \<and> h' = h \<and> capacity b' = capacity b \<and>
         (case e of None \<Rightarrow> content b' = [] | Some v \<Rightarrow> v = int (ds - length (content b')) \<and> content b' \<noteq> [])"
        by simp
      moreover have "take n xs = take n (content b)" using n(1) xs(3) by simp
      ultimately show ?thesis using rec(2) by simp
    qed
  qed
qed

lemma rb_send2Socket_spec:
  assumes "inner b" "\<not> isSSL m h" "rb_send2Socket outs b m h = Some (ret, ys, b', m', h')"
  shows "ys @ content b' = content b \<and> ret = int (length ys) \<and> inner b' \<and> m' = m \<and> h' = h \<and>
         capacity b' = capacity b \<and> (content b \<noteq> [] \<and> content b' = [] \<longrightarrow> r_r b' = 0 \<and> r_w b' = 0)"
proof (cases "isEmpty b")
  case True
  then show ?thesis using assms by (auto simp: rb_send2Socket_def isEmpty_def content_def)
next
  case False
  have sz: "rb_size b = length (content b)" using assms(1) size_eq by (simp add: inner_def)
  obtain e b1 where l: "send_sock_loop (rb_size b) outs b m h = Some (e, ys, b1, m', h')"
    "(ret, b') = (case e of Some v \<Rightarrow> (v, b1) | None \<Rightarrow> (int (rb_size b), rb_clear b1))"
    using assms(3) False by (auto simp: rb_send2Socket_def Let_def bind_eq_Some_conv split: option.splits)
  have s: "inner b1 \<and> ys @ content b1 = content b \<and> m' = m \<and> h' = h \<and> capacity b1 = capacity b \<and>
      (case e of None \<Rightarrow> content b1 = [] | Some v \<Rightarrow> v = int (rb_size b - length (content b1)) \<and> content b1 \<noteq> [])"
    using send_sock_loop_spec [OF assms(1,2) _ l(1)] sz by simp
  then have "length (content b) = length ys + length (content b1)"
    by (metis length_append)
  moreover have "inner (rb_clear b1)" "content (rb_clear b1) = []" "capacity (rb_clear b1) = capacity b1"
    "r_r (rb_clear b1) = 0" "r_w (rb_clear b1) = 0"
    using s by (auto simp: inner_def ring_ok_def rb_clear_def capacity_def content_def)
  ultimately show ?thesis
    using s l(2) sz by (cases e) auto
qed

text \<open>The loop returns when one of the calls fails, or there are enough that take something.\<close>

lemma send_sock_loop_returns:
  assumes "inner b" "\<not> isSSL m h"
    "(\<exists>x \<in> set outs. fst (fst x) < 0) \<or>
     ((\<forall>x \<in> set outs. 1 \<le> fst (fst x)) \<and> length (content b) \<le> length outs)"
  shows "\<exists>res. send_sock_loop ds outs b m h = Some res"
  using assms
proof (induction outs arbitrary: b)
  case Nil
  then show ?case using size_eq [of b] by (auto simp: inner_def)
next
  case (Cons x outs)
  obtain r sd where x: "x = (r, sd)" by (cases x)
  show ?case
  proof (cases "rb_size b = 0 \<or> fst r < 0")
    case True
    then show ?thesis
      using x chunk_spec [OF Cons.prems(1)] Cons.prems(2) by (auto simp: Send_def capped_def)
  next
    case False
    then have ne: "rb_size b \<noteq> 0" by simp
    obtain xs zs where xs: "chunk b = Some xs" "xs \<noteq> []" "content b = xs @ zs"
      using chunk_spec [OF Cons.prems(1) ne] by blast
    define n where "n = nat (min (fst r) (int (length xs)))"
    have n: "n \<le> length xs" "int n = fst (capped xs r)" "1 \<le> fst r \<Longrightarrow> 1 \<le> n"
      using False xs(2) by (auto simp: n_def capped_def) (cases xs, auto)
    have len: "length xs < 2 ^ 64"
      using xs(1) Cons.prems(1) by (auto simp: chunk_def slice_def inner_def ring_ok_def capacity_def split: if_splits)
    then have "to_size (fst (capped xs r)) = n"
      using n by (simp add: to_size_def flip: n(2))
    then have S: "Send 0 (capped xs r) sd m h = Some (TIGERSO_IO_OK, Some n, m, h)"
      using Cons.prems(2) n(2) by (simp add: Send_def)
    have adv: "inner (advance n b)" "content (advance n b) = drop n (content b)"
      using advance_spec [OF Cons.prems(1) xs(1) n(1) ne] by simp_all
    have "\<exists>res. send_sock_loop ds outs (advance n b) m h = Some res"
    proof (rule Cons.IH [OF adv(1) Cons.prems(2)])
      show "(\<exists>x \<in> set outs. fst (fst x) < 0) \<or>
        ((\<forall>x \<in> set outs. 1 \<le> fst (fst x)) \<and> length (content (advance n b)) \<le> length outs)"
        using Cons.prems(3) x False n(3) adv(2) by (auto simp: le_diff_conv)
    qed
    then show ?thesis
      using ne xs(1) S x by (auto simp: bind_eq_Some_conv)
  qed
qed

lemma rb_send2Socket_returns:
  assumes "inner b" "\<not> isSSL m h"
    "(\<exists>x \<in> set outs. fst (fst x) < 0) \<or>
     ((\<forall>x \<in> set outs. 1 \<le> fst (fst x)) \<and> length (content b) \<le> length outs)"
  shows "\<exists>ret ys b' m' h'. rb_send2Socket outs b m h = Some (ret, ys, b', m', h')"
  using send_sock_loop_returns [OF assms, of "rb_size b"]
  by (auto simp: rb_send2Socket_def Let_def split: option.splits)

text \<open>
  Sending a ring over a plain socket, whatever the socket takes at each call: the bytes on
  the wire followed by what is left in the ring are the content the ring had, the result is
  the number of bytes sent, and after a failed call the rest stays for the next one.
\<close>

theorem rb_send2Socket_prefix:
  assumes "inner b" "\<not> isSSL m h" "rb_send2Socket outs b m h = Some (ret, ys, b', m', h')"
  shows "ys @ content b' = content b \<and> ret = int (length ys) \<and> ring_ok b' \<and> m' = m \<and> h' = h"
  using rb_send2Socket_spec [OF assms] by (simp add: inner_def)

theorem rb_send2Socket_prefix_witness:
  "\<exists>b'. rb_send2Socket [((-1, 11), (0, 0))] (demo_ring 5 1005) (new_Socket 1) demo_heap =
          Some (0, [], b', new_Socket 1, demo_heap) \<and> content b' = content (demo_ring 5 1005)"
proof -
  let ?b = "demo_ring 5 1005"
  have i: "inner ?b" by (simp add: inner_def ring_ok_def)
  have p: "\<not> isSSL (new_Socket 1) demo_heap"
    by (simp add: isSSL_def new_Socket_def new_SSLContext_def ctx_active_def validSSL_def)
  have sz: "rb_size ?b = 1000" by (simp add: rb_size_def space_def sz_sub_ge)
  obtain xs where xs: "chunk ?b = Some xs"
    using chunk_spec [OF i] sz by auto
  have "rb_send2Socket [((-1, 11), (0, 0))] ?b (new_Socket 1) demo_heap = Some (0, [], ?b, new_Socket 1, demo_heap)"
    using sz xs p by (simp add: rb_send2Socket_def isEmpty_def Send_def capped_def sz_sub_ge)
  then show ?thesis
    using rb_send2Socket_prefix [OF i p, of "[((-1, 11), (0, 0))]"] by fastforce
qed

end
