(* ===== verification/BodyFile.thy ===== *)
theory BodyFile
  imports RingBuf HashHex
begin

text \<open>
  \<open>http/HttpBodyFile.cpp\<close>: the body of a message, a ring buffer in front of a file, and the
  four ways to send it, as content or in chunks, over a descriptor with \<open>sendfile\<close> or through
  a socket object. The state machines keep the place where a full socket stopped them. The
  world of one call holds the socket, the kernel and the bytes put on the wire, and the
  outcomes of the calls it makes, one list for each send and one entry for each read; when
  they are used up the call is undefined.
\<close>

datatype HttpBodyMode = HTTP_BODY_NULL | HTTP_BODY_RINGBUFFER | HTTP_BODY_FILE

datatype ChunkState =
    CHUNKUINIT | CHUNKSIZEON | CHUNKSIZEDONE | CHUNKEDATAON | CHUNKEDATADONE | CHUNKEOFON
  | CHUNKEOFDONE | CHUNKFILEDONE | CHUNKNULLON | CHUNKNULLDONE

abbreviation HTTP_FILE_CACHE_SIZE :: int where "HTTP_FILE_CACHE_SIZE \<equiv> 8192"
abbreviation RINGBUFFER_DEFAULT_LENGTH :: nat where "RINGBUFFER_DEFAULT_LENGTH \<equiv> 8192"

definition CRLF :: bytes where "CRLF = [CHR 0x0D, CHR 0x0A]"

record HttpBodyFile =
  b_file :: File
  b_ring :: ring
  b_readoffset :: int
  b_chunksize :: int
  b_sendContentDone :: bool
  b_chunkstate :: ChunkState
  b_unlink :: bool
  b_chunked :: bool

text \<open>The outcome of the open, the relocation and the write of one append.\<close>

type_synonym append_res = "int \<times> int \<times> int"

definition sys_unlink :: "bytes \<Rightarrow> kern \<Rightarrow> kern" where
  "sys_unlink name k = k\<lparr>disk := (disk k)(name := None)\<rparr>"

definition File_clear :: "File \<Rightarrow> kern \<Rightarrow> File \<times> kern" where
  "File_clear f k = (let (f1, k1) = File_reset f k in (f1\<lparr>f_filename := replicate 1024 NUL\<rparr>, k1))"

definition body_reset :: "HttpBodyFile \<Rightarrow> kern \<Rightarrow> HttpBodyFile \<times> kern" where
  "body_reset b k =
     (let k1 = (if b_unlink b then sys_unlink (fname (b_file b)) k else k);
          (f, k2) = File_clear (b_file b) k1
      in (b\<lparr>b_ring := rb_clear (b_ring b), b_file := f, b_readoffset := 0, b_chunksize := HTTP_FILE_CACHE_SIZE,
            b_sendContentDone := False, b_chunkstate := CHUNKUINIT, b_unlink := False\<rparr>, k2))"

definition setFile :: "bytes option \<Rightarrow> HttpBodyFile \<Rightarrow> kern \<Rightarrow> (HttpBodyFile \<times> kern) option" where
  "setFile name b k =
     (let (b1, k1) = body_reset b k
      in do { (f, k2) \<leftarrow> setFilename name (b_file b1) k1; Some (b1\<lparr>b_file := f\<rparr>, k2) })"

definition flushFile :: "append_res list \<Rightarrow> HttpBodyFile \<Rightarrow> kern \<Rightarrow> (HttpBodyFile \<times> kern) option" where
  "flushFile outs b k =
     (if rb_size (b_ring b) \<noteq> 0
      then do { (_, r, k1) \<leftarrow> readOut2File outs (b_ring b) (b_file b) k; Some (b\<lparr>b_ring := r\<rparr>, k1) }
      else Some (b, k))"

definition mode :: "append_res list \<Rightarrow> HttpBodyFile \<Rightarrow> kern \<Rightarrow> (HttpBodyMode \<times> HttpBodyFile \<times> kern) option" where
  "mode outs b k =
     (if getFileSize (b_file b) k \<noteq> 0
      then do { (b1, k1) \<leftarrow> flushFile outs b k; Some (HTTP_BODY_FILE, b1, k1) }
      else if rb_size (b_ring b) \<noteq> 0 then Some (HTTP_BODY_RINGBUFFER, b, k)
      else Some (HTTP_BODY_NULL, b, k))"

definition closeFile :: "append_res list \<Rightarrow> HttpBodyFile \<Rightarrow> kern \<Rightarrow> (HttpBodyFile \<times> kern) option" where
  "closeFile outs b k =
     do { (b1, k1) \<leftarrow> flushFile outs b k;
          let (f, k2) = File_close (b_file b1) k1;
          Some (b1\<lparr>b_file := f\<rparr>, k2) }"

definition body_size :: "HttpBodyFile \<Rightarrow> kern \<Rightarrow> int" where
  "body_size b k = int (rb_size (b_ring b)) + (if testExist (b_file b) k then getFileSize (b_file b) k else 0)"

text \<open>\<open>writeIn\<close>: the loop that fills the ring and flushes it; one list of outcomes is used
  by each flush, and each round takes one unit of fuel.\<close>

fun body_write_loop :: "nat \<Rightarrow> append_res list list \<Rightarrow> bytes \<Rightarrow> HttpBodyFile \<Rightarrow> kern \<Rightarrow> (bool \<times> HttpBodyFile \<times> kern) option" where
  "body_write_loop 0 outss left b k = None"
| "body_write_loop (Suc fuel) outss left b k =
     do { (writen, r) \<leftarrow> RingBuf.writeIn (Some left) (b_ring b);
          let left' = (if writen > 0 then drop (nat writen) left else left);
          let b1 = b\<lparr>b_ring := r\<rparr>;
          if writen = RINGBUFFER_NO_DATA then Some (False, b1, k)
          else
            do { (b2, k2, outss') \<leftarrow>
                   (if isFull r
                    then (case outss of [] \<Rightarrow> None
                          | o' # os \<Rightarrow> do { (b', k') \<leftarrow> flushFile o' b1 k; Some (b', k', os) })
                    else Some (b1, k, outss));
                 if left' = [] then Some (True, b2, k2)
                 else body_write_loop fuel outss' left' b2 k2 } }"

definition body_writeIn :: "nat \<Rightarrow> append_res list list \<Rightarrow> append_res \<Rightarrow> bytes \<Rightarrow> HttpBodyFile \<Rightarrow> kern
    \<Rightarrow> (int \<times> HttpBodyFile \<times> kern) option" where
  "body_writeIn fuel outss res buf b k =
     (if length buf < space (b_ring b) then
        do { (n, r) \<leftarrow> RingBuf.writeIn (Some buf) (b_ring b); Some (n, b\<lparr>b_ring := r\<rparr>, k) }
      else if length buf \<ge> RINGBUFFER_DEFAULT_LENGTH then
        (case outss of
           [] \<Rightarrow> None
         | o' # _ \<Rightarrow>
             do { (b1, k1) \<leftarrow> flushFile o' b k;
                  let (nfd, dup, lim) = res;
                  let (n, k2) = appendWriteIn buf nfd dup lim (b_file b1) k1;
                  Some (n, b1, k2) })
      else
        do { (fin, b1, k1) \<leftarrow> body_write_loop fuel outss buf b k;
             Some ((if fin then int (length buf) else 0), b1, k1) })"

subsection \<open>Sending through a socket object\<close>

record bworld =
  w_body :: HttpBodyFile
  w_sock :: Socket
  w_heap :: ssl_heap
  w_kern :: kern
  w_out :: bytes
  w_sends :: "(sysres \<times> sysres) list list"
  w_reads :: "(int \<times> int \<times> int) list"

abbreviation upd_body :: "(HttpBodyFile \<Rightarrow> HttpBodyFile) \<Rightarrow> bworld \<Rightarrow> bworld" where
  "upd_body g w \<equiv> w\<lparr>w_body := g (w_body w)\<rparr>"

definition w_send :: "bworld \<Rightarrow> (int \<times> bworld) option" where
  "w_send w =
     (case w_sends w of
        [] \<Rightarrow> None
      | outs # rest \<Rightarrow>
          do { (ret, ys, r, m, h) \<leftarrow> rb_send2Socket outs (b_ring (w_body w)) (w_sock w) (w_heap w);
               Some (ret, w\<lparr>w_body := (w_body w)\<lparr>b_ring := r\<rparr>, w_sock := m, w_heap := h,
                            w_out := w_out w @ ys, w_sends := rest\<rparr>) })"

definition w_read :: "bworld \<Rightarrow> (int \<times> bworld) option" where
  "w_read w =
     (case w_reads w of
        [] \<Rightarrow> None
      | (nfd, lim1, lim2) # rest \<Rightarrow>
          do { (ret, r, f, k) \<leftarrow> writeInFromFile nfd lim1 lim2 (b_ring (w_body w)) (b_file (w_body w)) (w_kern w);
               Some (ret, w\<lparr>w_body := (w_body w)\<lparr>b_ring := r, b_file := f\<rparr>, w_kern := k, w_reads := rest\<rparr>) })"

definition w_put :: "bytes \<Rightarrow> bworld \<Rightarrow> bworld option" where
  "w_put xs w =
     do { (_, r) \<leftarrow> RingBuf.writeIn (Some xs) (b_ring (w_body w)); Some (w\<lparr>w_body := (w_body w)\<lparr>b_ring := r\<rparr>\<rparr>) }"

definition w_clear :: "bworld \<Rightarrow> bworld" where
  "w_clear w = upd_body (\<lambda>b. b\<lparr>b_ring := rb_clear (b_ring b)\<rparr>) w"

definition w_reset :: "bworld \<Rightarrow> bworld" where
  "w_reset w = (let (b, k) = body_reset (w_body w) (w_kern w) in w\<lparr>w_body := b, w_kern := k\<rparr>)"

definition w_state :: "ChunkState \<Rightarrow> bworld \<Rightarrow> bworld" where
  "w_state s w = upd_body (\<lambda>b. b\<lparr>b_chunkstate := s\<rparr>) w"

definition w_filesize :: "bworld \<Rightarrow> int" where
  "w_filesize w = getFileSize (b_file (w_body w)) (w_kern w)"

definition w_ringsize :: "bworld \<Rightarrow> nat" where
  "w_ringsize w = rb_size (b_ring (w_body w))"

text \<open>The header of a chunk: its size in hexadecimal, with a newline.\<close>

definition inter2HexString :: "int \<Rightarrow> bytes option" where
  "inter2HexString num = dec2hex (word_of_int num)"

definition chunk_header :: "int \<Rightarrow> bytes option" where
  "chunk_header num = do { s \<leftarrow> inter2HexString num; Some (s @ CRLF) }"

text \<open>
  The switch of \<open>sendChunk\<close>, label by label: a label either falls through to the next one,
  leaves the switch (and goes round the loop with the stored state), or returns. The stored
  state is not always the label: after the data of a chunk was read, it is still the label
  that reads them.
\<close>

datatype ctl = Goto ChunkState | Break | Return int

fun sendChunk_label :: "ChunkState \<Rightarrow> int \<Rightarrow> bworld \<Rightarrow> (ctl \<times> bworld) option" where
  "sendChunk_label CHUNKUINIT leftdata w =
     (if leftdata = 0 then Some (Break, w_state CHUNKFILEDONE w)
      else
       (let w1 = (if leftdata < b_chunksize (w_body w) then upd_body (\<lambda>b. b\<lparr>b_chunksize := leftdata\<rparr>) w else w)
        in do { hd' \<leftarrow> chunk_header (b_chunksize (w_body w1));
                w2 \<leftarrow> w_put hd' (w_clear w1);
                Some (Goto CHUNKSIZEON, w_state CHUNKSIZEON w2) }))"
| "sendChunk_label CHUNKSIZEON leftdata w =
     do { (ret, w1) \<leftarrow> w_send w;
          if ret < 0 then Some (Return FILE_SENDFILE_ERROR, w_reset w1)
          else if w_ringsize w1 \<noteq> 0 then Some (Return FILE_SENDFILE_RECALL, w_state CHUNKSIZEON w1)
          else Some (Goto CHUNKSIZEDONE, w_state CHUNKSIZEDONE w1) }"
| "sendChunk_label CHUNKSIZEDONE leftdata w =
     do { (ret, w1) \<leftarrow> w_read w;
          if ret < 0 then Some (Return FILE_SENDFILE_ERROR, w_reset w1)
          else Some (Goto CHUNKEDATAON,
                     w_state CHUNKSIZEDONE (upd_body (\<lambda>b. b\<lparr>b_readoffset := b_readoffset b + ret\<rparr>) w1)) }"
| "sendChunk_label CHUNKEDATAON leftdata w =
     do { (ret, w1) \<leftarrow> w_send w;
          if ret < 0 then Some (Return FILE_SENDFILE_ERROR, w_reset w1)
          else if w_ringsize w1 \<noteq> 0 then Some (Return FILE_SENDFILE_RECALL, w_state CHUNKEDATAON w1)
          else Some (Goto CHUNKEDATADONE, w_state CHUNKEDATADONE w1) }"
| "sendChunk_label CHUNKEDATADONE leftdata w =
     do { w1 \<leftarrow> w_put CRLF w; Some (Goto CHUNKEOFON, w_state CHUNKEOFON w1) }"
| "sendChunk_label CHUNKEOFON leftdata w =
     do { (ret, w1) \<leftarrow> w_send w;
          if ret < 0 then Some (Return FILE_SENDFILE_ERROR, w_reset w1)
          else if w_ringsize w1 \<noteq> 0 then Some (Return FILE_SENDFILE_RECALL, w_state CHUNKEOFON w1)
          else
           (let w2 = upd_body (\<lambda>b. b\<lparr>b_chunksize := HTTP_FILE_CACHE_SIZE\<rparr>) w1
            in if w_filesize w2 - b_readoffset (w_body w2) > 0 then Some (Break, w_state CHUNKUINIT w2)
               else Some (Goto CHUNKFILEDONE, w_state CHUNKFILEDONE w2)) }"
| "sendChunk_label CHUNKFILEDONE leftdata w =
     do { w1 \<leftarrow> w_put (''0'' @ CRLF @ CRLF) (w_clear w); Some (Goto CHUNKNULLON, w_state CHUNKNULLON w1) }"
| "sendChunk_label CHUNKNULLON leftdata w =
     do { (ret, w1) \<leftarrow> w_send w;
          if ret < 0 then Some (Return FILE_SENDFILE_ERROR, w_reset w1)
          else if w_ringsize w1 \<noteq> 0 then Some (Return FILE_SENDFILE_RECALL, w_state CHUNKNULLON w1)
          else Some (Goto CHUNKNULLDONE, w_state CHUNKNULLDONE w1) }"
| "sendChunk_label CHUNKNULLDONE leftdata w = Some (Break, w)"
| "sendChunk_label CHUNKEOFDONE leftdata w = Some (Break, w)"

text \<open>The loop around the switch. \<open>at\<close> is the label when the switch is entered or fallen
  through to, and \<open>None\<close> at the head of the loop, where \<open>leftdata\<close> is recomputed.\<close>

fun sendChunk_run :: "nat \<Rightarrow> ChunkState option \<Rightarrow> int \<Rightarrow> bworld \<Rightarrow> (int \<times> bworld) option" where
  "sendChunk_run 0 pos leftdata w = None"
| "sendChunk_run (Suc fuel) pos leftdata w =
     (case pos of
        None \<Rightarrow>
          if b_chunkstate (w_body w) = CHUNKNULLDONE then Some (FILE_SENDFILE_DONE, w_reset w)
          else sendChunk_run fuel (Some (b_chunkstate (w_body w)))
                 (w_filesize w - b_readoffset (w_body w)) w
      | Some s \<Rightarrow>
          do { (c, w1) \<leftarrow> sendChunk_label s leftdata w;
               case c of
                 Goto s' \<Rightarrow> sendChunk_run fuel (Some s') leftdata w1
               | Break \<Rightarrow> sendChunk_run fuel None leftdata w1
               | Return r \<Rightarrow> Some (r, w1) })"

definition sendChunk :: "nat \<Rightarrow> bworld \<Rightarrow> (int \<times> bworld) option" where
  "sendChunk fuel w =
     sendChunk_run fuel None 0 (if w_filesize w = 0 then w_state CHUNKFILEDONE w else w)"

text \<open>\<open>sendContent\<close>: the loop that reads the file, and the loop that sends what is left.\<close>

fun sendContent_read :: "nat \<Rightarrow> bworld \<Rightarrow> (int option \<times> bworld) option" where
  "sendContent_read 0 w = None"
| "sendContent_read (Suc fuel) w =
     (if f_readdone (b_file (w_body w)) then Some (None, w)
      else
        do { (ret, w1) \<leftarrow> w_read w;
             if ret < 0 then Some (Some FILE_SENDFILE_ERROR, w1)
             else
               do { (ret2, w2) \<leftarrow> w_send w1;
                    if ret2 < 0 then Some (Some FILE_SENDFILE_ERROR, w2)
                    else if w_ringsize w2 \<noteq> 0 then Some (Some FILE_SENDFILE_RECALL, w2)
                    else if f_readdone (b_file (w_body w2))
                    then do { w3 \<leftarrow> w_put CRLF (upd_body (\<lambda>b. b\<lparr>b_sendContentDone := True\<rparr>) w2);
                              sendContent_read fuel w3 }
                    else sendContent_read fuel w2 } })"

fun sendContent_tail :: "nat \<Rightarrow> bworld \<Rightarrow> (int \<times> bworld) option" where
  "sendContent_tail 0 w = None"
| "sendContent_tail (Suc fuel) w =
     do { (ret, w1) \<leftarrow> w_send w;
          if ret < 0 then Some (FILE_SENDFILE_ERROR, w1)
          else if w_ringsize w1 \<noteq> 0 then Some (FILE_SENDFILE_RECALL, w1)
          else if b_sendContentDone (w_body w1) then Some (FILE_SENDFILE_DONE, w_reset w1)
          else do { w2 \<leftarrow> w_put CRLF (upd_body (\<lambda>b. b\<lparr>b_sendContentDone := True\<rparr>) w1);
                    sendContent_tail fuel w2 } }"

definition sendContent :: "nat \<Rightarrow> bworld \<Rightarrow> (int \<times> bworld) option" where
  "sendContent fuel w =
     do { (r, w1) \<leftarrow> sendContent_read fuel w;
          case r of Some ret \<Rightarrow> Some (ret, w1) | None \<Rightarrow> sendContent_tail fuel w1 }"

subsection \<open>Sending with \<open>sendfile\<close>\<close>

text \<open>One ring or file transfer to a descriptor; the bytes a ring sends go on the wire of the
  kernel, where \<open>sendfile\<close> puts those of the file. An outcome of a ring is the flags of the
  descriptor, the result of setting them and those of the sends; an outcome of the file is the
  descriptor of an open and the results of the \<open>sendfile\<close> calls.\<close>

record fworld =
  x_body :: HttpBodyFile
  x_kern :: kern
  x_rings :: "(int \<times> int \<times> sysres list) list"
  x_files :: "(int \<times> sysres list) list"

abbreviation x_upd :: "(HttpBodyFile \<Rightarrow> HttpBodyFile) \<Rightarrow> fworld \<Rightarrow> fworld" where
  "x_upd g w \<equiv> w\<lparr>x_body := g (x_body w)\<rparr>"

definition x_send :: "int \<Rightarrow> fworld \<Rightarrow> (int \<times> fworld) option" where
  "x_send fd w =
     (case x_rings w of
        [] \<Rightarrow> None
      | (flag, setfl, outs) # rest \<Rightarrow>
          do { (ret, ys, r) \<leftarrow> send2Socket_fd fd flag (nonblk (x_kern w) fd) setfl outs (b_ring (x_body w));
               Some (ret, w\<lparr>x_body := (x_body w)\<lparr>b_ring := r\<rparr>, x_kern := put_wire fd ys (x_kern w), x_rings := rest\<rparr>) })"

definition x_file :: "int \<Rightarrow> fworld \<Rightarrow> (int \<times> fworld) option" where
  "x_file fd w =
     (case x_files w of
        [] \<Rightarrow> None
      | (nfd, outs) # rest \<Rightarrow>
          do { (ret, sendn, f, k) \<leftarrow> File_send2Socket fd nfd outs (b_file (x_body w)) (x_kern w);
               Some (ret, w\<lparr>x_body := (x_body w)\<lparr>b_file := f\<rparr>, x_kern := k, x_files := rest\<rparr>) })"

definition x_range :: "int \<Rightarrow> fworld \<Rightarrow> (int \<times> int \<times> fworld) option" where
  "x_range fd w =
     (case x_files w of
        [] \<Rightarrow> None
      | (nfd, outs) # rest \<Rightarrow>
          do { (ret, sendn, off, f, k) \<leftarrow>
                 send2Socket_range fd (b_readoffset (x_body w)) (b_chunksize (x_body w)) nfd outs
                   (b_file (x_body w)) (x_kern w);
               Some (ret, (case sendn of None \<Rightarrow> 0 | Some n \<Rightarrow> n),
                     w\<lparr>x_body := (x_body w)\<lparr>b_file := f, b_readoffset := off\<rparr>, x_kern := k, x_files := rest\<rparr>) })"

definition x_put :: "bytes \<Rightarrow> fworld \<Rightarrow> fworld option" where
  "x_put xs w =
     do { (_, r) \<leftarrow> RingBuf.writeIn (Some xs) (rb_clear (b_ring (x_body w))); Some (x_upd (\<lambda>b. b\<lparr>b_ring := r\<rparr>) w) }"

definition x_reset :: "fworld \<Rightarrow> fworld" where
  "x_reset w = (let (b, k) = body_reset (x_body w) (x_kern w) in w\<lparr>x_body := b, x_kern := k\<rparr>)"

definition x_state :: "ChunkState \<Rightarrow> fworld \<Rightarrow> fworld" where
  "x_state s w = x_upd (\<lambda>b. b\<lparr>b_chunkstate := s\<rparr>) w"

definition x_size :: "fworld \<Rightarrow> nat" where
  "x_size w = rb_size (b_ring (x_body w))"

definition x_filesize :: "fworld \<Rightarrow> int" where
  "x_filesize w = getFileSize (b_file (x_body w)) (x_kern w)"

definition sendFileContent :: "int \<Rightarrow> fworld \<Rightarrow> (int \<times> fworld) option" where
  "sendFileContent fd w =
     do { (r, w1) \<leftarrow>
            (if \<not> b_sendContentDone (x_body w) then
               do { (ret, w1) \<leftarrow> x_file fd w;
                    if ret < 0 then Some (Some FILE_SENDFILE_ERROR, w1)
                    else if ret = FILE_SENDFILE_DONE then
                      do { w2 \<leftarrow> x_put CRLF (x_upd (\<lambda>b. b\<lparr>b_sendContentDone := True\<rparr>) w1); Some (None, w2) }
                    else Some (Some FILE_SENDFILE_RECALL, w1) }
             else Some (None, w));
          case r of
            Some ret \<Rightarrow> Some (ret, w1)
          | None \<Rightarrow>
              do { (ret, w2) \<leftarrow> x_send fd w1;
                   if ret < 0 then Some (FILE_SENDFILE_ERROR, w2)
                   else if x_size w2 \<noteq> 0 then Some (FILE_SENDFILE_RECALL, w2)
                   else Some (FILE_SENDFILE_DONE, x_reset w2) } }"

text \<open>The switch of \<open>sendFileChunk\<close>. After the end of a chunk, a call that sent nothing is
  told from one that did by its result, not by what is left in the ring.\<close>

fun sendFileChunk_label :: "int \<Rightarrow> ChunkState \<Rightarrow> int \<Rightarrow> fworld \<Rightarrow> (ctl \<times> fworld) option" where
  "sendFileChunk_label fd CHUNKUINIT leftdata w =
     (if leftdata = 0 then Some (Break, x_state CHUNKFILEDONE w)
      else
       (let w1 = (if leftdata < b_chunksize (x_body w) then x_upd (\<lambda>b. b\<lparr>b_chunksize := leftdata\<rparr>) w else w)
        in do { hd' \<leftarrow> chunk_header (b_chunksize (x_body w1));
                w2 \<leftarrow> x_put hd' w1;
                Some (Goto CHUNKSIZEON, x_state CHUNKSIZEON w2) }))"
| "sendFileChunk_label fd CHUNKSIZEON leftdata w =
     do { (ret, w1) \<leftarrow> x_send fd w;
          if ret < 0 then Some (Return FILE_SENDFILE_ERROR, x_reset w1)
          else if x_size w1 \<noteq> 0 then Some (Return FILE_SENDFILE_RECALL, x_state CHUNKSIZEON w1)
          else Some (Goto CHUNKSIZEDONE, x_state CHUNKSIZEDONE w1) }"
| "sendFileChunk_label fd CHUNKSIZEDONE leftdata w = Some (Goto CHUNKEDATAON, w)"
| "sendFileChunk_label fd CHUNKEDATAON leftdata w =
     do { (ret, sendn, w1) \<leftarrow> x_range fd w;
          if ret < 0 then Some (Return FILE_SENDFILE_ERROR, x_reset w1)
          else if ret = FILE_SENDFILE_RECALL
          then Some (Return ret, x_state CHUNKEDATAON (x_upd (\<lambda>b. b\<lparr>b_chunksize := b_chunksize b - sendn\<rparr>) w1))
          else Some (Goto CHUNKEDATADONE, x_state CHUNKEDATADONE w1) }"
| "sendFileChunk_label fd CHUNKEDATADONE leftdata w =
     do { w1 \<leftarrow> x_put CRLF w; Some (Goto CHUNKEOFON, x_state CHUNKEOFON w1) }"
| "sendFileChunk_label fd CHUNKEOFON leftdata w =
     do { (ret, w1) \<leftarrow> x_send fd w;
          if ret < 0 then Some (Return FILE_SENDFILE_ERROR, x_reset w1)
          else if ret = FILE_SENDFILE_RECALL then Some (Return FILE_SENDFILE_RECALL, x_state CHUNKEOFON w1)
          else
           (let w2 = x_upd (\<lambda>b. b\<lparr>b_chunksize := HTTP_FILE_CACHE_SIZE\<rparr>) w1
            in if x_filesize w2 - b_readoffset (x_body w2) > 0 then Some (Break, x_state CHUNKUINIT w2)
               else Some (Goto CHUNKFILEDONE, x_state CHUNKFILEDONE w2)) }"
| "sendFileChunk_label fd CHUNKFILEDONE leftdata w =
     do { w1 \<leftarrow> x_put (''0'' @ CRLF @ CRLF) w; Some (Goto CHUNKNULLON, x_state CHUNKNULLON w1) }"
| "sendFileChunk_label fd CHUNKNULLON leftdata w =
     do { (ret, w1) \<leftarrow> x_send fd w;
          if ret < 0 then Some (Return FILE_SENDFILE_ERROR, x_reset w1)
          else if x_size w1 \<noteq> 0 then Some (Return FILE_SENDFILE_RECALL, x_state CHUNKNULLON w1)
          else Some (Goto CHUNKNULLDONE, x_state CHUNKNULLDONE w1) }"
| "sendFileChunk_label fd CHUNKNULLDONE leftdata w = Some (Break, w)"
| "sendFileChunk_label fd CHUNKEOFDONE leftdata w = Some (Break, w)"

fun sendFileChunk_run :: "nat \<Rightarrow> int \<Rightarrow> ChunkState option \<Rightarrow> int \<Rightarrow> fworld \<Rightarrow> (int \<times> fworld) option" where
  "sendFileChunk_run 0 fd pos leftdata w = None"
| "sendFileChunk_run (Suc fuel) fd pos leftdata w =
     (case pos of
        None \<Rightarrow>
          if b_chunkstate (x_body w) = CHUNKNULLDONE then Some (FILE_SENDFILE_DONE, x_reset w)
          else sendFileChunk_run fuel fd (Some (b_chunkstate (x_body w)))
                 (x_filesize w - b_readoffset (x_body w)) w
      | Some s \<Rightarrow>
          do { (c, w1) \<leftarrow> sendFileChunk_label fd s leftdata w;
               case c of
                 Goto s' \<Rightarrow> sendFileChunk_run fuel fd (Some s') leftdata w1
               | Break \<Rightarrow> sendFileChunk_run fuel fd None leftdata w1
               | Return r \<Rightarrow> Some (r, w1) })"

definition sendFileChunk :: "nat \<Rightarrow> int \<Rightarrow> fworld \<Rightarrow> (int \<times> fworld) option" where
  "sendFileChunk fuel fd w =
     sendFileChunk_run fuel fd None 0 (if x_filesize w = 0 then x_state CHUNKFILEDONE w else w)"

text \<open>\<open>send2Socket\<close>: \<open>sendfile\<close> is the static flag; the outcomes not used by a branch are kept.\<close>

definition body_send2Socket :: "bool \<Rightarrow> nat \<Rightarrow> (int \<times> int \<times> sysres list) list \<Rightarrow> (int \<times> sysres list) list \<Rightarrow> bworld
    \<Rightarrow> (int \<times> bworld) option" where
  "body_send2Socket sendfile fuel rings files w =
     (if \<not> testExist (b_file (w_body w)) (w_kern w) then Some (FILE_SENDFILE_DONE, w)
      else if \<not> isSSL (w_sock w) (w_heap w) \<and> sendfile then
       (let x = \<lparr>x_body = w_body w, x_kern = w_kern w, x_rings = rings, x_files = files\<rparr>;
            fd = s_fd (w_sock w)
        in do { (ret, x') \<leftarrow> (if b_chunked (w_body w) then sendFileChunk fuel fd x else sendFileContent fd x);
                Some (ret, w\<lparr>w_body := x_body x', w_kern := x_kern x'\<rparr>) })
      else if b_chunked (w_body w) then sendChunk fuel w
      else sendContent fuel w)"

end
