(* ===== verification/BodySend.thy ===== *)
theory BodySend
  imports BodyFile
begin

text \<open>
  What \<open>HttpBodyFile::sendChunk\<close> puts on the wire: the file of the body in the chunked encoding,
  in chunks of 8192 bytes, over any number of calls each of which may find the socket full.
\<close>

definition chead :: "nat \<Rightarrow> bytes" where
  "chead n = map hexc (rev (lsd16 n)) @ CRLF"

text \<open>The chunked encoding of a content, with the last chunk.\<close>

function enc :: "bytes \<Rightarrow> bytes" where
  "enc xs = (if xs = [] then ''0'' @ CRLF @ CRLF
             else chead (length (take 8192 xs)) @ take 8192 xs @ CRLF @ enc (drop 8192 xs))"
  by pat_completeness auto
termination by (relation "measure length") auto

declare enc.simps [simp del]

lemma enc_Nil [simp]: "enc [] = ''0'' @ CRLF @ CRLF"
  by (simp add: enc.simps)

lemma chunk_header_eq: "0 \<le> n \<Longrightarrow> n < 2 ^ 32 \<Longrightarrow> chunk_header n = Some (chead (nat n))"
  by (simp add: chunk_header_def inter2HexString_def dec2hex_eq chead_def unsigned_of_int take_bit_int_eq_self)

lemma chead_length: "0 < n \<Longrightarrow> n \<le> 8192 \<Longrightarrow> chead n \<noteq> [] \<and> length (chead n) \<le> 6"
  using lsd16_length [of n 4] by (simp add: chead_def CRLF_def)

text \<open>The descriptor of the body's file stands at offset \<open>p\<close>, or is not open yet.\<close>

definition at_file :: "nat \<Rightarrow> File \<Rightarrow> kern \<Rightarrow> bool" where
  "at_file p f k \<longleftrightarrow> (f_fd f < 0 \<and> p = 0) \<or> (0 \<le> f_fd f \<and> fds k (f_fd f) = Some (RegFile (fname f) p))"

definition has_file :: "bytes \<Rightarrow> File \<Rightarrow> kern \<Rightarrow> bool" where
  "has_file c f k \<longleftrightarrow> fname f \<noteq> [] \<and> disk k (fname f) = Some c \<and> rperm k (fname f)"

lemma has_file_size: "has_file c f k \<Longrightarrow> getFileSize f k = int (length c)"
  by (simp add: has_file_def getFileSize_def testExist_def File_exist_def file_content_def)

lemma read_8192:
  assumes "has_file c f k" "at_file p f k" "0 \<le> nfd" "8192 \<le> lim" "p \<le> length c"
  shows "\<exists>f' k'. continuousReadOut 8192 nfd lim f k =
           (int (min 8192 (length c - p)), take 8192 (drop p c), f', k') \<and> has_file c f' k' \<and>
           (8192 \<le> length c - p \<longrightarrow> at_file (p + 8192) f' k')"
proof -
  define f1 where "f1 = (if f_fd f < 0 then f\<lparr>f_readdone := False, f_fd := nfd\<rparr> else f)"
  define k1 where "k1 = (if f_fd f < 0 then k\<lparr>fds := (fds k)(nfd \<mapsto> RegFile (fname f) 0)\<rparr> else k)"
  have n [simp]: "fname f1 = fname f" by (simp add: f1_def fname_def)
  have pos: "0 \<le> f_fd f1" "fds k1 (f_fd f1) = Some (RegFile (fname f) p)"
    and d: "disk k1 = disk k" "rperm k1 = rperm k"
    using assms by (auto simp: f1_def k1_def at_file_def)
  have fc: "file_content k1 (fname f) = c"
    using assms(1) d by (simp add: has_file_def file_content_def)
  have r: "sys_read (f_fd f1) 8192 lim k1 = (int (min 8192 (length c - p)), take 8192 (drop p c),
       k1\<lparr>fds := (fds k1)(f_fd f1 \<mapsto> RegFile (fname f) (p + min 8192 (length c - p)))\<rparr>)"
    using assms(4) pos(2) fc by (simp add: sys_read_def Let_def min.commute)
  have "continuousReadOut 8192 nfd lim f k =
    (let (readn, data, k2) = sys_read (f_fd f1) 8192 lim k1
     in if 0 \<le> readn \<and> readn < 8192 then (readn, data, f1\<lparr>f_readdone := True\<rparr>, sys_close (f_fd f1) k2)
        else (readn, data, f1, k2))"
    using assms by (auto simp: continuousReadOut_def has_file_def testExist_def testRead_def File_exist_def
        File_readable_def valid_fd_def sys_open_rd_def f1_def k1_def split_beta Let_def)
  then show ?thesis
    using assms(1) pos d r
    by (auto simp: has_file_def at_file_def fname_def sys_close_def f1_def k1_def)
qed

text \<open>A cleared ring of the default size, and what is put in it.\<close>

definition fresh :: "ring \<Rightarrow> bool" where
  "fresh b \<longleftrightarrow> r_r b = 0 \<and> r_w b = 0 \<and> capacity b = 8193"

definition ring8 :: "ring \<Rightarrow> bool" where
  "ring8 b \<longleftrightarrow> inner b \<and> capacity b = 8193"

lemma fresh_ring8: "fresh b \<Longrightarrow> ring8 b \<and> content b = []"
  by (simp add: fresh_def ring8_def inner_def ring_ok_def content_def)

lemma clear_fresh: "ring8 b \<Longrightarrow> fresh (rb_clear b)"
  by (simp add: fresh_def ring8_def rb_clear_def capacity_def)

lemma put_fresh:
  assumes "fresh b" "xs \<noteq> []" "length xs \<le> 8192"
  shows "\<exists>n b'. RingBuf.writeIn (Some xs) b = Some (n, b') \<and> ring8 b' \<and> content b' = xs"
proof -
  have "space b = 8192" "capacity b = 8193" "r_r b = 0" "r_w b = 0" "length (r_buf b) = 8193"
    using assms(1) by (simp_all add: fresh_def space_def sz_sub_ge capacity_def)
  then show ?thesis
    using assms(2,3)
    by (simp add: RingBuf.writeIn_def isFull_def Let_def slice_prefix blit_def ring8_def inner_def
        ring_ok_def content_def capacity_def)
qed

lemma read_fresh:
  assumes "fresh b" "has_file c f k" "at_file p f k" "0 \<le> nfd" "8192 \<le> lim" "p < length c"
  shows "\<exists>b' f' k'. writeInFromFile nfd lim lim2 b f k = Some (int (min 8192 (length c - p)), b', f', k') \<and>
           ring8 b' \<and> content b' = take 8192 (drop p c) \<and> has_file c f' k' \<and>
           (8192 \<le> length c - p \<longrightarrow> at_file (p + 8192) f' k')"
proof -
  have b: "space b = 8192" "capacity b = 8193" "r_r b = 0" "r_w b = 0" "length (r_buf b) = 8193"
    using assms(1) by (simp_all add: fresh_def space_def sz_sub_ge capacity_def)
  obtain f' k' where "continuousReadOut 8192 nfd lim f k =
           (int (min 8192 (length c - p)), take 8192 (drop p c), f', k')" and r: "has_file c f' k'"
           "8192 \<le> length c - p \<longrightarrow> at_file (p + 8192) f' k'"
    using read_8192 [OF assms(2,3,4,5)] assms(6) by auto
  then have "read_into 0 8192 nfd lim b f k = Some (int (min 8192 (length c - p)),
      b\<lparr>r_buf := take 8192 (drop p c) @ drop (min 8192 (length c - p)) (r_buf b)\<rparr>, f', k')"
    using b by (simp add: read_into_def blit_def min.commute)
  then show ?thesis
    using b r
    by (simp add: writeInFromFile_def isFull_def Let_def ring8_def inner_def ring_ok_def capacity_def content_def) arith
qed

subsection \<open>What is left to send\<close>

definition w_off :: "bworld \<Rightarrow> nat" where
  "w_off w = nat (b_readoffset (w_body w))"

definition w_rest :: "bytes \<Rightarrow> bworld \<Rightarrow> bytes" where
  "w_rest c w = drop (w_off w) c"

definition w_content :: "bworld \<Rightarrow> bytes" where
  "w_content w = content (b_ring (w_body w))"

fun pend :: "bytes \<Rightarrow> ChunkState \<Rightarrow> bworld \<Rightarrow> bytes" where
  "pend c CHUNKUINIT w = enc (w_rest c w)"
| "pend c CHUNKSIZEON w = w_content w @ take 8192 (w_rest c w) @ CRLF @ enc (drop 8192 (w_rest c w))"
| "pend c CHUNKSIZEDONE w = take 8192 (w_rest c w) @ CRLF @ enc (drop 8192 (w_rest c w))"
| "pend c CHUNKEDATAON w = w_content w @ CRLF @ enc (w_rest c w)"
| "pend c CHUNKEDATADONE w = CRLF @ enc (w_rest c w)"
| "pend c CHUNKEOFON w = w_content w @ enc (w_rest c w)"
| "pend c CHUNKFILEDONE w = enc []"
| "pend c CHUNKNULLON w = w_content w"
| "pend c CHUNKNULLDONE w = []"
| "pend c CHUNKEOFDONE w = []"

fun label_ok :: "bytes \<Rightarrow> ChunkState \<Rightarrow> bworld \<Rightarrow> bool" where
  "label_ok c CHUNKUINIT w \<longleftrightarrow> b_chunksize (w_body w) = 8192"
| "label_ok c CHUNKSIZEON w \<longleftrightarrow> w_content w \<noteq> [] \<and> w_rest c w \<noteq> []"
| "label_ok c CHUNKSIZEDONE w \<longleftrightarrow> fresh (b_ring (w_body w)) \<and> w_rest c w \<noteq> []"
| "label_ok c CHUNKEDATAON w \<longleftrightarrow> w_content w \<noteq> []"
| "label_ok c CHUNKEDATADONE w \<longleftrightarrow> fresh (b_ring (w_body w))"
| "label_ok c CHUNKEOFON w \<longleftrightarrow> w_content w \<noteq> []"
| "label_ok c CHUNKFILEDONE w \<longleftrightarrow> w_rest c w = []"
| "label_ok c CHUNKNULLON w \<longleftrightarrow> w_content w \<noteq> [] \<and> w_rest c w = []"
| "label_ok c CHUNKNULLDONE w \<longleftrightarrow> w_rest c w = [] \<and> b_chunkstate (w_body w) = CHUNKNULLDONE"
| "label_ok c CHUNKEOFDONE w \<longleftrightarrow> False"

text \<open>A plain socket, a readable file with content \<open>c\<close>, a ring of the default size, and the
  file's descriptor at the offset the body has reached; a read gets what it asks for.\<close>

definition body_ok :: "bytes \<Rightarrow> bworld \<Rightarrow> bool" where
  "body_ok c w \<longleftrightarrow> \<not> isSSL (w_sock w) (w_heap w) \<and> ring8 (b_ring (w_body w)) \<and>
     has_file c (b_file (w_body w)) (w_kern w) \<and> 0 \<le> b_readoffset (w_body w) \<and> w_off w \<le> length c \<and>
     (w_rest c w \<noteq> [] \<longrightarrow> at_file (w_off w) (b_file (w_body w)) (w_kern w)) \<and>
     (\<forall>(nfd, l1, l2) \<in> set (w_reads w). 0 \<le> nfd \<and> 8192 \<le> l1)"

text \<open>The steps of the switch keep what is on the wire followed by what is left to send.\<close>

definition keeps :: "bytes \<Rightarrow> ChunkState \<Rightarrow> bworld \<Rightarrow> ChunkState \<Rightarrow> bworld \<Rightarrow> bool" where
  "keeps c s w s' w' \<longleftrightarrow> body_ok c w' \<and> label_ok c s' w' \<and> w_out w' @ pend c s' w' = w_out w @ pend c s w"

lemma w_send_step:
  assumes "body_ok c w" "w_send w = Some (ret, w1)"
  shows "0 \<le> ret \<and> body_ok c w1 \<and> w_out w1 @ w_content w1 = w_out w @ w_content w \<and>
         w_rest c w1 = w_rest c w \<and> b_chunksize (w_body w1) = b_chunksize (w_body w) \<and>
         b_chunkstate (w_body w1) = b_chunkstate (w_body w) \<and> w_filesize w1 = w_filesize w \<and> w_off w1 = w_off w \<and>
         b_readoffset (w_body w1) = b_readoffset (w_body w) \<and>
         w_ringsize w1 = length (w_content w1) \<and> (w_content w \<noteq> [] \<and> w_content w1 = [] \<longrightarrow> fresh (b_ring (w_body w1)))"
proof -
  obtain outs rest ys r m h where s: "w_sends w = outs # rest"
    "rb_send2Socket outs (b_ring (w_body w)) (w_sock w) (w_heap w) = Some (ret, ys, r, m, h)"
    "w1 = w\<lparr>w_body := (w_body w)\<lparr>b_ring := r\<rparr>, w_sock := m, w_heap := h, w_out := w_out w @ ys, w_sends := rest\<rparr>"
    using assms(2) by (auto simp: w_send_def bind_eq_Some_conv split: list.splits)
  have i: "inner (b_ring (w_body w))" "\<not> isSSL (w_sock w) (w_heap w)" "capacity (b_ring (w_body w)) = 8193"
    using assms(1) by (simp_all add: body_ok_def ring8_def)
  show ?thesis
    using rb_send2Socket_spec [OF i(1,2) s(2)] s(3) i assms(1) size_eq [of r]
    by (auto simp: body_ok_def ring8_def w_content_def w_rest_def w_off_def w_filesize_def w_ringsize_def inner_def fresh_def)
qed

lemma body_ok_filesize: "body_ok c w \<Longrightarrow> w_filesize w = int (length c)"
  by (simp add: body_ok_def w_filesize_def has_file_size)

lemma rest_length: "body_ok c w \<Longrightarrow> w_filesize w - b_readoffset (w_body w) = int (length (w_rest c w))"
  using body_ok_filesize [of c w] by (auto simp: w_rest_def w_off_def body_ok_def)

lemma w_state_simps [simp]:
  "w_content (w_state s w) = w_content w" "w_rest c (w_state s w) = w_rest c w" "w_out (w_state s w) = w_out w"
  "b_chunkstate (w_body (w_state s w)) = s" "b_ring (w_body (w_state s w)) = b_ring (w_body w)"
  "b_chunksize (w_body (w_state s w)) = b_chunksize (w_body w)" "body_ok c (w_state s w) = body_ok c w"
  "w_sends (w_state s w) = w_sends w" "w_reads (w_state s w) = w_reads w"
  by (simp_all add: w_state_def w_content_def w_rest_def w_off_def body_ok_def)

lemma chunksize_simps [simp]:
  "w_rest c (upd_body (\<lambda>b. b\<lparr>b_chunksize := n\<rparr>) w) = w_rest c w"
  "w_content (upd_body (\<lambda>b. b\<lparr>b_chunksize := n\<rparr>) w) = w_content w"
  "body_ok c (upd_body (\<lambda>b. b\<lparr>b_chunksize := n\<rparr>) w) = body_ok c w"
  by (simp_all add: w_rest_def w_off_def w_content_def body_ok_def)

text \<open>A label that sends the ring: what it does when the ring is not empty.\<close>

lemma w_put_step:
  assumes "body_ok c w" "xs \<noteq> []" "length xs \<le> 8192" "fresh (b_ring (w_body w))"
  shows "\<exists>w1. w_put xs w = Some w1 \<and> body_ok c w1 \<and> w_content w1 = xs \<and> w_rest c w1 = w_rest c w \<and>
          w_out w1 = w_out w \<and> w_sends w1 = w_sends w \<and> w_reads w1 = w_reads w"
  using put_fresh [OF assms(4,2,3)] assms(1)
  by (auto simp: w_put_def body_ok_def w_content_def w_rest_def w_off_def)

lemma w_clear_ok: "body_ok c w \<Longrightarrow> body_ok c (w_clear w) \<and> fresh (b_ring (w_body (w_clear w))) \<and>
    w_rest c (w_clear w) = w_rest c w \<and> w_out (w_clear w) = w_out w \<and> w_sends (w_clear w) = w_sends w \<and>
    w_reads (w_clear w) = w_reads w"
  using clear_fresh [of "b_ring (w_body w)"] fresh_ring8 [of "rb_clear (b_ring (w_body w))"]
  by (auto simp: w_clear_def body_ok_def w_rest_def w_off_def)

lemma w_read_step:
  assumes "body_ok c w" "fresh (b_ring (w_body w))" "w_rest c w \<noteq> []" "w_read w = Some (ret, w1)"
  shows "0 \<le> ret \<and> (let w2 = upd_body (\<lambda>b. b\<lparr>b_readoffset := b_readoffset b + ret\<rparr>) w1 in
           body_ok c w2 \<and> w_content w2 = take 8192 (w_rest c w) \<and> w_rest c w2 = drop 8192 (w_rest c w) \<and>
           w_out w2 = w_out w \<and> w_sends w2 = w_sends w)"
proof -
  obtain nfd l1 l2 rest where r: "w_reads w = (nfd, l1, l2) # rest"
    using assms(4) by (auto simp: w_read_def split: list.splits)
  have l: "w_off w < length c"
    using assms(3) by (simp add: w_rest_def)
  note b = assms(1) [unfolded body_ok_def]
  obtain b' f' k' where x: "writeInFromFile nfd l1 l2 (b_ring (w_body w)) (b_file (w_body w)) (w_kern w) =
       Some (int (min 8192 (length c - w_off w)), b', f', k')"
    "ring8 b'" "content b' = take 8192 (drop (w_off w) c)" "has_file c f' k'"
    "8192 \<le> length c - w_off w \<longrightarrow> at_file (w_off w + 8192) f' k'"
    using read_fresh [OF assms(2), of c "b_file (w_body w)" "w_kern w" "w_off w" nfd l1 l2] b r l assms(3) by auto
  have w1: "ret = int (min 8192 (length c - w_off w))"
    "w1 = w\<lparr>w_body := (w_body w)\<lparr>b_ring := b', b_file := f'\<rparr>, w_kern := k', w_reads := rest\<rparr>"
    using assms(4) r x(1) by (simp_all add: w_read_def)
  define w2 where "w2 = upd_body (\<lambda>b. b\<lparr>b_readoffset := b_readoffset b + ret\<rparr>) w1"
  have off: "w_off w2 = w_off w + min 8192 (length c - w_off w)"
    using b by (auto simp: w2_def w_off_def w1)
  then have "w_rest c w2 = drop 8192 (w_rest c w)"
    using l by (simp add: w_rest_def min_def add.commute)
  moreover have "w_rest c w2 \<noteq> [] \<longrightarrow> at_file (w_off w2) f' k'"
    using x(5) off l by (simp add: w_rest_def)
  ultimately show ?thesis
    using b r x off l unfolding w2_def [symmetric] Let_def
    by (simp add: body_ok_def w_rest_def w_content_def w2_def w1)
qed

text \<open>The steps that are left before a call returns, at most.\<close>

fun rank :: "bytes \<Rightarrow> ChunkState \<Rightarrow> bworld \<Rightarrow> nat" where
  "rank c CHUNKUINIT w = 12 + 20 * length (w_rest c w)"
| "rank c CHUNKSIZEON w = 11 + 20 * length (w_rest c w)"
| "rank c CHUNKSIZEDONE w = 10 + 20 * length (w_rest c w)"
| "rank c CHUNKEDATAON w = 16 + 20 * length (w_rest c w)"
| "rank c CHUNKEDATADONE w = 15 + 20 * length (w_rest c w)"
| "rank c CHUNKEOFON w = 14 + 20 * length (w_rest c w)"
| "rank c CHUNKFILEDONE w = 8"
| "rank c CHUNKNULLON w = 7"
| "rank c CHUNKNULLDONE w = 6"
| "rank c CHUNKEOFDONE w = 0"

definition head_rank :: "bytes \<Rightarrow> bworld \<Rightarrow> nat" where
  "head_rank c w = (if b_chunkstate (w_body w) = CHUNKNULLDONE then 1
                    else Suc (rank c (b_chunkstate (w_body w)) w))"

lemma rank_state [simp]: "rank c s (w_state s' w) = rank c s w"
  by (cases s) simp_all

definition resumable :: "ChunkState \<Rightarrow> bool" where
  "resumable s \<longleftrightarrow> s \<in> {CHUNKSIZEON, CHUNKEDATAON, CHUNKEOFON, CHUNKNULLON}"

text \<open>What one label of the switch may do.\<close>

fun step_ok :: "bytes \<Rightarrow> ChunkState \<Rightarrow> bworld \<Rightarrow> ctl \<Rightarrow> bworld \<Rightarrow> bool" where
  "step_ok c s w (Goto s') w' \<longleftrightarrow> keeps c s w s' w' \<and> s' \<noteq> CHUNKUINIT \<and> rank c s' w' < rank c s w"
| "step_ok c s w Break w' \<longleftrightarrow> keeps c s w (b_chunkstate (w_body w')) w' \<and> head_rank c w' < rank c s w"
| "step_ok c s w (Return r) w' \<longleftrightarrow>
     r = FILE_SENDFILE_RECALL \<and> resumable (b_chunkstate (w_body w')) \<and> keeps c s w (b_chunkstate (w_body w')) w'"

lemma sending_label:
  assumes "body_ok c w" "w_send w = Some (ret, w1)" "w_content w \<noteq> []"
  shows "\<not> ret < 0 \<and> body_ok c w1 \<and> w_out w1 @ w_content w1 = w_out w @ w_content w \<and> w_rest c w1 = w_rest c w \<and>
         (w_ringsize w1 \<noteq> 0 \<longleftrightarrow> w_content w1 \<noteq> []) \<and> (w_content w1 = [] \<longrightarrow> fresh (b_ring (w_body w1)))"
  using w_send_step [OF assms(1,2)] assms(3) by simp

lemma append_swap: "a @ b = x @ y \<Longrightarrow> a @ b @ r = x @ y @ r"
  by (metis append.assoc)

lemma label_sends:
  assumes "body_ok c w" "label_ok c s w" "s \<in> {CHUNKSIZEON, CHUNKEDATAON, CHUNKNULLON}"
    "sendChunk_label s ld w = Some (ctl, w1)"
  shows "step_ok c s w ctl w1"
proof -
  have ne: "w_content w \<noteq> []" using assms(2,3) by auto
  obtain ret w0 where "w_send w = Some (ret, w0)"
    using assms(3,4) by (auto simp: bind_eq_Some_conv)
  note s = this sending_label [OF assms(1) this ne]
  show ?thesis
    using s assms
    by (cases "w_content w0 = []")
       (auto simp: keeps_def resumable_def bind_eq_Some_conv dest: append_swap)
qed

lemma label_eof:
  assumes "body_ok c w" "label_ok c CHUNKEOFON w" "sendChunk_label CHUNKEOFON ld w = Some (ctl, w1)"
  shows "step_ok c CHUNKEOFON w ctl w1"
proof -
  have ne: "w_content w \<noteq> []" using assms(2) by simp
  obtain ret w0 where "w_send w = Some (ret, w0)"
    using assms(3) by (auto simp: bind_eq_Some_conv)
  note s = this sending_label [OF assms(1) this ne]
  let ?w2 = "upd_body (\<lambda>b. b\<lparr>b_chunksize := HTTP_FILE_CACHE_SIZE\<rparr>) w0"
  have w2: "w_rest c ?w2 = w_rest c w" "w_content ?w2 = w_content w0" "body_ok c ?w2" "w_out ?w2 = w_out w0"
    using s by simp_all
  have rest: "w_filesize ?w2 - b_readoffset (w_body ?w2) > 0 \<longleftrightarrow> w_rest c w \<noteq> []"
    using rest_length [OF w2(3)] w2(1) by simp
  show ?thesis
  proof (cases "w_content w0 = []")
    case True
    then show ?thesis
      using s w2 rest assms by (auto simp: keeps_def bind_eq_Some_conv Let_def head_rank_def split: if_splits)
  next
    case False
    then show ?thesis
      using s assms by (auto simp: keeps_def resumable_def bind_eq_Some_conv dest: append_swap)
  qed
qed

lemma label_uinit:
  assumes "body_ok c w" "label_ok c CHUNKUINIT w" "ld = int (length (w_rest c w))"
  shows "\<exists>ctl w1. sendChunk_label CHUNKUINIT ld w = Some (ctl, w1) \<and> step_ok c CHUNKUINIT w ctl w1 \<and>
           w_sends w1 = w_sends w \<and> w_reads w1 = w_reads w"
proof (cases "w_rest c w = []")
  case True
  then show ?thesis
    using assms by (auto simp: keeps_def head_rank_def)
next
  case False
  define n where "n = length (take 8192 (w_rest c w))"
  define w1 where "w1 = (if ld < b_chunksize (w_body w) then upd_body (\<lambda>b. b\<lparr>b_chunksize := ld\<rparr>) w else w)"
  have n: "0 < n" "n \<le> 8192" "b_chunksize (w_body w1) = int n"
    using False assms(2,3) by (auto simp: n_def w1_def)
  have w1: "body_ok c w1" "w_rest c w1 = w_rest c w" "w_out w1 = w_out w" "w_sends w1 = w_sends w" "w_reads w1 = w_reads w"
    using assms(1) by (simp_all add: w1_def)
  have h: "chunk_header (b_chunksize (w_body w1)) = Some (chead n)" "chead n \<noteq> []" "length (chead n) \<le> 8192"
    using n chunk_header_eq [of "int n"] chead_length [of n] by auto
  note cl = w_clear_ok [OF w1(1)]
  obtain w2 where w2: "w_put (chead n) (w_clear w1) = Some w2" "body_ok c w2" "w_content w2 = chead n"
    "w_rest c w2 = w_rest c w" "w_out w2 = w_out w" "w_sends w2 = w_sends w" "w_reads w2 = w_reads w"
    using w_put_step [of c "w_clear w1" "chead n"] cl h w1 by auto
  have "enc (w_rest c w) = chead n @ take 8192 (w_rest c w) @ CRLF @ enc (drop 8192 (w_rest c w))"
    using False by (subst enc.simps) (simp add: n_def)
  moreover have "ld \<noteq> 0" using False assms(3) by simp
  ultimately show ?thesis
    using w2 h False by (simp add: Let_def w1_def [symmetric] keeps_def)
qed

lemma label_read:
  assumes "body_ok c w" "label_ok c CHUNKSIZEDONE w" "sendChunk_label CHUNKSIZEDONE ld w = Some (ctl, w1)"
  shows "step_ok c CHUNKSIZEDONE w ctl w1"
proof -
  have f: "fresh (b_ring (w_body w))" "w_rest c w \<noteq> []" using assms(2) by simp_all
  obtain ret w0 where s: "w_read w = Some (ret, w0)"
    using assms(3) by (auto simp: bind_eq_Some_conv)
  define w2 where "w2 = upd_body (\<lambda>b. b\<lparr>b_readoffset := b_readoffset b + ret\<rparr>) w0"
  note r = w_read_step [OF assms(1) f s, unfolded w2_def [symmetric] Let_def]
  have "ctl = Goto CHUNKEDATAON" "w1 = w_state CHUNKSIZEDONE w2"
    using assms(3) s r by (auto simp: w2_def)
  moreover have "16 + 20 * length (drop 8192 (w_rest c w)) < 10 + 20 * length (w_rest c w)"
    using f(2) by (cases "w_rest c w") auto
  ultimately show ?thesis
    using r f by (simp add: keeps_def)
qed

lemma label_put:
  assumes "body_ok c w" "label_ok c s w" "s \<in> {CHUNKEDATADONE, CHUNKFILEDONE}"
  shows "\<exists>ctl w1. sendChunk_label s ld w = Some (ctl, w1) \<and> step_ok c s w ctl w1 \<and>
           w_sends w1 = w_sends w \<and> w_reads w1 = w_reads w"
proof (cases "s = CHUNKEDATADONE")
  case True
  then show ?thesis
    using w_put_step [OF assms(1), of CRLF] assms(2)
    by (auto simp: keeps_def CRLF_def)
next
  case False
  then have s: "s = CHUNKFILEDONE" using assms(3) by simp
  note cl = w_clear_ok [OF assms(1)]
  then show ?thesis
    using s w_put_step [of c "w_clear w" "''0'' @ CRLF @ CRLF"] assms(2)
    by (auto simp: keeps_def CRLF_def)
qed

lemma label_step:
  assumes "body_ok c w" "label_ok c s w" "s = CHUNKUINIT \<Longrightarrow> ld = int (length (w_rest c w))"
    "sendChunk_label s ld w = Some (ctl, w1)"
  shows "step_ok c s w ctl w1"
proof (cases s)
  case CHUNKUINIT then show ?thesis using label_uinit assms by fastforce
next
  case CHUNKNULLDONE then show ?thesis using assms by (simp add: keeps_def head_rank_def)
qed (use assms label_sends [OF assms(1,2)] label_read [OF assms(1)] label_put [OF assms(1,2)] label_eof [OF assms(1)] in auto)

lemma sendChunk_run_spec:
  assumes "case pos of None \<Rightarrow> s = b_chunkstate (w_body w) | Some t \<Rightarrow> s = t"
    "body_ok c w" "label_ok c s w" "pos = Some CHUNKUINIT \<Longrightarrow> ld = int (length (w_rest c w))"
    "sendChunk_run fuel pos ld w = Some (r, w')"
  shows "r = FILE_SENDFILE_DONE \<and> w_out w' = w_out w @ pend c s w \<or>
         r = FILE_SENDFILE_RECALL \<and> resumable (b_chunkstate (w_body w')) \<and> keeps c s w (b_chunkstate (w_body w')) w'"
  using assms
proof (induction fuel arbitrary: pos s ld w)
  case (Suc fuel)
  show ?case
  proof (cases pos)
    case None
    show ?thesis
    proof (cases "s = CHUNKNULLDONE")
      case True
      then show ?thesis
        using Suc.prems None by (auto simp: w_reset_def split_beta)
    next
      case False
      then have "sendChunk_run fuel (Some s) (int (length (w_rest c w))) w = Some (r, w')"
        using Suc.prems None rest_length [OF Suc.prems(2)] by auto
      then show ?thesis
        using Suc.IH [where pos = "Some s" and s = s and w = w and ld = "int (length (w_rest c w))"] Suc.prems by simp
    qed
  next
    case (Some t)
    then have t: "t = s" using Suc.prems(1) by simp
    obtain ctl w1 where l: "sendChunk_label s ld w = Some (ctl, w1)"
      using Suc.prems(5) Some t by (auto simp: bind_eq_Some_conv)
    have st: "step_ok c s w ctl w1"
      using label_step [OF Suc.prems(2,3) _ l] Suc.prems(4) Some t by simp
    show ?thesis
    proof (cases ctl)
      case (Goto s')
      then show ?thesis
        using Suc.IH [where pos = "Some s'" and s = s' and w = w1 and ld = ld] Suc.prems(5) st l Some t by (auto simp: keeps_def)
    next
      case Break
      then show ?thesis
        using Suc.IH [where pos = None and s = "b_chunkstate (w_body w1)" and w = w1 and ld = ld] Suc.prems(5) st l Some t by (auto simp: keeps_def)
    next
      case (Return q)
      then show ?thesis
        using Suc.prems(5) st l Some t by auto
    qed
  qed
qed simp

text \<open>The calls are supplied with \<open>n\<close> outcomes of each kind: every send either meets a full
  socket or enough takes, and every read is complete.\<close>

definition supplied :: "nat \<Rightarrow> bworld \<Rightarrow> bool" where
  "supplied n w \<longleftrightarrow> n \<le> length (w_sends w) \<and> n \<le> length (w_reads w) \<and>
     (\<forall>outs \<in> set (w_sends w).
        (\<exists>x \<in> set outs. fst (fst x) < 0) \<or> ((\<forall>x \<in> set outs. 1 \<le> fst (fst x)) \<and> 8192 \<le> length outs))"

lemma supplied_mono: "supplied n w \<Longrightarrow> m \<le> n \<Longrightarrow> supplied m w"
  by (auto simp: supplied_def)

lemma supplied_keep: "supplied n w \<Longrightarrow> w_sends w1 = w_sends w \<Longrightarrow> w_reads w1 = w_reads w \<Longrightarrow> supplied n w1"
  by (simp add: supplied_def)

lemma supplied_state [simp]: "supplied n (w_state s w) = supplied n w"
  by (simp add: supplied_def)

lemma w_send_returns:
  assumes "body_ok c w" "supplied (Suc n) w"
  shows "\<exists>ret w1. w_send w = Some (ret, w1) \<and> supplied n w1"
proof -
  obtain outs rest where o: "w_sends w = outs # rest"
    using assms(2) by (cases "w_sends w") (auto simp: supplied_def)
  have i: "inner (b_ring (w_body w))" "\<not> isSSL (w_sock w) (w_heap w)" "capacity (b_ring (w_body w)) = 8193"
    using assms(1) by (simp_all add: body_ok_def ring8_def)
  have "length (content (b_ring (w_body w))) \<le> 8192"
    using space_content [of "b_ring (w_body w)"] i by (simp add: inner_def)
  then have "(\<exists>x \<in> set outs. fst (fst x) < 0) \<or>
      ((\<forall>x \<in> set outs. 1 \<le> fst (fst x)) \<and> length (content (b_ring (w_body w))) \<le> length outs)"
    using assms(2) o by (auto simp: supplied_def)
  from rb_send2Socket_returns [OF i(1,2) this]
  show ?thesis
    using assms(2) o by (auto simp: w_send_def supplied_def)
qed

lemma w_read_returns:
  assumes "body_ok c w" "fresh (b_ring (w_body w))" "w_rest c w \<noteq> []" "supplied (Suc n) w"
  shows "\<exists>ret w1. w_read w = Some (ret, w1) \<and> supplied n w1"
proof -
  obtain nfd l1 l2 rest where o: "w_reads w = (nfd, l1, l2) # rest"
    using assms(4) by (cases "w_reads w") (auto simp: supplied_def)
  then obtain b' f' k' where "writeInFromFile nfd l1 l2 (b_ring (w_body w)) (b_file (w_body w)) (w_kern w) =
       Some (int (min 8192 (length c - w_off w)), b', f', k')"
    using read_fresh [OF assms(2), of c "b_file (w_body w)" "w_kern w" "w_off w" nfd l1 l2] assms(1,3)
    by (auto simp: body_ok_def w_rest_def)
  then show ?thesis
    using assms(4) o by (auto simp: w_read_def supplied_def)
qed

lemma supplied_upd [simp]: "supplied n (upd_body g w) = supplied n w"
  by (simp add: supplied_def)

lemma supplied_reset [simp]: "supplied n (w_reset w) = supplied n w"
  by (simp add: supplied_def w_reset_def split_beta)

lemma label_returns:
  assumes "body_ok c w" "label_ok c s w" "s = CHUNKUINIT \<Longrightarrow> ld = int (length (w_rest c w))" "supplied (Suc n) w"
  shows "\<exists>ctl w1. sendChunk_label s ld w = Some (ctl, w1) \<and> supplied n w1"
proof -
  note m = supplied_mono [OF assms(4), of n]
  obtain ret w1 where s: "w_send w = Some (ret, w1)" "supplied n w1"
    using w_send_returns [OF assms(1,4)] by blast
  show ?thesis
  proof (cases s)
    case CHUNKUINIT
    then show ?thesis
      using label_uinit [OF assms(1)] assms(2,3) supplied_keep m by (metis le_SucI order_refl)
  next
    case CHUNKSIZEDONE
    then show ?thesis
      using w_read_returns [OF assms(1) _ _ assms(4)] assms(2) by auto
  next
    case CHUNKEDATADONE
    then show ?thesis
      using label_put [OF assms(1,2)] supplied_keep m by (metis insertI1 le_SucI order_refl)
  next
    case CHUNKFILEDONE
    then show ?thesis
      using label_put [OF assms(1,2)] supplied_keep m by (metis insertI1 insertI2 le_SucI order_refl)
  qed (use s m assms(2) in \<open>auto simp: Let_def\<close>)
qed

lemma sendChunk_run_returns:
  assumes "case pos of None \<Rightarrow> s = b_chunkstate (w_body w) \<and> head_rank c w \<le> fuel | Some t \<Rightarrow> s = t \<and> rank c s w \<le> fuel"
    "body_ok c w" "label_ok c s w" "pos = Some CHUNKUINIT \<Longrightarrow> ld = int (length (w_rest c w))" "supplied fuel w"
  shows "\<exists>res. sendChunk_run fuel pos ld w = Some res"
  using assms
proof (induction fuel arbitrary: pos s ld w)
  case 0
  then show ?case by (cases s) (auto simp: head_rank_def split: option.splits if_splits)
next
  case (Suc fuel)
  show ?case
  proof (cases pos)
    case None
    show ?thesis
    proof (cases "s = CHUNKNULLDONE")
      case False
      then have "\<exists>res. sendChunk_run fuel (Some s) (int (length (w_rest c w))) w = Some res"
        using Suc.prems None supplied_mono [OF Suc.prems(5), of fuel] by (intro Suc.IH [where s = s]) (auto simp: head_rank_def)
      then show ?thesis
        using Suc.prems None False rest_length [OF Suc.prems(2)] by auto
    qed (use Suc.prems None in auto)
  next
    case (Some t)
    then have t: "t = s" "rank c s w \<le> Suc fuel" using Suc.prems(1) by auto
    obtain ctl w1 where l: "sendChunk_label s ld w = Some (ctl, w1)" "supplied fuel w1"
      using label_returns [OF Suc.prems(2,3) _ Suc.prems(5), of ld] Suc.prems(4) Some t by blast
    have st: "step_ok c s w ctl w1"
      using label_step [OF Suc.prems(2,3) _ l(1)] Suc.prems(4) Some t by simp
    show ?thesis
    proof (cases ctl)
      case (Goto s')
      then have "\<exists>res. sendChunk_run fuel (Some s') ld w1 = Some res"
        using st l t by (intro Suc.IH [where s = s']) (auto simp: keeps_def)
      then show ?thesis using Goto l Some t by auto
    next
      case Break
      then have "\<exists>res. sendChunk_run fuel None ld w1 = Some res"
        using st l t by (intro Suc.IH [where s = "b_chunkstate (w_body w1)"]) (auto simp: keeps_def)
      then show ?thesis using Break l Some t by auto
    next
      case (Return q)
      then show ?thesis using l Some t by auto
    qed
  qed
qed

subsection \<open>All the calls of one body\<close>

text \<open>The connection calls again, with the outcomes of its next round, until the result is not
  \<open>RECALL\<close>.\<close>

type_synonym round = "(sysres \<times> sysres) list list \<times> (int \<times> int \<times> int) list"

fun send_rounds :: "nat \<Rightarrow> round list \<Rightarrow> bworld \<Rightarrow> (int \<times> bworld) option" where
  "send_rounds fuel [] w = Some (FILE_SENDFILE_RECALL, w)"
| "send_rounds fuel (rd # rds) w =
     do { (r, w1) \<leftarrow> sendChunk fuel (w\<lparr>w_sends := fst rd, w_reads := snd rd\<rparr>);
          if r = FILE_SENDFILE_RECALL then send_rounds fuel rds w1 else Some (r, w1) }"

definition full_reads :: "round \<Rightarrow> bool" where
  "full_reads rd \<longleftrightarrow> (\<forall>(nfd, l1, l2) \<in> set (snd rd). 0 \<le> nfd \<and> 8192 \<le> l1)"

definition enough :: "nat \<Rightarrow> round \<Rightarrow> bool" where
  "enough n rd \<longleftrightarrow> n \<le> length (fst rd) \<and> n \<le> length (snd rd) \<and>
     (\<forall>outs \<in> set (fst rd).
        (\<exists>x \<in> set outs. fst (fst x) < 0) \<or> ((\<forall>x \<in> set outs. 1 \<le> fst (fst x)) \<and> 8192 \<le> length outs))"

lemma with_round:
  "body_ok c w \<Longrightarrow> full_reads rd \<Longrightarrow> body_ok c (w\<lparr>w_sends := fst rd, w_reads := snd rd\<rparr>)"
  "pend c s (w\<lparr>w_sends := a, w_reads := b\<rparr>) = pend c s w"
  "label_ok c s (w\<lparr>w_sends := a, w_reads := b\<rparr>) = label_ok c s w"
  "enough n rd \<Longrightarrow> supplied n (w\<lparr>w_sends := fst rd, w_reads := snd rd\<rparr>)"
  by (auto simp: body_ok_def full_reads_def w_rest_def w_off_def enough_def supplied_def)
     (cases s; simp add: w_rest_def w_off_def w_content_def)+

lemma head_rank_le: "w_off w \<le> length c \<Longrightarrow> head_rank c w \<le> 20 * length c + 20"
proof -
  have "length (w_rest c w) \<le> length c" by (simp add: w_rest_def)
  then show ?thesis by (cases "b_chunkstate (w_body w)") (auto simp: head_rank_def)
qed

lemma sendChunk_round:
  assumes "c \<noteq> []" "body_ok c w" "label_ok c (b_chunkstate (w_body w)) w"
  shows "(\<forall>r w'. sendChunk fuel w = Some (r, w') \<longrightarrow>
           r = FILE_SENDFILE_DONE \<and> w_out w' = w_out w @ pend c (b_chunkstate (w_body w)) w \<or>
           r = FILE_SENDFILE_RECALL \<and> keeps c (b_chunkstate (w_body w)) w (b_chunkstate (w_body w')) w') \<and>
         (20 * length c + 20 \<le> fuel \<and> supplied fuel w \<longrightarrow> sendChunk fuel w \<noteq> None)"
proof -
  have e: "sendChunk fuel w = sendChunk_run fuel None 0 w"
    using assms(1) body_ok_filesize [OF assms(2)] by (simp add: sendChunk_def)
  have h: "head_rank c w \<le> 20 * length c + 20"
    using assms(2) head_rank_le by (simp add: body_ok_def)
  show ?thesis
    using sendChunk_run_spec [where pos = None and s = "b_chunkstate (w_body w)" and w = w and c = c and ld = 0 and fuel = fuel]
      sendChunk_run_returns [where pos = None and s = "b_chunkstate (w_body w)" and w = w and c = c and ld = 0 and fuel = fuel]
      h assms(2,3)
    by (auto simp: e)
qed

lemma send_rounds_spec:
  assumes "c \<noteq> []" "body_ok c w" "label_ok c (b_chunkstate (w_body w)) w" "\<forall>rd \<in> set rds. full_reads rd"
  shows "(\<forall>r w'. send_rounds fuel rds w = Some (r, w') \<longrightarrow>
           r = FILE_SENDFILE_DONE \<and> w_out w' = w_out w @ pend c (b_chunkstate (w_body w)) w \<or>
           r = FILE_SENDFILE_RECALL \<and> keeps c (b_chunkstate (w_body w)) w (b_chunkstate (w_body w')) w') \<and>
         (20 * length c + 20 \<le> fuel \<and> (\<forall>rd \<in> set rds. enough fuel rd) \<longrightarrow> send_rounds fuel rds w \<noteq> None)"
  using assms
proof (induction rds arbitrary: w)
  case Nil
  then show ?case by (simp add: keeps_def)
next
  case (Cons rd rds)
  let ?w = "w\<lparr>w_sends := fst rd, w_reads := snd rd\<rparr>"
  have b: "body_ok c ?w" "label_ok c (b_chunkstate (w_body ?w)) ?w"
    using Cons.prems with_round by simp_all
  note s = sendChunk_round [OF Cons.prems(1) b, of fuel, simplified with_round]
  show ?case
  proof (cases "sendChunk fuel ?w")
    case None
    then show ?thesis using s with_round(4) [of fuel rd w] by auto
  next
    case (Some res)
    obtain r w1 where r: "res = (r, w1)" by (cases res)
    show ?thesis
    proof (cases "r = FILE_SENDFILE_RECALL")
      case True
      then have k: "body_ok c w1" "label_ok c (b_chunkstate (w_body w1)) w1"
        "w_out w1 @ pend c (b_chunkstate (w_body w1)) w1 = w_out w @ pend c (b_chunkstate (w_body w)) w"
        using s Some r by (auto simp: keeps_def with_round)
      show ?thesis
        using Cons.IH [OF Cons.prems(1) k(1,2)] Cons.prems(4) Some r True k(3) by (auto simp: keeps_def)
    next
      case False
      then show ?thesis using s Some r by auto
    qed
  qed
qed


definition demo_body :: HttpBodyFile where
  "demo_body = \<lparr>b_file = demo_file (-1), b_ring = ring_new NUL 8192, b_readoffset = 0, b_chunksize = 8192,
     b_sendContentDone = False, b_chunkstate = CHUNKUINIT, b_unlink = False, b_chunked = True\<rparr>"

definition demo_bworld :: bworld where
  "demo_bworld = \<lparr>w_body = demo_body, w_sock = new_Socket 1, w_heap = demo_heap,
     w_kern = demo_kern\<lparr>disk := [''body'' \<mapsto> ''abc'']\<rparr>, w_out = [], w_sends = [], w_reads = []\<rparr>"

definition demo_round :: round where
  "demo_round = (replicate 80 [((-1, 11), (0, 0))], replicate 80 (7, 9000, 0))"


end
