(* ===== verification/NetBuf.thy ===== *)
theory NetBuf
  imports BodySend
begin

text \<open>
  \<open>net/Buffer.cpp\<close>: the growing buffer between a socket and the messages. The data stand
  between the read and the write index of one array, behind a gap of eight bytes; the array
  is compacted with \<open>memcpy\<close> and grown with \<open>realloc\<close>. A message may be attached: its header
  is in the buffer and its body follows it on the socket. Copying out of the array, and
  copying between overlapping parts of it, is undefined.
\<close>

abbreviation pregap :: nat where "pregap \<equiv> 8"
abbreviation least_len :: nat where "least_len \<equiv> 262144"
abbreviation gain_gap :: nat where "gain_gap \<equiv> 262144"

record netbuf =
  nb_mem :: bytes
  nb_rd :: nat
  nb_wr :: nat
  nb_msg :: bool
  nb_senddone :: bool

definition Buffer_new :: "char \<Rightarrow> nat \<Rightarrow> netbuf" where
  "Buffer_new fill sz =
     \<lparr>nb_mem = replicate (if sz < pregap then least_len else sz) fill, nb_rd = pregap, nb_wr = pregap,
      nb_msg = False, nb_senddone = False\<rparr>"

definition readableBytes :: "netbuf \<Rightarrow> nat" where
  "readableBytes b = sz_sub (nb_wr b) (nb_rd b)"

definition writeableBytes :: "netbuf \<Rightarrow> nat" where
  "writeableBytes b = sz_sub (length (nb_mem b)) (nb_wr b)"

definition prefreeBytes :: "netbuf \<Rightarrow> nat" where
  "prefreeBytes b = sz_sub (nb_rd b) pregap"

definition nb_clear :: "netbuf \<Rightarrow> netbuf" where
  "nb_clear b = b\<lparr>nb_rd := pregap, nb_wr := pregap, nb_msg := False\<rparr>"

definition isSendDone :: "netbuf \<Rightarrow> bool" where
  "isSendDone b = (if nb_msg b then nb_senddone b else readableBytes b = 0)"

definition align :: "netbuf \<Rightarrow> netbuf option" where
  "align b =
     (if prefreeBytes b < gain_gap then Some b
      else if 0 < readableBytes b \<and> nb_rd b < pregap + readableBytes b then None
      else
       do { xs \<leftarrow> slice (nb_rd b) (readableBytes b) (nb_mem b);
            m \<leftarrow> blit pregap xs (nb_mem b);
            Some (b\<lparr>nb_mem := m, nb_rd := pregap, nb_wr := pregap + readableBytes b\<rparr>) })"

text \<open>The doubling of the step; shifting zero would never end.\<close>

function extend_loop :: "nat \<Rightarrow> nat \<Rightarrow> nat \<Rightarrow> nat option" where
  "extend_loop ext bufsize need =
     (if ext + bufsize \<le> need then (if ext = 0 then None else extend_loop (2 * ext) bufsize need)
      else Some ext)"
  by pat_completeness auto
termination by (relation "measure (\<lambda>(e, b, n). n + 1 - (e + b))") auto

declare extend_loop.simps [simp del]

text \<open>\<open>makeSpace\<close>: \<open>grow\<close> is what \<open>realloc\<close> does, \<open>None\<close> when it fails and otherwise what the new
  part of the array holds.\<close>

definition makeSpace :: "char option \<Rightarrow> nat \<Rightarrow> netbuf \<Rightarrow> (int \<times> netbuf) option" where
  "makeSpace grow len b =
     do { b1 \<leftarrow> align b;
          if writeableBytes b1 > len then Some (0, b1)
          else
            do { ext \<leftarrow> extend_loop gain_gap (length (nb_mem b1)) (len + length (nb_mem b1));
                 case grow of
                   None \<Rightarrow> Some (-1, b1)
                 | Some c \<Rightarrow> Some (0, b1\<lparr>nb_mem := nb_mem b1 @ replicate ext c\<rparr>) } }"

definition addData :: "char option \<Rightarrow> bytes \<Rightarrow> netbuf \<Rightarrow> (nat \<times> netbuf) option" where
  "addData grow xs b =
     (if length xs = 0 then Some (0, b)
      else
       do { (_, b1) \<leftarrow> makeSpace grow (length xs) b;
            m \<leftarrow> blit (nb_wr b1) xs (nb_mem b1);
            Some (length xs, b1\<lparr>nb_mem := m, nb_wr := nb_wr b1 + length xs\<rparr>) })"

text \<open>A C string in the array, which must be terminated inside it.\<close>

definition mem_str :: "nat \<Rightarrow> bytes \<Rightarrow> bytes option" where
  "mem_str off m = (if NUL \<in> set (drop off m) then Some (c_str (drop off m)) else None)"

text \<open>\<open>toString\<close>, which also ends the data with a NUL.\<close>

definition nb_toString :: "netbuf \<Rightarrow> (bytes \<times> netbuf) option" where
  "nb_toString b =
     do { m \<leftarrow> blit (nb_wr b) [NUL] (nb_mem b);
          s \<leftarrow> mem_str (nb_rd b) m;
          Some (s, b\<lparr>nb_mem := m\<rparr>) }"

text \<open>\<open>removeData\<close>: it terminates the removed part for a moment, and prints the buffer.\<close>

definition removeData :: "nat \<Rightarrow> netbuf \<Rightarrow> (nat \<times> bytes \<times> netbuf) option" where
  "removeData len b =
     (let n = (if len > readableBytes b then readableBytes b else len);
          rd = nb_rd b + n
      in do { tmp \<leftarrow> slice rd 1 (nb_mem b);
              m1 \<leftarrow> blit rd [NUL] (nb_mem b);
              s \<leftarrow> mem_str (nb_rd b) m1;
              m2 \<leftarrow> blit rd tmp m1;
              (_, b1) \<leftarrow> nb_toString (b\<lparr>nb_mem := m2, nb_rd := rd\<rparr>);
              Some (n, s, b1) })"

definition attachHttpMessage :: "char option \<Rightarrow> bytes option \<Rightarrow> netbuf \<Rightarrow> (int \<times> netbuf) option" where
  "attachHttpMessage grow header b =
     (case header of
        None \<Rightarrow> Some (-1, b)
      | Some hd' \<Rightarrow>
          do { (n, b1) \<leftarrow> addData grow hd' ((nb_clear b)\<lparr>nb_msg := True, nb_senddone := False\<rparr>);
               Some (int n, b1) })"

subsection \<open>Receiving and sending\<close>

text \<open>One call of \<open>Recv\<close>: its result, the detail of the TLS call, the bytes that arrive, and
  what \<open>realloc\<close> does if the buffer has to grow.\<close>

type_synonym recv_res = "sysres \<times> sysres \<times> bytes \<times> char option"

definition cap_to :: "nat \<Rightarrow> sysres \<Rightarrow> sysres" where
  "cap_to len r = (min (fst r) (int len), snd r)"

fun recv_loop :: "nat \<Rightarrow> nat \<Rightarrow> recv_res list \<Rightarrow> netbuf \<Rightarrow> Socket \<Rightarrow> ssl_heap
    \<Rightarrow> (int \<times> nat \<times> netbuf \<times> Socket \<times> ssl_heap) option" where
  "recv_loop len ext [] b m h = None"
| "recv_loop len ext ((r, sd, xs, grow) # outs) b m h =
     do { (ret, rn, m1, h1) \<leftarrow> Recv 0 (cap_to (writeableBytes b) r) sd m h;
          if ret > 0 then
            do { n \<leftarrow> rn;
                 data \<leftarrow> slice 0 n xs;
                 mem \<leftarrow> blit (nb_wr b) data (nb_mem b);
                 let b1 = b\<lparr>nb_mem := mem, nb_wr := nb_wr b + n\<rparr>;
                 if writeableBytes b1 < pregap then
                   do { (_, b2) \<leftarrow> makeSpace grow ext b1; recv_loop (len + n) (2 * ext) outs b2 m1 h1 }
                 else recv_loop (len + n) ext outs b1 m1 h1 }
          else Some (ret, len, b, m1, h1) }"

definition recvFromSocket :: "recv_res list \<Rightarrow> netbuf \<Rightarrow> Socket \<Rightarrow> ssl_heap \<Rightarrow> (int \<times> netbuf \<times> Socket \<times> ssl_heap) option" where
  "recvFromSocket outs b m h =
     do { (ret, len, b1, m1, h1) \<leftarrow> recv_loop 0 gain_gap outs b m h;
          Some ((if ret \<noteq> TIGERSO_IO_ERROR then int len else TIGERSO_IO_ERROR), b1, m1, h1) }"

text \<open>The loop of \<open>sendToSocket\<close>. The condition stores in \<open>ret\<close> the truth value of the
  comparison, not the result of \<open>Send\<close>.\<close>

fun nb_send_loop :: "nat \<Rightarrow> int \<Rightarrow> (sysres \<times> sysres) list \<Rightarrow> netbuf \<Rightarrow> bworld
    \<Rightarrow> (int \<times> nat \<times> netbuf \<times> bworld) option" where
  "nb_send_loop len ret [] b w = (if readableBytes b > 0 then None else Some (ret, len, b, w))"
| "nb_send_loop len ret ((r, sd) # outs) b w =
     (if readableBytes b > 0 then
        do { xs \<leftarrow> slice (nb_rd b) (readableBytes b) (nb_mem b);
             (s, sn, m1, h1) \<leftarrow> Send 0 (capped xs r) sd (w_sock w) (w_heap w);
             let w1 = w\<lparr>w_sock := m1, w_heap := h1\<rparr>;
             if s > 0 then
               do { n \<leftarrow> sn;
                    nb_send_loop (len + n) 1 outs (b\<lparr>nb_rd := nb_rd b + n\<rparr>) (w1\<lparr>w_out := w_out w1 @ take n xs\<rparr>) }
             else Some (0, len, b, w1) }
      else Some (ret, len, b, w))"

text \<open>\<open>sendToSocket\<close>; \<open>body\<close> sends the body of the attached message, which the world holds.\<close>

definition sendToSocket :: "(bworld \<Rightarrow> (int \<times> bworld) option) \<Rightarrow> (sysres \<times> sysres) list \<Rightarrow> netbuf \<Rightarrow> bworld
    \<Rightarrow> (int \<times> netbuf \<times> bworld) option" where
  "sendToSocket body outs b w =
     do { (ret, len, b1, w1) \<leftarrow> nb_send_loop 0 0 outs b w;
          if nb_wr b1 = nb_rd b1 then
            (if nb_msg b1 then
               do { (r, w2) \<leftarrow> body w1;
                    if r = FILE_SENDFILE_ERROR then Some (TIGERSO_IO_ERROR, b1, w2)
                    else if r = FILE_SENDFILE_DONE
                    then Some (TIGERSO_IO_OK, b1\<lparr>nb_senddone := True, nb_msg := False\<rparr>, w2)
                    else Some (TIGERSO_IO_OK, b1, w2) }
             else Some ((if ret \<noteq> TIGERSO_IO_ERROR then int len else TIGERSO_IO_ERROR), nb_clear b1, w1))
          else
            do { b2 \<leftarrow> (if nb_wr b1 < nb_rd b1 + gain_gap then align b1 else Some b1);
                 Some ((if ret \<noteq> TIGERSO_IO_ERROR then int len else TIGERSO_IO_ERROR), b2, w1) } }"

text \<open>\<open>Socket::recvNIO\<close> and \<open>Socket::sendNIO\<close>; the buffer is \<open>None\<close> when its owner is gone.\<close>

definition recvNIO :: "int \<Rightarrow> int \<Rightarrow> recv_res list \<Rightarrow> netbuf option \<Rightarrow> Socket \<Rightarrow> kern \<Rightarrow> ssl_heap
    \<Rightarrow> (int \<times> netbuf option \<times> Socket \<times> kern \<times> ssl_heap) option" where
  "recvNIO getfl setfl outs buf m k h =
     (let (m1, k1) = setNIO True getfl setfl m k
      in case buf of
           None \<Rightarrow> Some (-1, None, m1, k1, h)
         | Some b \<Rightarrow>
             if \<not> exist m1 then Some (-1, Some b, m1, k1, h)
             else do { (n, b1, m2, h2) \<leftarrow> recvFromSocket outs b m1 h; Some (n, Some b1, m2, k1, h2) })"

definition sendNIO :: "int \<Rightarrow> int \<Rightarrow> (bworld \<Rightarrow> (int \<times> bworld) option) \<Rightarrow> (sysres \<times> sysres) list \<Rightarrow> netbuf option \<Rightarrow> bworld
    \<Rightarrow> (int \<times> netbuf option \<times> bworld) option" where
  "sendNIO getfl setfl body outs buf w =
     (let (m1, k1) = setNIO True getfl setfl (w_sock w) (w_kern w); w1 = w\<lparr>w_sock := m1, w_kern := k1\<rparr>
      in case buf of
           None \<Rightarrow> Some (-1, None, w1)
         | Some b \<Rightarrow>
             if \<not> exist m1 then Some (-1, Some b, w1)
             else do { (n, b1, w2) \<leftarrow> sendToSocket body outs b w1; Some (n, Some b1, w2) })"

text \<open>\<open>Socket::reset\<close>: a new socket, but for its TLS context, with both buffers cleared.\<close>

definition Socket_reset :: "Socket \<Rightarrow> netbuf \<Rightarrow> netbuf \<Rightarrow> Socket \<times> netbuf \<times> netbuf" where
  "Socket_reset m bin bout = ((new_Socket (s_id m))\<lparr>s_ctx := s_ctx m\<rparr>, nb_clear bin, nb_clear bout)"

subsection \<open>The data of a buffer\<close>

definition nb_ok :: "netbuf \<Rightarrow> bool" where
  "nb_ok b \<longleftrightarrow> pregap \<le> nb_rd b \<and> nb_rd b \<le> nb_wr b \<and> nb_wr b < length (nb_mem b)"

definition nb_data :: "netbuf \<Rightarrow> bytes" where
  "nb_data b = take (nb_wr b - nb_rd b) (drop (nb_rd b) (nb_mem b))"

text \<open>Compacting does not copy a part of the array over itself: either there is nothing to do,
  or the data fit in the space in front of them.\<close>

definition nb_movable :: "netbuf \<Rightarrow> bool" where
  "nb_movable b \<longleftrightarrow> nb_rd b < pregap + gain_gap \<or> length (nb_data b) \<le> gain_gap"

lemma nb_sizes:
  "nb_ok b \<Longrightarrow> readableBytes b = nb_wr b - nb_rd b"
  "nb_ok b \<Longrightarrow> writeableBytes b = length (nb_mem b) - nb_wr b"
  "nb_ok b \<Longrightarrow> prefreeBytes b = nb_rd b - pregap"
  "nb_ok b \<Longrightarrow> length (nb_data b) = nb_wr b - nb_rd b"
  by (auto simp: nb_ok_def readableBytes_def writeableBytes_def prefreeBytes_def sz_sub_ge nb_data_def)

lemma align_spec:
  assumes "nb_ok b" "nb_movable b"
  shows "\<exists>b'. align b = Some b' \<and> nb_ok b' \<and> nb_data b' = nb_data b \<and> nb_msg b' = nb_msg b \<and>
             nb_senddone b' = nb_senddone b"
proof (cases "prefreeBytes b < gain_gap")
  case False
  then have g: "pregap + gain_gap \<le> nb_rd b" "nb_wr b - nb_rd b \<le> gain_gap"
    using assms nb_sizes [OF assms(1)] by (auto simp: nb_movable_def nb_ok_def)
  then show ?thesis
    using False assms(1) nb_sizes(1) [OF assms(1)]
    by (auto simp: align_def nb_ok_def nb_data_def slice_def blit_def)
qed (use assms in \<open>simp add: align_def\<close>)

lemma extend_loop_spec: "0 < e \<Longrightarrow> \<exists>e'. extend_loop e b n = Some e' \<and> n < e' + b"
proof (induction e b n rule: extend_loop.induct)
  case (1 e b n)
  then show ?case
    by (cases "e + b \<le> n") (simp_all add: extend_loop.simps [of e b n])
qed

lemma makeSpace_spec:
  assumes "nb_ok b" "nb_movable b"
  shows "\<exists>b'. makeSpace (Some c) len b = Some (0, b') \<and> nb_ok b' \<and> nb_data b' = nb_data b \<and>
             nb_wr b' + len < length (nb_mem b') \<and> nb_msg b' = nb_msg b \<and> nb_senddone b' = nb_senddone b"
proof -
  obtain b1 where b1: "align b = Some b1" "nb_ok b1" "nb_data b1 = nb_data b" "nb_msg b1 = nb_msg b"
    "nb_senddone b1 = nb_senddone b"
    using align_spec [OF assms] by blast
  obtain e where e: "extend_loop gain_gap (length (nb_mem b1)) (len + length (nb_mem b1)) = Some e" "len < e"
    using extend_loop_spec [of gain_gap "length (nb_mem b1)" "len + length (nb_mem b1)"] by auto
  show ?thesis
    using b1 e nb_sizes(2) [OF b1(2)]
    by (cases "writeableBytes b1 > len") (auto simp: makeSpace_def nb_ok_def nb_data_def)
qed

lemma nb_append:
  assumes "nb_ok b" "nb_wr b + length xs \<le> length (nb_mem b)"
  shows "\<exists>m. blit (nb_wr b) xs (nb_mem b) = Some m \<and> length m = length (nb_mem b) \<and>
             nb_data (b\<lparr>nb_mem := m, nb_wr := nb_wr b + length xs\<rparr>) = nb_data b @ xs"
  using assms by (simp add: nb_ok_def nb_data_def blit_def drop_take)

lemma addData_spec:
  assumes "nb_ok b" "nb_movable b"
  shows "\<exists>b'. addData (Some c) xs b = Some (length xs, b') \<and> nb_ok b' \<and> nb_data b' = nb_data b @ xs \<and>
             nb_msg b' = nb_msg b \<and> nb_senddone b' = nb_senddone b"
proof (cases "xs = []")
  case False
  obtain b1 where b1: "makeSpace (Some c) (length xs) b = Some (0, b1)" "nb_ok b1" "nb_data b1 = nb_data b"
    "nb_wr b1 + length xs < length (nb_mem b1)" "nb_msg b1 = nb_msg b" "nb_senddone b1 = nb_senddone b"
    using makeSpace_spec [OF assms] by blast
  from b1(4) have "nb_wr b1 + length xs \<le> length (nb_mem b1)" by simp
  from nb_append [OF b1(2) this] show ?thesis
    using False b1 by (auto simp: addData_def nb_ok_def)
qed (use assms in \<open>simp add: addData_def\<close>)

lemma mem_str_prefix:
  "NUL \<notin> set xs \<Longrightarrow> mem_str 0 (xs @ NUL # ys) = Some xs"
  by (simp add: mem_str_def c_str_append_NUL)

lemma mem_str_drop: "mem_str off m = mem_str 0 (drop off m)"
  by (simp add: mem_str_def)

lemma split_mem:
  assumes "nb_ok b"
  shows "\<exists>pre z post. nb_mem b = pre @ nb_data b @ z # post \<and> length pre = nb_rd b"
proof -
  have "nb_mem b = take (nb_rd b) (nb_mem b) @ nb_data b @ drop (nb_wr b) (nb_mem b)"
    using assms take_drop_split [of "nb_rd b" "nb_wr b" "nb_mem b"] by (simp add: nb_data_def nb_ok_def)
  moreover have "drop (nb_wr b) (nb_mem b) = nb_mem b ! nb_wr b # drop (Suc (nb_wr b)) (nb_mem b)"
    using assms by (simp add: nb_ok_def Cons_nth_drop_Suc)
  moreover have "length (take (nb_rd b) (nb_mem b)) = nb_rd b"
    using assms by (simp add: nb_ok_def)
  ultimately show ?thesis by metis
qed

lemma removeData_spec:
  assumes "nb_ok b" "NUL \<notin> set (nb_data b)"
  shows "\<exists>b'. removeData n b = Some (min n (length (nb_data b)), take n (nb_data b), b') \<and> nb_ok b' \<and>
             nb_data b' = drop n (nb_data b) \<and> nb_rd b' = nb_rd b + min n (length (nb_data b))"
proof -
  define k where "k = min n (length (nb_data b))"
  define xs where "xs = take k (nb_data b)"
  define ys where "ys = drop k (nb_data b)"
  obtain pre z post where m: "nb_mem b = pre @ nb_data b @ z # post" "length pre = nb_rd b"
    using split_mem [OF assms(1)] by blast
  have d: "nb_data b = xs @ ys" "length xs = k" by (simp_all add: xs_def ys_def k_def)
  have k: "(if n > readableBytes b then readableBytes b else n) = k"
    using nb_sizes [OF assms(1)] by (auto simp: k_def)
  have wr: "nb_wr b = nb_rd b + k + length ys"
    using assms(1) d nb_sizes(4) [OF assms(1)] by (simp add: nb_ok_def) arith
  obtain t ts where yz: "ys @ z # post = t # ts" by (cases ys) auto
  have mem: "nb_mem b = pre @ xs @ t # ts"
    using m d yz by (metis append.assoc)
  have nul: "NUL \<notin> set xs" "NUL \<notin> set ys" using assms(2) d by auto
  have 1: "slice (nb_rd b + k) 1 (nb_mem b) = Some [t]"
    "blit (nb_rd b + k) [NUL] (nb_mem b) = Some (pre @ xs @ NUL # ts)"
    "mem_str (nb_rd b) (pre @ xs @ NUL # ts) = Some xs"
    "blit (nb_rd b + k) [t] (pre @ xs @ NUL # ts) = Some (nb_mem b)"
    using m(2) d(2) nul mem_str_prefix by (simp_all add: mem slice_def blit_def mem_str_drop [of "nb_rd b"])
  have mem2: "nb_mem b = (pre @ xs @ ys) @ z # post" using m d by simp
  have 2: "blit (nb_wr b) [NUL] (nb_mem b) = Some (pre @ xs @ ys @ NUL # post)"
    "mem_str (nb_rd b + k) (pre @ xs @ ys @ NUL # post) = Some ys"
    using m(2) d(2) wr nul mem_str_prefix
    by (simp_all add: mem2 blit_def mem_str_drop [of "nb_rd b + k"])
  have "removeData n b = Some (k, xs, b\<lparr>nb_mem := pre @ xs @ ys @ NUL # post, nb_rd := nb_rd b + k\<rparr>)"
    unfolding removeData_def Let_def k using 1 2 by (simp add: nb_toString_def)
  moreover have "nb_ok (b\<lparr>nb_mem := pre @ xs @ ys @ NUL # post, nb_rd := nb_rd b + k\<rparr>)"
    "nb_data (b\<lparr>nb_mem := pre @ xs @ ys @ NUL # post, nb_rd := nb_rd b + k\<rparr>) = ys"
    using assms(1) m(2) d(2) wr by (simp_all add: nb_ok_def nb_data_def)
  moreover have "take n (nb_data b) = xs" "drop n (nb_data b) = ys"
    by (simp_all add: xs_def ys_def k_def min_def)
  ultimately show ?thesis by (simp add: k_def [symmetric])
qed

subsection \<open>First in, first out\<close>

definition nb_put :: "char \<Rightarrow> bytes \<Rightarrow> netbuf \<Rightarrow> (nat \<times> netbuf) option" where
  "nb_put c xs b = addData (Some c) xs b"

definition nb_get :: "nat \<Rightarrow> netbuf \<Rightarrow> (bytes \<times> netbuf) option" where
  "nb_get n b = do { (_, s, b1) \<leftarrow> removeData n b; Some (s, b1) }"

fun put_bytes :: "queue_op list \<Rightarrow> bytes" where
  "put_bytes [] = []"
| "put_bytes (Put xs # ops) = xs @ put_bytes ops"
| "put_bytes (Get n # ops) = put_bytes ops"


lemma Buffer_new_ok: "8 < sz \<Longrightarrow> nb_ok (Buffer_new c sz) \<and> nb_data (Buffer_new c sz) = []"
  by (simp add: nb_ok_def Buffer_new_def nb_data_def)


subsection \<open>Sending\<close>

lemma nb_advance:
  "nb_ok b \<Longrightarrow> n \<le> length (nb_data b) \<Longrightarrow>
   nb_ok (b\<lparr>nb_rd := nb_rd b + n\<rparr>) \<and> nb_data (b\<lparr>nb_rd := nb_rd b + n\<rparr>) = drop n (nb_data b)"
  by (auto simp: nb_ok_def nb_data_def drop_take add.commute)

lemma nb_slice: "nb_ok b \<Longrightarrow> slice (nb_rd b) (readableBytes b) (nb_mem b) = Some (nb_data b)"
  using nb_sizes(1) [of b] by (simp add: slice_def nb_data_def nb_ok_def)

lemma nb_send_loop_spec:
  assumes "nb_ok b" "\<not> isSSL (w_sock w) (w_heap w)" "length (nb_mem b) < 2 ^ 64" "ret0 \<in> {0, 1}"
    "nb_send_loop len ret0 outs b w = Some (ret, len', b', w')"
  shows "\<exists>sent. w' = w\<lparr>w_out := w_out w @ sent\<rparr> \<and> sent @ nb_data b' = nb_data b \<and> len' = len + length sent \<and>
           ret \<in> {0, 1} \<and> nb_ok b' \<and> nb_msg b' = nb_msg b \<and> nb_senddone b' = nb_senddone b"
  using assms
proof (induction outs arbitrary: len ret0 b w)
  case Nil
  then show ?case by (auto split: if_splits)
next
  case (Cons x outs)
  obtain r sd where x: "x = (r, sd)" by (cases x)
  show ?case
  proof (cases "readableBytes b > 0 \<and> 0 \<le> fst r")
    case False
    then show ?thesis
      using Cons.prems x nb_slice [OF Cons.prems(1)]
      by (auto simp: Send_def capped_def Let_def split: if_splits)
  next
    case True
    define n where "n = nat (min (fst r) (int (length (nb_data b))))"
    have n: "n \<le> length (nb_data b)" "int n = fst (capped (nb_data b) r)"
      using True by (auto simp: n_def capped_def)
    have "length (nb_data b) < 2 ^ 64" using Cons.prems(1,3) nb_sizes(4) [of b] by (simp add: nb_ok_def) linarith
    then have "to_size (fst (capped (nb_data b) r)) = n"
      using n by (simp add: to_size_def flip: n(2))
    then have S: "Send 0 (capped (nb_data b) r) sd (w_sock w) (w_heap w) = Some (TIGERSO_IO_OK, Some n, w_sock w, w_heap w)"
      using Cons.prems(2) n(2) by (simp add: Send_def)
    let ?w = "w\<lparr>w_out := w_out w @ take n (nb_data b)\<rparr>" and ?b = "b\<lparr>nb_rd := nb_rd b + n\<rparr>"
    have "nb_send_loop (len + n) 1 outs ?b ?w = Some (ret, len', b', w')"
      using Cons.prems(5) True x S nb_slice [OF Cons.prems(1)] by (simp add: Let_def)
    then obtain sent where s: "w' = ?w\<lparr>w_out := w_out ?w @ sent\<rparr>" "sent @ nb_data b' = nb_data ?b"
      "len' = len + n + length sent" "ret \<in> {0, 1}" "nb_ok b'" "nb_msg b' = nb_msg b" "nb_senddone b' = nb_senddone b"
      using Cons.IH [of ?b ?w 1 "len + n"] nb_advance [OF Cons.prems(1) n(1)] Cons.prems(2,3) by auto
    have "(take n (nb_data b) @ sent) @ nb_data b' = nb_data b"
      using s(2) nb_advance [OF Cons.prems(1) n(1)] by simp
    then show ?thesis
      using s n(1) by (intro exI [of _ "take n (nb_data b) @ sent"]) simp
  qed
qed

text \<open>
  Sending the buffer over a plain socket, whatever the socket takes. The bytes on the wire
  followed by what is left are the data the buffer had. While data are left, the result is the
  number of bytes sent, never an error, and the body of an attached message is not touched; when
  none is left, the buffer is cleared, or the body of the message is sent after exactly the
  bytes of the buffer, and the message is detached when that is done.
\<close>

theorem sendToSocket_outcomes:
  assumes "nb_ok b" "\<not> isSSL (w_sock w) (w_heap w)" "length (nb_mem b) < 2 ^ 64"
    "sendToSocket body outs b w = Some (ret, b', w')"
  shows "\<exists>sent left w1. sent @ left = nb_data b \<and> w1 = w\<lparr>w_out := w_out w @ sent\<rparr> \<and>
     (if left \<noteq> [] \<or> \<not> nb_msg b
      then ret = int (length sent) \<and> w' = w1 \<and> nb_ok b' \<and> nb_data b' = left \<and> nb_msg b' = nb_msg b
      else \<exists>r. body w1 = Some (r, w') \<and> nb_data b' = [] \<and> nb_ok b' \<and>
             ret = (if r = FILE_SENDFILE_ERROR then TIGERSO_IO_ERROR else TIGERSO_IO_OK) \<and>
             nb_msg b' = (r \<noteq> FILE_SENDFILE_DONE) \<and> (r = FILE_SENDFILE_DONE \<longrightarrow> isSendDone b'))"
proof -
  obtain r len b1 w1 where l: "nb_send_loop 0 0 outs b w = Some (r, len, b1, w1)"
    using assms(4) by (auto simp: sendToSocket_def bind_eq_Some_conv)
  obtain sent where s: "w1 = w\<lparr>w_out := w_out w @ sent\<rparr>" "sent @ nb_data b1 = nb_data b" "len = length sent"
    "r \<in> {0, 1}" "nb_ok b1" "nb_msg b1 = nb_msg b" "nb_senddone b1 = nb_senddone b"
    using nb_send_loop_spec [OF assms(1,2,3) _ l] by auto
  have e: "nb_data b1 = [] \<longleftrightarrow> nb_wr b1 = nb_rd b1"
    using nb_sizes(4) [OF s(5)] s(5) by (auto simp: nb_ok_def)
  show ?thesis
  proof (cases "nb_wr b1 = nb_rd b1")
    case True
    then have d: "nb_data b1 = []" "sent = nb_data b" using e s(2) by auto
    show ?thesis
    proof (cases "nb_msg b")
      case False
      then have "ret = int (length sent)" "b' = nb_clear b1" "w' = w1"
        using assms(4) l s(3,4,6) True by (auto simp: sendToSocket_def)
      moreover have "nb_ok (nb_clear b1)" "nb_data (nb_clear b1) = []" "\<not> nb_msg (nb_clear b1)"
        using s(5) by (auto simp: nb_ok_def nb_clear_def nb_data_def)
      ultimately show ?thesis
        using False d s(1) by (intro exI [of _ sent] exI [of _ "[]"] exI [of _ w1]) simp
    next
      case msg: True
      obtain q where q: "body w1 = Some (q, w')"
        "ret = (if q = FILE_SENDFILE_ERROR then TIGERSO_IO_ERROR else TIGERSO_IO_OK)"
        "b' = (if q = FILE_SENDFILE_DONE then b1\<lparr>nb_senddone := True, nb_msg := False\<rparr> else b1)"
        using assms(4) l s(6) True msg
        by (auto simp: sendToSocket_def bind_eq_Some_conv split: if_splits)
      then show ?thesis
        using msg d s True
        by (intro exI [of _ sent] exI [of _ "[]"] exI [of _ w1])
           (simp add: nb_ok_def nb_data_def isSendDone_def readableBytes_def sz_sub_ge)
    qed
  next
    case False
    obtain b2 where b2: "(if nb_wr b1 < nb_rd b1 + gain_gap then align b1 else Some b1) = Some b2" "nb_ok b2"
      "nb_data b2 = nb_data b1" "nb_msg b2 = nb_msg b1"
    proof (cases "nb_wr b1 < nb_rd b1 + gain_gap")
      case True
      then have "nb_movable b1" using nb_sizes(4) [OF s(5)] by (simp add: nb_movable_def) linarith
      then show ?thesis using align_spec [OF s(5)] that True by auto
    qed (use s that in auto)
    have "ret = int (length sent)" "b' = b2" "w' = w1"
      using assms(4) l s(3,4) False b2(1) by (auto simp: sendToSocket_def)
    then show ?thesis
      using s b2 e False by (intro exI [of _ sent] exI [of _ "nb_data b1"] exI [of _ w1]) auto
  qed
qed

theorem sendToSocket_outcomes_witness:
  "\<exists>b' w'. sendToSocket (\<lambda>w. None) [((3, 0), (0, 0)), ((-1, 11), (0, 0))]
      \<lparr>nb_mem = replicate 8 NUL @ ''hello!'', nb_rd = 8, nb_wr = 13, nb_msg = False, nb_senddone = False\<rparr>
      \<lparr>w_body = demo_body, w_sock = new_Socket 1, w_heap = demo_heap, w_kern = demo_kern, w_out = [], w_sends = [],
       w_reads = []\<rparr> = Some (3, b', w') \<and> nb_data b' = ''lo'' \<and> w_out w' = ''hel''"
proof -
  let ?b = "\<lparr>nb_mem = replicate 8 NUL @ ''hello!'', nb_rd = 8, nb_wr = 13, nb_msg = False, nb_senddone = False\<rparr>"
  let ?w = "\<lparr>w_body = demo_body, w_sock = new_Socket 1, w_heap = demo_heap, w_kern = demo_kern, w_out = [], w_sends = [],
       w_reads = []\<rparr>"
  have p: "\<not> isSSL (new_Socket 1) demo_heap"
    by (simp add: isSSL_def new_Socket_def new_SSLContext_def ctx_active_def validSSL_def)
  have "\<exists>b' w'. sendToSocket (\<lambda>w. None) [((3, 0), (0, 0)), ((-1, 11), (0, 0))] ?b ?w = Some (3, b', w')"
    using p by (simp add: sendToSocket_def readableBytes_def sz_sub_ge slice_def capped_def Send_def to_size_def
        align_def prefreeBytes_def)
  then obtain b' w' where r: "sendToSocket (\<lambda>w. None) [((3, 0), (0, 0)), ((-1, 11), (0, 0))] ?b ?w = Some (3, b', w')"
    by blast
  obtain sent where "sent @ nb_data b' = ''hello''" "length sent = 3" "w_out w' = sent"
    using sendToSocket_outcomes [OF _ _ _ r] p by (auto simp: nb_ok_def nb_data_def split: if_splits)
  then have "sent = take 3 ''hello''" "nb_data b' = drop 3 ''hello''" "w_out w' = sent"
    by (metis append_eq_conv_conj)+
  then show ?thesis using r by simp
qed

end
