(* ===== verification/CIMap.thy ===== *)
theory CIMap
  imports Base
begin

text \<open>
  The interface of the stores that are searched with \<open>strcasecmp\<close>: a map whose keys are equal
  when they differ in case only. The provider offers an invariant, a lookup, an insertion that
  replaces the value of an equal key, and a removal; the client runs any sequence of the last
  two and knows what a lookup returns.
\<close>

datatype 'v map_op = MPut bytes 'v | MDel bytes

fun run_map :: "(bytes \<Rightarrow> 'v \<Rightarrow> 's \<Rightarrow> 's) \<Rightarrow> (bytes \<Rightarrow> 's \<Rightarrow> 's) \<Rightarrow> 'v map_op list \<Rightarrow> 's \<Rightarrow> 's" where
  "run_map put del [] s = s"
| "run_map put del (MPut k v # ops) s = run_map put del ops (put k v s)"
| "run_map put del (MDel k # ops) s = run_map put del ops (del k s)"

text \<open>The value of a key after the operations, given the one before.\<close>

fun last_value :: "bytes \<Rightarrow> 'v map_op list \<Rightarrow> 'v option \<Rightarrow> 'v option" where
  "last_value k [] old = old"
| "last_value k (MPut k' v # ops) old = last_value k ops (if strcaseeq k' k then Some v else old)"
| "last_value k (MDel k' # ops) old = last_value k ops (if strcaseeq k' k then None else old)"

locale ci_map =
  fixes ok :: "'s \<Rightarrow> bool"
    and get :: "bytes \<Rightarrow> 's \<Rightarrow> 'v option"
    and put :: "bytes \<Rightarrow> 'v \<Rightarrow> 's \<Rightarrow> 's"
    and del :: "bytes \<Rightarrow> 's \<Rightarrow> 's"
  assumes put_ok: "ok s \<Longrightarrow> ok (put k v s)"
    and del_ok: "ok s \<Longrightarrow> ok (del k s)"
    and get_put: "ok s \<Longrightarrow> get k (put k' v s) = (if strcaseeq k' k then Some v else get k s)"
    and get_del: "ok s \<Longrightarrow> get k (del k' s) = (if strcaseeq k' k then None else get k s)"
begin

lemma run_ok: "ok s \<Longrightarrow> ok (run_map put del ops s)"
proof (induction ops arbitrary: s)
  case (Cons x ops)
  then show ?case by (cases x) (simp_all add: put_ok del_ok)
qed simp

lemma get_run: "ok s \<Longrightarrow> get k (run_map put del ops s) = last_value k ops (get k s)"
proof (induction ops arbitrary: s)
  case (Cons x ops)
  then show ?case by (cases x) (simp_all add: put_ok del_ok get_put get_del)
qed simp

end

subsection \<open>Association lists with keys distinct up to case\<close>

definition ci_keys :: "(bytes \<times> 'v) list \<Rightarrow> bytes list" where
  "ci_keys xs = map (\<lambda>x. map tolower (c_str (fst x))) xs"

definition ci_distinct :: "(bytes \<times> 'v) list \<Rightarrow> bool" where
  "ci_distinct xs \<longleftrightarrow> distinct (ci_keys xs)"

fun ci_find :: "bytes \<Rightarrow> (bytes \<times> 'v) list \<Rightarrow> 'v option" where
  "ci_find k [] = None"
| "ci_find k ((k', v) # xs) = (if strcaseeq k k' then Some v else ci_find k xs)"

lemma ci_keys_simps [simp]:
  "ci_keys [] = []" "ci_keys (x # xs) = map tolower (c_str (fst x)) # ci_keys xs" "ci_keys (xs @ ys) = ci_keys xs @ ci_keys ys"
  by (simp_all add: ci_keys_def)

lemma ci_find_None: "ci_find k xs = None \<longleftrightarrow> map tolower (c_str k) \<notin> set (ci_keys xs)"
  by (induction xs) (auto simp: strcaseeq_def split: if_splits)

lemma ci_find_cong: "strcaseeq k k' \<Longrightarrow> ci_find k xs = ci_find k' xs"
  by (induction xs) (auto simp: strcaseeq_def)

end
