(* ===== verification/HttpMsg.thy ===== *)
theory HttpMsg
  imports CIMap BodySend "HOL-Library.List_Lexorder" "HOL-Library.Char_ord"
begin

text \<open>
  \<open>http/HttpMessage.cpp\<close>, \<open>HttpRequest.cpp\<close> and \<open>HttpResponse.cpp\<close>: a message is its headers,
  in the order in which they arrived, its start line, its body and the state of its parser.
  The two subclasses are told apart by the role, as the code does; the fields of the other
  role are not used.
\<close>

type_synonym headers = "(bytes \<times> bytes) list"

section \<open>Headers\<close>

definition getValueByHeader :: "bytes \<Rightarrow> headers \<Rightarrow> bytes" where
  "getValueByHeader h hs = (case ci_find h hs of None \<Rightarrow> [] | Some v \<Rightarrow> v)"

fun setValueByHeader :: "bytes \<Rightarrow> bytes \<Rightarrow> headers \<Rightarrow> headers" where
  "setValueByHeader h v [] = [(h, v)]"
| "setValueByHeader h v ((k, w) # hs) =
     (if strcaseeq h k then (k, v) # hs else (k, w) # setValueByHeader h v hs)"

fun setCookie :: "bytes \<Rightarrow> headers \<Rightarrow> headers" where
  "setCookie c [] = [(''Set-Cookie'', c)]"
| "setCookie c ((k, w) # hs) =
     (if strcaseeq ''Set-Cookie'' k then (k, w @ '';'' @ c) # hs else (k, w) # setCookie c hs)"

fun appendHeader :: "bytes \<Rightarrow> bytes \<Rightarrow> headers \<Rightarrow> headers" where
  "appendHeader h v [] = [(h, v)]"
| "appendHeader h v ((k, w) # hs) =
     (if strcaseeq h k then (k, (if w = [] then [] else w @ '', '') @ v) # hs else (k, w) # appendHeader h v hs)"

text \<open>\<open>removeHeader\<close>: after an erase the iterator stands at the next header, and the loop
  advances it past that one without looking at it.\<close>

fun removeHeader :: "bytes \<Rightarrow> headers \<Rightarrow> headers" where
  "removeHeader h [] = []"
| "removeHeader h [(k, w)] = (if strcaseeq h k then [] else [(k, w)])"
| "removeHeader h ((k, w) # x # hs) =
     (if strcaseeq h k then x # removeHeader h hs else (k, w) # removeHeader h (x # hs))"

definition VERSION :: bytes where "VERSION = ''1.0.0''"

definition markTrade :: "headers \<Rightarrow> headers" where
  "markTrade hs =
     (let val = getValueByHeader ''Via'' hs;
          val1 = (if val \<noteq> [] then val @ '', '' else val)
      in setValueByHeader ''Via'' (val1 @ ''tigerso/'' @ VERSION) hs)"

definition getContentLength :: "headers \<Rightarrow> int" where
  "getContentLength hs =
     (let s = getValueByHeader ''content-length'' hs in if s = [] then -1 else atoi s)"

text \<open>\<open>setContentLength\<close> prints an \<open>unsigned int\<close> into sixteen characters, which always fit.\<close>

definition setContentLength :: "32 word \<Rightarrow> headers \<Rightarrow> headers" where
  "setContentLength n hs = setValueByHeader ''Content-Length'' (take 15 (dec_str (unat n))) hs"

definition setContentType :: "bytes \<Rightarrow> headers \<Rightarrow> headers" where
  "setContentType t hs = setValueByHeader ''Content-Type'' t hs"

definition setKeepAlive :: "bool \<Rightarrow> headers \<Rightarrow> headers" where
  "setKeepAlive on hs = setValueByHeader ''Connection'' (if on then ''keep-alive'' else ''close'') hs"

definition isKeepAlive :: "bytes \<Rightarrow> headers \<Rightarrow> bool" where
  "isKeepAlive version hs =
     (let v = getValueByHeader ''connection'' hs
      in if v = [] then strcaseeq version ''HTTP/1.1'' else strcaseeq v ''keep-alive'')"

definition isChunked :: "headers \<Rightarrow> bool" where
  "isChunked hs =
     (let v = getValueByHeader ''transfer-encoding'' hs in v \<noteq> [] \<and> strcaseeq v ''chunked'')"

lemma set_keys:
  "ci_keys (setValueByHeader h v hs) =
     (if ci_find h hs = None then ci_keys hs @ [map tolower (c_str h)] else ci_keys hs)"
  by (induction hs) (auto split: if_splits)

lemma set_distinct: "ci_distinct hs \<Longrightarrow> ci_distinct (setValueByHeader h v hs)"
  by (simp add: ci_distinct_def set_keys ci_find_None)

lemma find_set: "ci_find k (setValueByHeader h v hs) = (if strcaseeq h k then Some v else ci_find k hs)"
  by (induction hs) (auto simp: strcaseeq_def)

lemma remove_none: "ci_find h hs = None \<Longrightarrow> removeHeader h hs = hs"
  by (induction h hs rule: removeHeader.induct) (auto split: if_splits)

text \<open>On distinct names the skipped header does not matter.\<close>

lemma remove_filter:
  "ci_distinct hs \<Longrightarrow> removeHeader h hs = filter (\<lambda>x. \<not> strcaseeq h (fst x)) hs"
proof (induction h hs rule: removeHeader.induct)
  case (3 h k w x hs)
  show ?case
  proof (cases "strcaseeq h k")
    case True
    then have n: "map tolower (c_str h) \<notin> set (ci_keys (x # hs))"
      using 3(3) by (simp add: ci_distinct_def strcaseeq_def)
    then have "ci_find h hs = None" by (simp add: ci_find_None)
    moreover have "filter (\<lambda>x. \<not> strcaseeq h (fst x)) hs = hs"
      using n by (auto simp: filter_id_conv strcaseeq_def ci_keys_def)
    ultimately show ?thesis using True n by (auto simp: remove_none strcaseeq_def)
  next
    case False
    then show ?thesis using 3(2) 3(3) by (simp add: ci_distinct_def)
  qed
qed auto

lemma remove_distinct: "ci_distinct hs \<Longrightarrow> ci_distinct (removeHeader h hs)"
  by (simp add: remove_filter) (simp add: ci_distinct_def ci_keys_def distinct_map_filter)

lemma find_filter: "ci_find k (filter (\<lambda>x. \<not> strcaseeq h (fst x)) hs) = (if strcaseeq h k then None else ci_find k hs)"
  by (induction hs) (auto simp: strcaseeq_def)

lemma find_remove:
  "ci_distinct hs \<Longrightarrow> ci_find k (removeHeader h hs) = (if strcaseeq h k then None else ci_find k hs)"
  by (simp add: remove_filter find_filter)

interpretation headers_map: ci_map ci_distinct ci_find setValueByHeader removeHeader
  by unfold_locales (simp_all add: set_distinct remove_distinct find_set find_remove)

text \<open>
  C26. The headers of a message are a map from names, up to case, to values: from headers with
  distinct names, after any sequence of \<open>setValueByHeader\<close> and \<open>removeHeader\<close> the names are
  still distinct and the value of every name is the one last set and not removed, the empty
  string when there is none. With a repeated name, \<open>removeHeader\<close> skips the header after the
  one it removes, and leaves a second header of that name.
\<close>

theorem headers_map_refines:
  assumes "ci_distinct hs"
  shows "ci_distinct (run_map setValueByHeader removeHeader ops hs) \<and>
         getValueByHeader k (run_map setValueByHeader removeHeader ops hs) =
           (case last_value k ops (ci_find k hs) of None \<Rightarrow> [] | Some v \<Rightarrow> v) \<and>
         (\<forall>n v w. removeHeader n [(n, v), (n, w)] = [(n, w)])"
  using headers_map.get_run [OF assms] headers_map.run_ok [OF assms] by (simp add: getValueByHeader_def)

theorem headers_map_refines_witness:
  "getValueByHeader ''HOST'' (run_map setValueByHeader removeHeader
      [MPut ''Host'' ''a'', MPut ''host'' ''b'', MDel ''Via'', MPut ''hosT'' ''c''] [(''Via'', ''x'')]) = ''c''"
proof -
  have "last_value ''HOST'' [MPut ''Host'' ''a'', MPut ''host'' ''b'', MDel ''Via'', MPut ''hosT'' ''c'']
      (ci_find ''HOST'' [(''Via'', ''x'')]) = Some ''c''"
    by code_simp
  then show ?thesis
    using headers_map_refines [of "[(''Via'', ''x'')]" "[MPut ''Host'' ''a'', MPut ''host'' ''b'', MDel ''Via'', MPut ''hosT'' ''c'']" "''HOST''"]
    by (simp add: ci_distinct_def del: run_map.simps last_value.simps)
qed

section \<open>Inspection callbacks\<close>

text \<open>\<open>HttpInSpection\<close>: for each role a \<open>std::map\<close> from header names to callbacks, ordered by the
  exact name but searched from its start with \<open>strcasecmp\<close>. A callback is a number, or null.\<close>

type_synonym inspections = "(bytes \<times> nat option) list"

abbreviation HTTP_INSPECTION_CONTINUE :: int where "HTTP_INSPECTION_CONTINUE \<equiv> 0"

fun map_assign :: "bytes \<Rightarrow> nat option \<Rightarrow> inspections \<Rightarrow> inspections" where
  "map_assign k v [] = [(k, v)]"
| "map_assign k v ((k', v') # xs) =
     (if k = k' then (k, v) # xs else if k < k' then (k, v) # (k', v') # xs else (k', v') # map_assign k v xs)"

fun find_key :: "bytes \<Rightarrow> inspections \<Rightarrow> bytes option" where
  "find_key h [] = None"
| "find_key h ((k, v) # xs) = (if strcaseeq h k then Some k else find_key h xs)"

definition insp_Register :: "bytes \<Rightarrow> nat option \<Rightarrow> inspections \<Rightarrow> inspections" where
  "insp_Register h cb xs = (case find_key h xs of Some k \<Rightarrow> map_assign k cb xs | None \<Rightarrow> map_assign h cb xs)"

fun insp_Unregister :: "bytes \<Rightarrow> inspections \<Rightarrow> inspections" where
  "insp_Unregister h [] = []"
| "insp_Unregister h ((k, v) # xs) = (if strcaseeq h k then xs else (k, v) # insp_Unregister h xs)"

text \<open>\<open>Inspect\<close>; \<open>run\<close> calls a callback on the message, which is \<open>None\<close> when it is gone.\<close>

definition insp_Inspect :: "(nat \<Rightarrow> 'm \<Rightarrow> int) \<Rightarrow> bytes \<Rightarrow> 'm option \<Rightarrow> inspections \<Rightarrow> int" where
  "insp_Inspect run h msg xs =
     (case msg of
        None \<Rightarrow> HTTP_INSPECTION_CONTINUE
      | Some m \<Rightarrow>
          (case ci_find h xs of
             Some (Some f) \<Rightarrow> run f m
           | _ \<Rightarrow> HTTP_INSPECTION_CONTINUE))"

definition insp_ok :: "inspections \<Rightarrow> bool" where
  "insp_ok xs \<longleftrightarrow> sorted (map fst xs) \<and> ci_distinct xs"

lemma ci_distinct_fst: "ci_distinct xs \<Longrightarrow> distinct (map fst xs)"
  by (induction xs) (auto simp: ci_distinct_def ci_keys_def image_iff)

lemma map_assign_old:
  "sorted (map fst xs) \<Longrightarrow> distinct (map fst xs) \<Longrightarrow> k \<in> fst ` set xs \<Longrightarrow>
   map_assign k v xs = map (\<lambda>x. if fst x = k then (k, v) else x) xs"
proof (induction xs)
  case (Cons x xs)
  obtain a b where x: "x = (a, b)" by (cases x)
  show ?case
  proof (cases "k = a")
    case True
    then have "map (\<lambda>x. if fst x = k then (k, v) else x) xs = xs"
      using Cons.prems x by (intro map_idI) (auto simp: image_iff)
    then show ?thesis using True x by simp
  next
    case False
    then have "k \<in> fst ` set xs" "a \<le> k" using Cons.prems x by auto
    then show ?thesis using Cons x False by auto
  qed
qed simp

lemma map_assign_new:
  "k \<notin> fst ` set xs \<Longrightarrow> \<exists>ys zs. xs = ys @ zs \<and> map_assign k v xs = ys @ (k, v) # zs"
proof (induction xs)
  case (Cons x xs)
  obtain a b where x: "x = (a, b)" by (cases x)
  show ?case
  proof (cases "k < a")
    case True
    then show ?thesis using x by (intro exI [of _ "[]"] exI [of _ "x # xs"]) auto
  next
    case False
    obtain ys zs where "xs = ys @ zs" "map_assign k v xs = ys @ (k, v) # zs"
      using Cons by auto
    then show ?thesis
      using False Cons.prems x by (intro exI [of _ "x # ys"] exI [of _ zs]) auto
  qed
qed simp

lemma map_assign_set: "p \<in> set (map_assign k v xs) \<Longrightarrow> p = (k, v) \<or> p \<in> set xs"
  by (induction xs) (auto split: if_splits)

lemma map_assign_sorted: "sorted (map fst xs) \<Longrightarrow> sorted (map fst (map_assign k v xs))"
proof (induction xs)
  case (Cons x xs)
  obtain a b where x: "x = (a, b)" by (cases x)
  have "a \<le> y" if "y \<in> fst ` set (map_assign k v xs)" "a \<le> k" for y
    using that Cons.prems x by (auto dest: map_assign_set)
  then show ?case using Cons x by auto
qed simp

lemma find_key_Some: "find_key h xs = Some k \<Longrightarrow> strcaseeq h k \<and> k \<in> fst ` set xs"
  by (induction xs) (auto split: if_splits)

lemma find_key_None: "find_key h xs = None \<longleftrightarrow> ci_find h xs = None"
  by (induction xs) (auto split: if_splits)

lemma ci_find_append: "ci_find k (xs @ ys) = (case ci_find k xs of None \<Rightarrow> ci_find k ys | Some v \<Rightarrow> Some v)"
  by (induction xs) auto

lemma ci_find_update:
  "ci_distinct xs \<Longrightarrow> k \<in> fst ` set xs \<Longrightarrow>
   ci_find j (map (\<lambda>x. if fst x = k then (k, v) else x) xs) = (if strcaseeq j k then Some v else ci_find j xs)"
proof (induction xs)
  case (Cons x xs)
  obtain a b where x: "x = (a, b)" by (cases x)
  show ?case
  proof (cases "a = k")
    case True
    then have "map (\<lambda>x. if fst x = k then (k, v) else x) xs = xs"
      using ci_distinct_fst [OF Cons.prems(1)] x by (intro map_idI) (auto simp: image_iff)
    then show ?thesis using True x by simp
  next
    case False
    then have k: "k \<in> fst ` set xs" using Cons.prems(2) x by auto
    then have "map tolower (c_str k) \<in> set (ci_keys xs)" by (force simp: ci_keys_def)
    then have "\<not> strcaseeq k a" using Cons.prems(1) x by (auto simp: ci_distinct_def strcaseeq_def)
    then show ?thesis
      using Cons.IH [OF _ k] Cons.prems(1) x False by (auto simp: ci_distinct_def strcaseeq_def)
  qed
qed simp

lemma Register_spec:
  assumes "insp_ok xs"
  shows "insp_ok (insp_Register h v xs) \<and> ci_find j (insp_Register h v xs) = (if strcaseeq h j then Some v else ci_find j xs)"
proof (cases "find_key h xs")
  case (Some k)
  note k = find_key_Some [OF Some]
  have e: "insp_Register h v xs = map (\<lambda>x. if fst x = k then (k, v) else x) xs"
    using assms Some map_assign_old k ci_distinct_fst by (auto simp: insp_Register_def insp_ok_def)
  have "ci_keys (map (\<lambda>x. if fst x = k then (k, v) else x) xs) = ci_keys xs"
    by (simp add: ci_keys_def)
  moreover have "sorted (map fst (insp_Register h v xs))"
    using assms Some map_assign_sorted by (auto simp: insp_Register_def insp_ok_def)
  ultimately show ?thesis
    using assms e k ci_find_update [of xs k j v] by (auto simp: insp_ok_def ci_distinct_def strcaseeq_def)
next
  case None
  then have n: "ci_find h xs = None" by (simp add: find_key_None)
  then have "h \<notin> fst ` set xs" by (auto simp: ci_find_None ci_keys_def)
  then obtain ys zs where y: "xs = ys @ zs" "map_assign h v xs = ys @ (h, v) # zs"
    using map_assign_new by blast
  moreover have "sorted (map fst (map_assign h v xs))"
    using assms map_assign_sorted by (simp add: insp_ok_def)
  moreover have "ci_find j (ys @ (h, v) # zs) = (if strcaseeq h j then Some v else ci_find j xs)"
  proof (cases "strcaseeq h j")
    case True
    then have "ci_find j ys = None"
      using n y(1) ci_find_cong [OF True, of ys] by (auto simp: ci_find_append split: option.splits)
    then show ?thesis using True by (simp add: ci_find_append strcaseeq_sym)
  next
    case False
    then show ?thesis using y(1) by (auto simp: ci_find_append strcaseeq_def split: option.splits)
  qed
  ultimately show ?thesis
    using assms n None by (auto simp: insp_ok_def insp_Register_def ci_distinct_def ci_find_None)
qed

lemma Unregister_filter:
  "ci_distinct xs \<Longrightarrow> insp_Unregister h xs = filter (\<lambda>x. \<not> strcaseeq h (fst x)) xs"
proof (induction xs)
  case (Cons x xs)
  obtain a b where x: "x = (a, b)" by (cases x)
  have "filter (\<lambda>x. \<not> strcaseeq h (fst x)) xs = xs" if "strcaseeq h a"
    using that Cons.prems x by (auto simp: filter_id_conv ci_distinct_def ci_keys_def strcaseeq_def)
  then show ?case using Cons x by (auto simp: ci_distinct_def)
qed simp

lemma Unregister_spec:
  assumes "insp_ok xs"
  shows "insp_ok (insp_Unregister h xs) \<and> ci_find j (insp_Unregister h xs) = (if strcaseeq h j then None else ci_find j xs)"
proof -
  have "insp_Unregister h xs = filter (\<lambda>x. \<not> strcaseeq h (fst x)) xs"
    using assms Unregister_filter by (simp add: insp_ok_def)
  then show ?thesis
    using assms by (simp add: find_filter insp_ok_def sorted_filter ci_distinct_def ci_keys_def distinct_map_filter)
qed

interpretation inspection_map: ci_map insp_ok ci_find insp_Register insp_Unregister
  by unfold_locales (use Register_spec Unregister_spec in auto)

text \<open>
  Inspection: from no registrations, after any sequence of \<open>Register\<close> and \<open>Unregister\<close>, whatever
  case the names are written in, \<open>Inspect\<close> calls the callback last registered for the header on
  the message, and lets the message pass when there is none, it is null or was unregistered, or
  the message is gone.
\<close>

theorem inspection_refines:
  "insp_Inspect run h msg (run_map insp_Register insp_Unregister ops []) =
     (case (msg, last_value h ops None) of (Some m, Some (Some f)) \<Rightarrow> run f m | _ \<Rightarrow> HTTP_INSPECTION_CONTINUE)"
  using inspection_map.get_run [of "[]" h ops]
  by (simp add: insp_Inspect_def insp_ok_def ci_distinct_def split: option.splits)

end
