(* ===== verification/HttpParse.thy ===== *)
theory HttpParse
  imports HttpMsg
begin

text \<open>
  Requests and responses as a whole, and \<open>http/HttpParser.cpp\<close>: the callbacks that a parser
  library (\<open>http_parser\<close>, not part of the program) calls while it reads a message, and the
  result of one call of \<open>parse\<close>. What the library does with a buffer is the list of the
  callbacks it makes and the number of bytes it has consumed. A callback registered by the
  user of a message is a number, and \<open>hook\<close> says what it does to the message.
\<close>

abbreviation HTTP_ROLE_REQUEST :: int where "HTTP_ROLE_REQUEST \<equiv> 0"
abbreviation HTTP_ROLE_RESPONSE :: int where "HTTP_ROLE_RESPONSE \<equiv> 1"
abbreviation HP_PARSE_ERROR :: int where "HP_PARSE_ERROR \<equiv> -1"
abbreviation HP_PARSE_COMPLETE :: int where "HP_PARSE_COMPLETE \<equiv> 0"
abbreviation HP_PARSE_NEED_MOREDATA :: int where "HP_PARSE_NEED_MOREDATA \<equiv> 1"
abbreviation HP_PARSE_PIPELINE :: int where "HP_PARSE_PIPELINE \<equiv> 2"
abbreviation FILE_BIG_CONTENT :: int where "FILE_BIG_CONTENT \<equiv> 262144"

datatype PARSE_STATE =
    PARSE_UNINIT | PARSE_ERR | PARSE_INIT | PARSE_HEADER_NEED_MORE_DATA | PARSE_HEADER_COMPLETE
  | PARSE_BODY_NEED_MORE_DATA | PARSE_COMPLETE

fun state_num :: "PARSE_STATE \<Rightarrow> int" where
  "state_num PARSE_UNINIT = -1"
| "state_num PARSE_ERR = 0"
| "state_num PARSE_INIT = 1"
| "state_num PARSE_HEADER_NEED_MORE_DATA = 2"
| "state_num PARSE_HEADER_COMPLETE = 3"
| "state_num PARSE_BODY_NEED_MORE_DATA = 4"
| "state_num PARSE_COMPLETE = 5"

text \<open>The states are compared by their numbers.\<close>

lemma state_num_inj: "state_num a = state_num b \<Longrightarrow> a = b"
  by (cases a; cases b) simp_all

instantiation PARSE_STATE :: linorder
begin

definition less_eq_PARSE_STATE :: "PARSE_STATE \<Rightarrow> PARSE_STATE \<Rightarrow> bool" where
  "less_eq_PARSE_STATE a b \<longleftrightarrow> state_num a \<le> state_num b"

definition less_PARSE_STATE :: "PARSE_STATE \<Rightarrow> PARSE_STATE \<Rightarrow> bool" where
  "less_PARSE_STATE a b \<longleftrightarrow> state_num a < state_num b"

instance
  by standard (auto simp: less_eq_PARSE_STATE_def less_PARSE_STATE_def intro: state_num_inj)

end

record HttpMessage =
  m_role :: int
  m_version :: bytes
  m_headers :: headers
  m_headstr :: bytes
  m_body :: HttpBodyFile
  m_bodyname :: bytes
  m_field :: bytes
  p_state :: PARSE_STATE
  p_parsedn :: nat
  p_nobody :: bool
  p_tunnel :: bool
  p_headerHook :: "nat option"
  p_bodyHook :: "nat option"
  m_method :: bytes
  m_url :: bytes
  m_host :: bytes
  m_port :: bytes
  m_status :: int
  m_desc :: bytes

definition is_request :: "HttpMessage \<Rightarrow> bool" where
  "is_request m \<longleftrightarrow> m_role m = HTTP_ROLE_REQUEST"

section \<open>Requests and responses\<close>

text \<open>A new message; the status code of a new response is not initialised.\<close>

definition new_message :: "int \<Rightarrow> HttpBodyFile \<Rightarrow> int \<Rightarrow> HttpMessage" where
  "new_message role body garbage =
     \<lparr>m_role = role, m_version = ''HTTP/1.1'', m_headers = [], m_headstr = [], m_body = body, m_bodyname = [],
      m_field = [], p_state = PARSE_UNINIT, p_parsedn = 0, p_nobody = False, p_tunnel = False,
      p_headerHook = None, p_bodyHook = None, m_method = [], m_url = [], m_host = [], m_port = [],
      m_status = garbage, m_desc = []\<rparr>"

definition RESPONSE_STATUS_MAP :: "(int \<times> bytes) list" where
  "RESPONSE_STATUS_MAP =
    [
     (100, ''Continue''), (101, ''Switching Protocols''), (200, ''OK''),
     (201, ''Created''), (202, ''Accepted''), (203, ''Non-Authoritative Information''),
     (204, ''No Content''), (205, ''Reset Content''), (206, ''Partial Content''),
     (207, ''Multi-Status''), (300, ''Multiple Choices''), (301, ''Moved Permanently''),
     (302, ''Found''), (303, ''See Other''), (304, ''Not Modified''),
     (305, ''Use Proxy''), (306, ''Switch Proxy''), (307, ''Temporary Redirect''),
     (400, ''Bad Request''), (401, ''Unauthorized''), (402, ''Payment Required''),
     (403, ''Forbidden''), (404, ''Not Found ''), (405, ''Method Not Allowed''),
     (406, ''Not Acceptable''), (407, ''Proxy Authentication Required''), (408, ''Request Timeout''),
     (409, ''Conflict''), (410, ''Gone''), (411, ''Length Required''),
     (412, ''Precondition Failed''), (413, ''Request Entity Too Large''), (414, ''Request-URI Too Long''),
     (415, ''Unsupported Media Type''), (416, ''Requested Range Not Satisfiable''), (417, ''Expectation Failed''),
     (422, ''Unprocessable Entity''), (423, ''Locked''), (424, ''Failed Dependency''),
     (425, ''Unorder Collection''), (426, ''Upgrade Required''), (428, ''Precondition Required''),
     (429, ''Too Many Requests''), (431, ''Request Header Fields Too Large''), (449, ''Retry With''),
     (451, ''Unavailable For Legal Reasons''), (500, ''Internal Server Error''), (501, ''Not Implemented''),
     (502, ''Bad Gateway''), (503, ''Service Unavailable''), (504, ''Gateway Timeout''),
     (505, ''HTTP Version Not Supported''), (506, ''Variant Also Negotiates''), (507, ''Insufficient Storage''),
     (509, ''Bandwidth Limit Exceeded''), (510, ''Not Extend''), (511, ''Network Authentication Required''),
     (600, ''Unparseable Response Headers'')
    ]"

definition isVaildResponseStatusCode :: "int \<Rightarrow> bool" where
  "isVaildResponseStatusCode code \<longleftrightarrow> map_of RESPONSE_STATUS_MAP code \<noteq> None"

definition getResponseStatusDesc :: "int \<Rightarrow> bytes" where
  "getResponseStatusDesc code = (case map_of RESPONSE_STATUS_MAP code of None \<Rightarrow> [] | Some d \<Rightarrow> d)"

text \<open>The setters are virtual: those of the other role do nothing.\<close>

definition setMethod :: "bytes \<Rightarrow> HttpMessage \<Rightarrow> HttpMessage" where
  "setMethod s m = (if is_request m then m\<lparr>m_method := s\<rparr> else m)"

definition setUrl :: "bytes \<Rightarrow> HttpMessage \<Rightarrow> HttpMessage" where
  "setUrl s m = (if is_request m then m\<lparr>m_url := s\<rparr> else m)"

definition setDesc :: "bytes \<Rightarrow> HttpMessage \<Rightarrow> HttpMessage" where
  "setDesc s m = (if is_request m then m else m\<lparr>m_desc := s\<rparr>)"

definition setStatuscode :: "int \<Rightarrow> HttpMessage \<Rightarrow> HttpMessage" where
  "setStatuscode code m =
     (if is_request m then m
      else (let d = getResponseStatusDesc code; m1 = m\<lparr>m_status := code\<rparr>
            in if d \<noteq> [] then setDesc d m1 else m1))"

definition set_header :: "bytes \<Rightarrow> bytes \<Rightarrow> HttpMessage \<Rightarrow> HttpMessage" where
  "set_header h v m = m\<lparr>m_headers := setValueByHeader h v (m_headers m)\<rparr>"

definition header_of :: "bytes \<Rightarrow> HttpMessage \<Rightarrow> bytes" where
  "header_of h m = getValueByHeader h (m_headers m)"

definition setChunkedTransfer :: "bool \<Rightarrow> HttpMessage \<Rightarrow> HttpMessage" where
  "setChunkedTransfer on m =
     (if on then
        m\<lparr>m_headers := setValueByHeader ''Transfer-Encoding'' ''chunked'' (removeHeader ''Content-Length'' (m_headers m)),
          m_body := (m_body m)\<lparr>b_chunked := True\<rparr>\<rparr>
      else m\<lparr>m_headers := removeHeader ''Transfer-Encoding'' (m_headers m)\<rparr>)"

definition int_str :: "int \<Rightarrow> bytes" where
  "int_str n = (if n < 0 then ''-'' @ dec_str (nat (- n)) else dec_str (nat n))"

definition header_line :: "bytes \<times> bytes \<Rightarrow> bytes" where
  "header_line x = fst x @ '': '' @ snd x @ CRLF"

definition request_header :: "HttpMessage \<Rightarrow> bytes" where
  "request_header m =
     (if m_method m = [] \<or> m_url m = [] then []
      else m_method m @ '' '' @ m_url m @ '' '' @ m_version m @ CRLF @
           concat (map header_line (m_headers m)) @ CRLF)"

definition response_header :: "HttpMessage \<Rightarrow> bytes" where
  "response_header m =
     (if m_status m = 0 \<or> m_desc m = [] then []
      else m_version m @ '' '' @ int_str (m_status m) @ '' '' @ m_desc m @ CRLF @
           concat (map header_line (m_headers m)) @ CRLF)"

definition getHeader :: "HttpMessage \<Rightarrow> bytes \<times> HttpMessage" where
  "getHeader m =
     (let s = (if is_request m then request_header m else response_header m) in (s, m\<lparr>m_headstr := s\<rparr>))"

lemmas getHeader_defs = getHeader_def request_header_def response_header_def

definition parser_reset :: "HttpMessage \<Rightarrow> HttpMessage" where
  "parser_reset m =
     m\<lparr>p_parsedn := 0, p_state := PARSE_UNINIT, p_nobody := False, p_tunnel := False,
       p_headerHook := None, p_bodyHook := None\<rparr>"

definition msg_clear :: "HttpMessage \<Rightarrow> kern \<Rightarrow> HttpMessage \<times> kern" where
  "msg_clear m k =
     (let (b, k1) = body_reset (m_body m) k;
          m1 = (if is_request m then m\<lparr>m_method := [], m_url := [], m_port := [], m_host := []\<rparr>
                else m\<lparr>m_status := 0, m_desc := []\<rparr>)
      in (parser_reset (m1\<lparr>m_version := ''HTTP/1.1'', m_headers := [], m_headstr := [], m_body := b, m_bodyname := []\<rparr>), k1))"

definition setBody :: "nat \<Rightarrow> append_res list list \<Rightarrow> append_res \<Rightarrow> bytes \<Rightarrow> HttpMessage \<Rightarrow> kern \<Rightarrow> (HttpMessage \<times> kern) option" where
  "setBody fuel outss res s m k =
     do { (_, b, k1) \<leftarrow> body_writeIn fuel outss res s (m_body m) k; Some (m\<lparr>m_body := b\<rparr>, k1) }"

text \<open>\<open>setBodyFileName\<close>; \<open>mime\<close> is the file type detector, and \<open>garbage\<close> the uninitialised file
  object that the temporary \<open>File(fn)\<close> resets, closing whatever descriptor it holds.\<close>

definition setBodyFileName :: "(bytes \<Rightarrow> bytes option) \<Rightarrow> File \<Rightarrow> bytes \<Rightarrow> HttpMessage \<Rightarrow> kern \<Rightarrow> (int \<times> HttpMessage \<times> kern) option" where
  "setBodyFileName mime garbage fn m k =
     (if fn = [] then Some (-1, m, k)
      else
       do { (b, k1) \<leftarrow> setFile (Some fn) (m_body m) k;
            let m1 = m\<lparr>m_body := b, m_bodyname := fn\<rparr>;
            if File_exist (c_str fn) k1 then
              do { (f, k2) \<leftarrow> File_new fn garbage k1;
                   let m2 = m1\<lparr>m_headers := setContentLength (word_of_int (getFileSize f k2)) (m_headers m1)\<rparr>;
                   (f', k3) \<leftarrow> File_new fn garbage k2;
                   Some (0, (if testExist f' k3
                             then (case mime fn of
                                     None \<Rightarrow> m2
                                   | Some t \<Rightarrow> m2\<lparr>m_headers := setContentType t (m_headers m2)\<rparr>)
                             else m2), k3) }
            else Some (0, m1, k1) })"

subsection \<open>Prepared responses\<close>

definition defaultResponse403Body :: bytes where
  "defaultResponse403Body =
     ''<html><head><title>TIGERSO NOTIFICATION</title></head><body><p>You Are Forbidden To Access This Website!</p></body></html>''"

definition defaultResponse503Body :: bytes where
  "defaultResponse503Body =
     ''<html><head><title>TIGERSO NOTIFICATION</title></head><body><p> Service Unavailable!</p></body></html>''"

definition defaultResponse504Body :: bytes where
  "defaultResponse504Body =
     ''<html><head><title>TIGERSO NOTIFICATION</title></head><body><p>Gateway Timeout! Please Inspect Your Gateway.</p></body></html>''"

definition defaultResponseDNSErrorBody :: bytes where
  "defaultResponseDNSErrorBody =
     ''<html><head><title>TIGERSO NOTIFICATION</title></head><body><p>Gateway Timeout! Please Inspect Your Gateway.</p></body></html>''"

definition prepare_head :: "int \<Rightarrow> bytes \<Rightarrow> HttpMessage \<Rightarrow> HttpMessage" where
  "prepare_head code conn m =
     (let m1 = setDesc (getResponseStatusDesc code) (setStatuscode code m);
          m2 = set_header ''Connection'' conn (m1\<lparr>m_version := ''HTTP/1.1''\<rparr>)
      in m2\<lparr>m_headers := markTrade (m_headers m2)\<rparr>)"

definition prepare200Response :: "HttpMessage \<Rightarrow> HttpMessage" where
  "prepare200Response m = prepare_head 200 ''keep-alive'' m"

definition prepare_error :: "int \<Rightarrow> bytes \<Rightarrow> nat \<Rightarrow> append_res list list \<Rightarrow> append_res \<Rightarrow> HttpMessage \<Rightarrow> kern \<Rightarrow> (HttpMessage \<times> kern) option" where
  "prepare_error code text fuel outss res m k =
     setBody fuel outss res text
       (set_header ''Content-length'' (dec_str (length text)) (prepare_head code ''close'' m)) k"

definition prepare403Response :: "nat \<Rightarrow> append_res list list \<Rightarrow> append_res \<Rightarrow> HttpMessage \<Rightarrow> kern \<Rightarrow> (HttpMessage \<times> kern) option" where
  "prepare403Response = prepare_error 403 defaultResponse403Body"

definition prepare400Response :: "nat \<Rightarrow> append_res list list \<Rightarrow> append_res \<Rightarrow> HttpMessage \<Rightarrow> kern \<Rightarrow> (HttpMessage \<times> kern) option" where
  "prepare400Response = prepare403Response"

definition prepare503Response :: "nat \<Rightarrow> append_res list list \<Rightarrow> append_res \<Rightarrow> HttpMessage \<Rightarrow> kern \<Rightarrow> (HttpMessage \<times> kern) option" where
  "prepare503Response = prepare_error 503 defaultResponse503Body"

definition prepare504Response :: "nat \<Rightarrow> append_res list list \<Rightarrow> append_res \<Rightarrow> HttpMessage \<Rightarrow> kern \<Rightarrow> (HttpMessage \<times> kern) option" where
  "prepare504Response = prepare_error 504 defaultResponse504Body"

definition prepareDNSErrorResponse :: "nat \<Rightarrow> append_res list list \<Rightarrow> append_res \<Rightarrow> HttpMessage \<Rightarrow> kern \<Rightarrow> (HttpMessage \<times> kern) option" where
  "prepareDNSErrorResponse = prepare_error 503 defaultResponseDNSErrorBody"

section \<open>The host and the port of a request\<close>

text \<open>\<open>find_first_of\<close> of one character; \<open>None\<close> stands for an \<open>out_of_range\<close> exception. The prefixes
  skipped are one longer than \<open>http://\<close> and \<open>https://\<close>, and are skipped again in the shortened
  string. The test for a missing path comes after \<open>tp\<close> was replaced, and never succeeds.\<close>

definition url_host :: "bytes \<Rightarrow> bytes option" where
  "url_host url0 =
     (let beg = (if find_str ''http://'' url0 = Some 0 then 8 else if find_str ''https://'' url0 = Some 0 then 9 else 0)
      in do { url \<leftarrow> substr_from beg url0;
              let tp = find_char CHR ''/'' url;
              rest \<leftarrow> substr beg (case tp of None \<Rightarrow> length url | Some p \<Rightarrow> p) url;
              case find_char CHR '':'' rest of
                None \<Rightarrow> substr_from beg url
              | Some p \<Rightarrow> substr beg p url })"

definition getHost :: "HttpMessage \<Rightarrow> (bytes \<times> HttpMessage) option" where
  "getHost m =
     (if m_host m \<noteq> [] then Some (m_host m, m)
      else
       (let h = header_of ''host'' m;
            h1 = (case find_char CHR '':'' h of None \<Rightarrow> h | Some p \<Rightarrow> take p h)
        in do { host \<leftarrow> (if h1 = [] then url_host (m_url m) else Some h1);
                Some (host, m\<lparr>m_host := host\<rparr>) }))"

definition getHostPort :: "HttpMessage \<Rightarrow> bytes \<times> HttpMessage" where
  "getHostPort m =
     (if m_port m \<noteq> [] then (m_port m, m)
      else
       (let url = (case find_str ''http://'' (m_url m) of
                     Some p \<Rightarrow> drop (p + 7) (m_url m)
                   | None \<Rightarrow> (case find_str ''https://'' (m_url m) of
                               Some p \<Rightarrow> drop (p + 8) (m_url m) | None \<Rightarrow> m_url m));
            in_url = (case find_char CHR ''/'' url of
                        None \<Rightarrow> None
                      | Some p \<Rightarrow> (case find_char CHR '':'' (take p url) of
                                    None \<Rightarrow> None | Some l \<Rightarrow> Some (drop (l + 1) (take p url))));
            host = header_of ''host'' m;
            port = (case in_url of
                      Some q \<Rightarrow> q
                    | None \<Rightarrow> (case find_char CHR '':'' host of
                                Some p \<Rightarrow> drop (p + 1) host | None \<Rightarrow> ''80''))
        in (port, m\<lparr>m_port := port\<rparr>)))"

section \<open>The parser\<close>

datatype parse_event =
    MessageBegin | Url bytes | Status bytes | HeaderField bytes | HeaderValue bytes
  | HeadersComplete bytes int nat nat bool
  | BodyData bytes nat "append_res list list" append_res
  | MessageDone "append_res list"

text \<open>The arguments of \<open>HeadersComplete\<close> are the method, the status code, the two numbers of the
  version and whether the transfer is chunked, as the library found them.\<close>

definition labelTunnelBody :: "HttpMessage \<Rightarrow> HttpMessage" where
  "labelTunnelBody m = m\<lparr>p_tunnel := True\<rparr>"

definition call_hook :: "(nat \<Rightarrow> HttpMessage \<Rightarrow> HttpMessage) \<Rightarrow> nat option \<Rightarrow> HttpMessage \<Rightarrow> HttpMessage" where
  "call_hook hook f m = (case f of None \<Rightarrow> m | Some g \<Rightarrow> hook g m)"

text \<open>The end of \<open>on_headers_complete\<close>: what becomes of the body. The result 1 tells the library
  that there is none. The last test is true for every string: no string is equal to both
  \<open>text\<close> and \<open>image\<close>.\<close>

definition body_decision :: "bool \<Rightarrow> HttpMessage \<Rightarrow> int \<times> HttpMessage" where
  "body_decision chunked m =
     (let cntlen = header_of ''content-length'' m
      in if p_nobody m then (1, m)
         else if cntlen \<noteq> [] then
           (if atoi cntlen \<ge> FILE_BIG_CONTENT \<or> is_request m then (0, labelTunnelBody m) else (0, m))
         else
          (let ct = header_of ''content-type'' m;
               mt = header_of ''mime-type'' m;
               mime_type = (if ct \<noteq> [] then ct
                            else case find_char CHR ''/'' mt of
                                   None \<Rightarrow> mt
                                 | Some p \<Rightarrow> take (sz_sub p 1) mt)
           in if \<not> strcaseeq mime_type ''text'' \<or> \<not> strcaseeq mime_type ''image'' then (0, labelTunnelBody m)
              else if chunked then (0, m\<lparr>m_body := (m_body m)\<lparr>b_chunked := True\<rparr>\<rparr>)
              else (0, m)))"

definition on_headers_complete :: "(nat \<Rightarrow> HttpMessage \<Rightarrow> HttpMessage) \<Rightarrow> bytes \<Rightarrow> int \<Rightarrow> nat \<Rightarrow> nat \<Rightarrow> bool
    \<Rightarrow> HttpMessage \<Rightarrow> int \<times> HttpMessage" where
  "on_headers_complete hook meth code major minor chunked m0 =
     (let m1 = (if is_request m0 then setMethod meth m0 else setStatuscode code m0);
          m2 = (if \<not> (major > 0 \<and> minor > 0) then m1\<lparr>m_version := ''HTTP/1.0''\<rparr> else m1);
          m3 = snd (getHeader (m2\<lparr>p_state := PARSE_HEADER_COMPLETE\<rparr>))
      in body_decision chunked (call_hook hook (p_headerHook m3) m3))"

definition on_body :: "bytes \<Rightarrow> nat \<Rightarrow> append_res list list \<Rightarrow> append_res \<Rightarrow> HttpMessage \<Rightarrow> kern \<Rightarrow> (HttpMessage \<times> kern) option" where
  "on_body data fuel outss res m k =
     do { (m1, k1) \<leftarrow>
            (if \<not> p_tunnel m then
               (if body_size (m_body m) k \<ge> FILE_BIG_CONTENT then Some (labelTunnelBody m, k)
                else setBody fuel outss res data m k)
             else Some (m, k));
          Some (m1\<lparr>p_state := PARSE_BODY_NEED_MORE_DATA\<rparr>, k1) }"

definition on_message_complete :: "(nat \<Rightarrow> HttpMessage \<Rightarrow> HttpMessage) \<Rightarrow> append_res list \<Rightarrow> HttpMessage \<Rightarrow> kern
    \<Rightarrow> (HttpMessage \<times> kern) option" where
  "on_message_complete hook outs m k =
     do { (b, k1) \<leftarrow> closeFile outs (m_body m) k;
          let m1 = m\<lparr>m_body := b, p_state := PARSE_COMPLETE\<rparr>;
          Some (call_hook hook (p_bodyHook m1) m1, k1) }"

fun on_event :: "(nat \<Rightarrow> HttpMessage \<Rightarrow> HttpMessage) \<Rightarrow> parse_event \<Rightarrow> HttpMessage \<Rightarrow> kern \<Rightarrow> (HttpMessage \<times> kern) option" where
  "on_event hook MessageBegin m k = Some (m\<lparr>p_state := PARSE_HEADER_NEED_MORE_DATA\<rparr>, k)"
| "on_event hook (Url s) m k = Some (setUrl s m, k)"
| "on_event hook (Status s) m k = Some (setDesc s m, k)"
| "on_event hook (HeaderField s) m k = Some (m\<lparr>m_field := s\<rparr>, k)"
| "on_event hook (HeaderValue s) m k = Some (set_header (m_field m) s m, k)"
| "on_event hook (HeadersComplete meth code major minor ch) m k =
     Some (snd (on_headers_complete hook meth code major minor ch m), k)"
| "on_event hook (BodyData s fuel outss res) m k = on_body s fuel outss res m k"
| "on_event hook (MessageDone outs) m k = on_message_complete hook outs m k"

fun run_events :: "(nat \<Rightarrow> HttpMessage \<Rightarrow> HttpMessage) \<Rightarrow> parse_event list \<Rightarrow> HttpMessage \<Rightarrow> kern \<Rightarrow> (HttpMessage \<times> kern) option" where
  "run_events hook [] m k = Some (m, k)"
| "run_events hook (e # es) m k =
     (case on_event hook e m k of None \<Rightarrow> None | Some (m1, k1) \<Rightarrow> run_events hook es m1 k1)"

definition headerCompleted :: "HttpMessage \<Rightarrow> bool" where
  "headerCompleted m \<longleftrightarrow> p_state m \<ge> PARSE_HEADER_COMPLETE"

definition needMoreData :: "HttpMessage \<Rightarrow> bool" where
  "needMoreData m \<longleftrightarrow> p_state m \<noteq> PARSE_COMPLETE"

definition initParser :: "HttpMessage \<Rightarrow> int \<times> HttpMessage" where
  "initParser m =
     (if p_state m > PARSE_UNINIT then (0, m)
      else if m_role m = HTTP_ROLE_REQUEST \<or> m_role m = HTTP_ROLE_RESPONSE
      then (0, m\<lparr>p_state := PARSE_INIT\<rparr>)
      else (-1, m))"

definition parser_parse :: "(nat \<Rightarrow> HttpMessage \<Rightarrow> HttpMessage) \<Rightarrow> parse_event list \<Rightarrow> nat \<Rightarrow> HttpMessage \<Rightarrow> kern
    \<Rightarrow> (int \<times> HttpMessage \<times> kern) option" where
  "parser_parse hook events n m k =
     (let (r, m1) = initParser m
      in if r \<noteq> 0 then Some (-1, m1, k)
         else do { (m2, k2) \<leftarrow> run_events hook events m1 k; Some (int n, m2\<lparr>p_parsedn := n\<rparr>, k2) })"

text \<open>\<open>HttpMessage::parse\<close>; the second component is what is stored in \<open>*parsedn\<close>, if anything.\<close>

definition parse_result :: "bytes \<Rightarrow> int \<Rightarrow> HttpMessage \<Rightarrow> int" where
  "parse_result s ret m =
     (if ret \<noteq> int (length s) then
        (if \<not> needMoreData m \<and> m_role m = HTTP_ROLE_REQUEST then HP_PARSE_PIPELINE else HP_PARSE_ERROR)
      else if needMoreData m then HP_PARSE_NEED_MOREDATA
      else HP_PARSE_COMPLETE)"

definition msg_parse :: "(nat \<Rightarrow> HttpMessage \<Rightarrow> HttpMessage) \<Rightarrow> bytes option \<Rightarrow> parse_event list \<Rightarrow> nat \<Rightarrow> HttpMessage \<Rightarrow> kern
    \<Rightarrow> (int \<times> int option \<times> HttpMessage \<times> kern) option" where
  "msg_parse hook buf events n m k =
     (case buf of
        None \<Rightarrow> Some (HP_PARSE_ERROR, None, m, k)
      | Some s \<Rightarrow>
          if length s = 0 then Some (HP_PARSE_NEED_MOREDATA, None, m, k)
          else
            do { (ret, m1, k1) \<leftarrow> parser_parse hook events n m k;
                 Some (parse_result s ret m1, (if ret > 0 then Some ret else None), m1, k1) })"

section \<open>Printing and reading a request\<close>

text \<open>What the library finds in the head of a request, as its documentation has it: the lines end
  with CRLF, the start line is split at the blanks, a header at its first colon and blank, and
  the head ends with an empty line.\<close>

fun lines_of :: "bytes \<Rightarrow> bytes list" where
  "lines_of [] = [[]]"
| "lines_of (c # cs) =
     (if c = CHR 0x0D then [] # lines_of (drop 1 cs)
      else (case lines_of cs of [] \<Rightarrow> [[c]] | l # ls \<Rightarrow> (c # l) # ls))"

definition header_events :: "bytes \<Rightarrow> parse_event list" where
  "header_events l =
     (case find_str '': '' l of
        None \<Rightarrow> [HeaderField l, HeaderValue []]
      | Some p \<Rightarrow> [HeaderField (take p l), HeaderValue (drop (p + 2) l)])"

definition request_events :: "bytes \<Rightarrow> parse_event list" where
  "request_events text =
     (case lines_of text of
        [] \<Rightarrow> []
      | start # ls \<Rightarrow>
          (let meth = takeWhile (\<lambda>c. c \<noteq> CHR '' '') start;
               url = takeWhile (\<lambda>c. c \<noteq> CHR '' '') (drop (length meth + 1) start)
           in [MessageBegin, Url url] @ concat (map header_events (takeWhile (\<lambda>l. l \<noteq> []) ls)) @
              [HeadersComplete meth 0 1 1 False]))"

definition no_cr :: "bytes \<Rightarrow> bool" where
  "no_cr s \<longleftrightarrow> CHR 0x0D \<notin> set s"

lemma lines_of_step: "no_cr l \<Longrightarrow> lines_of (l @ CRLF @ s) = l # lines_of s"
  by (induction l) (auto simp: CRLF_def no_cr_def)

lemma lines_of_crlf: "lines_of (CRLF @ s) = [] # lines_of s"
  by (simp add: CRLF_def)

definition header_ok :: "bytes \<times> bytes \<Rightarrow> bool" where
  "header_ok x \<longleftrightarrow> no_cr (fst x) \<and> no_cr (snd x) \<and> CHR '':'' \<notin> set (fst x)"

lemma lines_of_headers:
  "\<forall>x \<in> set hs. header_ok x \<Longrightarrow>
   lines_of (concat (map header_line hs) @ s) = map (\<lambda>x. fst x @ '': '' @ snd x) hs @ lines_of s"
proof (induction hs)
  case (Cons x hs)
  have "no_cr (fst x @ '': '' @ snd x)" using Cons.prems by (auto simp: header_ok_def no_cr_def)
  from lines_of_step [OF this, of "concat (map header_line hs) @ s"]
  have "lines_of ((fst x @ '': '' @ snd x) @ CRLF @ concat (map header_line hs) @ s) =
      (fst x @ '': '' @ snd x) # map (\<lambda>x. fst x @ '': '' @ snd x) hs @ lines_of s"
    using Cons by simp
  moreover have "concat (map header_line (x # hs)) @ s =
      (fst x @ '': '' @ snd x) @ CRLF @ concat (map header_line hs) @ s"
    by (simp add: header_line_def [of x])
  ultimately show ?case by simp
qed simp

lemma find_colon: "CHR '':'' \<notin> set n \<Longrightarrow> find_str '': '' (n @ '': '' @ v) = Some (length n)"
  by (induction n) auto

lemma header_events_line: "header_ok x \<Longrightarrow> header_events (fst x @ '': '' @ snd x) = [HeaderField (fst x), HeaderValue (snd x)]"
  using find_colon [of "fst x" "snd x"] by (simp add: header_events_def header_ok_def)

lemma set_fresh: "ci_find h hs = None \<Longrightarrow> setValueByHeader h v hs = hs @ [(h, v)]"
  by (induction hs) (auto split: if_splits)

lemma run_events_append:
  "run_events hook (es @ fs) m k =
     (case run_events hook es m k of None \<Rightarrow> None | Some (m1, k1) \<Rightarrow> run_events hook fs m1 k1)"
  by (induction es arbitrary: m k) (auto split: option.splits)

lemma run_header_events:
  assumes "ci_distinct (m_headers m @ hs)"
  shows "\<exists>f. run_events hook (concat (map (\<lambda>x. [HeaderField (fst x), HeaderValue (snd x)]) hs)) m k =
               Some (m\<lparr>m_field := f, m_headers := m_headers m @ hs\<rparr>, k)"
  using assms
proof (induction hs arbitrary: m)
  case Nil
  then show ?case by (intro exI [of _ "m_field m"]) simp
next
  case (Cons x hs)
  obtain a b where x: "x = (a, b)" by (cases x)
  let ?m = "m\<lparr>m_field := a, m_headers := m_headers m @ [x]\<rparr>"
  have "ci_find a (m_headers m) = None"
    using Cons.prems x by (auto simp: ci_find_None ci_distinct_def)
  then have "run_events hook (concat (map (\<lambda>x. [HeaderField (fst x), HeaderValue (snd x)]) (x # hs))) m k =
      run_events hook (concat (map (\<lambda>x. [HeaderField (fst x), HeaderValue (snd x)]) hs)) ?m k"
    using x by (simp add: set_header_def set_fresh)
  then show ?case using Cons.IH [of ?m] Cons.prems by auto
qed

lemma request_events_getHeader:
  assumes "is_request m" "m_method m \<noteq> []" "m_url m \<noteq> []" "m_version m = ''HTTP/1.1''"
    "no_cr (m_method m)" "no_cr (m_url m)" "CHR '' '' \<notin> set (m_method m)" "CHR '' '' \<notin> set (m_url m)"
    "\<forall>x \<in> set (m_headers m). header_ok x"
  shows "request_events (fst (getHeader m)) =
           [MessageBegin, Url (m_url m)] @
           concat (map (\<lambda>x. [HeaderField (fst x), HeaderValue (snd x)]) (m_headers m)) @
           [HeadersComplete (m_method m) 0 1 1 False]"
proof -
  let ?start = "m_method m @ '' '' @ m_url m @ '' '' @ m_version m"
  let ?ls = "map (\<lambda>x. fst x @ '': '' @ snd x) (m_headers m)"
  have "no_cr ?start" using assms(4,5,6) by (auto simp: no_cr_def)
  from lines_of_step [OF this] lines_of_headers [OF assms(9), of CRLF] lines_of_crlf [of "[]"]
  have l: "lines_of (fst (getHeader m)) = ?start # ?ls @ [[], []]"
    using assms(1-3) by (simp add: getHeader_defs Let_def)
  have meth: "takeWhile (\<lambda>c. c \<noteq> CHR '' '') ?start = m_method m"
    using assms(7) by (subst takeWhile_append2) auto
  have url: "takeWhile (\<lambda>c. c \<noteq> CHR '' '') (m_url m @ '' '' @ m_version m) = m_url m"
    using assms(8) by (subst takeWhile_append2) auto
  have ls: "takeWhile (\<lambda>l. l \<noteq> []) (?ls @ [[], []]) = ?ls"
    by (subst takeWhile_append2) auto
  have "concat (map header_events ?ls) = concat (map (\<lambda>x. [HeaderField (fst x), HeaderValue (snd x)]) (m_headers m))"
    using assms(9) header_events_line by (simp add: comp_def cong: map_cong)
  moreover have "drop (length (m_method m) + 1) ?start = m_url m @ '' '' @ m_version m"
    by simp
  ultimately show ?thesis
    unfolding request_events_def l list.case Let_def meth ls by (simp only: url)
qed

lemma not_both: "\<not> (strcaseeq s ''text'' \<and> strcaseeq s ''image'')"
proof -
  have "\<not> strcaseeq ''text'' ''image''" by code_simp
  then show ?thesis using strcaseeq_trans strcaseeq_sym by blast
qed

text \<open>The only thing the decision changes is the tunnel flag.\<close>

definition tunnels :: "HttpMessage \<Rightarrow> bool" where
  "tunnels m \<longleftrightarrow> (let cl = header_of ''content-length'' m in cl = [] \<or> atoi cl \<ge> FILE_BIG_CONTENT \<or> is_request m)"

lemma body_decision_eq:
  "body_decision ch m =
     (if p_nobody m then (1, m) else (0, if tunnels m then m\<lparr>p_tunnel := True\<rparr> else m))"
  using not_both by (simp add: body_decision_def tunnels_def labelTunnelBody_def Let_def)


definition demo_request :: HttpMessage where
  "demo_request = (new_message HTTP_ROLE_REQUEST demo_body 0)\<lparr>m_method := ''GET'', m_url := ''/index.html'',
     m_headers := [(''Host'', ''a.org:8080''), (''Accept'', ''text: all'')]\<rparr>"


section \<open>What the parser decides\<close>

text \<open>
  C29. The end of the headers. Without a hook, a message marked to have no body stops the library
  there; any other is tunnelled, its body passed on unseen, if it has no \<open>Content-Length\<close>,
  one of 256K or more, or is a request: the media type plays no role, a chunked body is never
  kept and never marked as chunked, and nothing marked for the tunnel is ever unmarked.
\<close>

theorem header_end_decision:
  assumes "p_headerHook m = None"
  shows "\<exists>r m'. on_headers_complete hook meth code major minor ch m = (r, m') \<and>
     r = (if p_nobody m then 1 else 0) \<and> p_state m' = PARSE_HEADER_COMPLETE \<and> m_headers m' = m_headers m \<and>
     p_tunnel m' = (p_tunnel m \<or> \<not> p_nobody m \<and> tunnels m) \<and> m_body m' = m_body m \<and>
     m_version m' = (if major > 0 \<and> minor > 0 then m_version m else ''HTTP/1.0'')"
proof -
  define m1 where "m1 = (if is_request m then setMethod meth m else setStatuscode code m)"
  have 1: "p_headerHook m1 = None" "p_nobody m1 = p_nobody m" "m_headers m1 = m_headers m" "m_body m1 = m_body m"
    "p_tunnel m1 = p_tunnel m" "m_version m1 = m_version m" "m_role m1 = m_role m"
    using assms by (simp_all add: m1_def setMethod_def setStatuscode_def setDesc_def Let_def)
  define m3 where "m3 = snd (getHeader ((if \<not> (major > 0 \<and> minor > 0) then m1\<lparr>m_version := ''HTTP/1.0''\<rparr> else m1)
      \<lparr>p_state := PARSE_HEADER_COMPLETE\<rparr>))"
  have 3: "p_headerHook m3 = None" "p_nobody m3 = p_nobody m" "m_headers m3 = m_headers m" "m_body m3 = m_body m"
    "p_tunnel m3 = p_tunnel m" "m_role m3 = m_role m" "p_state m3 = PARSE_HEADER_COMPLETE"
    "m_version m3 = (if major > 0 \<and> minor > 0 then m_version m else ''HTTP/1.0'')"
    by (simp_all add: m3_def getHeader_defs Let_def 1)
  have t: "tunnels m3 = tunnels m" by (simp add: tunnels_def header_of_def is_request_def 3)
  have "on_headers_complete hook meth code major minor ch m = body_decision ch m3"
    unfolding on_headers_complete_def Let_def m1_def [symmetric] m3_def [symmetric] call_hook_def 3(1) by simp
  then show ?thesis by (simp add: body_decision_eq t 3)
qed

theorem header_end_decision_witness:
  "p_tunnel (snd (on_headers_complete (\<lambda>n m. m) ''GET'' 0 1 1 True demo_request))"
  using header_end_decision [of demo_request "\<lambda>n m. m" "''GET''" 0 1 1 True]
  by (auto simp: demo_request_def new_message_def tunnels_def is_request_def Let_def)

text \<open>
  The result of one \<open>parse\<close> of a buffer. It is \<open>COMPLETE\<close> exactly when the library consumed
  all of it and reported the end of the message, \<open>NEED_MOREDATA\<close> when it consumed all and did
  not, \<open>PIPELINE\<close> when bytes are left behind a complete request, and \<open>ERROR\<close> in every other
  case; \<open>parsedn\<close> is the number of bytes consumed, and an empty buffer changes nothing.
\<close>

theorem parse_outcomes:
  assumes "msg_parse hook (Some s) events n m k = Some (r, pn, m', k')" "m_role m \<in> {HTTP_ROLE_REQUEST, HTTP_ROLE_RESPONSE}"
  shows "if s = [] then r = HP_PARSE_NEED_MOREDATA \<and> m' = m \<and> k' = k \<and> pn = None
         else pn = (if n = 0 then None else Some (int n)) \<and> p_parsedn m' = n \<and>
           (r = HP_PARSE_COMPLETE \<longleftrightarrow> n = length s \<and> p_state m' = PARSE_COMPLETE) \<and>
           (r = HP_PARSE_NEED_MOREDATA \<longleftrightarrow> n = length s \<and> p_state m' \<noteq> PARSE_COMPLETE) \<and>
           (r = HP_PARSE_PIPELINE \<longleftrightarrow> n \<noteq> length s \<and> p_state m' = PARSE_COMPLETE \<and> is_request m') \<and>
           (r = HP_PARSE_ERROR \<longleftrightarrow> n \<noteq> length s \<and> \<not> (p_state m' = PARSE_COMPLETE \<and> is_request m'))"
proof (cases "s = []")
  case False
  define m1 where "m1 = snd (initParser m)"
  have i: "initParser m = (0, m1)"
    using assms(2) by (auto simp: initParser_def m1_def)
  obtain m2 k2 where "run_events hook events m1 k = Some (m2, k2)" "m' = m2\<lparr>p_parsedn := n\<rparr>"
    using assms(1) False i by (auto simp: msg_parse_def parser_parse_def bind_eq_Some_conv Let_def split: if_splits)
  then show ?thesis
    using assms(1) False i
    by (auto simp: msg_parse_def parse_result_def parser_parse_def Let_def needMoreData_def is_request_def split: if_splits)
qed (use assms in \<open>auto simp: msg_parse_def\<close>)

theorem parse_outcomes_witness:
  "\<exists>m'. msg_parse (\<lambda>n m. m) (Some ''GET / HTTP'') [MessageBegin] 10 demo_request demo_kern =
          Some (HP_PARSE_NEED_MOREDATA, Some 10, m', demo_kern) \<and> p_state m' \<noteq> PARSE_COMPLETE"
proof -
  obtain r pn m' k' where p: "msg_parse (\<lambda>n m. m) (Some ''GET / HTTP'') [MessageBegin] 10 demo_request demo_kern = Some (r, pn, m', k')"
    and s: "p_state m' = PARSE_HEADER_NEED_MORE_DATA" "k' = demo_kern"
    by (simp add: msg_parse_def parse_result_def parser_parse_def initParser_def demo_request_def new_message_def
        less_PARSE_STATE_def needMoreData_def Let_def)
  then show ?thesis
    using parse_outcomes [OF p] by (auto simp: demo_request_def new_message_def)
qed

section \<open>Hosts and ports\<close>

text \<open>
  The host and port of a request. With a \<open>Host\<close> header, they are its parts before and after
  the first colon (port 80 without one), and asking again gives the same; this holds for the
  port unless the URL has a colon before its first slash after the scheme. But without a
  header, a host and path of at most eight characters after \<open>http://\<close> end in an exception.
\<close>

theorem host_and_port:
  assumes "header_of ''host'' m = name @ tail" "name \<noteq> []" "CHR '':'' \<notin> set name" "tail = [] \<or> tail = CHR '':'' # port"
    "m_host m = []" "m_port m = []" "m_url m = CHR ''/'' # path" "find_str ''http://'' (m_url m) = None"
    "find_str ''https://'' (m_url m) = None"
  shows "getHost m = Some (name, m\<lparr>m_host := name\<rparr>) \<and> getHost (m\<lparr>m_host := name\<rparr>) = Some (name, m\<lparr>m_host := name\<rparr>) \<and>
         fst (getHostPort m) = (if tail = [] then ''80'' else port) \<and>
         (length rest \<le> 8 \<longrightarrow> url_host (''http://'' @ rest) = None)"
proof -
  have n: "find_char CHR '':'' name = None" using assms(3) by simp
  have h: "(case find_char CHR '':'' (name @ tail) of None \<Rightarrow> name @ tail | Some p \<Rightarrow> take p (name @ tail)) = name"
    using assms(4) by (elim disjE) (simp_all add: n find_char_append [OF assms(3)])
  have u: "url_host (''http://'' @ rest) = None" if "length rest \<le> 8"
    using that by (simp add: url_host_def substr_from_def substr_def Let_def bind_eq_None_conv)
  have sl: "find_char CHR ''/'' (m_url m) = Some 0" by (simp add: assms(7))
  have p: "fst (getHostPort m) = (if tail = [] then ''80'' else port)"
    using assms(4)
    by (elim disjE) (simp_all add: getHostPort_def Let_def assms(1,6,8,9) sl n find_char_append [OF assms(3)])
  have "getHost m = Some (name, m\<lparr>m_host := name\<rparr>)"
    unfolding getHost_def Let_def assms(1) h using assms(2,5) by simp
  moreover have "getHost (m\<lparr>m_host := name\<rparr>) = Some (name, m\<lparr>m_host := name\<rparr>)"
    using assms(2) by (simp add: getHost_def)
  ultimately show ?thesis using u p by blast
qed

theorem host_and_port_witness:
  "fst (getHostPort demo_request) = ''8080'' \<and> fst (the (getHost demo_request)) = ''a.org'' \<and> url_host ''http://a.org/x'' = None"
proof -
  have "getValueByHeader ''host'' [(''Host'', ''a.org:8080''), (''Accept'', ''text: all'')] = ''a.org:8080''" by code_simp
  then have "header_of ''host'' demo_request = ''a.org'' @ '':8080''" by (simp add: header_of_def demo_request_def)
  moreover have "find_str ''http://'' (m_url demo_request) = None" "find_str ''https://'' (m_url demo_request) = None"
    by (simp_all add: demo_request_def)
  ultimately show ?thesis
    using host_and_port [of demo_request "''a.org''" "'':8080''" "''8080''" "''index.html''" "''a.org/x''"]
    by (simp add: demo_request_def new_message_def)
qed

end
