(* ===== verification/Certs.thy ===== *)
theory Certs
  imports HashHex SSLCtx
begin

text \<open>
  \<open>ssl/SSLHelper.cpp\<close> and \<open>ssl/CertCache.cpp\<close>: the resigning of a server's certificate for the
  client of the proxy, and the cache of resigned certificates in shared memory. A certificate
  or a key is an OpenSSL object, a number; its DER encoding is what the cache keeps. What
  OpenSSL computes from an encoding (issuer, serial number, digest) is the record
  \<open>x509_lib\<close>; which calls fail, and the numbers of new objects, are arguments.
\<close>

record ossl =
  o_heap :: ssl_heap
  o_der :: "nat \<Rightarrow> bytes"

record x509_lib =
  lib_md5 :: "bytes \<Rightarrow> bytes"
  lib_issuer :: "bytes \<Rightarrow> bytes option"
  lib_serial :: "bytes \<Rightarrow> bytes option"
  lib_serial_octets :: "bytes \<Rightarrow> bytes"
  lib_issuer_line :: "bytes \<Rightarrow> bytes"
  lib_common_name :: "bytes \<Rightarrow> bytes"

definition alloc :: "nat \<Rightarrow> bytes \<Rightarrow> ossl \<Rightarrow> ossl" where
  "alloc n der s = s\<lparr>o_heap := (o_heap s)\<lparr>live := insert n (live (o_heap s))\<rparr>, o_der := (o_der s)(n := der)\<rparr>"

definition release :: "nat \<Rightarrow> ossl \<Rightarrow> ossl option" where
  "release n s = do { h \<leftarrow> free_handle (Some n) (o_heap s); Some (s\<lparr>o_heap := h\<rparr>) }"

section \<open>Digests and serial numbers\<close>

text \<open>\<open>"%02x"\<close> of one byte.\<close>

definition byte_hex :: "char \<Rightarrow> bytes" where
  "byte_hex c = [hexc (of_char c div 16), hexc (of_char c mod 16)]"

text \<open>\<open>SSLHelper::MD5\<close> on strings that are not NULL: the result and the \<open>len\<close> bytes it writes.
  The input is cut to the 1022 characters \<open>snprintf\<close> leaves room for.\<close>

definition MD5 :: "(bytes \<Rightarrow> bytes) \<Rightarrow> bytes \<Rightarrow> int \<Rightarrow> (int \<times> bytes) option" where
  "MD5 md5 input len =
     (if len < 0 then Some (1, [])
      else if len = 0 then None
      else
       (let digest = take 16 (md5 (take 1022 (c_str input)));
            buf = concat (map byte_hex digest)
        in Some (0, take (nat len - 1) (buf @ replicate (nat len) NUL) @ [NUL])))"

text \<open>The loop of \<open>signCert\<close> that prints the serial number into an array of 64 characters: each
  \<open>snprintf\<close> also writes a NUL behind its two digits.\<close>

fun serial_loop :: "bytes \<Rightarrow> nat \<Rightarrow> bytes \<Rightarrow> bytes option" where
  "serial_loop [] i buf = Some buf"
| "serial_loop (c # cs) i buf =
     (case blit (2 * i) (byte_hex c @ [NUL]) buf of None \<Rightarrow> None | Some b \<Rightarrow> serial_loop cs (i + 1) b)"

definition genSerialNumber :: "(bytes \<Rightarrow> bytes) \<Rightarrow> bytes \<Rightarrow> bytes \<Rightarrow> bytes \<Rightarrow> nat \<Rightarrow> bytes option" where
  "genSerialNumber md5 issuer commonName serial len =
     (let buf = take 1923 (c_str issuer @ ''.'' @ c_str serial @ ''.'' @ c_str commonName @ ''.tigerso'')
      in do { (_, v) \<leftarrow> MD5 md5 buf 128; Some (take (len - 1) (''0x'' @ c_str v)) })"

section \<open>Signing\<close>

text \<open>The numbers of the objects OpenSSL makes for one \<open>signCert\<close>, \<open>None\<close> when it fails, whether
  the other calls succeed, and the encodings of the results.\<close>

record sign_env =
  sg_serial :: "nat option"
  sg_rsa :: nat
  sg_bn :: nat
  sg_gen :: bool
  sg_pkey :: "nat option"
  sg_set1 :: bool
  sg_cert :: "nat option"
  sg_fields :: bool
  sg_sign :: bool
  sg_cert_der :: bytes
  sg_pkey_der :: bytes

definition genRSA :: "sign_env \<Rightarrow> ossl \<Rightarrow> (nat option \<times> ossl) option" where
  "genRSA e s =
     (let s1 = alloc (sg_bn e) [] (alloc (sg_rsa e) [] s)
      in if \<not> sg_gen e then
           do { s2 \<leftarrow> release (sg_bn e) s1; s3 \<leftarrow> release (sg_rsa e) s2; Some (None, s3) }
         else Some (Some (sg_rsa e), s1))"

text \<open>\<open>signCert\<close>: the result, \<open>*cert\<close> and \<open>*pkey\<close>. When the key cannot be set, \<open>pkey == NULL\<close>
  compares instead of assigning, and \<open>*pkey\<close> keeps the object just freed.\<close>

definition signCert :: "x509_lib \<Rightarrow> sign_env \<Rightarrow> (nat \<times> nat) option \<Rightarrow> nat \<Rightarrow> nat option \<times> nat option \<Rightarrow> ossl
    \<Rightarrow> (bool \<times> (nat option \<times> nat option) \<times> ossl) option" where
  "signCert lib e ca org out s =
     (case ca of
        None \<Rightarrow> Some (False, out, s)
      | Some _ \<Rightarrow>
       (let der = o_der s org
        in do {
          serialStr \<leftarrow> serial_loop (lib_serial_octets lib der) 0 (replicate 64 NUL);
          num \<leftarrow> genSerialNumber (lib_md5 lib) (lib_issuer_line lib der) (lib_common_name lib der) serialStr 128;
          case sg_serial e of
            None \<Rightarrow> Some (False, (None, None), s)
          | Some serial \<Rightarrow>
            do { (rsa, s1) \<leftarrow> genRSA e (alloc serial num s);
                 case rsa of
                   None \<Rightarrow> do { s2 \<leftarrow> release serial s1; Some (False, (None, None), s2) }
                 | Some r \<Rightarrow>
                   (case sg_pkey e of
                      None \<Rightarrow> do { s2 \<leftarrow> release r s1; s3 \<leftarrow> release serial s2; Some (False, (None, None), s3) }
                    | Some pkey \<Rightarrow>
                      (let s2 = alloc pkey (sg_pkey_der e) s1
                       in if \<not> sg_set1 e then
                            do { s3 \<leftarrow> release pkey s2; s4 \<leftarrow> release r s3; s5 \<leftarrow> release serial s4;
                                 Some (False, (None, Some pkey), s5) }
                          else
                            do { s3 \<leftarrow> release r s2;
                                 case sg_cert e of
                                   None \<Rightarrow>
                                     do { s4 \<leftarrow> release serial s3; s5 \<leftarrow> release pkey s4; Some (False, (None, None), s5) }
                                 | Some cert \<Rightarrow>
                                   (let s4 = alloc cert (sg_cert_der e) s3
                                    in if \<not> sg_fields e then
                                         do { s5 \<leftarrow> release serial s4; s6 \<leftarrow> release pkey s5; s7 \<leftarrow> release cert s6;
                                              Some (False, (None, None), s7) }
                                       else
                                         do { s5 \<leftarrow> release serial s4;
                                              if \<not> sg_sign e then
                                                do { s6 \<leftarrow> release pkey s5; s7 \<leftarrow> release cert s6;
                                                     Some (False, (None, None), s7) }
                                              else Some (True, (Some cert, Some pkey), s5) }) })) } }))"

section \<open>The certificate cache\<close>

abbreviation MAX_CERT_LENGTH :: nat where "MAX_CERT_LENGTH \<equiv> 8192"
abbreviation MAX_KEY_LENGTH :: nat where "MAX_KEY_LENGTH \<equiv> 8192"

record CertNode =
  cn_keyname :: bytes
  cn_certLen :: "16 word"
  cn_pkeyLen :: "16 word"
  cn_cert :: bytes
  cn_pkey :: bytes

definition CERTSTORE_SIZE :: hashkey where
  "CERTSTORE_SIZE = adjustHashSize 2048"

text \<open>The shared memory, if it could be mapped.\<close>

type_synonym certstore = "(nat \<Rightarrow> CertNode) option"

text \<open>
  \<open>getKeyName\<close>: the length of issuer and serial number in hexadecimal, a hyphen and the MD5 of
  the two as a string. The buffer is allocated one byte longer than its contents, but the
  terminating NUL is written behind its end: that byte is taken to be there, and \<open>g\<close> is the
  last byte of the buffer itself, which is never written.
\<close>

definition getKeyName :: "x509_lib \<Rightarrow> char \<Rightarrow> bytes \<Rightarrow> bytes \<Rightarrow> nat \<Rightarrow> (int \<times> bytes) option" where
  "getKeyName lib g orig keyname keylen =
     (case (lib_issuer lib orig, lib_serial lib orig) of
        (Some iss, Some ser) \<Rightarrow>
         (let len = length iss + length ser
          in if len > 65535 \<or> len = 0 then Some (-1, keyname)
             else
              do { hexstr \<leftarrow> dec2hex (of_nat len);
                   k1 \<leftarrow> blit 0 hexstr keyname;
                   k2 \<leftarrow> blit (length hexstr) ''-'' k1;
                   (_, v) \<leftarrow> MD5 (lib_md5 lib) (iss @ ser @ [g]) (int keylen - int (length hexstr) - 1);
                   k3 \<leftarrow> blit (length hexstr + 1) v k2;
                   Some (0, k3) })
      | _ \<Rightarrow> Some (-1, keyname))"

definition generateHashKey :: "bytes \<Rightarrow> nat option" where
  "generateHashKey keyname = map_option unat (hash keyname CERTSTORE_SIZE)"

text \<open>\<open>hashSearch\<close>: the second component is the slot stored in \<open>*node\<close>, if one is.\<close>

definition hashSearch :: "x509_lib \<Rightarrow> char \<Rightarrow> certstore \<Rightarrow> bytes \<Rightarrow> (int \<times> nat option) option" where
  "hashSearch lib g store orig =
     (case store of
        None \<Rightarrow> Some (-1, None)
      | Some nodes \<Rightarrow>
          do { (ret, keyname) \<leftarrow> getKeyName lib g orig (replicate 64 NUL) 64;
               if ret \<noteq> 0 then Some (-1, None)
               else
                do { key \<leftarrow> generateHashKey keyname;
                     let name = c_str keyname;
                     Some ((if take (length name) (c_str (cn_keyname (nodes key))) = name then 0 else -1), Some key) } })"

text \<open>\<open>query\<close>: \<open>dc\<close> and \<open>dk\<close> are the objects \<open>d2i\<close> makes, \<open>None\<close> when it rejects the encoding.\<close>

definition query :: "x509_lib \<Rightarrow> char \<Rightarrow> nat option \<Rightarrow> nat option \<Rightarrow> certstore \<Rightarrow> bytes \<Rightarrow> ossl
    \<Rightarrow> (int \<times> (nat option \<times> nat option) \<times> ossl) option" where
  "query lib g dc dk store orig s =
     do { (r, slot) \<leftarrow> hashSearch lib g store orig;
          if r \<noteq> 0 then Some (-1, (None, None), s)
          else
           do { key \<leftarrow> slot; nodes \<leftarrow> store;
                let node = nodes key;
                if cn_certLen node = 0 then Some (-1, (None, None), s)
                else
                 do { cder \<leftarrow> slice 0 (unat (cn_certLen node)) (cn_cert node);
                      case dc of
                        None \<Rightarrow> Some (-1, (None, None), s)
                      | Some c \<Rightarrow>
                         (let s1 = alloc c cder s
                          in if cn_pkeyLen node = 0 then Some (-1, (Some c, None), s1)
                             else
                              do { kder \<leftarrow> slice 0 (unat (cn_pkeyLen node)) (cn_pkey node);
                                   case dk of
                                     None \<Rightarrow> Some (-1, (Some c, None), s1)
                                   | Some k \<Rightarrow> Some (0, (Some c, Some k), alloc k kder s1) }) } } }"

text \<open>\<open>store\<close>: the lengths are kept in 16 bits, and are stored before they are tested.\<close>

definition store_cert :: "x509_lib \<Rightarrow> char \<Rightarrow> char \<Rightarrow> bytes \<Rightarrow> bytes \<Rightarrow> bytes \<Rightarrow> certstore \<Rightarrow> (int \<times> certstore) option" where
  "store_cert lib g g' orig cder kder store =
     do { (r, slot) \<leftarrow> hashSearch lib g store orig;
          if r = 0 then Some (0, store)
          else
           do { key \<leftarrow> slot; nodes \<leftarrow> store;
                let node = (nodes key)\<lparr>cn_certLen := of_nat (length cder), cn_pkeyLen := of_nat (length kder)\<rparr>;
                if unat (cn_certLen node) > MAX_CERT_LENGTH then Some (-1, Some (nodes(key := node)))
                else if unat (cn_pkeyLen node) > MAX_KEY_LENGTH then Some (-1, Some (nodes(key := node)))
                else
                 do { cert \<leftarrow> blit 0 cder (cn_cert node);
                      pkey \<leftarrow> blit 0 kder (cn_pkey node);
                      (_, name) \<leftarrow> getKeyName lib g' orig (cn_keyname node) 64;
                      Some (0, Some (nodes(key := node\<lparr>cn_cert := cert, cn_pkey := pkey, cn_keyname := name\<rparr>))) } } }"

section \<open>Resigning the certificate of a connection\<close>

record resign_env =
  rs_peer :: "nat option"
  rs_g1 :: char
  rs_g2 :: char
  rs_g3 :: char
  rs_cert :: "nat option"
  rs_pkey :: "nat option"
  rs_sign :: sign_env

text \<open>\<open>resignContextCert\<close>: \<open>c\<close> is the context towards the server, \<open>c'\<close> that towards the client,
  \<open>ca\<close> what \<open>getCAEntity\<close> returns.\<close>

definition resignContextCert :: "x509_lib \<Rightarrow> resign_env \<Rightarrow> (nat \<times> nat) option \<Rightarrow> SSLContext \<Rightarrow> SSLContext \<Rightarrow> certstore \<Rightarrow> ossl
    \<Rightarrow> (int \<times> SSLContext \<times> SSLContext \<times> certstore \<times> ossl) option" where
  "resignContextCert lib e ca c c' store s =
     (let (c1, s1) = (case peerCert' c of
                        Some _ \<Rightarrow> (c, s)
                      | None \<Rightarrow> (c\<lparr>peerCert' := rs_peer e\<rparr>,
                                 s\<lparr>o_heap := (o_heap s)\<lparr>live := live (o_heap s) \<union> set_option (rs_peer e)\<rparr>\<rparr>))
      in case peerCert' c1 of
           None \<Rightarrow> Some (-1, c1, c', store, s1)
         | Some org \<Rightarrow>
          do { (r, out, s2) \<leftarrow> query lib (rs_g1 e) (rs_cert e) (rs_pkey e) store (o_der s1 org) s1;
               if r = 0 then Some (0, c1, c'\<lparr>ownCert' := fst out, ownPkey' := snd out\<rparr>, store, s2)
               else if ca = None then Some (-1, c1, c', store, s2)
               else
                do { (ok, out, s3) \<leftarrow> signCert lib (rs_sign e) ca org out s2;
                     if \<not> ok then Some (-1, c1, c', store, s3)
                     else
                      do { cert \<leftarrow> fst out; pkey \<leftarrow> snd out;
                           (r', store') \<leftarrow> store_cert lib (rs_g2 e) (rs_g3 e) (o_der s3 org) (o_der s3 cert) (o_der s3 pkey) store;
                           if r' \<noteq> 0 then Some (-1, c1, c', store', s3)
                           else Some (0, c1, c'\<lparr>ownCert' := fst out, ownPkey' := snd out\<rparr>, store', s3) } } })"

section \<open>What the cache answers\<close>

definition cert_name :: "x509_lib \<Rightarrow> char \<Rightarrow> bytes \<Rightarrow> (nat \<times> bytes) option" where
  "cert_name lib g orig =
     do { iss \<leftarrow> lib_issuer lib orig; ser \<leftarrow> lib_serial lib orig; Some (length iss + length ser, c_str (iss @ ser @ [g])) }"

definition name_array :: "(bytes \<Rightarrow> bytes) \<Rightarrow> nat \<times> bytes \<Rightarrow> bytes" where
  "name_array md5 x =
     (let hexstr = map hexc (rev (lsd16 (fst x)));
          buf = concat (map byte_hex (take 16 (md5 (take 1022 (snd x)))));
          n = 63 - length hexstr
      in hexstr @ ''-'' @ take (n - 1) (buf @ replicate n NUL) @ [NUL])"

lemma getKeyName_array:
  assumes "cert_name lib g orig = Some (n, x)" "0 < n" "n \<le> 65535" "length keyname = 64"
  shows "getKeyName lib g orig keyname 64 = Some (0, name_array (lib_md5 lib) (n, x)) \<and>
         length (name_array (lib_md5 lib) (n, x)) = 64"
proof -
  obtain iss ser where i: "lib_issuer lib orig = Some iss" "lib_serial lib orig = Some ser"
    "n = length iss + length ser" "x = c_str (iss @ ser @ [g])"
    using assms(1) by (auto simp: cert_name_def bind_eq_Some_conv)
  define hexstr where "hexstr = map hexc (rev (lsd16 n))"
  have h4: "length hexstr \<le> 4" using lsd16_length [of n 4] assms(3) by (simp add: hexstr_def)
  have u: "unat (of_nat n :: 32 word) = n" using assms(3) by (simp add: unat_of_nat)
  define buf where "buf = concat (map byte_hex (take 16 (lib_md5 lib (take 1022 x))))"
  define v where "v = take (62 - length hexstr) (buf @ replicate (63 - length hexstr) NUL) @ [NUL]"
  have v: "MD5 (lib_md5 lib) (iss @ ser @ [g]) (63 - int (length hexstr)) = Some (0, v)"
  proof -
    have "nat (63 - int (length hexstr)) = 63 - length hexstr" using h4 by simp
    then show ?thesis using h4 by (simp add: MD5_def Let_def v_def buf_def i(4))
  qed
  have lv: "length v = 63 - length hexstr" using h4 by (simp add: v_def)
  have k: "name_array (lib_md5 lib) (n, x) = hexstr @ ''-'' @ v"
    using h4 by (simp add: name_array_def Let_def hexstr_def [symmetric] buf_def [symmetric] v_def)
  have "blit 0 hexstr keyname = Some (hexstr @ drop (length hexstr) keyname)"
    using h4 assms(4) by (simp add: blit_def)
  moreover have "blit (length hexstr) ''-'' (hexstr @ drop (length hexstr) keyname) =
      Some (hexstr @ ''-'' @ drop (Suc (length hexstr)) keyname)"
    using h4 assms(4) by (simp add: blit_def)
  moreover have "blit (length hexstr + 1) v (hexstr @ ''-'' @ drop (Suc (length hexstr)) keyname) = Some (hexstr @ ''-'' @ v)"
    using h4 assms(4) lv by (simp add: blit_def)
  moreover have "dec2hex (of_nat (length iss + length ser)) = Some hexstr"
    using u by (simp add: dec2hex_eq hexstr_def i(3))
  moreover have "length iss + length ser \<le> 65535" "length iss + length ser \<noteq> 0" using assms(2,3) i(3) by simp_all
  moreover have "int 64 - int (length hexstr) - 1 = 63 - int (length hexstr)" by simp
  ultimately have "getKeyName lib g orig keyname 64 = Some (0, hexstr @ ''-'' @ v)"
    using v by (simp only: getKeyName_def i(1,2) Let_def prod.case option.case if_False not_less [symmetric] bind.bind_lunit de_Morgan_disj simp_thms)
  then show ?thesis using h4 lv k by simp
qed

definition nodes_ok :: "(nat \<Rightarrow> CertNode) \<Rightarrow> bool" where
  "nodes_ok nodes \<longleftrightarrow>
     (\<forall>i. length (cn_keyname (nodes i)) = 64 \<and> length (cn_cert (nodes i)) = MAX_CERT_LENGTH \<and>
          length (cn_pkey (nodes i)) = MAX_KEY_LENGTH)"

definition slot_of :: "x509_lib \<Rightarrow> nat \<times> bytes \<Rightarrow> nat" where
  "slot_of lib x = the (generateHashKey (name_array (lib_md5 lib) x))"

lemma slot_of_Some: "generateHashKey (name_array md5 x) = Some (the (generateHashKey (name_array md5 x)))"
proof -
  have "CERTSTORE_SIZE \<noteq> 0" by code_simp
  then show ?thesis by (simp add: generateHashKey_def hash_def)
qed

lemma hashSearch_slot:
  assumes "cert_name lib g orig = Some (n, x)" "0 < n" "n \<le> 65535"
  shows "hashSearch lib g (Some nodes) orig =
     Some (if take (length (c_str (name_array (lib_md5 lib) (n, x)))) (c_str (cn_keyname (nodes (slot_of lib (n, x)))))
              = c_str (name_array (lib_md5 lib) (n, x)) then 0 else -1, Some (slot_of lib (n, x)))"
proof -
  have "generateHashKey (name_array (lib_md5 lib) (n, x)) = Some (slot_of lib (n, x))"
    unfolding slot_of_def by (rule slot_of_Some)
  then show ?thesis
    using getKeyName_array [OF assms, of "replicate 64 NUL"] by (simp add: hashSearch_def Let_def)
qed

text \<open>
  C18. The cache of resigned certificates. A certificate and key of 1 to 8192 bytes stored for an
  original whose slot holds another name succeed, change no other slot, and are what a later
  query returns, byte for byte, for every certificate with the same name. The name is only the
  length of issuer and serial number with their bytes up to the first NUL: two certificates
  that differ behind it, say in the serial number, get each other's resigned certificate; and
  when there is no NUL, the unwritten last byte of the buffer is part of the name.
\<close>

theorem cert_cache_answers:
  assumes "nodes_ok nodes" "cert_name lib g1 orig = Some x" "cert_name lib g2 orig = Some x" "cert_name lib g3 orig' = Some x"
    "0 < fst x" "fst x \<le> 65535" "hashSearch lib g1 (Some nodes) orig = Some (-1, Some key)"
    "length cder \<in> {1..MAX_CERT_LENGTH}" "length kder \<in> {1..MAX_KEY_LENGTH}"
  shows "\<exists>node. store_cert lib g1 g2 orig cder kder (Some nodes) = Some (0, Some (nodes(key := node))) \<and>
     nodes_ok (nodes(key := node)) \<and>
     query lib g3 (Some c) (Some k) (Some (nodes(key := node))) orig' s =
       Some (0, (Some c, Some k), alloc k kder (alloc c cder s))"
proof -
  obtain n y where x: "x = (n, y)" by (cases x)
  define arr where "arr = name_array (lib_md5 lib) x"
  have ok: "length (cn_keyname (nodes key)) = 64" "length (cn_cert (nodes key)) = MAX_CERT_LENGTH"
    "length (cn_pkey (nodes key)) = MAX_KEY_LENGTH"
    using assms(1) by (simp_all add: nodes_ok_def)
  have key: "key = slot_of lib x"
    using assms(7) hashSearch_slot [of lib g1 orig n y nodes] assms(2,5,6) x by simp
  have u: "unat (of_nat (length cder) :: 16 word) = length cder" "unat (of_nat (length kder) :: 16 word) = length kder"
    using assms(8,9) by (simp_all add: unat_of_nat)
  define node where "node = (nodes key)\<lparr>cn_certLen := of_nat (length cder), cn_pkeyLen := of_nat (length kder),
      cn_cert := cder @ drop (length cder) (cn_cert (nodes key)),
      cn_pkey := kder @ drop (length kder) (cn_pkey (nodes key)), cn_keyname := arr\<rparr>"
  have b: "blit 0 cder (cn_cert (nodes key)) = Some (cder @ drop (length cder) (cn_cert (nodes key)))"
    "blit 0 kder (cn_pkey (nodes key)) = Some (kder @ drop (length kder) (cn_pkey (nodes key)))"
    using assms(8,9) ok by (simp_all add: blit_def)
  have g2: "getKeyName lib g2 orig (cn_keyname (nodes key)) 64 = Some (0, arr)" "length arr = 64"
    using getKeyName_array [of lib g2 orig n y] assms(3,5,6) x ok(1) by (simp_all add: arr_def)
  have st: "store_cert lib g1 g2 orig cder kder (Some nodes) = Some (0, Some (nodes(key := node)))"
    using assms(7,8,9) u b g2 by (simp add: store_cert_def Let_def node_def)
  have nn: "of_nat (length cder) \<noteq> (0 :: 16 word)" "of_nat (length kder) \<noteq> (0 :: 16 word)"
    using u assms(8,9) by (auto simp: unat_eq_zero [symmetric] simp del: unat_eq_zero)
  have hs: "hashSearch lib g3 (Some (nodes(key := node))) orig' = Some (0, Some key)"
    using hashSearch_slot [of lib g3 orig' n y "nodes(key := node)"] assms(4,5,6) x
    by (simp add: key [symmetric, unfolded x] node_def arr_def)
  have nd: "cn_certLen node = of_nat (length cder)" "cn_pkeyLen node = of_nat (length kder)"
    "cn_cert node = cder @ drop (length cder) (cn_cert (nodes key))"
    "cn_pkey node = kder @ drop (length kder) (cn_pkey (nodes key))"
    by (simp_all add: node_def)
  have sl: "slice 0 (length cder) (cn_cert node) = Some cder" "slice 0 (length kder) (cn_pkey node) = Some kder"
    by (simp_all add: slice_def nd)
  have q: "query lib g3 (Some c) (Some k) (Some (nodes(key := node))) orig' s =
       Some (0, (Some c, Some k), alloc k kder (alloc c cder s))"
    using hs nn sl by (simp add: query_def Let_def nd(1,2) u)
  moreover have "nodes_ok (nodes(key := node))"
    using assms(1,8,9) ok g2(2) by (simp add: nodes_ok_def node_def)
  ultimately show ?thesis using st by blast
qed

text \<open>Two certificates that differ in the serial number behind a NUL of the issuer.\<close>

definition demo_lib :: x509_lib where
  "demo_lib = \<lparr>lib_md5 = (\<lambda>_. replicate 16 CHR ''m''), lib_issuer = (\<lambda>d. Some (take 3 d)), lib_serial = (\<lambda>d. Some (drop 3 d)),
     lib_serial_octets = drop 3, lib_issuer_line = take 3, lib_common_name = take 1\<rparr>"

definition demo_nodes :: "nat \<Rightarrow> CertNode" where
  "demo_nodes i = \<lparr>cn_keyname = replicate 64 NUL, cn_certLen = 0, cn_pkeyLen = 0, cn_cert = replicate 8192 NUL, cn_pkey = replicate 8192 NUL\<rparr>"

definition demo_ossl :: ossl where
  "demo_ossl = \<lparr>o_heap = demo_heap, o_der = (\<lambda>_. ''AB'' @ [NUL] @ ''1'')\<rparr>"

theorem cert_cache_answers_witness:
  "\<exists>nodes. store_cert demo_lib CHR ''x'' CHR ''y'' (''AB'' @ [NUL] @ ''1'') ''cert'' ''key'' (Some demo_nodes) = Some (0, Some nodes) \<and>
     query demo_lib CHR ''z'' (Some 8) (Some 9) (Some nodes) (''AB'' @ [NUL] @ ''2'') demo_ossl =
       Some (0, (Some 8, Some 9), alloc 9 ''key'' (alloc 8 ''cert'' demo_ossl))"
proof -
  have n: "cert_name demo_lib g (''AB'' @ [NUL] @ [c]) = Some (4, ''AB'')" for g c
    by (simp add: cert_name_def demo_lib_def c_str_def NUL_def)
  have "c_str (cn_keyname (demo_nodes i)) = []" for i by (simp add: demo_nodes_def c_str_def)
  moreover have "c_str (name_array (lib_md5 demo_lib) (4, ''AB'')) \<noteq> []"
    by (simp add: name_array_def demo_lib_def c_str_def lsd16_Cons hexc_def HexCharSet_def NUL_def Let_def)
  ultimately have "hashSearch demo_lib CHR ''x'' (Some demo_nodes) (''AB'' @ [NUL] @ ''1'') = Some (-1, Some (slot_of demo_lib (4, ''AB'')))"
    using hashSearch_slot [OF n [of "CHR ''x''" "CHR ''1''"], of demo_nodes] by simp
  then show ?thesis
    using cert_cache_answers [OF _ n [of "CHR ''x''" "CHR ''1''"] n [of "CHR ''y''" "CHR ''1''"] n [of "CHR ''z''" "CHR ''2''"],
        of demo_nodes "slot_of demo_lib (4, ''AB'')" "''cert''" "''key''" 8 9 demo_ossl]
    by (auto simp: nodes_ok_def demo_nodes_def)
qed

section \<open>What signing leaves behind\<close>

lemma serial_loop_Some_iff:
  "length buf = 64 \<Longrightarrow> (\<exists>b. serial_loop cs i buf = Some b) \<longleftrightarrow> cs = [] \<or> i + length cs \<le> 31"
proof (induction cs arbitrary: i buf)
  case (Cons c cs)
  have l: "length (byte_hex c @ [NUL]) = 3" by (simp add: byte_hex_def)
  show ?case
  proof (cases "2 * i + 3 \<le> 64")
    case True
    define b where "b = take (2 * i) buf @ (byte_hex c @ [NUL]) @ drop (2 * i + 3) buf"
    have b: "blit (2 * i) (byte_hex c @ [NUL]) buf = Some b" "length b = 64"
      using True Cons.prems l by (simp_all add: blit_def b_def)
    then show ?thesis using Cons.IH [OF b(2), of "i + 1"] True by auto
  next
    case False
    then have "blit (2 * i) (byte_hex c @ [NUL]) buf = None" using Cons.prems l by (simp add: blit_def)
    then show ?thesis using False by simp
  qed
qed simp

lemma release_live: "n \<in> live (o_heap s) \<Longrightarrow>
   release n s = Some (s\<lparr>o_heap := (o_heap s)\<lparr>live := live (o_heap s) - {n}\<rparr>\<rparr>)"
  by (simp add: release_def free_handle_def)

definition new_handles :: "sign_env \<Rightarrow> nat list" where
  "new_handles e = [sg_rsa e, sg_bn e] @ some_list [sg_serial e, sg_pkey e, sg_cert e]"

text \<open>
  Signing a certificate. It is defined exactly when the serial number of the original has at
  most 31 bytes: a longer one, which the server chooses, overflows the array it is printed in.
  Then every path frees each object exactly once and only what it made: nothing else is
  touched, a success adds the certificate and the key, and a failure adds nothing, except that
  the exponent of a generated key is never freed.
\<close>

theorem signCert_objects:
  assumes "distinct (new_handles e)" "set (new_handles e) \<inter> live (o_heap s) = {}"
  shows "if length (lib_serial_octets lib (o_der s org)) > 31 then signCert lib e (Some ca) org out s = None
         else \<exists>ok c k s'. signCert lib e (Some ca) org out s = Some (ok, (c, k), s') \<and>
           (ok \<longrightarrow> c = sg_cert e \<and> k = sg_pkey e \<and> c \<noteq> None \<and> k \<noteq> None) \<and>
           live (o_heap s') = live (o_heap s) \<union> (if ok then set_option c \<union> set_option k else {}) \<union>
             (if sg_serial e \<noteq> None \<and> sg_gen e then {sg_bn e} else {})"
proof (cases "length (lib_serial_octets lib (o_der s org)) > 31")
  case True
  then have "serial_loop (lib_serial_octets lib (o_der s org)) 0 (replicate 64 NUL) = None"
    using serial_loop_Some_iff [of "replicate 64 NUL" "lib_serial_octets lib (o_der s org)" 0]
    by (cases "serial_loop (lib_serial_octets lib (o_der s org)) 0 (replicate 64 NUL)") auto
  then show ?thesis using True by (simp add: signCert_def)
next
  case False
  then obtain str where str: "serial_loop (lib_serial_octets lib (o_der s org)) 0 (replicate 64 NUL) = Some str"
    using serial_loop_Some_iff [of "replicate 64 NUL" "lib_serial_octets lib (o_der s org)" 0] by auto
  obtain num where num: "genSerialNumber (lib_md5 lib) (lib_issuer_line lib (o_der s org)) (lib_common_name lib (o_der s org)) str 128 = Some num"
    by (simp add: genSerialNumber_def MD5_def Let_def)
  define L where "L = live (o_heap s)"
  have r: "release n t = (if n \<in> live (o_heap t) then Some (t\<lparr>o_heap := (o_heap t)\<lparr>live := live (o_heap t) - {n}\<rparr>\<rparr>) else None)" for n t
    by (simp add: release_def free_handle_def)
  have rm: "x \<notin> A \<Longrightarrow> A - {x} = A" for x :: nat and A by blast
  have ex: "\<exists>ok. \<not> ok" "Ex (\<lambda>q. q)" by blast+
  have dist2: "distinct (some_list [sg_cert e, sg_pkey e, sg_serial e] @ [sg_bn e, sg_rsa e])"
    using assms(1) by (cases "sg_serial e"; cases "sg_pkey e"; cases "sg_cert e") (simp_all add: new_handles_def eq_commute)
  note d = rm ex insert_Diff_if signCert_def str num genRSA_def alloc_def r Let_def
  consider "sg_serial e = None" | x where "sg_serial e = Some x" "\<not> sg_gen e"
    | x where "sg_serial e = Some x" "sg_gen e" "sg_pkey e = None"
    | x y where "sg_serial e = Some x" "sg_gen e" "sg_pkey e = Some y" "\<not> sg_set1 e"
    | x y where "sg_serial e = Some x" "sg_gen e" "sg_pkey e = Some y" "sg_set1 e" "sg_cert e = None"
    | x y z where "sg_serial e = Some x" "sg_gen e" "sg_pkey e = Some y" "sg_set1 e" "sg_cert e = Some z"
    by (metis option.exhaust)
  then show ?thesis
  proof cases
    case 1
    then show ?thesis using False by (simp add: d)
  next
    case 2
    then show ?thesis using False assms dist2 by (simp add: d new_handles_def L_def [symmetric])
  next
    case 3
    then show ?thesis using False assms dist2 by (simp add: d new_handles_def L_def [symmetric])
  next
    case 4
    then show ?thesis using False assms dist2 by (simp add: d new_handles_def L_def [symmetric])
  next
    case 5
    then show ?thesis using False assms dist2 by (simp add: d new_handles_def L_def [symmetric])
  next
    case 6
    then show ?thesis
      using False assms dist2 by (cases "sg_fields e"; cases "sg_sign e") (simp_all add: d new_handles_def L_def [symmetric] insert_commute)
  qed
qed

definition demo_sign :: sign_env where
  "demo_sign = \<lparr>sg_serial = Some 10, sg_rsa = 11, sg_bn = 12, sg_gen = True, sg_pkey = Some 13, sg_set1 = True,
     sg_cert = Some 14, sg_fields = True, sg_sign = True, sg_cert_der = ''cert'', sg_pkey_der = ''key''\<rparr>"

theorem signCert_objects_witness:
  "signCert demo_lib demo_sign (Some (1, 2)) 3 (None, None)
     (demo_ossl\<lparr>o_der := (\<lambda>_. replicate 3 CHR ''i'' @ replicate 32 CHR ''s'')\<rparr>) = None"
  using signCert_objects [of demo_sign "demo_ossl\<lparr>o_der := (\<lambda>_. replicate 3 CHR ''i'' @ replicate 32 CHR ''s'')\<rparr>" demo_lib 3 "(1, 2)" "(None, None)"]
  by (simp add: demo_sign_def new_handles_def demo_ossl_def demo_heap_def demo_lib_def)

end
