(* ===== verification/Conn.thy ===== *)
theory Conn
  imports NetBuf HttpParse Certs
begin

text \<open>
  What the two kinds of connection share: what a socket says about its last TLS call, the
  numbers of the handlers they register, and the sending of a buffer with the message
  attached to it.
\<close>

definition SSLWantReadMore :: "Socket \<Rightarrow> ssl_heap \<Rightarrow> bool" where
  "SSLWantReadMore m h \<longleftrightarrow> isSSL m h \<and> serrno (s_ctx m) = SSL_ERROR_WANT_READ"

definition SSLWantWriteMore :: "Socket \<Rightarrow> ssl_heap \<Rightarrow> bool" where
  "SSLWantWriteMore m h \<longleftrightarrow> isSSL m h \<and> serrno (s_ctx m) = SSL_ERROR_WANT_WRITE"

definition SSLNoError :: "Socket \<Rightarrow> ssl_heap \<Rightarrow> bool" where
  "SSLNoError m h \<longleftrightarrow> \<not> isSSL m h \<or> serrno (s_ctx m) = SSL_ERROR_NONE"

abbreviation SOCKET_EVENT_NONE :: evf where "SOCKET_EVENT_NONE \<equiv> 0"

text \<open>The event a TLS call waits for, as every handler works it out.\<close>

definition wanted_event :: "Socket \<Rightarrow> ssl_heap \<Rightarrow> evf" where
  "wanted_event m h =
     (if SSLWantReadMore m h then SOCKET_EVENT_READ
      else if SSLWantWriteMore m h then SOCKET_EVENT_WRITE else SOCKET_EVENT_NONE)"

abbreviation H_READ :: nat where "H_READ \<equiv> 0"
abbreviation H_WRITE :: nat where "H_WRITE \<equiv> 1"
abbreviation H_ERROR :: nat where "H_ERROR \<equiv> 2"
abbreviation H_RDHUP :: nat where "H_RDHUP \<equiv> 3"
abbreviation H_TIMEOUT :: nat where "H_TIMEOUT \<equiv> 4"
abbreviation H_CLOSE :: nat where "H_CLOSE \<equiv> 5"
abbreviation H_TUNNEL_READ :: nat where "H_TUNNEL_READ \<equiv> 6"
abbreviation H_TUNNEL_WRITE :: nat where "H_TUNNEL_WRITE \<equiv> 7"

text \<open>One call of \<open>sendNIO\<close>: the two \<open>fcntl\<close> results, what each \<open>Send\<close> takes, and what the
  sending of an attached body finds.\<close>

record send_res =
  sr_getfl :: int
  sr_setfl :: int
  sr_sends :: "(sysres \<times> sysres) list"
  sr_sendfile :: bool
  sr_fuel :: nat
  sr_rings :: "(int \<times> int \<times> sysres list) list"
  sr_files :: "(int \<times> sysres list) list"
  sr_body_sends :: "(sysres \<times> sysres) list list"
  sr_body_reads :: "(int \<times> int \<times> int) list"

text \<open>\<open>sendNIO\<close> of a socket whose buffer has the body \<open>m\<close> attached; the last component are the bytes
  sent by \<open>Send\<close>.\<close>

definition send_buffer :: "send_res \<Rightarrow> HttpMessage \<Rightarrow> netbuf \<Rightarrow> Socket \<Rightarrow> kern \<Rightarrow> ssl_heap
    \<Rightarrow> (int \<times> HttpMessage \<times> netbuf \<times> Socket \<times> kern \<times> ssl_heap \<times> bytes) option" where
  "send_buffer r m b s k h =
     do { (n, b1, w) \<leftarrow> sendNIO (sr_getfl r) (sr_setfl r) (body_send2Socket (sr_sendfile r) (sr_fuel r) (sr_rings r) (sr_files r))
                          (sr_sends r) (Some b)
                          \<lparr>w_body = m_body m, w_sock = s, w_heap = h, w_kern = k, w_out = [],
                           w_sends = sr_body_sends r, w_reads = sr_body_reads r\<rparr>;
          b2 \<leftarrow> b1;
          Some (n, m\<lparr>m_body := w_body w\<rparr>, b2, w_sock w, w_kern w, w_heap w, w_out w) }"

text \<open>\<open>attachHttpMessage\<close> of a message, whose header is printed for it.\<close>

definition attach_message :: "char option \<Rightarrow> HttpMessage \<Rightarrow> netbuf \<Rightarrow> (HttpMessage \<times> netbuf) option" where
  "attach_message grow m b =
     (let (s, m1) = getHeader m in do { (_, b1) \<leftarrow> attachHttpMessage grow (Some s) b; Some (m1, b1) })"

section \<open>The outside world\<close>

text \<open>What kernel, parser library, resolver and OpenSSL answer is a list the handlers of a connection
  consume in order. An answer of another kind than the one asked for counts as none.\<close>

datatype dns_result = Resolved bytes | Resolving | ResolveFailed

record connect_res =
  cr_nfd :: int
  cr_dup :: int
  cr_getfl :: int
  cr_setfl :: int
  cr_conn :: sysres
  cr_sd :: sysres
  cr_sd' :: sysres
  cr_getfl2 :: int
  cr_setfl2 :: int
  cr_chan :: nat

datatype answer =
    ARecv int int "recv_res list"
  | ASend send_res
  | AParse "parse_event list" nat
  | ANotify nat "append_res list list" append_res "char option"
  | AAttach "char option"
  | AClose sysres sysres
  | ATcpClose sysres
  | AResolve dns_result
  | AConnect connect_res
  | ASSLInit "nat option" int sysres
  | AHandshake sysres sysres
  | AResign resign_env "(nat \<times> nat) option"
  | AResetup sysres sysres sysres
  | AFiles File File

fun ans_recv :: "answer \<Rightarrow> (int \<times> int \<times> (recv_res list)) option" where
  "ans_recv (ARecv a b c) = Some (a, b, c)"
| "ans_recv _ = None"

fun ans_send :: "answer \<Rightarrow> (send_res) option" where
  "ans_send (ASend a) = Some a"
| "ans_send _ = None"

fun ans_parse :: "answer \<Rightarrow> ((parse_event list) \<times> nat) option" where
  "ans_parse (AParse a b) = Some (a, b)"
| "ans_parse _ = None"

fun ans_notify :: "answer \<Rightarrow> (nat \<times> (append_res list list) \<times> append_res \<times> (char option)) option" where
  "ans_notify (ANotify a b c d) = Some (a, b, c, d)"
| "ans_notify _ = None"

fun ans_attach :: "answer \<Rightarrow> ((char option)) option" where
  "ans_attach (AAttach a) = Some a"
| "ans_attach _ = None"

fun ans_close :: "answer \<Rightarrow> (sysres \<times> sysres) option" where
  "ans_close (AClose a b) = Some (a, b)"
| "ans_close _ = None"

fun ans_tcp :: "answer \<Rightarrow> (sysres) option" where
  "ans_tcp (ATcpClose a) = Some a"
| "ans_tcp _ = None"

fun ans_resolve :: "answer \<Rightarrow> (dns_result) option" where
  "ans_resolve (AResolve a) = Some a"
| "ans_resolve _ = None"

fun ans_connect :: "answer \<Rightarrow> (connect_res) option" where
  "ans_connect (AConnect a) = Some a"
| "ans_connect _ = None"

fun ans_init :: "answer \<Rightarrow> ((nat option) \<times> int \<times> sysres) option" where
  "ans_init (ASSLInit a b c) = Some (a, b, c)"
| "ans_init _ = None"

fun ans_shake :: "answer \<Rightarrow> (sysres \<times> sysres) option" where
  "ans_shake (AHandshake a b) = Some (a, b)"
| "ans_shake _ = None"

fun ans_resign :: "answer \<Rightarrow> (resign_env \<times> (nat \<times> nat) option) option" where
  "ans_resign (AResign a b) = Some (a, b)"
| "ans_resign _ = None"

fun ans_resetup :: "answer \<Rightarrow> (sysres \<times> sysres \<times> sysres) option" where
  "ans_resetup (AResetup a b c) = Some (a, b, c)"
| "ans_resetup _ = None"

fun ans_files :: "answer \<Rightarrow> (File \<times> File) option" where
  "ans_files (AFiles a b) = Some (a, b)"
| "ans_files _ = None"

text \<open>A step of a handler's loop either goes around again or returns.\<close>

datatype flow = Again | Ret int

end
