(* ===== verification/ProxyConn.thy ===== *)
theory ProxyConn
  imports Conn
begin

text \<open>
  \<open>http/HttpProxyConnection.cpp\<close>: one connection of the proxy, with a socket to the client and one to
  the server, as the state machine of \<open>RWEventHandle\<close>. What the outside world answers (the kernel,
  the parser library, the resolver, OpenSSL) is a list that the operations consume in order. The
  loop operations a handler performs are collected in \<open>px_ops\<close>. Four fields that the program does
  not have record the bytes received from and sent to each side. Both sockets use four buffers
  (the client's own input and output are numbers 0 and 1, the server's 2 and 3), and
  \<open>switchBuffers\<close> makes each side's input the other side's output. The code tells the two sockets
  apart by their descriptors; here the side is an argument.
\<close>

datatype HttpProxyState =
    PROXY_INIT | CLIENT_RECV_REQUEST | CLIENT_RECV_REQUEST_DONE
  | CLIENT_SEND_200OK | CLIENT_SEND_200OK_DONE | SERVER_HANDSHAKE | SERVER_HANDSHAKE_DONE
  | CLIENT_HANDSHAKE | CLIENT_HANDSHAKE_DONE | TCP_TUNNEL
  | SERVER_SEND_REQUEST | SERVER_SEND_REQUEST_DONE | SERVER_RECV_RESPONSE | SERVER_RECV_RESPONSE_DONE
  | CLIENT_SEND_RESPONSE | CLIENT_SEND_RESPONSE_DONE | CLIENT_CLOSE | CLIENT_CLOSE_DONE
  | SERVER_CLOSE | SERVER_CLOSE_DONE

datatype ServerConnectState =
    SERVER_CONNECT_UINIT | SERVER_CONNECT_ERROR | SERVER_CONNECT_ING | SERVER_CONNECT_DONE

abbreviation DNS_UINIT :: int where "DNS_UINIT \<equiv> 2"
abbreviation DNS_ON_PROCESS :: int where "DNS_ON_PROCESS \<equiv> 1"
abbreviation DNS_OK :: int where "DNS_OK \<equiv> 0"
abbreviation DNS_ERR :: int where "DNS_ERR \<equiv> -1"

datatype side = CSide | SSide

record pconn =
  px_state :: HttpProxyState
  px_client :: Socket
  px_server :: Socket
  px_bufs :: "nat \<Rightarrow> netbuf"
  px_cin :: nat
  px_cout :: nat
  px_sin :: nat
  px_sout :: nat
  px_request :: HttpMessage
  px_response :: HttpMessage
  px_notify :: HttpMessage
  px_host :: bytes
  px_port :: bytes
  px_resolve :: int
  px_resolve_cb :: bool
  px_kern :: kern
  px_ossl :: ossl
  px_certs :: certstore
  px_recycled :: nat
  px_ops :: "loop_op list"
  px_script :: "answer list"
  px_rx_c :: bytes
  px_tx_c :: bytes
  px_rx_s :: bytes
  px_tx_s :: bytes

text \<open>The parts of the environment that never change.\<close>

record px_env =
  pe_inet :: "bytes \<Rightarrow> 32 word"
  pe_lib :: x509_lib

definition ask :: "(answer \<Rightarrow> 'a option) \<Rightarrow> pconn \<Rightarrow> ('a \<times> pconn) option" where
  "ask kind p = (case px_script p of [] \<Rightarrow> None | a # as \<Rightarrow> map_option (\<lambda>x. (x, p\<lparr>px_script := as\<rparr>)) (kind a))"

section \<open>Sockets and buffers of the two sides\<close>

definition px_heap :: "pconn \<Rightarrow> ssl_heap" where
  "px_heap p = o_heap (px_ossl p)"

definition set_heap :: "ssl_heap \<Rightarrow> pconn \<Rightarrow> pconn" where
  "set_heap h p = p\<lparr>px_ossl := (px_ossl p)\<lparr>o_heap := h\<rparr>\<rparr>"

definition sock_of :: "side \<Rightarrow> pconn \<Rightarrow> Socket" where
  "sock_of sd p = (case sd of CSide \<Rightarrow> px_client p | SSide \<Rightarrow> px_server p)"

definition set_sock :: "side \<Rightarrow> Socket \<Rightarrow> pconn \<Rightarrow> pconn" where
  "set_sock sd m p = (case sd of CSide \<Rightarrow> p\<lparr>px_client := m\<rparr> | SSide \<Rightarrow> p\<lparr>px_server := m\<rparr>)"

definition in_of :: "side \<Rightarrow> pconn \<Rightarrow> nat" where
  "in_of sd p = (case sd of CSide \<Rightarrow> px_cin p | SSide \<Rightarrow> px_sin p)"

definition out_of :: "side \<Rightarrow> pconn \<Rightarrow> nat" where
  "out_of sd p = (case sd of CSide \<Rightarrow> px_cout p | SSide \<Rightarrow> px_sout p)"

definition set_buf :: "nat \<Rightarrow> netbuf \<Rightarrow> pconn \<Rightarrow> pconn" where
  "set_buf i b p = p\<lparr>px_bufs := (px_bufs p)(i := b)\<rparr>"

definition emit :: "loop_op list \<Rightarrow> pconn \<Rightarrow> pconn" where
  "emit xs p = p\<lparr>px_ops := px_ops p @ xs\<rparr>"

definition enable :: "side \<Rightarrow> evf \<Rightarrow> pconn \<Rightarrow> pconn" where
  "enable sd f p = emit [Enable (s_id (sock_of sd p)) f] p"

definition disable :: "side \<Rightarrow> evf \<Rightarrow> pconn \<Rightarrow> pconn" where
  "disable sd f p = emit [Disable (s_id (sock_of sd p)) f] p"

definition disable_both :: "side \<Rightarrow> pconn \<Rightarrow> pconn" where
  "disable_both sd p = disable sd SOCKET_EVENT_WRITE (disable sd SOCKET_EVENT_READ p)"

definition handle :: "side \<Rightarrow> nat \<Rightarrow> evf \<Rightarrow> pconn \<Rightarrow> pconn" where
  "handle sd f ev p = emit [SetHandle (s_id (sock_of sd p)) (Some f) ev] p"

definition px_wanted :: "side \<Rightarrow> pconn \<Rightarrow> evf" where
  "px_wanted sd p = wanted_event (sock_of sd p) (px_heap p)"

definition switchBuffers :: "pconn \<Rightarrow> pconn" where
  "switchBuffers p = p\<lparr>px_sout := px_cin p, px_cout := px_sin p\<rparr>"

text \<open>\<open>recvNIO\<close> and \<open>sendNIO\<close>.\<close>

definition px_recv :: "side \<Rightarrow> pconn \<Rightarrow> (int \<times> pconn) option" where
  "px_recv sd p =
     do { ((getfl, setfl, outs), p1) \<leftarrow> ask ans_recv p;
             (let b = px_bufs p1 (in_of sd p1)
              in do { (n, b1, m, k, h) \<leftarrow> recvNIO getfl setfl outs (Some b) (sock_of sd p1) (px_kern p1) (px_heap p1);
                      b2 \<leftarrow> b1;
                      let got = drop (length (nb_data b)) (nb_data b2);
                      let p2 = set_heap h (set_sock sd m (set_buf (in_of sd p1) b2 p1))\<lparr>px_kern := k\<rparr>;
                      Some (n, (case sd of CSide \<Rightarrow> p2\<lparr>px_rx_c := px_rx_c p2 @ got\<rparr>
                                         | SSide \<Rightarrow> p2\<lparr>px_rx_s := px_rx_s p2 @ got\<rparr>)) }) }"

definition px_send :: "side \<Rightarrow> pconn \<Rightarrow> (int \<times> pconn) option" where
  "px_send sd p =
     do { (r, p1) \<leftarrow> ask ans_send p;
              do { (n, m, b, s, k, h, out) \<leftarrow> send_buffer r (px_notify p1) (px_bufs p1 (out_of sd p1)) (sock_of sd p1) (px_kern p1) (px_heap p1);
                   let p2 = set_heap h (set_sock sd s (set_buf (out_of sd p1) b p1))\<lparr>px_kern := k, px_notify := m\<rparr>;
                   Some (n, (case sd of CSide \<Rightarrow> p2\<lparr>px_tx_c := px_tx_c p2 @ out\<rparr>
                                      | SSide \<Rightarrow> p2\<lparr>px_tx_s := px_tx_s p2 @ out\<rparr>)) } }"

section \<open>Closing\<close>

definition px_recycle :: "pconn \<Rightarrow> pconn" where
  "px_recycle p =
     (let (rq, k1) = msg_clear (px_request p) (px_kern p);
          (rs, k2) = msg_clear (px_response p) k1;
          (c, b0, b1) = Socket_reset (px_client p) (px_bufs p 0) (px_bufs p 1);
          (s, b2, b3) = Socket_reset (px_server p) (px_bufs p 2) (px_bufs p 3)
      in p\<lparr>px_host := [], px_port := [], px_request := rq, px_response := rs, px_kern := k2,
           px_client := c, px_server := s, px_bufs := (px_bufs p)(0 := b0, 1 := b1, 2 := b2, 3 := b3),
           px_cin := 0, px_cout := 1, px_sin := 2, px_sout := 3,
           px_resolve := DNS_UINIT, px_resolve_cb := False, px_state := PROXY_INIT,
           px_recycled := px_recycled p + 1\<rparr>)"

definition px_tcpClose :: "side \<Rightarrow> pconn \<Rightarrow> pconn option" where
  "px_tcpClose sd p =
     do { (sd', p1) \<leftarrow> ask ans_tcp p;
              do { (_, m, k, h, ops) \<leftarrow> tcpClose sd' (sock_of sd p1) (px_kern p1) (px_heap p1);
                   Some (emit ops (set_heap h (set_sock sd m p1)\<lparr>px_kern := k\<rparr>)) } }"

definition px_close :: "side \<Rightarrow> pconn \<Rightarrow> (int \<times> pconn) option" where
  "px_close sd p =
     do { ((s1, s2), p1) \<leftarrow> ask ans_close p;
              do { (r, m, k, h, ops) \<leftarrow> Socket_close s1 s2 (sock_of sd p1) (px_kern p1) (px_heap p1);
                   Some (r, emit ops (set_heap h (set_sock sd m p1)\<lparr>px_kern := k\<rparr>)) } }"

definition forceCloseServer :: "pconn \<Rightarrow> (int \<times> pconn) option" where
  "forceCloseServer p =
     do { p1 \<leftarrow> px_tcpClose SSide p; Some (0, if \<not> exist (px_client p1) then px_recycle p1 else p1) }"

definition forceCloseProxy :: "pconn \<Rightarrow> (int \<times> pconn) option" where
  "forceCloseProxy p = do { p1 \<leftarrow> px_tcpClose CSide p; (_, p2) \<leftarrow> forceCloseServer p1; Some (0, p2) }"

definition forceCloseClient :: "pconn \<Rightarrow> (int \<times> pconn) option" where
  "forceCloseClient p = forceCloseProxy p"

text \<open>\<open>closeHandle\<close>. A failed close waits for the TLS event it wants; without one the socket is closed
  at once.\<close>

definition disable_all :: "side \<Rightarrow> pconn \<Rightarrow> pconn" where
  "disable_all sd p = emit [Disable (s_id (sock_of sd p)) (SOCKET_EVENT_WRITE OR SOCKET_EVENT_READ)] p"

definition close_wait :: "side \<Rightarrow> pconn \<Rightarrow> (int option \<times> pconn) option" where
  "close_wait sd p =
     do { (r, p1) \<leftarrow> px_close sd p;
          if r \<noteq> 0 then
           (let p2 = disable_all sd p1;
                ev = px_wanted sd p2
            in if ev \<noteq> SOCKET_EVENT_NONE then Some (Some EVENT_CALLBACK_CONTINUE, enable sd ev (handle sd H_CLOSE ev p2))
               else do { p3 \<leftarrow> px_tcpClose sd p2; Some (None, p3) })
          else Some (None, p1) }"

definition close_server :: "pconn \<Rightarrow> (int \<times> pconn) option" where
  "close_server p =
     do { (w, p1) \<leftarrow> close_wait SSide p;
          case w of
            Some r \<Rightarrow> Some (r, p1)
          | None \<Rightarrow>
              if \<not> exist (px_client p1) \<and> \<not> exist (px_server p1) then Some (EVENT_CALLBACK_BREAK, px_recycle p1)
              else Some (EVENT_CALLBACK_CONTINUE,
                         if \<not> isSendDone (px_bufs p1 (out_of CSide p1))
                         then enable CSide SOCKET_EVENT_WRITE (p1\<lparr>px_state := CLIENT_SEND_RESPONSE\<rparr>)
                         else enable CSide SOCKET_EVENT_READ p1) }"

definition closeHandle :: "side \<Rightarrow> pconn \<Rightarrow> (int \<times> pconn) option" where
  "closeHandle sd p =
     (case sd of
        SSide \<Rightarrow> close_server p
      | CSide \<Rightarrow>
         do { (w, p1) \<leftarrow> close_wait CSide p;
              case w of
                Some r \<Rightarrow> Some (r, p1)
              | None \<Rightarrow>
                  if \<not> exist (px_client p1) \<and> \<not> exist (px_server p1) then Some (EVENT_CALLBACK_BREAK, px_recycle p1)
                  else close_server p1 })"

definition errorHandle :: "side \<Rightarrow> pconn \<Rightarrow> (int \<times> pconn) option" where
  "errorHandle sd p = (case sd of CSide \<Rightarrow> forceCloseClient p | SSide \<Rightarrow> forceCloseServer p)"

definition rdhupHandle :: "side \<Rightarrow> pconn \<Rightarrow> (int \<times> pconn) option" where
  "rdhupHandle sd p = (case sd of CSide \<Rightarrow> forceCloseClient p | SSide \<Rightarrow> forceCloseServer p)"

definition timeoutHandle :: "side \<Rightarrow> pconn \<Rightarrow> (int \<times> pconn) option" where
  "timeoutHandle sd p = (case sd of CSide \<Rightarrow> forceCloseClient p | SSide \<Rightarrow> forceCloseServer p)"

section \<open>Deciding the next state\<close>

definition isNeedTunnelSSL :: "bytes \<Rightarrow> bool" where
  "isNeedTunnelSSL url = False"

definition isNeedTunnelMessage :: "HttpMessage \<Rightarrow> bool" where
  "isNeedTunnelMessage m = False"

definition set_state :: "HttpProxyState \<Rightarrow> pconn \<Rightarrow> pconn" where
  "set_state s p = p\<lparr>px_state := s\<rparr>"

definition predictNextState :: "pconn \<Rightarrow> pconn option" where
  "predictNextState p =
     (case px_state p of
        PROXY_INIT \<Rightarrow> Some (enable CSide SOCKET_EVENT_READ (set_state CLIENT_RECV_REQUEST p))
      | CLIENT_RECV_REQUEST \<Rightarrow>
          Some (if \<not> needMoreData (px_request p) then set_state CLIENT_RECV_REQUEST_DONE p else p)
      | CLIENT_RECV_REQUEST_DONE \<Rightarrow>
          Some (if exist (px_server p)
                then set_state (if strcaseeq (m_method (px_request p)) ''connect'' then CLIENT_SEND_200OK else SERVER_SEND_REQUEST) p
                else set_state CLIENT_SEND_RESPONSE p)
      | CLIENT_SEND_200OK \<Rightarrow> Some (set_state CLIENT_SEND_200OK_DONE p)
      | CLIENT_SEND_200OK_DONE \<Rightarrow>
          do { (host, m) \<leftarrow> getHost (px_request p);
               Some (set_state (if isNeedTunnelSSL host then TCP_TUNNEL else SERVER_HANDSHAKE) (p\<lparr>px_request := m\<rparr>)) }
      | SERVER_HANDSHAKE \<Rightarrow> Some (set_state SERVER_HANDSHAKE_DONE p)
      | SERVER_HANDSHAKE_DONE \<Rightarrow> Some (set_state CLIENT_HANDSHAKE p)
      | CLIENT_HANDSHAKE \<Rightarrow> Some (set_state CLIENT_HANDSHAKE_DONE p)
      | CLIENT_HANDSHAKE_DONE \<Rightarrow> Some (set_state CLIENT_RECV_REQUEST p)
      | SERVER_SEND_REQUEST \<Rightarrow> Some (set_state SERVER_SEND_REQUEST_DONE p)
      | SERVER_SEND_REQUEST_DONE \<Rightarrow> Some (set_state SERVER_RECV_RESPONSE p)
      | SERVER_RECV_RESPONSE \<Rightarrow> Some (set_state SERVER_RECV_RESPONSE_DONE p)
      | SERVER_RECV_RESPONSE_DONE \<Rightarrow> Some (set_state CLIENT_SEND_RESPONSE p)
      | CLIENT_SEND_RESPONSE \<Rightarrow> Some (set_state CLIENT_SEND_RESPONSE_DONE p)
      | CLIENT_SEND_RESPONSE_DONE \<Rightarrow> Some (set_state CLIENT_RECV_REQUEST p)
      | CLIENT_CLOSE \<Rightarrow> Some (set_state CLIENT_CLOSE_DONE p)
      | CLIENT_CLOSE_DONE \<Rightarrow> Some (set_state (if exist (px_server p) then SERVER_CLOSE else PROXY_INIT) p)
      | SERVER_CLOSE \<Rightarrow> Some (set_state SERVER_CLOSE_DONE p)
      | SERVER_CLOSE_DONE \<Rightarrow> Some (set_state (if exist (px_client p) then CLIENT_SEND_RESPONSE else PROXY_INIT) p)
      | TCP_TUNNEL \<Rightarrow> Some p)"

definition getServerConnectState :: "pconn \<Rightarrow> ServerConnectState" where
  "getServerConnectState p =
     (if exist (px_server p) then SERVER_CONNECT_DONE
      else if headerCompleted (px_request p) \<and> px_resolve p = DNS_ERR then SERVER_CONNECT_ERROR
      else if headerCompleted (px_request p) \<and> px_resolve p = DNS_ON_PROCESS then SERVER_CONNECT_ING
      else SERVER_CONNECT_UINIT)"

section \<open>Connecting to the server\<close>

text \<open>\<open>serverConnectHandle\<close> up to the connected socket. While a request is being received, which is
  when the resolver answers at once, the rest of it does nothing.\<close>

definition server_connect :: "px_env \<Rightarrow> bytes \<Rightarrow> pconn \<Rightarrow> (int \<times> pconn) option" where
  "server_connect E ipaddr p =
     (if ipaddr = [] then Some (-1, p)
      else
       do { (c, p1) \<leftarrow> ask ans_connect p;
               (let (port, m) = getHostPort (px_request p1); p2 = p1\<lparr>px_request := m\<rparr>
                in do { (r, s, k, h, ops) \<leftarrow> Connect (pe_inet E) ipaddr port (cr_nfd c) (cr_dup c) (cr_getfl c) (cr_setfl c)
                                              (cr_conn c) (cr_sd c) (cr_sd' c) (px_server p2) (px_kern p2) (px_heap p2);
                        let p3 = emit ops (set_heap h (set_sock SSide s p2)\<lparr>px_kern := k\<rparr>);
                        if r < 0 then Some (-1, p3)
                        else
                         (let (s', k') = setNIO True (cr_getfl2 c) (cr_setfl2 c) (px_server p3) (px_kern p3);
                              p4 = set_sock SSide (s'\<lparr>s_chan := Some (cr_chan c)\<rparr>) p3\<lparr>px_kern := k'\<rparr>;
                              i = s_id s'
                          in Some (0, emit [SetFd i (s_fd s') (s_listening s'), Register i (cr_chan c),
                                            SetHandle i (Some H_WRITE) SOCKET_EVENT_WRITE,
                                            SetHandle i (Some H_READ) SOCKET_EVENT_READ,
                                            SetHandle i (Some H_ERROR) SOCKET_EVENT_ERROR,
                                            SetHandle i (Some H_RDHUP) SOCKET_EVENT_RDHUP,
                                            SetHandle i (Some H_TIMEOUT) SOCKET_EVENT_TIMEOUT] p4)) }) })"

text \<open>\<open>DNSResolver::callHandle\<close> and \<open>resolve\<close>, as far as the connection sees them: an address resolves to
  itself, and any other name is in the cache, is asked for, or fails.\<close>

definition resolver_call :: "px_env \<Rightarrow> bytes \<Rightarrow> pconn \<Rightarrow> (int \<times> pconn) option" where
  "resolver_call E ip p =
     (if px_resolve_cb p then
        do { (r, p1) \<leftarrow> server_connect E ip p;
             let st = (if r \<noteq> 0 then DNS_ERR else DNS_UINIT);
             Some (st, p1\<lparr>px_resolve := st\<rparr>) }
      else Some (DNS_ERR, p\<lparr>px_resolve := DNS_ERR\<rparr>))"

definition resolver_resolve :: "px_env \<Rightarrow> bytes \<Rightarrow> pconn \<Rightarrow> (int \<times> pconn) option" where
  "resolver_resolve E host p0 =
     (let p = p0\<lparr>px_resolve := DNS_UINIT\<rparr>
      in if ValidateAddr host then resolver_call E host p
         else
          do { (r, p1) \<leftarrow> ask ans_resolve p;
               case r of
                 Resolved ip \<Rightarrow> resolver_call E ip p1
               | ResolveFailed \<Rightarrow> Some (DNS_ERR, p1\<lparr>px_resolve := DNS_ERR\<rparr>)
               | Resolving \<Rightarrow> Some (DNS_ON_PROCESS, p1\<lparr>px_resolve := DNS_ON_PROCESS\<rparr>) })"

definition mark_head :: "pconn \<Rightarrow> pconn" where
  "mark_head p =
     (if strcaseeq (m_method (px_request p)) ''head''
      then p\<lparr>px_response := (px_response p)\<lparr>p_nobody := True\<rparr>\<rparr> else p)"

definition retarget :: "px_env \<Rightarrow> bytes \<Rightarrow> bytes \<Rightarrow> pconn \<Rightarrow> (int \<times> pconn) option" where
  "retarget E host port p =
     do { (_, p1) \<leftarrow> forceCloseServer p;
          let (rs, k) = msg_clear (px_response p1) (px_kern p1);
          (r, p2) \<leftarrow> resolver_resolve E host
                      (p1\<lparr>px_response := rs, px_kern := k, px_host := host, px_port := port, px_resolve_cb := True\<rparr>);
          Some (if DNS_ERR = r then TIGERSO_IO_ERROR else TIGERSO_IO_OK, p2) }"

definition requestHeaderCompleteHandle :: "px_env \<Rightarrow> pconn \<Rightarrow> (int \<times> pconn) option" where
  "requestHeaderCompleteHandle E p =
     do { (host, m1) \<leftarrow> getHost (px_request p);
          let (port, m2) = getHostPort m1;
          let p1 = mark_head (p\<lparr>px_request := m2\<rparr>);
          if px_host p1 \<noteq> host \<or> px_port p1 \<noteq> port \<or> \<not> exist (px_server p1) then retarget E host port p1
          else Some (TIGERSO_IO_OK, p1) }"

section \<open>Parsing and notifications\<close>

text \<open>The events of a request: when the headers are complete and the connection's handler is
  registered, it runs before the rest of the events.\<close>

definition no_hook :: "nat \<Rightarrow> HttpMessage \<Rightarrow> HttpMessage" where
  "no_hook n m = m"

fun is_headers_end :: "parse_event \<Rightarrow> bool" where
  "is_headers_end (HeadersComplete a b c d e) = True"
| "is_headers_end e = False"

definition headers_end :: "px_env \<Rightarrow> parse_event \<Rightarrow> pconn \<Rightarrow> pconn option" where
  "headers_end E e p =
     (if is_headers_end e \<and> p_headerHook (px_request p) \<noteq> None
      then map_option snd (requestHeaderCompleteHandle E p) else Some p)"

fun request_events :: "px_env \<Rightarrow> parse_event list \<Rightarrow> pconn \<Rightarrow> pconn option" where
  "request_events E [] p = Some p"
| "request_events E (e # es) p =
     do { (m, k) \<leftarrow> on_event no_hook e (px_request p) (px_kern p);
          p1 \<leftarrow> headers_end E e (p\<lparr>px_request := m, px_kern := k\<rparr>);
          request_events E es p1 }"

definition request_parse :: "px_env \<Rightarrow> bytes \<Rightarrow> parse_event list \<Rightarrow> nat \<Rightarrow> pconn \<Rightarrow> (int \<times> pconn) option" where
  "request_parse E s events n p =
     (let (r, m) = initParser (px_request p); p1 = p\<lparr>px_request := m\<rparr>
      in if r \<noteq> 0 then Some (parse_result s (-1) m, p1)
         else
          do { p2 \<leftarrow> request_events E events p1;
               let p3 = p2\<lparr>px_request := (px_request p2)\<lparr>p_parsedn := n\<rparr>\<rparr>;
               Some (parse_result s (int n) (px_request p3), p3) })"

definition response_parse :: "bytes \<Rightarrow> parse_event list \<Rightarrow> nat \<Rightarrow> pconn \<Rightarrow> (int \<times> pconn) option" where
  "response_parse s events n p =
     do { (r, _, m, k) \<leftarrow> msg_parse no_hook (Some s) events n (px_response p) (px_kern p);
          Some (r, p\<lparr>px_response := m, px_kern := k\<rparr>) }"

text \<open>The bytes just received are the last of the input buffer.\<close>

definition px_parse :: "px_env \<Rightarrow> side \<Rightarrow> int \<Rightarrow> pconn \<Rightarrow> (int \<times> pconn) option" where
  "px_parse E sd recvn p =
     do { ((events, n), p1) \<leftarrow> ask ans_parse p;
             (let b = px_bufs p1 (in_of sd p1); len = nat recvn
              in do { s \<leftarrow> slice (nb_rd b + readableBytes b - len) len (nb_mem b);
                      case sd of CSide \<Rightarrow> request_parse E s events n p1 | SSide \<Rightarrow> response_parse s events n p1 }) }"

text \<open>A notification is prepared and attached to the client's output buffer, which is cleared.\<close>

definition attach_notice :: "char option \<Rightarrow> pconn \<Rightarrow> pconn option" where
  "attach_notice grow p =
     do { (m, b) \<leftarrow> attach_message grow (px_notify p) (px_bufs p (out_of CSide p));
          Some (set_buf (out_of CSide p) b (p\<lparr>px_notify := m\<rparr>)) }"

definition notify_error :: "(nat \<Rightarrow> append_res list list \<Rightarrow> append_res \<Rightarrow> HttpMessage \<Rightarrow> kern \<Rightarrow> (HttpMessage \<times> kern) option)
    \<Rightarrow> pconn \<Rightarrow> pconn option" where
  "notify_error prepare p =
     do { ((fuel, outss, res, grow), p1) \<leftarrow> ask ans_notify p;
              do { (m, k) \<leftarrow> prepare fuel outss res (px_notify p1) (px_kern p1);
                   attach_notice grow (p1\<lparr>px_notify := m, px_kern := k\<rparr>) } }"

definition notify_200 :: "pconn \<Rightarrow> pconn option" where
  "notify_200 p =
     do { (grow, p1) \<leftarrow> ask ans_attach p;
          attach_notice grow (p1\<lparr>px_notify := prepare200Response (px_notify p1)\<rparr>) }"

section \<open>The TLS handshakes\<close>

definition handshake :: "side \<Rightarrow> (sysres \<Rightarrow> sysres \<Rightarrow> SSLContext \<Rightarrow> ssl_heap \<Rightarrow> (int \<times> SSLContext \<times> ssl_heap) option)
    \<Rightarrow> pconn \<Rightarrow> (int \<times> pconn) option" where
  "handshake sd call p =
     do { ((r, sd'), p1) \<leftarrow> ask ans_shake p;
              do { (ret, c, h) \<leftarrow> call r sd' (s_ctx (sock_of sd p1)) (px_heap p1);
                   let p2 = set_heap h (set_sock sd ((sock_of sd p1)\<lparr>s_ctx := c\<rparr>) p1);
                   if ret = SCTX_IO_OK then Some (TIGERSO_IO_OK, p2)
                   else if ret = SCTX_IO_RECALL then Some (TIGERSO_IO_RECALL, enable sd (px_wanted sd p2) (disable_both sd p2))
                   else Some (TIGERSO_IO_ERROR, p2) } }"

definition serverSSLHandShake :: "pconn \<Rightarrow> (int \<times> pconn) option" where
  "serverSSLHandShake p =
     (if px_state p = SERVER_HANDSHAKE then handshake SSide ctx_connect p else Some (TIGERSO_IO_ERROR, p))"

definition clientSSLHandShake :: "pconn \<Rightarrow> (int \<times> pconn) option" where
  "clientSSLHandShake p =
     (if px_state p = CLIENT_HANDSHAKE then handshake CSide ctx_accept p else Some (TIGERSO_IO_ERROR, p))"

definition px_prepareSSL :: "side \<Rightarrow> pconn \<Rightarrow> (int \<times> pconn) option" where
  "px_prepareSSL sd p =
     do { ((new, set_fd, sd'), p1) \<leftarrow> ask ans_init p;
              do { (r, m, h) \<leftarrow> prepareSSLContext new set_fd sd' (sock_of sd p1) (px_heap p1);
                   Some (r, set_heap h (set_sock sd m p1)) } }"

definition resignCertificate :: "px_env \<Rightarrow> pconn \<Rightarrow> (int \<times> pconn) option" where
  "resignCertificate E p =
     do { ((e, ca), p1) \<leftarrow> ask ans_resign p;
              do { (r, c, c', store, s) \<leftarrow> resignContextCert (pe_lib E) e ca (s_ctx (px_server p1)) (s_ctx (px_client p1)) (px_certs p1) (px_ossl p1);
                   Some (r, p1\<lparr>px_server := (px_server p1)\<lparr>s_ctx := c\<rparr>, px_client := (px_client p1)\<lparr>s_ctx := c'\<rparr>,
                               px_certs := store, px_ossl := s\<rparr>) } }"

definition px_resetup :: "pconn \<Rightarrow> (int \<times> pconn) option" where
  "px_resetup p =
     do { ((u1, u2, sd'), p1) \<leftarrow> ask ans_resetup p;
              do { (r, c, h) \<leftarrow> resetupCertKey u1 u2 sd' (s_ctx (px_client p1)) (px_heap p1);
                   Some (r, set_heap h (set_sock CSide ((px_client p1)\<lparr>s_ctx := c\<rparr>) p1)) } }"

section \<open>One step of \<open>RWEventHandle\<close>\<close>

definition advance :: "side \<Rightarrow> pconn \<Rightarrow> (flow \<times> pconn) option" where
  "advance sd p = do { p1 \<leftarrow> predictNextState p; Some (Again, disable_both sd p1) }"

definition ret_of :: "(int \<times> pconn) option \<Rightarrow> (flow \<times> pconn) option" where
  "ret_of x = map_option (\<lambda>(r, p). (Ret r, p)) x"

definition break_of :: "(int \<times> pconn) option \<Rightarrow> (flow \<times> pconn) option" where
  "break_of x = map_option (\<lambda>(r, p). (Ret EVENT_CALLBACK_BREAK, p)) x"

definition bad_request :: "pconn \<Rightarrow> (flow \<times> pconn) option" where
  "bad_request p = do { p1 \<leftarrow> notify_error prepare400Response p; (_, p2) \<leftarrow> forceCloseServer p1; advance CSide p2 }"

definition unavailable :: "pconn \<Rightarrow> (flow \<times> pconn) option" where
  "unavailable p = do { p1 \<leftarrow> notify_error prepare503Response p; advance CSide p1 }"

definition rw_parsed :: "side \<Rightarrow> int \<Rightarrow> pconn \<Rightarrow> (flow \<times> pconn) option" where
  "rw_parsed sd ret p =
     (if ret = HP_PARSE_ERROR then
        (case sd of CSide \<Rightarrow> bad_request p | SSide \<Rightarrow> break_of (forceCloseProxy p))
      else if ret = HP_PARSE_NEED_MOREDATA then
        (case sd of
           CSide \<Rightarrow> (if getServerConnectState p = SERVER_CONNECT_ERROR then unavailable p
                     else Some (Ret EVENT_CALLBACK_CONTINUE, p))
         | SSide \<Rightarrow> Some (Ret EVENT_CALLBACK_CONTINUE, p))
      else
        (case sd of
           CSide \<Rightarrow>
             (case getServerConnectState p of
                SERVER_CONNECT_ERROR \<Rightarrow> unavailable p
              | SERVER_CONNECT_ING \<Rightarrow>
                  do { p1 \<leftarrow> predictNextState p; Some (Ret EVENT_CALLBACK_BREAK, disable_both CSide p1) }
              | _ \<Rightarrow> advance CSide p)
         | SSide \<Rightarrow> advance SSide p))"

definition rw_received :: "px_env \<Rightarrow> side \<Rightarrow> int \<Rightarrow> pconn \<Rightarrow> (flow \<times> pconn) option" where
  "rw_received E sd recvn p =
     (if recvn = 0 then
        (if \<not> needMoreData (case sd of CSide \<Rightarrow> px_request p | SSide \<Rightarrow> px_response p) then advance sd p
         else Some (Ret EVENT_CALLBACK_CONTINUE, p))
      else do { (ret, p1) \<leftarrow> px_parse E sd recvn p; rw_parsed sd ret p1 })"

definition rw_recv :: "px_env \<Rightarrow> side \<Rightarrow> pconn \<Rightarrow> (flow \<times> pconn) option" where
  "rw_recv E sd p =
     do { (recvn, p1) \<leftarrow> px_recv sd (disable sd SOCKET_EVENT_WRITE (enable sd SOCKET_EVENT_READ p));
          if recvn < 0 then ret_of (closeHandle sd p1)
          else if \<not> SSLNoError (sock_of sd p1) (px_heap p1) then
           (let p2 = disable_both sd p1; ev = px_wanted sd p2
            in if ev = SOCKET_EVENT_NONE then ret_of (closeHandle sd p2)
               else if recvn = 0 \<and> ev AND SOCKET_EVENT_WRITE \<noteq> 0 then Some (Ret EVENT_CALLBACK_CONTINUE, enable sd ev p2)
               else rw_received E sd recvn (enable sd ev p2))
          else rw_received E sd recvn p1 }"

definition rw_send :: "side \<Rightarrow> pconn \<Rightarrow> (flow \<times> pconn) option" where
  "rw_send sd p =
     do { (sendn, p1) \<leftarrow> px_send sd (disable sd SOCKET_EVENT_READ (enable sd SOCKET_EVENT_WRITE p));
          if sendn < 0 then ret_of (closeHandle sd p1)
          else if \<not> isSendDone (px_bufs p1 (out_of sd p1)) then
            (if \<not> SSLNoError (sock_of sd p1) (px_heap p1) then
              (let p2 = disable_both sd p1; ev = px_wanted sd p2
               in if ev = SOCKET_EVENT_NONE then ret_of (closeHandle sd p2)
                  else Some (Ret EVENT_CALLBACK_CONTINUE, enable sd ev p2))
             else Some (Ret EVENT_CALLBACK_CONTINUE, p1))
          else advance sd p1 }"

definition tunnel_bodies :: "pconn \<Rightarrow> pconn" where
  "tunnel_bodies p =
     p\<lparr>px_request := labelTunnelBody (px_request p), px_response := labelTunnelBody (px_response p)\<rparr>"

definition clear_messages :: "pconn \<Rightarrow> pconn" where
  "clear_messages p =
     (let (rq, k1) = msg_clear (px_request p) (px_kern p); (rs, k2) = msg_clear (px_response p) k1
      in p\<lparr>px_request := rq, px_response := rs, px_kern := k2\<rparr>)"

text \<open>\<open>SERVER_SEND_REQUEST_DONE\<close>, into which the two cases before it fall through.\<close>

definition rw_done :: "pconn \<Rightarrow> (flow \<times> pconn) option" where
  "rw_done p =
     do { p1 \<leftarrow> predictNextState p;
          if px_state p1 = SERVER_HANDSHAKE then
            do { (r1, p2) \<leftarrow> px_prepareSSL SSide p1;
                 if r1 \<noteq> 0 then break_of (forceCloseProxy p2)
                 else do { (r2, p3) \<leftarrow> px_prepareSSL CSide p2;
                           if r2 \<noteq> 0 then break_of (forceCloseProxy p3) else Some (Again, p3) } }
          else Some (Again, p1) }"

definition SSLTunnelInit :: "pconn \<Rightarrow> pconn" where
  "SSLTunnelInit p =
     (let wr = (\<lambda>sd p. if readableBytes (px_bufs p (out_of sd p)) > 0 then enable sd SOCKET_EVENT_WRITE p
                       else disable sd SOCKET_EVENT_WRITE p);
          p1 = wr CSide (enable CSide SOCKET_EVENT_READ p);
          p2 = wr SSide (enable SSide SOCKET_EVENT_READ p1)
      in handle SSide H_TUNNEL_WRITE SOCKET_EVENT_WRITE (handle SSide H_TUNNEL_READ SOCKET_EVENT_READ
          (handle CSide H_TUNNEL_WRITE SOCKET_EVENT_WRITE (handle CSide H_TUNNEL_READ SOCKET_EVENT_READ p2))))"

text \<open>The peer of a socket, as \<open>PEER_SOCKETPTR\<close> works it out, is the socket itself.\<close>

definition SSLTunnelReadHandle :: "side \<Rightarrow> pconn \<Rightarrow> (int \<times> pconn) option" where
  "SSLTunnelReadHandle sd p =
     do { (recvn, p1) \<leftarrow> px_recv sd p;
          if recvn < 0 then closeHandle sd p1 else Some (EVENT_CALLBACK_CONTINUE, enable sd SOCKET_EVENT_WRITE p1) }"

definition SSLTunnelWriteHandle :: "side \<Rightarrow> pconn \<Rightarrow> (int \<times> pconn) option" where
  "SSLTunnelWriteHandle sd p =
     (if readableBytes (px_bufs p (out_of sd p)) = 0 then Some (EVENT_CALLBACK_CONTINUE, p)
      else
       do { (sendn, p1) \<leftarrow> px_send sd p;
            if sendn < 0 then closeHandle sd p1
            else if readableBytes (px_bufs p1 (out_of sd p)) > 0 then Some (EVENT_CALLBACK_CONTINUE, p1)
            else Some (EVENT_CALLBACK_CONTINUE, enable sd SOCKET_EVENT_READ (disable sd SOCKET_EVENT_WRITE p1)) })"

text \<open>The cases of the switch.\<close>

definition rw_init :: "pconn \<Rightarrow> (flow \<times> pconn) option" where
  "rw_init p =
     do { p1 \<leftarrow> predictNextState ((switchBuffers p)\<lparr>px_request := (px_request p)\<lparr>p_headerHook := Some 0\<rparr>\<rparr>); Some (Again, p1) }"

definition rw_decide :: "pconn \<Rightarrow> (flow \<times> pconn) option" where
  "rw_decide p =
     do { p1 \<leftarrow> predictNextState p;
          p2 \<leftarrow> (if px_state p1 = CLIENT_SEND_200OK then notify_200 p1 else Some p1);
          Some (Again, p2) }"

definition rw_server_handshake :: "px_env \<Rightarrow> pconn \<Rightarrow> (flow \<times> pconn) option" where
  "rw_server_handshake E p =
     do { (ret, p1) \<leftarrow> serverSSLHandShake (disable SSide SOCKET_EVENT_READ (enable SSide SOCKET_EVENT_WRITE p));
          if ret = TIGERSO_IO_RECALL then Some (Ret EVENT_CALLBACK_CONTINUE, p1)
          else if ret = TIGERSO_IO_ERROR then ret_of (forceCloseProxy p1)
          else do { (r, p2) \<leftarrow> resignCertificate E p1;
                    if r \<noteq> 0 then ret_of (forceCloseProxy p2) else advance SSide p2 } }"

definition rw_resetup :: "pconn \<Rightarrow> (flow \<times> pconn) option" where
  "rw_resetup p =
     do { p1 \<leftarrow> predictNextState p;
          (r, p2) \<leftarrow> px_resetup p1;
          if r < 0 then break_of (forceCloseProxy p2) else Some (Again, p2) }"

definition rw_client_handshake :: "pconn \<Rightarrow> (flow \<times> pconn) option" where
  "rw_client_handshake p =
     do { (ret, p1) \<leftarrow> clientSSLHandShake (disable CSide SOCKET_EVENT_WRITE (enable CSide SOCKET_EVENT_READ p));
          if ret = TIGERSO_IO_ERROR then break_of (forceCloseProxy p1)
          else if ret = TIGERSO_IO_RECALL then Some (Ret EVENT_CALLBACK_CONTINUE, p1)
          else advance CSide p1 }"

definition rw_next :: "pconn \<Rightarrow> (flow \<times> pconn) option" where
  "rw_next p = do { p1 \<leftarrow> predictNextState p; Some (Again, p1) }"

definition rw_step :: "px_env \<Rightarrow> pconn \<Rightarrow> (flow \<times> pconn) option" where
  "rw_step E p =
     (case px_state p of
        PROXY_INIT \<Rightarrow> rw_init p
      | CLIENT_RECV_REQUEST \<Rightarrow> rw_recv E CSide (tunnel_bodies p)
      | SERVER_RECV_RESPONSE \<Rightarrow> rw_recv E SSide p
      | CLIENT_RECV_REQUEST_DONE \<Rightarrow> rw_decide p
      | SERVER_RECV_RESPONSE_DONE \<Rightarrow> rw_decide p
      | CLIENT_SEND_200OK \<Rightarrow> rw_send CSide p
      | CLIENT_SEND_RESPONSE \<Rightarrow> rw_send CSide p
      | SERVER_SEND_REQUEST \<Rightarrow> rw_send SSide p
      | CLIENT_SEND_200OK_DONE \<Rightarrow> rw_done (clear_messages p)
      | CLIENT_SEND_RESPONSE_DONE \<Rightarrow> rw_done (clear_messages p)
      | SERVER_SEND_REQUEST_DONE \<Rightarrow> rw_done p
      | TCP_TUNNEL \<Rightarrow> Some (Again, SSLTunnelInit p)
      | SERVER_HANDSHAKE \<Rightarrow> rw_server_handshake E p
      | SERVER_HANDSHAKE_DONE \<Rightarrow> rw_resetup p
      | CLIENT_HANDSHAKE \<Rightarrow> rw_client_handshake p
      | CLIENT_HANDSHAKE_DONE \<Rightarrow> rw_next p
      | _ \<Rightarrow> break_of (forceCloseProxy p))"

text \<open>The loop of \<open>RWEventHandle\<close>; \<open>None\<close> when the rounds or the answers run out.\<close>

fun RWEventHandle :: "nat \<Rightarrow> px_env \<Rightarrow> pconn \<Rightarrow> (int \<times> pconn) option" where
  "RWEventHandle 0 E p = None"
| "RWEventHandle (Suc n) E p =
     (case rw_step E p of
        None \<Rightarrow> None
      | Some (Ret r, p1) \<Rightarrow> Some (r, p1)
      | Some (Again, p1) \<Rightarrow> RWEventHandle n E p1)"

definition readHandle :: "nat \<Rightarrow> px_env \<Rightarrow> pconn \<Rightarrow> (int \<times> pconn) option" where
  "readHandle n E p = RWEventHandle n E p"

definition writeHandle :: "nat \<Rightarrow> px_env \<Rightarrow> pconn \<Rightarrow> (int \<times> pconn) option" where
  "writeHandle n E p = RWEventHandle n E p"

text \<open>\<open>serverConnectHandle\<close> when the resolver answers later: the client may be waiting for it.\<close>

definition serverConnectHandle :: "nat \<Rightarrow> px_env \<Rightarrow> bytes \<Rightarrow> pconn \<Rightarrow> (int \<times> pconn) option" where
  "serverConnectHandle n E ipaddr p =
     do { (ret, p1) \<leftarrow> server_connect E ipaddr p;
          if px_state p1 = CLIENT_RECV_REQUEST_DONE then
            (if ret = 0 then do { (_, p2) \<leftarrow> RWEventHandle n E p1; Some (ret, p2) }
             else do { p2 \<leftarrow> notify_error prepare503Response p1; Some (ret, enable CSide SOCKET_EVENT_WRITE p2) })
          else Some (ret, p1) }"

end
