(* ===== verification/NetFlow.thy ===== *)
theory NetFlow
  imports NetBuf
begin

text \<open>
  What every operation of the network buffer keeps, whatever the kernel and \<open>realloc\<close> answer and
  whether or not the socket speaks TLS: the indices stay inside the array, the array never
  shrinks, and the bytes received or sent are exactly those that enter or leave the data.
\<close>

definition nb_wf :: "netbuf \<Rightarrow> bool" where
  "nb_wf b \<longleftrightarrow> pregap \<le> nb_rd b \<and> nb_rd b \<le> nb_wr b \<and> nb_wr b \<le> length (nb_mem b)"

definition nb_keeps :: "netbuf \<Rightarrow> netbuf \<Rightarrow> bool" where
  "nb_keeps b b' \<longleftrightarrow> nb_wf b' \<and> length (nb_mem b) \<le> length (nb_mem b') \<and> nb_msg b' = nb_msg b"

lemma nb_keeps_trans: "nb_keeps a b \<Longrightarrow> nb_keeps b c \<Longrightarrow> nb_keeps a c"
  by (simp add: nb_keeps_def)

lemma nb_keeps_refl: "nb_wf b \<Longrightarrow> nb_keeps b b"
  by (simp add: nb_keeps_def)

lemma wf_sizes:
  assumes "nb_wf b"
  shows "readableBytes b = nb_wr b - nb_rd b" "writeableBytes b = length (nb_mem b) - nb_wr b"
    "prefreeBytes b = nb_rd b - pregap" "length (nb_data b) = nb_wr b - nb_rd b"
  using assms by (auto simp: nb_wf_def readableBytes_def writeableBytes_def prefreeBytes_def sz_sub_ge nb_data_def)

lemma align_keeps:
  assumes "align b = Some b'" "nb_wf b"
  shows "nb_keeps b b' \<and> nb_data b' = nb_data b"
  using assms wf_sizes [OF assms(2)]
  by (auto simp: align_def nb_keeps_def nb_wf_def nb_data_def slice_def blit_def bind_eq_Some_conv split: if_splits)

lemma makeSpace_keeps:
  assumes "makeSpace grow len b = Some (r, b')" "nb_wf b"
  shows "nb_keeps b b' \<and> nb_data b' = nb_data b"
proof -
  obtain b1 where b1: "align b = Some b1" using assms(1) by (auto simp: makeSpace_def bind_eq_Some_conv)
  have k: "nb_keeps b b1" "nb_data b1 = nb_data b" using align_keeps [OF b1 assms(2)] by simp_all
  have "nb_keeps b1 b' \<and> nb_data b' = nb_data b1"
    using assms(1) b1 k(1)
    by (auto simp: makeSpace_def nb_keeps_def nb_wf_def nb_data_def bind_eq_Some_conv split: if_splits option.splits)
  then show ?thesis using k nb_keeps_trans by metis
qed

lemma append_keeps:
  assumes "nb_wf b" "blit (nb_wr b) xs (nb_mem b) = Some m"
  shows "nb_keeps b (b\<lparr>nb_mem := m, nb_wr := nb_wr b + length xs\<rparr>) \<and>
         nb_data (b\<lparr>nb_mem := m, nb_wr := nb_wr b + length xs\<rparr>) = nb_data b @ xs"
  using assms by (auto simp: nb_wf_def nb_keeps_def nb_data_def blit_def drop_take split: if_splits)

lemma addData_keeps:
  assumes "addData grow xs b = Some (n, b')" "nb_wf b"
  shows "nb_keeps b b' \<and> nb_data b' = nb_data b @ xs"
proof (cases "xs = []")
  case False
  then obtain r b1 m where "makeSpace grow (length xs) b = Some (r, b1)" "blit (nb_wr b1) xs (nb_mem b1) = Some m"
    "b' = b1\<lparr>nb_mem := m, nb_wr := nb_wr b1 + length xs\<rparr>"
    using assms(1) by (auto simp: addData_def bind_eq_Some_conv)
  then show ?thesis using makeSpace_keeps [OF _ assms(2)] append_keeps nb_keeps_trans nb_keeps_def by metis
qed (use assms in \<open>simp add: addData_def nb_keeps_refl\<close>)

subsection \<open>Receiving\<close>

lemma Recv_fd: "Recv nb r sd m h = Some (ret, rn, m', h') \<Longrightarrow> s_fd m' = s_fd m"
  by (auto simp: Recv_def Let_def split: if_splits option.splits)

lemma recv_loop_keeps:
  "recv_loop len ext outs b m h = Some (ret, len', b', m', h') \<Longrightarrow> nb_wf b \<Longrightarrow>
   nb_keeps b b' \<and> s_fd m' = s_fd m \<and> (\<exists>got. nb_data b' = nb_data b @ got \<and> len' = len + length got)"
proof (induction outs arbitrary: len ext b m h)
  case (Cons x outs)
  obtain r sd xs grow where x: "x = (r, sd, xs, grow)" by (cases x)
  obtain s rn m1 h1 where R: "Recv 0 (cap_to (writeableBytes b) r) sd m h = Some (s, rn, m1, h1)"
    using Cons.prems(1) x by (auto simp: bind_eq_Some_conv)
  show ?case
  proof (cases "s > 0")
    case False
    then show ?thesis using Cons.prems R x Recv_fd [OF R] nb_keeps_refl by auto
  next
    case True
    obtain n data mem where n: "rn = Some n" "slice 0 n xs = Some data" "blit (nb_wr b) data (nb_mem b) = Some mem"
      using Cons.prems(1) x R True by (auto simp: bind_eq_Some_conv)
    have ln: "length data = n" using n(2) by (auto simp: slice_def split: if_splits)
    define b1 where "b1 = b\<lparr>nb_mem := mem, nb_wr := nb_wr b + n\<rparr>"
    have b1: "nb_keeps b b1" "nb_data b1 = nb_data b @ data"
      using append_keeps [OF Cons.prems(2) n(3)] by (simp_all add: b1_def ln)
    have next': "\<exists>b2 ext'. nb_keeps b1 b2 \<and> nb_data b2 = nb_data b1 \<and>
        recv_loop (len + n) ext' outs b2 m1 h1 = Some (ret, len', b', m', h')"
    proof (cases "writeableBytes b1 < pregap")
      case True
      then obtain q b2 where q: "makeSpace grow ext b1 = Some (q, b2)"
        "recv_loop (len + n) (2 * ext) outs b2 m1 h1 = Some (ret, len', b', m', h')"
        using Cons.prems(1) x R \<open>s > 0\<close> n b1_def by (auto simp: bind_eq_Some_conv Let_def)
      then show ?thesis using makeSpace_keeps [OF q(1)] b1(1) nb_keeps_def by blast
    next
      case False
      then show ?thesis
        using Cons.prems(1) x R \<open>s > 0\<close> n b1 nb_keeps_refl [of b1]
        by (intro exI [of _ b1] exI [of _ ext]) (auto simp: Let_def b1_def [symmetric] nb_keeps_def)
    qed
    then obtain b2 ext' where b2: "nb_keeps b1 b2" "nb_data b2 = nb_data b1"
      "recv_loop (len + n) ext' outs b2 m1 h1 = Some (ret, len', b', m', h')" by blast
    have "nb_wf b2" using b2(1) by (simp add: nb_keeps_def)
    from Cons.IH [OF b2(3) this] obtain got where "nb_keeps b2 b'" "s_fd m' = s_fd m1" "nb_data b' = nb_data b2 @ got"
      "len' = len + n + length got" by blast
    then show ?thesis
      using b1 b2(1,2) Recv_fd [OF R] nb_keeps_trans [OF b1(1) nb_keeps_trans [OF b2(1)]] ln
      by (intro conjI exI [of _ "data @ got"]) auto
  qed
qed simp

lemma setNIO_fd: "setNIO u g s m k = (m', k') \<Longrightarrow> s_fd m' = s_fd m"
  by (auto simp: setNIO_def split: if_splits)

lemma recvNIO_keeps:
  assumes "recvNIO g s outs (Some b) m k h = Some (n, b1, m', k', h')" "nb_wf b"
  shows "\<exists>b' got. b1 = Some b' \<and> nb_keeps b b' \<and> s_fd m' = s_fd m \<and> (n \<ge> 0 \<longrightarrow> exist m') \<and> nb_data b' = nb_data b @ got \<and>
           (n \<ge> 0 \<longrightarrow> n = int (length got))"
proof -
  obtain m1 k1 where s: "setNIO True g s m k = (m1, k1)" by fastforce
  show ?thesis
  proof (cases "exist m1")
    case False
    then show ?thesis
      using assms s setNIO_fd [OF s] nb_keeps_refl [OF assms(2)] by (auto simp: recvNIO_def)
  next
    case True
    then obtain b' where r: "recvFromSocket outs b m1 h = Some (n, b', m', h')" "b1 = Some b'"
      using assms(1) s by (auto simp: recvNIO_def bind_eq_Some_conv)
    then obtain ret len where l: "recv_loop 0 gain_gap outs b m1 h = Some (ret, len, b', m', h')"
      "n = (if ret \<noteq> TIGERSO_IO_ERROR then int len else TIGERSO_IO_ERROR)"
      by (auto simp: recvFromSocket_def bind_eq_Some_conv)
    obtain got where g: "nb_data b' = nb_data b @ got" "len = length got"
      using recv_loop_keeps [OF l(1) assms(2)] by auto
    show ?thesis
      using recv_loop_keeps [OF l(1) assms(2)] g l(2) r(2) True setNIO_fd [OF s]
      by (intro exI [of _ b'] exI [of _ got]) (auto simp: exist_def split: if_splits)
  qed
qed

subsection \<open>Sending\<close>

lemma Send_ok:
  assumes "Send nb r sd m h = Some (s, sn, m', h')" "s > 0" "fst r \<le> int len" "len < 2 ^ 64"
  shows "\<exists>n. sn = Some n \<and> n \<le> len"
proof -
  have t: "0 \<le> x \<Longrightarrow> x \<le> int len \<Longrightarrow> to_size x \<le> len" for x
    using assms(4) by (simp add: to_size_def)
  show ?thesis
  proof (cases "isSSL m h")
    case False
    then show ?thesis using assms t [of "fst r"] by (auto simp: Send_def split: if_splits)
  next
    case True
    then obtain ret q c1 h1 where c: "ctx_send nb r sd (s_ctx m) h = Some (ret, q, c1, h1)"
      using assms(1) by (auto simp: Send_def split: option.splits)
    have "q = Some (fst r) \<and> fst r > 0" if "ret \<noteq> SCTX_IO_ERROR" "ret \<noteq> SCTX_IO_RECALL"
      using c that by (auto simp: ctx_send_def bind_eq_Some_conv Let_def split: option.splits if_splits)
    then show ?thesis
      using assms(1,2,3) True c t [of "fst r"] by (auto simp: Send_def Let_def split: if_splits)
  qed
qed

lemma Send_fd: "Send nb r sd m h = Some (ret, rn, m', h') \<Longrightarrow> s_fd m' = s_fd m"
  by (auto simp: Send_def Let_def split: if_splits option.splits)

lemma nb_send_loop_keeps:
  "nb_send_loop len ret0 outs b w = Some (ret, len', b', w') \<Longrightarrow> nb_wf b \<Longrightarrow> length (nb_mem b) < 2 ^ 64 \<Longrightarrow>
   nb_wf b' \<and> nb_mem b' = nb_mem b \<and> nb_msg b' = nb_msg b \<and>
   (\<exists>sent. w_out w' = w_out w @ sent \<and> sent @ nb_data b' = nb_data b)"
proof (induction outs arbitrary: len ret0 b w)
  case Nil
  then show ?case by (auto split: if_splits)
next
  case (Cons x outs)
  obtain r sd where x: "x = (r, sd)" by (cases x)
  show ?case
  proof (cases "readableBytes b > 0")
    case False
    then show ?thesis using Cons.prems x by auto
  next
    case True
    have sl: "slice (nb_rd b) (readableBytes b) (nb_mem b) = Some (nb_data b)"
      using wf_sizes(1) [OF Cons.prems(2)] Cons.prems(2) by (simp add: slice_def nb_data_def nb_wf_def)
    obtain s sn m1 h1 where S: "Send 0 (capped (nb_data b) r) sd (w_sock w) (w_heap w) = Some (s, sn, m1, h1)"
      using Cons.prems(1) True x sl by (auto simp: bind_eq_Some_conv)
    show ?thesis
    proof (cases "s > 0")
      case False
      then show ?thesis using Cons.prems True x sl S by (auto simp: Let_def)
    next
      case s: True
      have len: "length (nb_data b) < 2 ^ 64" using Cons.prems(2,3) wf_sizes(4) [OF Cons.prems(2)] by (simp add: nb_wf_def) linarith
      obtain n where n: "sn = Some n" "n \<le> length (nb_data b)"
        using Send_ok [OF S s _ len] by (auto simp: capped_def)
      let ?b = "b\<lparr>nb_rd := nb_rd b + n\<rparr>" and ?w = "w\<lparr>w_sock := m1, w_heap := h1, w_out := w_out w @ take n (nb_data b)\<rparr>"
      have "nb_send_loop (len + n) 1 outs ?b ?w = Some (ret, len', b', w')"
        using Cons.prems(1) True x sl S s n(1) by (simp add: Let_def)
      moreover have "nb_wf ?b" "nb_data ?b = drop n (nb_data b)"
        using Cons.prems(2) n(2) wf_sizes(4) [OF Cons.prems(2)] by (auto simp: nb_wf_def nb_data_def drop_take add.commute)
      moreover have "length (nb_mem ?b) < 2 ^ 64" using Cons.prems(3) by simp
      ultimately obtain sent where "nb_wf b'" "nb_mem b' = nb_mem b" "nb_msg b' = nb_msg b"
        "w_out w' = w_out ?w @ sent" "sent @ nb_data b' = drop n (nb_data b)"
        using Cons.IH [of "len + n" 1 ?b ?w] by auto
      then show ?thesis by (auto intro!: exI [of _ "take n (nb_data b) @ sent"])
    qed
  qed
qed

lemma sendToSocket_keeps:
  assumes "sendToSocket body outs b w = Some (ret, b', w')" "nb_wf b" "length (nb_mem b) < 2 ^ 64" "\<not> nb_msg b"
  shows "nb_keeps b b' \<and> (\<exists>sent. w_out w' = w_out w @ sent \<and> sent @ nb_data b' = nb_data b)"
proof -
  obtain r len b1 w1 where l: "nb_send_loop 0 0 outs b w = Some (r, len, b1, w1)"
    using assms(1) by (auto simp: sendToSocket_def bind_eq_Some_conv)
  obtain sent where s: "nb_wf b1" "nb_mem b1 = nb_mem b" "nb_msg b1 = nb_msg b" "w_out w1 = w_out w @ sent"
    "sent @ nb_data b1 = nb_data b"
    using nb_send_loop_keeps [OF l assms(2,3)] by blast
  show ?thesis
  proof (cases "nb_wr b1 = nb_rd b1")
    case True
    then have "b' = nb_clear b1" "w' = w1" using assms(1,4) l s(3) by (auto simp: sendToSocket_def)
    moreover have "nb_data b1 = []" "nb_data (nb_clear b1) = []" using True by (simp_all add: nb_data_def nb_clear_def)
    ultimately show ?thesis using s assms(4) by (auto simp: nb_keeps_def nb_wf_def nb_clear_def)
  next
    case False
    then obtain b2 where b2: "(if nb_wr b1 < nb_rd b1 + gain_gap then align b1 else Some b1) = Some b2" "b' = b2" "w' = w1"
      using assms(1) l by (auto simp: sendToSocket_def bind_eq_Some_conv)
    then have "nb_keeps b1 b2 \<and> nb_data b2 = nb_data b1"
      using align_keeps [OF _ s(1)] nb_keeps_refl [OF s(1)] by (auto split: if_splits)
    then show ?thesis using s b2 by (auto simp: nb_keeps_def)
  qed
qed

subsection \<open>The array never shrinks\<close>

lemma align_len: "align b = Some b' \<Longrightarrow> length (nb_mem b') = length (nb_mem b)"
  by (auto simp: align_def bind_eq_Some_conv dest: blit_length split: if_splits)

lemma makeSpace_len: "makeSpace grow len b = Some (r, b') \<Longrightarrow> length (nb_mem b) \<le> length (nb_mem b')"
  by (auto simp: makeSpace_def bind_eq_Some_conv dest!: align_len split: if_splits option.splits)

lemma addData_len: "addData grow xs b = Some (n, b') \<Longrightarrow> length (nb_mem b) \<le> length (nb_mem b')"
  by (auto simp: addData_def bind_eq_Some_conv dest!: makeSpace_len blit_length split: if_splits)

lemma recv_loop_len:
  "recv_loop len ext outs b m h = Some (ret, len', b', m', h') \<Longrightarrow> length (nb_mem b) \<le> length (nb_mem b') \<and> s_fd m' = s_fd m"
proof (induction outs arbitrary: len ext b m h)
  case (Cons x outs)
  obtain r sd xs grow where x: "x = (r, sd, xs, grow)" by (cases x)
  obtain s rn m1 h1 where R: "Recv 0 (cap_to (writeableBytes b) r) sd m h = Some (s, rn, m1, h1)"
    using Cons.prems(1) x by (auto simp: bind_eq_Some_conv)
  show ?case
  proof (cases "s > 0")
    case False
    then show ?thesis using Cons.prems R x Recv_fd [OF R] by auto
  next
    case True
    obtain n data mem where n: "rn = Some n" "slice 0 n xs = Some data" "blit (nb_wr b) data (nb_mem b) = Some mem"
      using Cons.prems(1) x R True by (auto simp: bind_eq_Some_conv)
    define b1 where "b1 = b\<lparr>nb_mem := mem, nb_wr := nb_wr b + n\<rparr>"
    have l1: "length (nb_mem b1) = length (nb_mem b)" using blit_length [OF n(3)] by (simp add: b1_def)
    have "\<exists>b2 ext'. length (nb_mem b1) \<le> length (nb_mem b2) \<and>
        recv_loop (len + n) ext' outs b2 m1 h1 = Some (ret, len', b', m', h')"
      using Cons.prems(1) x R True n
      by (cases "writeableBytes b1 < pregap")
         (auto simp: bind_eq_Some_conv Let_def b1_def [symmetric] dest: makeSpace_len)
    then show ?thesis using Cons.IH l1 Recv_fd [OF R] by (metis order_trans)
  qed
qed simp

lemma recvNIO_len:
  assumes "recvNIO g s outs (Some b) m k h = Some (n, b1, m', k', h')"
  shows "\<exists>b'. b1 = Some b' \<and> length (nb_mem b) \<le> length (nb_mem b') \<and> s_fd m' = s_fd m \<and> (n \<ge> 0 \<longrightarrow> exist m')"
proof -
  obtain m1 k1 where s: "setNIO True g s m k = (m1, k1)" by fastforce
  show ?thesis
    using assms s setNIO_fd [OF s]
    by (auto simp: recvNIO_def recvFromSocket_def bind_eq_Some_conv exist_def dest!: recv_loop_len split: if_splits)
qed

lemma nb_send_loop_len: "nb_send_loop len ret0 outs b w = Some (ret, len', b', w') \<Longrightarrow> nb_mem b' = nb_mem b"
proof (induction outs arbitrary: len ret0 b w)
  case (Cons x outs)
  obtain r sd where x: "x = (r, sd)" by (cases x)
  show ?case
  proof (cases "readableBytes b > 0")
    case True
    then obtain xs s sn m1 h1 where S: "slice (nb_rd b) (readableBytes b) (nb_mem b) = Some xs"
      "Send 0 (capped xs r) sd (w_sock w) (w_heap w) = Some (s, sn, m1, h1)"
      using Cons.prems x by (auto simp: bind_eq_Some_conv)
    show ?thesis
    proof (cases "s > 0")
      case True
      then obtain n where "nb_send_loop (len + n) 1 outs (b\<lparr>nb_rd := nb_rd b + n\<rparr>)
          (w\<lparr>w_sock := m1, w_heap := h1, w_out := w_out w @ take n xs\<rparr>) = Some (ret, len', b', w')"
        using Cons.prems x S \<open>readableBytes b > 0\<close> by (auto simp: bind_eq_Some_conv Let_def)
      from Cons.IH [OF this] show ?thesis by simp
    qed (use Cons.prems x S True in \<open>auto simp: Let_def\<close>)
  qed (use Cons.prems x in auto)
qed (auto split: if_splits)

lemma sendToSocket_len:
  assumes "sendToSocket body outs b w = Some (ret, b', w')"
  shows "length (nb_mem b') = length (nb_mem b)"
proof -
  obtain r len b1 w1 where l: "nb_send_loop 0 0 outs b w = Some (r, len, b1, w1)"
    using assms by (auto simp: sendToSocket_def bind_eq_Some_conv)
  have "length (nb_mem b') = length (nb_mem b1)"
    using assms l align_len [of b1] by (auto simp: sendToSocket_def nb_clear_def bind_eq_Some_conv split: if_splits)
  then show ?thesis using nb_send_loop_len [OF l] by simp
qed

end
