(* ===== verification/ProxyFrame.thy ===== *)
theory ProxyFrame
  imports ProxyConn NetFlow
begin

text \<open>
  What the operations of a proxy connection leave alone. The core of a connection are its state,
  the client's descriptor, the buffers, the handler for the end of the headers, the server it
  is meant to talk to and the bytes that passed; most operations keep all of it. The locale
  \<open>proxy_rel\<close> lifts a relation from the few operations that change the core to every
  handler; it is interpreted for each invariant of the connection.
\<close>

definition core where
  "core p = (px_state p, s_fd (px_client p), px_bufs p, (px_cin p, px_cout p, px_sin p, px_sout p),
             p_headerHook (px_request p), (px_host p, px_port p), px_recycled p,
             (px_rx_c p, px_tx_c p, px_rx_s p, px_tx_s p))"

lemma core_eq: "core p' = core p \<longleftrightarrow>
  px_state p' = px_state p \<and> s_fd (px_client p') = s_fd (px_client p) \<and> px_bufs p' = px_bufs p \<and>
  px_cin p' = px_cin p \<and> px_cout p' = px_cout p \<and> px_sin p' = px_sin p \<and> px_sout p' = px_sout p \<and>
  p_headerHook (px_request p') = p_headerHook (px_request p) \<and> px_host p' = px_host p \<and> px_port p' = px_port p \<and>
  px_recycled p' = px_recycled p \<and> px_rx_c p' = px_rx_c p \<and> px_tx_c p' = px_tx_c p \<and>
  px_rx_s p' = px_rx_s p \<and> px_tx_s p' = px_tx_s p"
  by (auto simp: core_def)

lemma core_exist: "core p' = core p \<Longrightarrow> exist (px_client p') = exist (px_client p)"
  by (simp add: core_eq exist_def)

lemma core_ask: "ask kind p = Some (a, p') \<Longrightarrow> core p' = core p \<and> px_client p' = px_client p \<and> px_server p' = px_server p \<and>
    px_request p' = px_request p \<and> px_response p' = px_response p \<and> px_notify p' = px_notify p"
  by (auto simp: ask_def core_eq split: list.splits)

lemma core_emit [simp]: "core (emit xs p) = core p"
  by (simp add: core_eq emit_def)

lemma core_events [simp]:
  "core (enable sd f p) = core p" "core (disable sd f p) = core p" "core (disable_both sd p) = core p"
  "core (handle sd h f p) = core p" "core (disable_all sd p) = core p"
  by (simp_all add: enable_def disable_def disable_both_def handle_def disable_all_def)

lemma emit_fields [simp]:
  "px_state (emit xs p) = px_state p" "px_client (emit xs p) = px_client p" "px_server (emit xs p) = px_server p"
  "px_request (emit xs p) = px_request p" "px_recycled (emit xs p) = px_recycled p" "px_bufs (emit xs p) = px_bufs p"
  by (simp_all add: emit_def)

lemma events_fields [simp]:
  "px_state (enable sd f p) = px_state p" "px_client (enable sd f p) = px_client p" "px_server (enable sd f p) = px_server p"
  "px_state (disable sd f p) = px_state p" "px_client (disable sd f p) = px_client p" "px_server (disable sd f p) = px_server p"
  "px_state (disable_both sd p) = px_state p" "px_client (disable_both sd p) = px_client p"
  "px_server (disable_both sd p) = px_server p" "px_recycled (disable_both sd p) = px_recycled p"
  "px_recycled (enable sd f p) = px_recycled p" "px_recycled (disable sd f p) = px_recycled p"
  "px_state (handle sd h f p) = px_state p" "px_client (handle sd h f p) = px_client p"
  by (simp_all add: enable_def disable_def disable_both_def handle_def)

lemmas px_simps = core_eq set_heap_def set_sock_def sock_of_def emit_def bind_eq_Some_conv Let_def

lemma core_tcpClose_server: "px_tcpClose SSide p = Some p' \<Longrightarrow> core p' = core p"
  by (auto simp: px_tcpClose_def px_simps dest!: core_ask)

lemma core_close_server: "px_close SSide p = Some (r, p') \<Longrightarrow> core p' = core p"
  by (auto simp: px_close_def px_simps dest!: core_ask)

lemma core_close_wait: "close_wait SSide p = Some (w, p') \<Longrightarrow> core p' = core p"
  by (auto simp: close_wait_def bind_eq_Some_conv Let_def dest!: core_close_server core_tcpClose_server split: if_splits)

lemma core_forceCloseServer:
  assumes "forceCloseServer p = Some (r, p')" "exist (px_client p)"
  shows "core p' = core p"
proof -
  obtain p1 where 1: "px_tcpClose SSide p = Some p1" "p' = (if \<not> exist (px_client p1) then px_recycle p1 else p1)"
    using assms(1) by (auto simp: forceCloseServer_def bind_eq_Some_conv)
  have "core p1 = core p" using 1(1) by (rule core_tcpClose_server)
  then show ?thesis using 1(2) assms(2) core_exist [of p1 p] by simp
qed

lemma core_set [simp]: "core (p\<lparr>px_resolve := x\<rparr>) = core p" "core (p\<lparr>px_resolve_cb := y\<rparr>) = core p"
  "core (p\<lparr>px_kern := k\<rparr>) = core p" "core (p\<lparr>px_response := m\<rparr>) = core p" "core (p\<lparr>px_notify := m\<rparr>) = core p"
  "core (set_heap h p) = core p" "core (set_sock SSide s p) = core p"
  by (simp_all add: core_eq set_heap_def set_sock_def)

lemma core_request: "p_headerHook m = p_headerHook (px_request p) \<Longrightarrow> core (p\<lparr>px_request := m\<rparr>) = core p"
  by (simp add: core_eq)

lemma getHostPort_hook: "getHostPort m = (port, m') \<Longrightarrow> p_headerHook m' = p_headerHook m"
  by (auto simp: getHostPort_def Let_def split: if_splits)

lemma getHost_hook: "getHost m = Some (host, m') \<Longrightarrow> p_headerHook m' = p_headerHook m"
  by (auto simp: getHost_def Let_def bind_eq_Some_conv split: if_splits)

lemma core_server_connect:
  assumes "server_connect E ip p = Some (r, p')"
  shows "core p' = core p"
proof (cases "ip = []")
  case False
  then obtain c p1 where a: "ask ans_connect p = Some (c, p1)"
    using assms by (auto simp: server_connect_def bind_eq_Some_conv)
  obtain port m where m: "getHostPort (px_request p1) = (port, m)" by fastforce
  define p2 where "p2 = p1\<lparr>px_request := m\<rparr>"
  have p2: "core p2 = core p"
    using core_ask [OF a] getHostPort_hook [OF m] core_request [of m p1] by (simp add: p2_def)
  show ?thesis
    using assms False a
    by (auto simp: server_connect_def m p2_def [symmetric] p2 bind_eq_Some_conv Let_def split: if_splits prod.splits)
qed (use assms in \<open>simp add: server_connect_def\<close>)

lemma core_resolver_call: "resolver_call E ip p = Some (r, p') \<Longrightarrow> core p' = core p"
  by (auto simp: resolver_call_def bind_eq_Some_conv Let_def dest!: core_server_connect split: if_splits)

lemma core_resolver:
  assumes "resolver_resolve E host p = Some (r, p')"
  shows "core p' = core p"
proof (cases "ValidateAddr host")
  case True
  then show ?thesis using assms by (auto simp: resolver_resolve_def dest!: core_resolver_call)
next
  case False
  then obtain x p1 where "ask ans_resolve (p\<lparr>px_resolve := DNS_UINIT\<rparr>) = Some (x, p1)"
    using assms by (auto simp: resolver_resolve_def Let_def bind_eq_Some_conv)
  then show ?thesis
    using assms False by (cases x) (auto simp: resolver_resolve_def Let_def dest!: core_resolver_call core_ask)
qed

lemma core_response_parse: "response_parse s es n p = Some (r, p') \<Longrightarrow> core p' = core p"
  by (auto simp: response_parse_def core_eq bind_eq_Some_conv)

lemma core_handshake: "handshake sd call p = Some (r, p') \<Longrightarrow> core p' = core p"
  by (cases sd) (auto simp: handshake_def px_simps enable_def disable_def disable_both_def dest!: core_ask
      split: if_splits)

lemma core_serverHandshake: "serverSSLHandShake p = Some (r, p') \<Longrightarrow> core p' = core p"
  by (auto simp: serverSSLHandShake_def dest: core_handshake split: if_splits)

lemma core_clientHandshake: "clientSSLHandShake p = Some (r, p') \<Longrightarrow> core p' = core p"
  by (auto simp: clientSSLHandShake_def dest: core_handshake split: if_splits)

lemma prepareSSL_fd: "prepareSSLContext new set_fd sd m h = Some (r, m', h') \<Longrightarrow> s_fd m' = s_fd m"
  by (auto simp: prepareSSLContext_def bind_eq_Some_conv Let_def split: if_splits prod.splits)

lemma core_prepareSSL: "px_prepareSSL sd p = Some (r, p') \<Longrightarrow> core p' = core p"
  by (cases sd) (auto simp: px_prepareSSL_def px_simps dest!: core_ask prepareSSL_fd split:)

lemma core_resign: "resignCertificate E p = Some (r, p') \<Longrightarrow> core p' = core p"
  by (auto simp: resignCertificate_def px_simps dest!: core_ask)

lemma core_resetup: "px_resetup p = Some (r, p') \<Longrightarrow> core p' = core p"
  by (auto simp: px_resetup_def px_simps dest!: core_ask)

subsection \<open>Requests\<close>

lemma header_hook [simp]:
  "p_headerHook (setMethod s m) = p_headerHook m" "p_headerHook (setUrl s m) = p_headerHook m"
  "p_headerHook (setDesc s m) = p_headerHook m" "p_headerHook (setStatuscode c m) = p_headerHook m"
  "p_headerHook (set_header h v m) = p_headerHook m" "p_headerHook (snd (getHeader m)) = p_headerHook m"
  "p_headerHook (snd (body_decision ch m)) = p_headerHook m" "p_headerHook (labelTunnelBody m) = p_headerHook m"
  by (simp_all add: setMethod_def setUrl_def setDesc_def setStatuscode_def set_header_def getHeader_def body_decision_def
      labelTunnelBody_def Let_def)

lemma call_no_hook [simp]: "call_hook no_hook f m = m"
  by (simp add: call_hook_def no_hook_def split: option.split)

lemma on_event_hook: "on_event no_hook e m k = Some (m', k') \<Longrightarrow> p_headerHook m' = p_headerHook m"
proof (cases e)
  case (HeadersComplete a b c d x)
  moreover assume "on_event no_hook e m k = Some (m', k')"
  ultimately show ?thesis by (auto simp: on_headers_complete_def Let_def)
next
  case (BodyData s fuel outss res)
  moreover assume "on_event no_hook e m k = Some (m', k')"
  ultimately show ?thesis
    by (auto simp: on_body_def setBody_def bind_eq_Some_conv Let_def split: if_splits)
next
  case (MessageDone outs)
  moreover assume "on_event no_hook e m k = Some (m', k')"
  ultimately show ?thesis
    by (auto simp: on_message_complete_def bind_eq_Some_conv Let_def)
qed auto

lemma initParser_hook: "initParser m = (r, m') \<Longrightarrow> p_headerHook m' = p_headerHook m"
  by (auto simp: initParser_def split: if_splits)

text \<open>The connection apart from the server it is meant to talk to.\<close>

definition same_but_target :: "pconn \<Rightarrow> pconn \<Rightarrow> bool" where
  "same_but_target p p' \<longleftrightarrow> core (p'\<lparr>px_host := px_host p, px_port := px_port p\<rparr>) = core p \<and>
     (p_headerHook (px_request p) = None \<longrightarrow> core p' = core p)"

lemma target_core: "core p' = core p \<Longrightarrow> same_but_target p p'"
  by (auto simp: same_but_target_def core_eq)

lemma target_trans: "same_but_target p q \<Longrightarrow> same_but_target q r \<Longrightarrow> same_but_target p r"
  by (auto simp: same_but_target_def core_eq)

lemma target_fields: "same_but_target p p' \<Longrightarrow>
   px_state p' = px_state p \<and> s_fd (px_client p') = s_fd (px_client p) \<and> px_recycled p' = px_recycled p \<and>
   p_headerHook (px_request p') = p_headerHook (px_request p)"
  by (simp add: same_but_target_def core_eq)

lemma core_mark_head [simp]: "core (mark_head p) = core p"
  by (simp add: mark_head_def)

lemma retarget_target:
  assumes "retarget E host port p = Some (r, p')" "exist (px_client p)" "p_headerHook (px_request p) \<noteq> None"
  shows "same_but_target p p'"
proof -
  obtain x p1 where p1: "forceCloseServer p = Some (x, p1)"
    using assms(1) by (auto simp: retarget_def bind_eq_Some_conv)
  have c1: "core p1 = core p" using core_forceCloseServer [OF p1 assms(2)] .
  obtain rs k where cl: "msg_clear (px_response p1) (px_kern p1) = (rs, k)" by fastforce
  obtain y where "resolver_resolve E host
      (p1\<lparr>px_response := rs, px_kern := k, px_host := host, px_port := port, px_resolve_cb := True\<rparr>) = Some (y, p')"
    using assms(1) p1 cl by (auto simp: retarget_def bind_eq_Some_conv)
  from core_resolver [OF this] show ?thesis
    using c1 assms(3) by (auto simp: same_but_target_def core_eq)
qed

lemma header_handle_target:
  assumes "requestHeaderCompleteHandle E p = Some (r, p')" "exist (px_client p)" "p_headerHook (px_request p) \<noteq> None"
  shows "same_but_target p p'"
proof -
  obtain host m1 where h: "getHost (px_request p) = Some (host, m1)"
    using assms(1) by (auto simp: requestHeaderCompleteHandle_def bind_eq_Some_conv)
  obtain port m2 where pt: "getHostPort m1 = (port, m2)" by fastforce
  define p1 where "p1 = mark_head (p\<lparr>px_request := m2\<rparr>)"
  have c1: "core p1 = core p"
    using getHost_hook [OF h] getHostPort_hook [OF pt] core_request [of m2 p] by (simp add: p1_def)
  then have "p' = p1 \<or> retarget E host port p1 = Some (r, p')"
    using assms(1) by (auto simp: requestHeaderCompleteHandle_def h pt p1_def [symmetric] Let_def split: if_splits)
  moreover have "exist (px_client p1)" "p_headerHook (px_request p1) \<noteq> None"
    using core_exist [OF c1] c1 assms(2,3) by (simp_all add: core_eq)
  ultimately show ?thesis
    using retarget_target target_core [OF c1] target_trans by blast
qed

lemma request_events_target:
  "request_events E es p = Some p' \<Longrightarrow> exist (px_client p) \<Longrightarrow> same_but_target p p'"
proof (induction es arbitrary: p)
  case Nil
  then show ?case by (simp add: target_core)
next
  case (Cons e es)
  obtain m k p2 where e: "on_event no_hook e (px_request p) (px_kern p) = Some (m, k)"
    "headers_end E e (p\<lparr>px_request := m, px_kern := k\<rparr>) = Some p2" "request_events E es p2 = Some p'"
    using Cons.prems(1) by (auto simp: bind_eq_Some_conv)
  define p1 where "p1 = p\<lparr>px_request := m, px_kern := k\<rparr>"
  have c1: "core p1 = core p" using on_event_hook [OF e(1)] by (simp add: p1_def core_eq)
  then have ex: "exist (px_client p1)" using core_exist Cons.prems(2) by blast
  have t: "same_but_target p1 p2"
    using e(2) header_handle_target [OF _ ex] target_core [of p2 p1]
    by (auto simp: headers_end_def p1_def [symmetric] split: if_splits)
  have "exist (px_client p2)" using target_fields [OF t] ex by (simp add: exist_def)
  then show ?case using Cons.IH [OF e(3)] t target_core [OF c1] target_trans by blast
qed

lemma request_parse_target:
  assumes "request_parse E s es n p = Some (r, p')" "exist (px_client p)"
  shows "same_but_target p p'"
proof -
  obtain q m where i: "initParser (px_request p) = (q, m)" by fastforce
  define p1 where "p1 = p\<lparr>px_request := m\<rparr>"
  have c1: "core p1 = core p" using initParser_hook [OF i] by (simp add: p1_def core_eq)
  show ?thesis
  proof (cases "q = 0")
    case False
    then have "p' = p1" using assms(1) i by (simp add: request_parse_def p1_def)
    then show ?thesis using c1 target_core by simp
  next
    case True
    then obtain p2 where p2: "request_events E es p1 = Some p2"
      "p' = p2\<lparr>px_request := (px_request p2)\<lparr>p_parsedn := n\<rparr>\<rparr>"
      using assms(1) i by (auto simp: request_parse_def p1_def [symmetric] bind_eq_Some_conv Let_def)
    have "exist (px_client p1)" using c1 core_exist assms(2) by blast
    then have "same_but_target p1 p2" using request_events_target [OF p2(1)] by simp
    moreover have "core p' = core p2" by (simp add: p2(2) core_eq)
    ultimately show ?thesis using c1 target_core target_trans by blast
  qed
qed

lemma px_parse_target:
  assumes "px_parse E sd n p = Some (r, p')" "sd = CSide \<Longrightarrow> exist (px_client p)"
  shows "same_but_target p p'"
proof -
  obtain es k p1 where a: "ask ans_parse p = Some ((es, k), p1)"
    using assms(1) by (auto simp: px_parse_def bind_eq_Some_conv)
  have c1: "core p1 = core p" using core_ask [OF a] by simp
  obtain s where "(case sd of CSide \<Rightarrow> request_parse E s es k p1 | SSide \<Rightarrow> response_parse s es k p1) = Some (r, p')"
    using assms(1) a by (auto simp: px_parse_def bind_eq_Some_conv Let_def)
  then have "same_but_target p1 p'"
    using core_exist [OF c1] assms(2) request_parse_target core_response_parse target_core by (cases sd) fastforce+
  then show ?thesis using c1 target_core target_trans by blast
qed

subsection \<open>Buffers\<close>

text \<open>One buffer may change, and the logs of what passed.\<close>

definition but_buf :: "nat \<Rightarrow> netbuf \<Rightarrow> pconn \<Rightarrow> pconn \<Rightarrow> bool" where
  "but_buf i b p p' \<longleftrightarrow> px_bufs p' = (px_bufs p)(i := b) \<and> length (nb_mem (px_bufs p i)) \<le> length (nb_mem b) \<and>
     core (p'\<lparr>px_client := px_client p, px_bufs := px_bufs p, px_rx_c := px_rx_c p, px_tx_c := px_tx_c p,
              px_rx_s := px_rx_s p, px_tx_s := px_tx_s p\<rparr>) = core p"

lemma px_recvE:
  assumes "px_recv sd p = Some (n, p')"
  obtains b got where "but_buf (in_of sd p) b p p'" "s_fd (px_client p') = s_fd (px_client p)"
    "px_tx_c p' = px_tx_c p" "px_tx_s p' = px_tx_s p"
    "px_rx_c p' = (if sd = CSide then px_rx_c p @ got else px_rx_c p)"
    "n \<ge> 0 \<Longrightarrow> exist (sock_of sd p')"
    "nb_wf (px_bufs p (in_of sd p)) \<Longrightarrow> nb_keeps (px_bufs p (in_of sd p)) b \<and> nb_data b = nb_data (px_bufs p (in_of sd p)) @ got"
proof -
  obtain g s outs p1 where a: "ask ans_recv p = Some ((g, s, outs), p1)"
    using assms by (auto simp: px_recv_def bind_eq_Some_conv)
  have c: "core p1 = core p" "px_client p1 = px_client p" "px_server p1 = px_server p" using core_ask [OF a] by simp_all
  define i where "i = in_of sd p1"
  have i: "i = in_of sd p" using c(1) by (cases sd) (simp_all add: i_def in_of_def core_eq)
  obtain bo m k h where r: "recvNIO g s outs (Some (px_bufs p1 i)) (sock_of sd p1) (px_kern p1) (px_heap p1) = Some (n, bo, m, k, h)"
    using assms a by (auto simp: px_recv_def bind_eq_Some_conv Let_def i_def)
  obtain b where b: "bo = Some b" "length (nb_mem (px_bufs p1 i)) \<le> length (nb_mem b)" "s_fd m = s_fd (sock_of sd p1)"
    "n \<ge> 0 \<longrightarrow> exist m"
    using recvNIO_len [OF r] by auto
  define got where "got = drop (length (nb_data (px_bufs p1 i))) (nb_data b)"
  define p2 where "p2 = (set_heap h (set_sock sd m (set_buf i b p1)))\<lparr>px_kern := k\<rparr>"
  have p': "p' = (case sd of CSide \<Rightarrow> p2\<lparr>px_rx_c := px_rx_c p2 @ got\<rparr> | SSide \<Rightarrow> p2\<lparr>px_rx_s := px_rx_s p2 @ got\<rparr>)"
    using assms a r by (cases sd) (auto simp: px_recv_def Let_def b(1) got_def p2_def i_def)
  have bufs: "px_bufs p1 = px_bufs p" using c(1) by (simp add: core_eq)
  have d: "nb_wf (px_bufs p i) \<Longrightarrow> nb_keeps (px_bufs p i) b \<and> nb_data b = nb_data (px_bufs p i) @ got"
    using recvNIO_keeps [OF r] b(1) bufs by (auto simp: got_def)
  have w: "exist (sock_of sd p')" if "n \<ge> 0"
    using b(4) that p' by (cases sd) (simp_all add: sock_of_def p2_def set_heap_def set_sock_def set_buf_def)
  show thesis
  proof (rule that [of b got])
    show "but_buf (in_of sd p) b p p'"
      using c b(2) p' unfolding i [symmetric]
      by (cases sd) (simp_all add: but_buf_def core_eq p2_def set_heap_def set_sock_def set_buf_def)
    show "s_fd (px_client p') = s_fd (px_client p)"
      using c b(3) p' by (cases sd) (simp_all add: p2_def set_heap_def set_sock_def set_buf_def sock_of_def)
  qed (use c d w p' i in \<open>cases sd; simp add: core_eq p2_def set_heap_def set_sock_def set_buf_def\<close>)+
qed

lemma send_buffer_keeps:
  assumes "send_buffer r m b s k h = Some (n, m', b', s', k', h', out)"
  shows "length (nb_mem b') = length (nb_mem b) \<and>
    (nb_wf b \<and> length (nb_mem b) < 2 ^ 64 \<and> \<not> nb_msg b \<longrightarrow> nb_keeps b b' \<and> out @ nb_data b' = nb_data b)"
proof -
  define w where "w = \<lparr>w_body = m_body m, w_sock = s, w_heap = h, w_kern = k, w_out = [],
                           w_sends = sr_body_sends r, w_reads = sr_body_reads r\<rparr>"
  define g f where "g = sr_getfl r" and "f = sr_setfl r"
  define body where "body = body_send2Socket (sr_sendfile r) (sr_fuel r) (sr_rings r) (sr_files r)"
  define outs where "outs = sr_sends r"
  obtain w' where w': "sendNIO g f body outs (Some b) w = Some (n, Some b', w')" "out = w_out w'"
    using assms unfolding send_buffer_def w_def [symmetric] g_def [symmetric] f_def [symmetric] body_def [symmetric] outs_def [symmetric]
    by (auto simp: bind_eq_Some_conv)
  obtain m1 k1 where s: "setNIO True g f (w_sock w) (w_kern w) = (m1, k1)" by fastforce
  define w1 where "w1 = w\<lparr>w_sock := m1, w_kern := k1\<rparr>"
  have o: "w_out w1 = []" by (simp add: w1_def w_def)
  show ?thesis
  proof (cases "exist m1")
    case False
    then have "b' = b" "w' = w1" using w'(1) s by (auto simp: sendNIO_def w1_def)
    then show ?thesis using w'(2) o nb_keeps_refl by simp
  next
    case True
    then have "sendToSocket body outs b w1 = Some (n, b', w')"
      using w'(1) s by (auto simp: sendNIO_def w1_def bind_eq_Some_conv)
    then show ?thesis
      using sendToSocket_len [of body outs b w1] sendToSocket_keeps [of body outs b w1] w'(2) o by auto
  qed
qed

lemma px_sendE:
  assumes "px_send sd p = Some (n, p')"
  obtains b out where "but_buf (out_of sd p) b p p'" "sd = SSide \<Longrightarrow> px_client p' = px_client p"
    "px_rx_c p' = px_rx_c p" "px_rx_s p' = px_rx_s p"
    "px_tx_s p' = (if sd = SSide then px_tx_s p @ out else px_tx_s p)"
    "nb_wf (px_bufs p (out_of sd p)) \<and> length (nb_mem (px_bufs p (out_of sd p))) < 2 ^ 64 \<and> \<not> nb_msg (px_bufs p (out_of sd p)) \<Longrightarrow>
       nb_keeps (px_bufs p (out_of sd p)) b \<and> out @ nb_data b = nb_data (px_bufs p (out_of sd p))"
proof -
  obtain r p1 where a: "ask ans_send p = Some (r, p1)"
    using assms by (auto simp: px_send_def bind_eq_Some_conv)
  have c: "core p1 = core p" "px_client p1 = px_client p" using core_ask [OF a] by simp_all
  define i where "i = out_of sd p1"
  have i: "i = out_of sd p" using c(1) by (cases sd) (simp_all add: i_def out_of_def core_eq)
  obtain m b s k h out where r: "send_buffer r (px_notify p1) (px_bufs p1 i) (sock_of sd p1) (px_kern p1) (px_heap p1) = Some (n, m, b, s, k, h, out)"
    and p': "p' = (let p2 = set_heap h (set_sock sd s (set_buf i b p1))\<lparr>px_kern := k, px_notify := m\<rparr>
                   in case sd of CSide \<Rightarrow> p2\<lparr>px_tx_c := px_tx_c p2 @ out\<rparr> | SSide \<Rightarrow> p2\<lparr>px_tx_s := px_tx_s p2 @ out\<rparr>)"
    using assms a by (auto simp: px_send_def bind_eq_Some_conv Let_def i_def)
  have bufs: "px_bufs p1 = px_bufs p" using c(1) by (simp add: core_eq)
  note k = send_buffer_keeps [OF r, unfolded bufs]
  show thesis
  proof (rule that [of b out])
    show "but_buf (out_of sd p) b p p'"
      using c k p' unfolding i [symmetric]
      by (cases sd) (simp_all add: but_buf_def core_eq set_heap_def set_sock_def set_buf_def)
  qed (use c k p' i in \<open>cases sd; simp add: core_eq set_heap_def set_sock_def set_buf_def\<close>)+
qed

lemma attachE:
  assumes "attach_notice grow p = Some p'"
  obtains b where "but_buf (px_cout p) b p p'" "px_client p' = px_client p" "px_rx_c p' = px_rx_c p" "px_tx_c p' = px_tx_c p"
    "px_rx_s p' = px_rx_s p" "px_tx_s p' = px_tx_s p"
proof -
  obtain m b where a: "attach_message grow (px_notify p) (px_bufs p (px_cout p)) = Some (m, b)"
    "p' = set_buf (px_cout p) b (p\<lparr>px_notify := m\<rparr>)"
    using assms by (auto simp: attach_notice_def out_of_def bind_eq_Some_conv)
  have "length (nb_mem (px_bufs p (px_cout p))) \<le> length (nb_mem b)"
    using a(1) addData_len by (fastforce simp: attach_message_def attachHttpMessage_def nb_clear_def bind_eq_Some_conv Let_def split: prod.splits)
  then show thesis
    using that [of b] a(2) by (simp add: but_buf_def core_eq set_buf_def)
qed

subsection \<open>States\<close>

lemma but_buf_fields: "but_buf i b p p' \<Longrightarrow> px_state p' = px_state p \<and> px_recycled p' = px_recycled p"
  by (simp add: but_buf_def core_eq)

lemma core_fields: "core p' = core p \<Longrightarrow> px_state p' = px_state p \<and> px_recycled p' = px_recycled p"
  by (simp add: core_eq)

lemma recv_state: "px_recv sd p = Some (n, p') \<Longrightarrow> px_state p' = px_state p \<and> px_recycled p' = px_recycled p \<and>
    s_fd (px_client p') = s_fd (px_client p) \<and> (n \<ge> 0 \<longrightarrow> exist (sock_of sd p'))"
  by (erule px_recvE) (simp add: but_buf_fields)

lemma send_state: "px_send sd p = Some (n, p') \<Longrightarrow> px_state p' = px_state p \<and> px_recycled p' = px_recycled p"
  by (erule px_sendE) (simp add: but_buf_fields)

lemma attach_state: "attach_notice g p = Some p' \<Longrightarrow> px_state p' = px_state p \<and> px_recycled p' = px_recycled p \<and>
    px_client p' = px_client p"
  by (erule attachE) (simp add: but_buf_fields)

lemma notify_error_state:
  assumes "notify_error f p = Some p'"
  shows "px_state p' = px_state p \<and> px_recycled p' = px_recycled p \<and> px_client p' = px_client p"
proof -
  obtain a b c d p1 m k where 1: "ask ans_notify p = Some ((a, b, c, d), p1)"
    "attach_notice d (p1\<lparr>px_notify := m, px_kern := k\<rparr>) = Some p'"
    using assms by (auto simp: notify_error_def bind_eq_Some_conv)
  then show ?thesis using core_ask [OF 1(1)] attach_state [OF 1(2)] by (simp add: core_eq)
qed

lemma notify_200_state:
  assumes "notify_200 p = Some p'"
  shows "px_state p' = px_state p \<and> px_recycled p' = px_recycled p"
proof -
  obtain g p1 where 1: "ask ans_attach p = Some (g, p1)"
    "attach_notice g (p1\<lparr>px_notify := prepare200Response (px_notify p1)\<rparr>) = Some p'"
    using assms by (auto simp: notify_200_def bind_eq_Some_conv)
  then show ?thesis using core_ask [OF 1(1)] attach_state [OF 1(2)] by (simp add: core_eq)
qed

text \<open>Closing a side changes the core only in the client's descriptor.\<close>

definition but_client :: "pconn \<Rightarrow> pconn \<Rightarrow> bool" where
  "but_client p p' \<longleftrightarrow> core (p'\<lparr>px_client := px_client p\<rparr>) = core p"

lemma but_client_fields: "but_client p p' \<Longrightarrow> px_state p' = px_state p \<and> px_recycled p' = px_recycled p"
  by (simp add: but_client_def core_eq)

lemma but_client_core: "core p' = core p \<Longrightarrow> but_client p p'"
  by (simp add: but_client_def core_eq)

lemma but_client_trans: "but_client p q \<Longrightarrow> but_client q r \<Longrightarrow> but_client p r"
  by (simp add: but_client_def core_eq)

lemma tcpClose_but_client: "px_tcpClose sd p = Some p' \<Longrightarrow> but_client p p'"
  by (cases sd) (auto simp: px_tcpClose_def but_client_def px_simps dest!: core_ask)

lemma close_but_client: "px_close sd p = Some (r, p') \<Longrightarrow> but_client p p'"
  by (cases sd) (auto simp: px_close_def but_client_def px_simps dest!: core_ask)

lemma close_wait_but_client:
  assumes "close_wait sd p = Some (w, p')"
  shows "but_client p p'"
proof -
  obtain r p1 where 1: "px_close sd p = Some (r, p1)" using assms by (auto simp: close_wait_def bind_eq_Some_conv)
  have 2: "but_client p1 (disable_all sd p1)" by (simp add: but_client_core)
  have "but_client p1 p'"
    using assms 1 but_client_trans [OF 2 tcpClose_but_client]
    by (auto simp: close_wait_def bind_eq_Some_conv Let_def but_client_core split: if_splits)
  then show ?thesis using close_but_client [OF 1] but_client_trans by blast
qed

definition predictable :: "HttpProxyState \<Rightarrow> bool" where
  "predictable s \<longleftrightarrow> s \<notin> {PROXY_INIT, CLIENT_CLOSE_DONE, SERVER_CLOSE_DONE}"

lemma predict_cases:
  assumes "predictNextState p = Some p'" "predictable (px_state p)"
  shows "\<exists>s q. p' = set_state s q \<and> core q = core p \<and> s \<noteq> PROXY_INIT"
proof (cases "px_state p = CLIENT_SEND_200OK_DONE")
  case True
  then obtain host m where h: "getHost (px_request p) = Some (host, m)"
    "p' = set_state (if isNeedTunnelSSL host then TCP_TUNNEL else SERVER_HANDSHAKE) (p\<lparr>px_request := m\<rparr>)"
    using assms(1) by (auto simp: predictNextState_def bind_eq_Some_conv)
  then show ?thesis
    using core_request [of m p] getHost_hook [OF h(1)]
    by (intro exI [of _ "if isNeedTunnelSSL host then TCP_TUNNEL else SERVER_HANDSHAKE"] exI [of _ "p\<lparr>px_request := m\<rparr>"]) simp
next
  case False
  have self: "p = set_state (px_state p) p" by (simp add: set_state_def)
  obtain s where "p' = set_state s p" "s \<noteq> PROXY_INIT"
  proof (cases "px_state p = CLIENT_RECV_REQUEST \<and> needMoreData (px_request p) \<or> px_state p = TCP_TUNNEL")
    case True
    then have "p' = p" using assms(1) by (auto simp: predictNextState_def)
    then show thesis using that [of "px_state p"] self assms(2) by (simp add: predictable_def)
  next
    case no: False
    show thesis
      using assms False no that by (cases "px_state p") (auto simp: predictNextState_def predictable_def split: if_splits)
  qed
  then show ?thesis by blast
qed

section \<open>Relations that hold across every handler\<close>

locale proxy_rel =
  fixes R :: "pconn \<Rightarrow> pconn \<Rightarrow> bool"
  assumes trans: "R p q \<Longrightarrow> R q r \<Longrightarrow> R p r"
    and quiet: "same_but_target p p' \<Longrightarrow> R p p'"
    and client: "but_client p p' \<Longrightarrow> R p p'"
    and recv: "px_recv sd p = Some (n, p') \<Longrightarrow> R p p'"
    and send: "px_send sd p = Some (n, p') \<Longrightarrow> px_state p \<noteq> PROXY_INIT \<Longrightarrow> R p p'"
    and attach: "attach_notice g p = Some p' \<Longrightarrow> R p p'"
    and clear: "R p (clear_messages p)"
    and recycle: "R p (px_recycle p)"
    and state: "px_state p \<noteq> PROXY_INIT \<Longrightarrow> s \<noteq> PROXY_INIT \<Longrightarrow> R p (set_state s p)"
    and start: "px_state p = PROXY_INIT \<Longrightarrow>
      R p (set_state CLIENT_RECV_REQUEST ((switchBuffers p)\<lparr>px_request := (px_request p)\<lparr>p_headerHook := Some 0\<rparr>\<rparr>))"
begin

lemma core: "core p' = core p \<Longrightarrow> R p p'"
  by (rule quiet [OF target_core])

lemma refl: "R p p"
  by (rule core) simp

lemma then_quiet: "R p q \<Longrightarrow> core r = core q \<Longrightarrow> R p r"
  by (rule trans [OF _ core])

lemma forceCloseServer:
  assumes "forceCloseServer p = Some (r, p')"
  shows "R p p'"
proof -
  obtain p1 where "px_tcpClose SSide p = Some p1" "p' = p1 \<or> p' = px_recycle p1"
    using assms by (auto simp: forceCloseServer_def bind_eq_Some_conv)
  then show ?thesis using client [OF tcpClose_but_client] recycle trans by blast
qed

lemma forceCloseProxy:
  assumes "forceCloseProxy p = Some (r, p')"
  shows "R p p'"
proof -
  obtain p1 r1 where "px_tcpClose CSide p = Some p1" "forceCloseServer p1 = Some (r1, p')"
    using assms by (auto simp: forceCloseProxy_def bind_eq_Some_conv)
  then show ?thesis using client [OF tcpClose_but_client] forceCloseServer trans by blast
qed

lemma close_server:
  assumes "close_server p = Some (r, p')" "px_state p \<noteq> PROXY_INIT"
  shows "R p p'"
proof -
  obtain w p1 where w: "close_wait SSide p = Some (w, p1)"
    using assms(1) by (auto simp: close_server_def bind_eq_Some_conv)
  have 1: "R p p1" "px_state p1 \<noteq> PROXY_INIT"
    using client [OF close_wait_but_client [OF w]] but_client_fields [OF close_wait_but_client [OF w]] assms(2) by simp_all
  have "R p1 (enable CSide SOCKET_EVENT_WRITE (p1\<lparr>px_state := CLIENT_SEND_RESPONSE\<rparr>))"
    using then_quiet [OF state [OF 1(2), of CLIENT_SEND_RESPONSE]] by (simp add: set_state_def)
  moreover have "R p1 (enable CSide SOCKET_EVENT_READ p1)" by (rule core) simp
  ultimately have "R p1 p'"
    using assms(1) w refl recycle
    by (auto simp: close_server_def split: if_splits option.splits)
  then show ?thesis using 1 trans by blast
qed

lemma closeHandle:
  assumes "closeHandle sd p = Some (r, p')" "px_state p \<noteq> PROXY_INIT"
  shows "R p p'"
proof (cases sd)
  case SSide
  then show ?thesis using assms close_server by (simp add: closeHandle_def)
next
  case CSide
  then obtain w p1 where w: "close_wait CSide p = Some (w, p1)"
    using assms(1) by (auto simp: closeHandle_def bind_eq_Some_conv)
  have 1: "R p p1" "px_state p1 \<noteq> PROXY_INIT"
    using client [OF close_wait_but_client [OF w]] but_client_fields [OF close_wait_but_client [OF w]] assms(2) by simp_all
  have "R p1 p'"
    using assms(1) w CSide refl recycle close_server [OF _ 1(2)]
    by (auto simp: closeHandle_def split: if_splits option.splits)
  then show ?thesis using 1 trans by blast
qed

lemma notify_error:
  assumes "notify_error f p = Some p'"
  shows "R p p'"
proof -
  obtain a b c d p1 m k where 1: "ask ans_notify p = Some ((a, b, c, d), p1)"
    "attach_notice d (p1\<lparr>px_notify := m, px_kern := k\<rparr>) = Some p'"
    using assms by (auto simp: notify_error_def bind_eq_Some_conv)
  have "core (p1\<lparr>px_notify := m, px_kern := k\<rparr>) = core p" using core_ask [OF 1(1)] by simp
  then show ?thesis using core attach [OF 1(2)] trans by blast
qed

lemma notify_200:
  assumes "notify_200 p = Some p'"
  shows "R p p'"
proof -
  obtain g p1 where 1: "ask ans_attach p = Some (g, p1)"
    "attach_notice g (p1\<lparr>px_notify := prepare200Response (px_notify p1)\<rparr>) = Some p'"
    using assms by (auto simp: notify_200_def bind_eq_Some_conv)
  have "core (p1\<lparr>px_notify := prepare200Response (px_notify p1)\<rparr>) = core p" using core_ask [OF 1(1)] by simp
  then show ?thesis using core attach [OF 1(2)] trans by blast
qed

lemma predict:
  assumes "predictNextState p = Some p'" "predictable (px_state p)"
  shows "R p p' \<and> px_state p' \<noteq> PROXY_INIT"
proof -
  obtain s q where "p' = set_state s q" "core q = core p" "s \<noteq> PROXY_INIT"
    using predict_cases [OF assms] by blast
  then show ?thesis
    using trans [OF core state] assms(2) core_fields [of q p] by (auto simp: predictable_def set_state_def)
qed

lemma advance:
  assumes "advance sd p = Some (f, p')" "predictable (px_state p)"
  shows "R p p'"
  using assms predict then_quiet by (fastforce simp: advance_def bind_eq_Some_conv)

lemma bad_request:
  assumes "bad_request p = Some (f, p')" "predictable (px_state p)" "exist (px_client p)"
  shows "R p p'"
proof -
  obtain p1 r p2 where 1: "notify_error prepare400Response p = Some p1" "forceCloseServer p1 = Some (r, p2)" "advance CSide p2 = Some (f, p')"
    using assms(1) by (auto simp: bad_request_def bind_eq_Some_conv)
  have s: "px_state p1 = px_state p" "exist (px_client p1)" using notify_error_state [OF 1(1)] assms(3) by simp_all
  have "core p2 = core p1" using core_forceCloseServer [OF 1(2) s(2)] .
  then have "predictable (px_state p2)" using s(1) assms(2) by (simp add: core_eq)
  then show ?thesis using notify_error [OF 1(1)] forceCloseServer [OF 1(2)] advance [OF 1(3)] trans by blast
qed

lemma unavailable:
  assumes "unavailable p = Some (f, p')" "predictable (px_state p)"
  shows "R p p'"
proof -
  obtain p1 where 1: "notify_error prepare503Response p = Some p1" "advance CSide p1 = Some (f, p')"
    using assms(1) by (auto simp: unavailable_def bind_eq_Some_conv)
  have "px_state p1 = px_state p" using notify_error_state [OF 1(1)] by simp
  then show ?thesis using notify_error [OF 1(1)] advance [OF 1(2)] assms(2) trans by simp
qed

lemma break_forceClose: "break_of (forceCloseProxy p) = Some (f, p') \<Longrightarrow> R p p'"
  using forceCloseProxy by (auto simp: break_of_def)

lemma ret_forceClose: "ret_of (forceCloseProxy p) = Some (f, p') \<Longrightarrow> R p p'"
  using forceCloseProxy by (auto simp: ret_of_def)

lemma ret_closeHandle: "ret_of (closeHandle sd p) = Some (f, p') \<Longrightarrow> px_state p \<noteq> PROXY_INIT \<Longrightarrow> R p p'"
  using closeHandle by (auto simp: ret_of_def)

lemma rw_parsed:
  assumes "rw_parsed sd r p = Some (f, p')" "predictable (px_state p)" "sd = CSide \<Longrightarrow> exist (px_client p)"
  shows "R p p'"
proof (cases "sd = CSide \<and> r \<noteq> HP_PARSE_ERROR \<and> r \<noteq> HP_PARSE_NEED_MOREDATA \<and> getServerConnectState p = SERVER_CONNECT_ING")
  case True
  then obtain p1 where "predictNextState p = Some p1" "p' = disable_both CSide p1"
    using assms(1) by (auto simp: rw_parsed_def bind_eq_Some_conv)
  then show ?thesis using predict [OF _ assms(2)] then_quiet by fastforce
next
  case False
  then show ?thesis
    using assms bad_request unavailable advance break_forceClose refl
    by (auto simp: rw_parsed_def split: if_splits side.splits ServerConnectState.splits)
qed

lemma px_parse:
  "px_parse E sd n p = Some (r, p') \<Longrightarrow> (sd = CSide \<Longrightarrow> exist (px_client p)) \<Longrightarrow> R p p'"
  by (rule quiet [OF px_parse_target])

lemma rw_received:
  assumes "rw_received E sd n p = Some (f, p')" "predictable (px_state p)" "sd = CSide \<Longrightarrow> exist (px_client p)"
  shows "R p p'"
proof (cases "n = 0")
  case True
  then show ?thesis using assms advance refl by (auto simp: rw_received_def split: if_splits)
next
  case False
  then obtain r p1 where 1: "px_parse E sd n p = Some (r, p1)" "rw_parsed sd r p1 = Some (f, p')"
    using assms(1) by (auto simp: rw_received_def bind_eq_Some_conv)
  note t = target_fields [OF px_parse_target [OF 1(1) assms(3)]]
  have "R p1 p'" using rw_parsed [OF 1(2)] t assms(2,3) by (simp add: exist_def)
  then show ?thesis using px_parse [OF 1(1) assms(3)] trans by blast
qed

lemma rw_recv:
  assumes "rw_recv E sd p = Some (f, p')" "predictable (px_state p)"
  shows "R p p'"
proof -
  define p0 where "p0 = disable sd SOCKET_EVENT_WRITE (enable sd SOCKET_EVENT_READ p)"
  obtain n p1 where 1: "px_recv sd p0 = Some (n, p1)"
    using assms(1) by (auto simp: rw_recv_def p0_def bind_eq_Some_conv)
  have s: "predictable (px_state p1)" "px_state p1 \<noteq> PROXY_INIT" "n \<ge> 0 \<Longrightarrow> exist (sock_of sd p1)"
    using recv_state [OF 1] assms(2) by (auto simp: p0_def predictable_def)
  have c: "sd = CSide \<Longrightarrow> n \<ge> 0 \<Longrightarrow> exist (px_client p1)" using s(3) by (simp add: sock_of_def)
  define p2 where "p2 = disable_both sd p1"
  have p2: "R p1 p2" "px_state p2 = px_state p1" "px_client p2 = px_client p1" by (simp_all add: p2_def core)
  define p3 where "p3 = enable sd (px_wanted sd p2) p2"
  have p3: "R p1 p3" "px_state p3 = px_state p1" "px_client p3 = px_client p1"
    using then_quiet [OF p2(1)] p2 by (simp_all add: p3_def)
  have "ret_of (closeHandle sd p1) = Some (f, p') \<or> ret_of (closeHandle sd p2) = Some (f, p') \<or> p' = p3 \<or>
     (n \<ge> 0 \<and> (rw_received E sd n p3 = Some (f, p') \<or> rw_received E sd n p1 = Some (f, p')))"
    using assms(1) 1 by (auto simp: rw_recv_def p0_def [symmetric] p2_def [symmetric] p3_def [symmetric] Let_def split: if_splits)
  then have "R p1 p'"
    using ret_closeHandle [of sd p1 f p'] ret_closeHandle [of sd p2 f p'] p2 p3 s c rw_received [of E sd n p3 f p']
      rw_received [of E sd n p1 f p'] trans by auto
  moreover have "R p p0" by (rule core) (simp add: p0_def)
  ultimately show ?thesis using recv [OF 1] trans by blast
qed

lemma rw_send:
  assumes "rw_send sd p = Some (f, p')" "predictable (px_state p)"
  shows "R p p'"
proof -
  define p0 where "p0 = disable sd SOCKET_EVENT_READ (enable sd SOCKET_EVENT_WRITE p)"
  obtain n p1 where 1: "px_send sd p0 = Some (n, p1)"
    using assms(1) by (auto simp: rw_send_def p0_def bind_eq_Some_conv)
  have s: "predictable (px_state p1)" "px_state p1 \<noteq> PROXY_INIT" "px_state p0 \<noteq> PROXY_INIT"
    using send_state [OF 1] assms(2) by (auto simp: p0_def predictable_def)
  define p2 where "p2 = disable_both sd p1"
  have p2: "R p1 p2" "px_state p2 = px_state p1" by (simp_all add: p2_def core)
  define p3 where "p3 = enable sd (px_wanted sd p2) p2"
  have p3: "R p1 p3" using then_quiet [OF p2(1)] by (simp add: p3_def)
  have "ret_of (closeHandle sd p1) = Some (f, p') \<or> ret_of (closeHandle sd p2) = Some (f, p') \<or> p' = p3 \<or> p' = p1 \<or>
     advance sd p1 = Some (f, p')"
    using assms(1) 1 by (auto simp: rw_send_def p0_def [symmetric] p2_def [symmetric] p3_def [symmetric] Let_def split: if_splits)
  then have "R p1 p'"
    using ret_closeHandle [of sd p1 f p'] ret_closeHandle [of sd p2 f p'] p2 p3 s advance [of sd p1 f p'] trans refl by auto
  moreover have "R p p0" by (rule core) (simp add: p0_def)
  ultimately show ?thesis using send [OF 1 s(3)] trans by blast
qed

lemma rw_done:
  assumes "rw_done p = Some (f, p')" "predictable (px_state p)"
  shows "R p p'"
proof -
  obtain p1 where 1: "predictNextState p = Some p1" using assms(1) by (auto simp: rw_done_def bind_eq_Some_conv)
  have "R p1 p'"
  proof (cases "px_state p1 = SERVER_HANDSHAKE")
    case False
    then show ?thesis using assms(1) 1 refl by (auto simp: rw_done_def)
  next
    case True
    then obtain r1 p2 where 2: "px_prepareSSL SSide p1 = Some (r1, p2)"
      using assms(1) 1 by (auto simp: rw_done_def bind_eq_Some_conv)
    have c2: "R p1 p2" by (rule core [OF core_prepareSSL [OF 2]])
    show ?thesis
    proof (cases "r1 = 0")
      case False
      then show ?thesis using assms(1) 1 True 2 break_forceClose trans [OF c2] by (auto simp: rw_done_def)
    next
      case r1: True
      then obtain r2 p3 where 3: "px_prepareSSL CSide p2 = Some (r2, p3)"
        using assms(1) 1 2 True by (auto simp: rw_done_def bind_eq_Some_conv)
      have c3: "R p1 p3" by (rule then_quiet [OF c2 core_prepareSSL [OF 3]])
      show ?thesis
        using assms(1) 1 True 2 r1 3 break_forceClose trans [OF c3] c3 by (auto simp: rw_done_def split: if_splits)
    qed
  qed
  then show ?thesis using predict [OF 1 assms(2)] trans by blast
qed

lemma rw_server_handshake:
  assumes "rw_server_handshake E p = Some (f, p')" "predictable (px_state p)"
  shows "R p p'"
proof -
  obtain ret p1 where 1: "serverSSLHandShake (disable SSide SOCKET_EVENT_READ (enable SSide SOCKET_EVENT_WRITE p)) = Some (ret, p1)"
    using assms(1) by (auto simp: rw_server_handshake_def bind_eq_Some_conv)
  have c1: "core p1 = core p" using core_serverHandshake [OF 1] by simp
  consider "p' = p1" | "ret_of (forceCloseProxy p1) = Some (f, p')"
    | r p2 where "resignCertificate E p1 = Some (r, p2)" "ret_of (forceCloseProxy p2) = Some (f, p') \<or> advance SSide p2 = Some (f, p')"
    using assms(1) 1 by (auto simp: rw_server_handshake_def bind_eq_Some_conv split: if_splits)
  then show ?thesis
  proof cases
    case 1
    then show ?thesis using core [OF c1] by simp
  next
    case 2
    then show ?thesis using trans [OF core [OF c1]] ret_forceClose by blast
  next
    case 3
    have c2: "core p2 = core p" using core_resign [OF 3(1)] c1 by simp
    then have "predictable (px_state p2)" using assms(2) core_fields by metis
    then show ?thesis using 3(2) trans [OF core [OF c2]] ret_forceClose advance by blast
  qed
qed

lemma rw_client_handshake:
  assumes "rw_client_handshake p = Some (f, p')" "predictable (px_state p)"
  shows "R p p'"
proof -
  obtain ret p1 where 1: "clientSSLHandShake (disable CSide SOCKET_EVENT_WRITE (enable CSide SOCKET_EVENT_READ p)) = Some (ret, p1)"
    using assms(1) by (auto simp: rw_client_handshake_def bind_eq_Some_conv)
  have c1: "core p1 = core p" using core_clientHandshake [OF 1] by simp
  then have "predictable (px_state p1)" using assms(2) core_fields by metis
  then have "R p1 p'"
    using assms(1) 1 break_forceClose advance refl by (auto simp: rw_client_handshake_def split: if_splits)
  then show ?thesis using trans [OF core [OF c1]] by blast
qed

lemma rw_resetup:
  assumes "rw_resetup p = Some (f, p')" "predictable (px_state p)"
  shows "R p p'"
proof -
  obtain p1 r p2 where 1: "predictNextState p = Some p1" "px_resetup p1 = Some (r, p2)"
    "p' = p2 \<or> break_of (forceCloseProxy p2) = Some (f, p')"
    using assms(1) by (auto simp: rw_resetup_def bind_eq_Some_conv split: if_splits)
  have "R p p2" using then_quiet predict [OF 1(1) assms(2)] core_resetup [OF 1(2)] by blast
  then show ?thesis using 1(3) break_forceClose trans by blast
qed

lemma rw_decide:
  assumes "rw_decide p = Some (f, p')" "predictable (px_state p)"
  shows "R p p'"
proof -
  obtain p1 where "predictNextState p = Some p1" "p' = p1 \<or> notify_200 p1 = Some p'"
    using assms(1) by (auto simp: rw_decide_def bind_eq_Some_conv split: if_splits)
  then show ?thesis using predict [OF _ assms(2)] notify_200 trans by blast
qed

lemma rw_init:
  assumes "rw_init p = Some (f, p')" "px_state p = PROXY_INIT"
  shows "R p p'"
proof -
  have "px_state ((switchBuffers p)\<lparr>px_request := (px_request p)\<lparr>p_headerHook := Some 0\<rparr>\<rparr>) = PROXY_INIT"
    using assms(2) by (simp add: switchBuffers_def)
  then have "p' = enable CSide SOCKET_EVENT_READ
      (set_state CLIENT_RECV_REQUEST ((switchBuffers p)\<lparr>px_request := (px_request p)\<lparr>p_headerHook := Some 0\<rparr>\<rparr>))"
    using assms(1) by (simp add: rw_init_def predictNextState_def)
  then show ?thesis using then_quiet [OF start [OF assms(2)]] by simp
qed

lemma core_tunnel: "core (tunnel_bodies p) = core p" "core (SSLTunnelInit p) = core p"
  by (simp_all add: tunnel_bodies_def SSLTunnelInit_def Let_def core_eq enable_def disable_def handle_def emit_def)

lemma clear_state: "px_state (clear_messages p) = px_state p"
  by (simp add: clear_messages_def split: prod.split)

text \<open>The relation holds across one round of the loop, and across a whole call of the handler.\<close>

lemma rw_step:
  assumes "rw_step E p = Some (f, p')"
  shows "R p p'"
proof -
  have t: "px_state (tunnel_bodies p) = px_state p" by (simp add: tunnel_bodies_def)
  show ?thesis
  proof (cases "px_state p")
    case CLIENT_RECV_REQUEST
    then have "rw_recv E CSide (tunnel_bodies p) = Some (f, p')" using assms by (simp add: rw_step_def)
    then show ?thesis using rw_recv t CLIENT_RECV_REQUEST core [OF core_tunnel(1)] trans by (metis predictable_def HttpProxyState.simps insertE empty_iff)
  next
    case CLIENT_SEND_200OK_DONE
    then have "rw_done (clear_messages p) = Some (f, p')" using assms by (simp add: rw_step_def)
    then have "R (clear_messages p) p'" using rw_done clear_state CLIENT_SEND_200OK_DONE by (simp add: predictable_def)
    then show ?thesis using clear trans by blast
  next
    case CLIENT_SEND_RESPONSE_DONE
    then have "rw_done (clear_messages p) = Some (f, p')" using assms by (simp add: rw_step_def)
    then have "R (clear_messages p) p'" using rw_done clear_state CLIENT_SEND_RESPONSE_DONE by (simp add: predictable_def)
    then show ?thesis using clear trans by blast
  next
    case TCP_TUNNEL
    then have "p' = SSLTunnelInit p" using assms by (simp add: rw_step_def)
    then show ?thesis using core [OF core_tunnel(2)] by simp
  next
    case CLIENT_HANDSHAKE_DONE
    then obtain p1 where "predictNextState p = Some p1" "p' = p1" using assms by (auto simp: rw_step_def rw_next_def bind_eq_Some_conv)
    then show ?thesis using predict CLIENT_HANDSHAKE_DONE by (simp add: predictable_def)
  qed (use assms rw_init rw_recv [of E SSide] rw_decide rw_send rw_done rw_server_handshake rw_resetup rw_client_handshake break_forceClose
       in \<open>simp_all add: rw_step_def predictable_def\<close>)
qed

lemma RWEventHandle: "RWEventHandle n E p = Some (r, p') \<Longrightarrow> R p p'"
proof (induction n E p arbitrary: r p' rule: RWEventHandle.induct)
  case (2 n E p)
  then obtain f p1 where s: "rw_step E p = Some (f, p1)" by (auto split: option.splits)
  then show ?case
    using 2 rw_step [OF s] trans by (cases f) (auto split: option.splits)
qed simp

end

end
