(* ===== verification/ProxyProps.thy ===== *)
theory ProxyProps
  imports ProxyFrame
begin

text \<open>
  The invariants of a proxy connection, over any sequence of calls the event loop and the
  resolver make to it.
\<close>

section \<open>Sequences of calls\<close>

text \<open>One step is a handler run to its end, or new answers of the environment. The handlers for
  closing and for the tunnel are only registered by a connection that has left its first state.\<close>

inductive px_call :: "px_env \<Rightarrow> pconn \<Rightarrow> pconn \<Rightarrow> bool" for E where
  call_io: "RWEventHandle n E p = Some (r, p') \<Longrightarrow> px_call E p p'"
| call_error: "errorHandle sd p = Some (r, p') \<Longrightarrow> px_call E p p'"
| call_rdhup: "rdhupHandle sd p = Some (r, p') \<Longrightarrow> px_call E p p'"
| call_timeout: "timeoutHandle sd p = Some (r, p') \<Longrightarrow> px_call E p p'"
| call_close: "px_state p \<noteq> PROXY_INIT \<Longrightarrow> closeHandle sd p = Some (r, p') \<Longrightarrow> px_call E p p'"
| call_connected: "serverConnectHandle n E ip p = Some (r, p') \<Longrightarrow> px_call E p p'"
| call_tunnel_read: "px_state p \<noteq> PROXY_INIT \<Longrightarrow> SSLTunnelReadHandle sd p = Some (r, p') \<Longrightarrow> px_call E p p'"
| call_tunnel_write: "px_state p \<noteq> PROXY_INIT \<Longrightarrow> SSLTunnelWriteHandle sd p = Some (r, p') \<Longrightarrow> px_call E p p'"
| call_answers: "px_call E p (p\<lparr>px_script := as\<rparr>)"

inductive px_calls :: "px_env \<Rightarrow> pconn \<Rightarrow> pconn \<Rightarrow> bool" for E where
  calls_none: "px_calls E p p"
| calls_step: "px_calls E p q \<Longrightarrow> px_call E q r \<Longrightarrow> px_calls E p r"

context proxy_rel
begin

lemma error_handlers:
  "errorHandle sd p = Some (r, p') \<Longrightarrow> R p p'"
  "rdhupHandle sd p = Some (r, p') \<Longrightarrow> R p p'"
  "timeoutHandle sd p = Some (r, p') \<Longrightarrow> R p p'"
  using forceCloseServer forceCloseProxy
  by (auto simp: errorHandle_def rdhupHandle_def timeoutHandle_def forceCloseClient_def split: side.splits)

lemma connected:
  assumes "serverConnectHandle n E ip p = Some (r, p')"
  shows "R p p'"
proof -
  obtain ret p1 where 1: "server_connect E ip p = Some (ret, p1)"
    using assms by (auto simp: serverConnectHandle_def bind_eq_Some_conv)
  have "R p1 p'"
  proof (cases "px_state p1 = CLIENT_RECV_REQUEST_DONE \<and> ret \<noteq> 0")
    case True
    then obtain p2 where "notify_error prepare503Response p1 = Some p2" "p' = enable CSide SOCKET_EVENT_WRITE p2"
      using assms 1 by (auto simp: serverConnectHandle_def bind_eq_Some_conv)
    then show ?thesis using then_quiet [OF notify_error] by simp
  next
    case False
    then show ?thesis
      using assms 1 RWEventHandle refl by (auto simp: serverConnectHandle_def bind_eq_Some_conv split: if_splits)
  qed
  then show ?thesis using trans [OF core [OF core_server_connect [OF 1]]] by blast
qed

lemma tunnel_read:
  assumes "SSLTunnelReadHandle sd p = Some (r, p')" "px_state p \<noteq> PROXY_INIT"
  shows "R p p'"
proof -
  obtain n p1 where 1: "px_recv sd p = Some (n, p1)" "closeHandle sd p1 = Some (r, p') \<or> p' = enable sd SOCKET_EVENT_WRITE p1"
    using assms(1) by (auto simp: SSLTunnelReadHandle_def bind_eq_Some_conv split: if_splits)
  have "px_state p1 \<noteq> PROXY_INIT" using recv_state [OF 1(1)] assms(2) by simp
  then show ?thesis using 1 closeHandle recv trans then_quiet [OF recv [OF 1(1)]] by fastforce
qed

lemma tunnel_write:
  assumes "SSLTunnelWriteHandle sd p = Some (r, p')" "px_state p \<noteq> PROXY_INIT"
  shows "R p p'"
proof (cases "readableBytes (px_bufs p (out_of sd p)) = 0")
  case True
  then show ?thesis using assms(1) refl by (simp add: SSLTunnelWriteHandle_def)
next
  case False
  then obtain n p1 where 1: "px_send sd p = Some (n, p1)"
    "closeHandle sd p1 = Some (r, p') \<or> p' = p1 \<or> p' = enable sd SOCKET_EVENT_READ (disable sd SOCKET_EVENT_WRITE p1)"
    using assms(1) by (auto simp: SSLTunnelWriteHandle_def bind_eq_Some_conv split: if_splits)
  have "px_state p1 \<noteq> PROXY_INIT" using send_state [OF 1(1)] assms(2) by simp
  then show ?thesis using 1 closeHandle send assms(2) trans then_quiet [OF send [OF 1(1) assms(2)]] by fastforce
qed

lemma px_call: "px_call E p p' \<Longrightarrow> R p p'"
proof (induction rule: px_call.induct)
  case (call_answers p as)
  then show ?case by (rule core) (simp add: core_eq)
qed (auto intro: RWEventHandle error_handlers closeHandle connected tunnel_read tunnel_write)

lemma px_calls: "px_calls E p p' \<Longrightarrow> R p p'"
  by (induction rule: px_calls.induct) (auto intro: refl trans px_call)

end

section \<open>The server a connection talks to\<close>

definition keeps_target :: "pconn \<Rightarrow> pconn \<Rightarrow> bool" where
  "keeps_target p p' \<longleftrightarrow> px_recycled p \<le> px_recycled p' \<and>
     (px_recycled p' = px_recycled p \<longrightarrow> px_state p \<noteq> PROXY_INIT \<longrightarrow>
        px_state p' \<noteq> PROXY_INIT \<and>
        (p_headerHook (px_request p) = None \<longrightarrow>
           p_headerHook (px_request p') = None \<and> px_host p' = px_host p \<and> px_port p' = px_port p))"

lemma px_recycle_fields:
  "px_recycled (px_recycle p) = px_recycled p + 1" "px_state (px_recycle p) = PROXY_INIT"
  by (simp_all add: px_recycle_def split: prod.splits)

lemma clear_hook: "msg_clear m k = (m', k') \<Longrightarrow> p_headerHook m' = None"
  by (auto simp: msg_clear_def parser_reset_def Let_def split: prod.splits)

lemma clear_fields: "px_recycled (clear_messages p) = px_recycled p" "px_host (clear_messages p) = px_host p"
  "px_port (clear_messages p) = px_port p" "p_headerHook (px_request (clear_messages p)) = None"
  "px_bufs (clear_messages p) = px_bufs p" "px_state (clear_messages p) = px_state p"
  by (auto simp: clear_messages_def clear_hook split: prod.splits)

interpretation target: proxy_rel keeps_target
proof
  show "keeps_target p q \<Longrightarrow> keeps_target q r \<Longrightarrow> keeps_target p r" for p q r
    by (auto simp: keeps_target_def)
  show "same_but_target p p' \<Longrightarrow> keeps_target p p'" for p p'
    by (auto simp: keeps_target_def same_but_target_def core_eq)
  show "but_client p p' \<Longrightarrow> keeps_target p p'" for p p'
    by (auto simp: keeps_target_def but_client_def core_eq)
  show "px_recv sd p = Some (n, p') \<Longrightarrow> keeps_target p p'" for sd p n p'
    by (erule px_recvE) (auto simp: keeps_target_def but_buf_def core_eq)
  show "px_send sd p = Some (n, p') \<Longrightarrow> px_state p \<noteq> PROXY_INIT \<Longrightarrow> keeps_target p p'" for sd p n p'
    by (erule px_sendE) (auto simp: keeps_target_def but_buf_def core_eq)
  show "attach_notice g p = Some p' \<Longrightarrow> keeps_target p p'" for g p p'
    by (erule attachE) (auto simp: keeps_target_def but_buf_def core_eq)
  show "keeps_target p (clear_messages p)" for p
    by (simp add: keeps_target_def clear_fields)
  show "keeps_target p (px_recycle p)" for p
    by (simp add: keeps_target_def px_recycle_fields)
  show "px_state p \<noteq> PROXY_INIT \<Longrightarrow> s \<noteq> PROXY_INIT \<Longrightarrow> keeps_target p (set_state s p)" for p s
    by (simp add: keeps_target_def set_state_def)
  show "px_state p = PROXY_INIT \<Longrightarrow> keeps_target p
      (set_state CLIENT_RECV_REQUEST ((switchBuffers p)\<lparr>px_request := (px_request p)\<lparr>p_headerHook := Some 0\<rparr>\<rparr>))" for p
    by (simp add: keeps_target_def set_state_def switchBuffers_def)
qed

section \<open>The bytes from the client to the server\<close>

text \<open>The server's output buffer is the client's input buffer, number 0, to which nothing is
  attached; what was sent to the server and what it holds is what was received from the client.\<close>

definition forwards :: "pconn \<Rightarrow> bool" where
  "forwards p \<longleftrightarrow> px_cin p = 0 \<and> px_sin p = 2 \<and> px_cout p \<in> {1, 2} \<and> (px_state p = PROXY_INIT \<or> px_sout p = 0) \<and>
     nb_wf (px_bufs p 0) \<and> \<not> nb_msg (px_bufs p 0) \<and> px_tx_s p @ nb_data (px_bufs p 0) = px_rx_c p"

definition keeps_forwarding :: "pconn \<Rightarrow> pconn \<Rightarrow> bool" where
  "keeps_forwarding p p' \<longleftrightarrow> px_recycled p \<le> px_recycled p' \<and>
     (px_recycled p' = px_recycled p \<longrightarrow>
        length (nb_mem (px_bufs p 0)) \<le> length (nb_mem (px_bufs p' 0)) \<and>
        (length (nb_mem (px_bufs p' 0)) < 2 ^ 64 \<longrightarrow> forwards p \<longrightarrow> forwards p'))"

lemma but_buf_len: "but_buf i b p p' \<Longrightarrow> length (nb_mem (px_bufs p j)) \<le> length (nb_mem (px_bufs p' j))"
  by (simp add: but_buf_def)

lemma forwarding_recv:
  assumes "px_recv sd p = Some (n, p')"
  shows "keeps_forwarding p p'"
proof -
  obtain b got where b: "but_buf (in_of sd p) b p p'" "px_tx_s p' = px_tx_s p"
    "px_rx_c p' = (if sd = CSide then px_rx_c p @ got else px_rx_c p)"
    "nb_wf (px_bufs p (in_of sd p)) \<Longrightarrow> nb_keeps (px_bufs p (in_of sd p)) b \<and> nb_data b = nb_data (px_bufs p (in_of sd p)) @ got"
    using px_recvE [OF assms] by metis
  have "forwards p'" if "forwards p"
    using b that by (cases sd) (auto simp: forwards_def in_of_def but_buf_def core_eq nb_keeps_def)
  then show ?thesis using b(1) but_buf_len [OF b(1), of 0] by (auto simp: keeps_forwarding_def but_buf_fields)
qed

lemma forwarding_send:
  assumes "px_send sd p = Some (n, p')" "px_state p \<noteq> PROXY_INIT"
  shows "keeps_forwarding p p'"
proof -
  obtain b out where b: "but_buf (out_of sd p) b p p'" "px_rx_c p' = px_rx_c p"
    "px_tx_s p' = (if sd = SSide then px_tx_s p @ out else px_tx_s p)"
    "nb_wf (px_bufs p (out_of sd p)) \<and> length (nb_mem (px_bufs p (out_of sd p))) < 2 ^ 64 \<and> \<not> nb_msg (px_bufs p (out_of sd p)) \<Longrightarrow>
       nb_keeps (px_bufs p (out_of sd p)) b \<and> out @ nb_data b = nb_data (px_bufs p (out_of sd p))"
    using px_sendE [OF assms(1)] by metis
  note l = but_buf_len [OF b(1), of 0]
  have "forwards p'" if "forwards p" "length (nb_mem (px_bufs p' 0)) < 2 ^ 64"
  proof (cases sd)
    case CSide
    then show ?thesis using b that by (auto simp: forwards_def out_of_def but_buf_def core_eq)
  next
    case SSide
    then have o: "out_of sd p = 0" using that(1) assms(2) by (simp add: forwards_def out_of_def)
    have "nb_keeps (px_bufs p 0) b" "out @ nb_data b = nb_data (px_bufs p 0)"
      using b(4) that l unfolding o by (auto simp: forwards_def)
    moreover have "px_bufs p' 0 = b" using b(1) unfolding o by (simp add: but_buf_def)
    ultimately show ?thesis
      using b(1-3) that(1) SSide unfolding o by (auto simp: forwards_def but_buf_def core_eq nb_keeps_def)
  qed
  then show ?thesis using l b(1) by (auto simp: keeps_forwarding_def but_buf_fields)
qed

interpretation forwarding: proxy_rel keeps_forwarding
proof
  show "keeps_forwarding p q \<Longrightarrow> keeps_forwarding q r \<Longrightarrow> keeps_forwarding p r" for p q r
    by (auto simp: keeps_forwarding_def)
  show "same_but_target p p' \<Longrightarrow> keeps_forwarding p p'" for p p'
    by (auto simp: keeps_forwarding_def forwards_def same_but_target_def core_eq)
  show "but_client p p' \<Longrightarrow> keeps_forwarding p p'" for p p'
    by (auto simp: keeps_forwarding_def forwards_def but_client_def core_eq)
  show "attach_notice g p = Some p' \<Longrightarrow> keeps_forwarding p p'" for g p p'
    by (erule attachE) (auto simp: keeps_forwarding_def forwards_def but_buf_def core_eq)
  show "keeps_forwarding p (clear_messages p)" for p
    by (auto simp: keeps_forwarding_def forwards_def clear_messages_def split: prod.splits)
  show "keeps_forwarding p (px_recycle p)" for p
    by (simp add: keeps_forwarding_def px_recycle_fields)
  show "px_state p \<noteq> PROXY_INIT \<Longrightarrow> s \<noteq> PROXY_INIT \<Longrightarrow> keeps_forwarding p (set_state s p)" for p s
    by (simp add: keeps_forwarding_def forwards_def set_state_def)
  show "px_state p = PROXY_INIT \<Longrightarrow> keeps_forwarding p
      (set_state CLIENT_RECV_REQUEST ((switchBuffers p)\<lparr>px_request := (px_request p)\<lparr>p_headerHook := Some 0\<rparr>\<rparr>))" for p
    by (simp add: keeps_forwarding_def forwards_def set_state_def switchBuffers_def)
qed (fact forwarding_recv, fact forwarding_send)

section \<open>Where a call comes to rest\<close>

definition working :: "HttpProxyState \<Rightarrow> bool" where
  "working s \<longleftrightarrow> s \<notin> {TCP_TUNNEL, CLIENT_CLOSE, CLIENT_CLOSE_DONE, SERVER_CLOSE, SERVER_CLOSE_DONE}"

definition waiting :: "HttpProxyState \<Rightarrow> bool" where
  "waiting s \<longleftrightarrow> s \<in> {CLIENT_RECV_REQUEST, CLIENT_RECV_REQUEST_DONE, CLIENT_SEND_200OK, SERVER_HANDSHAKE, CLIENT_HANDSHAKE,
     SERVER_SEND_REQUEST, SERVER_RECV_RESPONSE, CLIENT_SEND_RESPONSE}"

text \<open>A connection ready for its next client: closed, with nothing left of the last one.\<close>

definition pristine :: "pconn \<Rightarrow> bool" where
  "pristine p \<longleftrightarrow> px_state p = PROXY_INIT \<and> \<not> exist (px_client p) \<and> \<not> exist (px_server p) \<and> px_host p = [] \<and> px_port p = [] \<and>
     px_cin p = 0 \<and> px_cout p = 1 \<and> px_sin p = 2 \<and> px_sout p = 3 \<and> \<not> px_resolve_cb p \<and>
     (\<forall>i \<in> {0, 1, 2, 3}. nb_data (px_bufs p i) = [] \<and> \<not> nb_msg (px_bufs p i)) \<and>
     p_state (px_request p) = PARSE_UNINIT \<and> p_state (px_response p) = PARSE_UNINIT"

definition rests :: "pconn \<Rightarrow> pconn \<Rightarrow> bool" where
  "rests p p' \<longleftrightarrow> px_recycled p' = px_recycled p \<and> waiting (px_state p') \<or> px_recycled p' = px_recycled p + 1 \<and> pristine p'"

definition goes_on :: "pconn \<Rightarrow> flow \<times> pconn \<Rightarrow> bool" where
  "goes_on p x \<longleftrightarrow>
     (case fst x of
        Again \<Rightarrow> px_recycled (snd x) = px_recycled p \<and> working (px_state (snd x))
      | Ret r \<Rightarrow> rests p (snd x))"

lemma waiting_working: "waiting s \<Longrightarrow> working s \<and> predictable s"
  by (auto simp: waiting_def working_def predictable_def)

lemma clear_uninit: "msg_clear m k = (m', k') \<Longrightarrow> p_state m' = PARSE_UNINIT"
  by (auto simp: msg_clear_def parser_reset_def Let_def split: prod.splits)

lemma recycle_pristine: "pristine (px_recycle p)"
  by (auto simp: pristine_def px_recycle_def Socket_reset_def new_Socket_def exist_def valid_fd_def nb_clear_def nb_data_def
      clear_uninit split: prod.splits)

lemma recycle_rests: "px_recycled q = px_recycled p \<Longrightarrow> rests p (px_recycle q)"
  by (simp add: rests_def recycle_pristine px_recycle_fields)

lemma tcpClose_closed: "tcpClose sd m k h = Some (r, m', k', h', ops) \<Longrightarrow> \<not> exist m'"
  by (auto simp: tcpClose_def SocketUtil_Close_def exist_def valid_fd_def bind_eq_Some_conv Let_def split: if_splits)

lemma px_tcpClose_closed: "px_tcpClose sd p = Some p' \<Longrightarrow> \<not> exist (sock_of sd p')"
  by (cases sd) (auto simp: px_tcpClose_def px_simps dest!: tcpClose_closed)

lemma forceCloseProxy_rests:
  assumes "forceCloseProxy p = Some (r, p')"
  shows "rests p p'"
proof -
  obtain p1 p2 where 1: "px_tcpClose CSide p = Some p1" "px_tcpClose SSide p1 = Some p2"
    "p' = (if \<not> exist (px_client p2) then px_recycle p2 else p2)"
    using assms by (auto simp: forceCloseProxy_def forceCloseServer_def bind_eq_Some_conv)
  have "\<not> exist (px_client p1)" using px_tcpClose_closed [OF 1(1)] by (simp add: sock_of_def)
  then have "\<not> exist (px_client p2)" using core_exist [OF core_tcpClose_server [OF 1(2)]] by simp
  moreover have "px_recycled p2 = px_recycled p"
    using but_client_fields [OF tcpClose_but_client [OF 1(1)]] core_fields [OF core_tcpClose_server [OF 1(2)]] by simp
  ultimately show ?thesis using 1(3) recycle_rests by simp
qed

lemma close_server_rests:
  assumes "close_server p = Some (r, p')" "waiting (px_state p)"
  shows "rests p p'"
proof -
  obtain w p1 where w: "close_wait SSide p = Some (w, p1)"
    using assms(1) by (auto simp: close_server_def bind_eq_Some_conv)
  have 1: "px_recycled p1 = px_recycled p" "waiting (px_state p1)"
    using but_client_fields [OF close_wait_but_client [OF w]] assms(2) by simp_all
  have "waiting CLIENT_SEND_RESPONSE" by (simp add: waiting_def)
  moreover have "px_recycled (enable CSide f (p1\<lparr>px_state := s\<rparr>)) = px_recycled p1" for f s by simp
  ultimately show ?thesis
    using assms(1) w 1 recycle_rests [OF 1(1)]
    by (auto simp: close_server_def rests_def split: if_splits option.splits)
qed

lemma closeHandle_rests:
  assumes "closeHandle sd p = Some (r, p')" "waiting (px_state p)"
  shows "rests p p'"
proof (cases sd)
  case SSide
  then show ?thesis using assms close_server_rests by (simp add: closeHandle_def)
next
  case CSide
  then obtain w p1 where w: "close_wait CSide p = Some (w, p1)"
    using assms(1) by (auto simp: closeHandle_def bind_eq_Some_conv)
  have 1: "px_recycled p1 = px_recycled p" "waiting (px_state p1)"
    using but_client_fields [OF close_wait_but_client [OF w]] assms(2) by simp_all
  show ?thesis
  proof (cases "\<exists>r'. close_server p1 = Some (r', p')")
    case True
    then show ?thesis using close_server_rests [of p1 _ p'] 1 by (auto simp: rests_def)
  next
    case False
    then show ?thesis
      using assms(1) w 1 CSide recycle_rests [OF 1(1)]
      by (auto simp: closeHandle_def rests_def split: if_splits option.splits)
  qed
qed

text \<open>The next state of every state, as the code predicts it.\<close>

inductive px_edge :: "HttpProxyState \<Rightarrow> HttpProxyState \<Rightarrow> bool" where
  "px_edge PROXY_INIT CLIENT_RECV_REQUEST"
| "px_edge CLIENT_RECV_REQUEST CLIENT_RECV_REQUEST"
| "px_edge CLIENT_RECV_REQUEST CLIENT_RECV_REQUEST_DONE"
| "px_edge CLIENT_RECV_REQUEST_DONE CLIENT_SEND_200OK"
| "px_edge CLIENT_RECV_REQUEST_DONE SERVER_SEND_REQUEST"
| "px_edge CLIENT_RECV_REQUEST_DONE CLIENT_SEND_RESPONSE"
| "px_edge CLIENT_SEND_200OK CLIENT_SEND_200OK_DONE"
| "px_edge CLIENT_SEND_200OK_DONE SERVER_HANDSHAKE"
| "px_edge SERVER_HANDSHAKE SERVER_HANDSHAKE_DONE"
| "px_edge SERVER_HANDSHAKE_DONE CLIENT_HANDSHAKE"
| "px_edge CLIENT_HANDSHAKE CLIENT_HANDSHAKE_DONE"
| "px_edge CLIENT_HANDSHAKE_DONE CLIENT_RECV_REQUEST"
| "px_edge SERVER_SEND_REQUEST SERVER_SEND_REQUEST_DONE"
| "px_edge SERVER_SEND_REQUEST_DONE SERVER_RECV_RESPONSE"
| "px_edge SERVER_RECV_RESPONSE SERVER_RECV_RESPONSE_DONE"
| "px_edge SERVER_RECV_RESPONSE_DONE CLIENT_SEND_RESPONSE"
| "px_edge CLIENT_SEND_RESPONSE CLIENT_SEND_RESPONSE_DONE"
| "px_edge CLIENT_SEND_RESPONSE_DONE CLIENT_RECV_REQUEST"

inductive_cases edge_from_recv: "px_edge CLIENT_RECV_REQUEST s"
inductive_cases edge_from_done: "px_edge CLIENT_RECV_REQUEST_DONE s"

lemma edge_working: "px_edge s s' \<Longrightarrow> working s'"
  by (induction rule: px_edge.induct) (simp_all add: working_def)

lemma predict_edge:
  assumes "predictNextState p = Some p'" "working (px_state p)"
  shows "px_edge (px_state p) (px_state p') \<and> px_recycled p' = px_recycled p"
  using assms
  by (cases "px_state p")
     (auto simp: predictNextState_def set_state_def working_def isNeedTunnelSSL_def bind_eq_Some_conv intro: px_edge.intros split: if_splits)

lemma advance_goes_on:
  assumes "advance sd q = Some (f, p')" "working (px_state q)" "px_recycled q = px_recycled p"
  shows "goes_on p (f, p')"
proof -
  obtain q1 where q1: "predictNextState q = Some q1" "f = Again" "p' = disable_both sd q1"
    using assms(1) by (auto simp: advance_def bind_eq_Some_conv)
  then show ?thesis using predict_edge [OF q1(1) assms(2)] edge_working [of "px_state q" "px_state q1"] assms(3) by (simp add: goes_on_def)
qed

lemma rests_goes_on: "rests q p' \<Longrightarrow> px_recycled q = px_recycled p \<Longrightarrow> goes_on p (Ret r, p')"
  by (simp add: goes_on_def rests_def)

lemma break_goes_on: "break_of (forceCloseProxy q) = Some (f, p') \<Longrightarrow> px_recycled q = px_recycled p \<Longrightarrow> goes_on p (f, p')"
  by (auto simp: break_of_def intro: rests_goes_on forceCloseProxy_rests)

lemma ret_goes_on: "ret_of (forceCloseProxy q) = Some (f, p') \<Longrightarrow> px_recycled q = px_recycled p \<Longrightarrow> goes_on p (f, p')"
  by (auto simp: ret_of_def intro: rests_goes_on forceCloseProxy_rests)

lemma close_goes_on:
  "ret_of (closeHandle sd q) = Some (f, p') \<Longrightarrow> waiting (px_state q) \<Longrightarrow> px_recycled q = px_recycled p \<Longrightarrow> goes_on p (f, p')"
  by (auto simp: ret_of_def intro: rests_goes_on closeHandle_rests)

lemma stay_goes_on: "waiting (px_state q) \<Longrightarrow> px_recycled q = px_recycled p \<Longrightarrow> goes_on p (Ret r, q)"
  by (simp add: goes_on_def rests_def)

lemma again_goes_on: "working (px_state q) \<Longrightarrow> px_recycled q = px_recycled p \<Longrightarrow> goes_on p (Again, q)"
  by (simp add: goes_on_def)

lemma bad_request_goes_on:
  assumes "bad_request q = Some (f, p')" "working (px_state q)" "exist (px_client q)" "px_recycled q = px_recycled p"
  shows "goes_on p (f, p')"
proof -
  obtain p1 r p2 where 1: "notify_error prepare400Response q = Some p1" "forceCloseServer p1 = Some (r, p2)" "advance CSide p2 = Some (f, p')"
    using assms(1) by (auto simp: bad_request_def bind_eq_Some_conv)
  have s: "px_state p1 = px_state q" "px_recycled p1 = px_recycled q" "exist (px_client p1)"
    using notify_error_state [OF 1(1)] assms(3) by simp_all
  then show ?thesis
    using advance_goes_on [OF 1(3)] core_fields [OF core_forceCloseServer [OF 1(2) s(3)]] assms(2,4) by simp
qed

lemma unavailable_goes_on:
  assumes "unavailable q = Some (f, p')" "working (px_state q)" "px_recycled q = px_recycled p"
  shows "goes_on p (f, p')"
proof -
  obtain p1 where 1: "notify_error prepare503Response q = Some p1" "advance CSide p1 = Some (f, p')"
    using assms(1) by (auto simp: unavailable_def bind_eq_Some_conv)
  then show ?thesis using advance_goes_on [OF 1(2)] notify_error_state [OF 1(1)] assms(2,3) by simp
qed

lemma rw_parsed_goes_on:
  assumes "rw_parsed sd r q = Some (f, p')" "waiting (px_state q)" "sd = CSide \<Longrightarrow> exist (px_client q) \<and> px_state q = CLIENT_RECV_REQUEST"
    "px_recycled q = px_recycled p"
  shows "goes_on p (f, p')"
proof (cases "sd = CSide \<and> r \<noteq> HP_PARSE_ERROR \<and> r \<noteq> HP_PARSE_NEED_MOREDATA \<and> getServerConnectState q = SERVER_CONNECT_ING")
  case True
  then obtain q1 where q1: "predictNextState q = Some q1" "f = Ret EVENT_CALLBACK_BREAK" "p' = disable_both CSide q1"
    using assms(1) by (auto simp: rw_parsed_def bind_eq_Some_conv)
  have "px_edge CLIENT_RECV_REQUEST (px_state q1)" "px_recycled q1 = px_recycled p"
    using predict_edge [OF q1(1)] waiting_working assms(2,3,4) True by auto
  moreover from this(1) have "waiting (px_state q1)" by (auto elim: edge_from_recv simp: waiting_def)
  ultimately show ?thesis using q1 stay_goes_on by simp
next
  case False
  have w: "working (px_state q)" using waiting_working assms(2) by simp
  show ?thesis
    using assms False w bad_request_goes_on unavailable_goes_on advance_goes_on break_goes_on stay_goes_on
    by (auto simp: rw_parsed_def split: if_splits side.splits ServerConnectState.splits)
qed

lemma rw_received_goes_on:
  assumes "rw_received E sd n q = Some (f, p')" "waiting (px_state q)" "sd = CSide \<Longrightarrow> exist (px_client q) \<and> px_state q = CLIENT_RECV_REQUEST"
    "px_recycled q = px_recycled p"
  shows "goes_on p (f, p')"
proof (cases "n = 0")
  case True
  then show ?thesis
    using assms advance_goes_on [of sd q f p' p] stay_goes_on [of q p] waiting_working [of "px_state q"]
    by (auto simp: rw_received_def split: if_splits)
next
  case False
  then obtain r p1 where 1: "px_parse E sd n q = Some (r, p1)" "rw_parsed sd r p1 = Some (f, p')"
    using assms(1) by (auto simp: rw_received_def bind_eq_Some_conv)
  note t = target_fields [OF px_parse_target [OF 1(1)]]
  show ?thesis using rw_parsed_goes_on [OF 1(2), of p] t assms(2,3,4) by (auto simp: exist_def)
qed

lemma rw_recv_goes_on:
  assumes "rw_recv E sd q = Some (f, p')" "px_state q = (case sd of CSide \<Rightarrow> CLIENT_RECV_REQUEST | SSide \<Rightarrow> SERVER_RECV_RESPONSE)"
    "px_recycled q = px_recycled p"
  shows "goes_on p (f, p')"
proof -
  define p0 where "p0 = disable sd SOCKET_EVENT_WRITE (enable sd SOCKET_EVENT_READ q)"
  obtain n p1 where 1: "px_recv sd p0 = Some (n, p1)"
    using assms(1) by (auto simp: rw_recv_def p0_def bind_eq_Some_conv)
  have s: "px_state p1 = px_state q" "px_recycled p1 = px_recycled p" "n \<ge> 0 \<Longrightarrow> exist (sock_of sd p1)"
    using recv_state [OF 1] assms(3) by (auto simp: p0_def)
  have w: "waiting (px_state q)" using assms(2) by (cases sd) (simp_all add: waiting_def)
  define p2 where "p2 = disable_both sd p1"
  define p3 where "p3 = enable sd (px_wanted sd p2) p2"
  have p23: "px_state p2 = px_state q" "px_recycled p2 = px_recycled p" "px_client p2 = px_client p1"
    "px_state p3 = px_state q" "px_recycled p3 = px_recycled p" "px_client p3 = px_client p1"
    using s by (simp_all add: p2_def p3_def)
  have c: "exist (px_client p1) \<and> px_state q = CLIENT_RECV_REQUEST" if "sd = CSide" "n \<ge> 0"
    using s(3) that assms(2) by (simp add: sock_of_def)
  consider "ret_of (closeHandle sd p1) = Some (f, p')" | "ret_of (closeHandle sd p2) = Some (f, p')"
    | "f = Ret EVENT_CALLBACK_CONTINUE" "p' = p3" | "n \<ge> 0" "rw_received E sd n p3 = Some (f, p')"
    | "n \<ge> 0" "rw_received E sd n p1 = Some (f, p')"
    using assms(1) 1 by (auto simp: rw_recv_def p0_def [symmetric] p2_def [symmetric] p3_def [symmetric] Let_def split: if_splits)
  then show ?thesis
  proof cases
    case 1
    then show ?thesis using close_goes_on s w by simp
  next
    case 2
    then show ?thesis using close_goes_on p23 w by simp
  next
    case 3
    then show ?thesis using stay_goes_on p23 w by simp
  next
    case 4
    then show ?thesis using rw_received_goes_on [OF 4(2), of p] p23 w c by simp
  next
    case 5
    then show ?thesis using rw_received_goes_on [OF 5(2), of p] s w c by simp
  qed
qed

lemma rw_send_goes_on:
  assumes "rw_send sd q = Some (f, p')" "waiting (px_state q)" "px_recycled q = px_recycled p"
  shows "goes_on p (f, p')"
proof -
  define p0 where "p0 = disable sd SOCKET_EVENT_READ (enable sd SOCKET_EVENT_WRITE q)"
  obtain n p1 where 1: "px_send sd p0 = Some (n, p1)"
    using assms(1) by (auto simp: rw_send_def p0_def bind_eq_Some_conv)
  have s: "px_state p1 = px_state q" "px_recycled p1 = px_recycled p"
    using send_state [OF 1] assms(3) by (auto simp: p0_def)
  define p2 where "p2 = disable_both sd p1"
  define p3 where "p3 = enable sd (px_wanted sd p2) p2"
  have p23: "px_state p2 = px_state q" "px_recycled p2 = px_recycled p" "px_state p3 = px_state q" "px_recycled p3 = px_recycled p"
    using s by (simp_all add: p2_def p3_def)
  consider "ret_of (closeHandle sd p1) = Some (f, p')" | "ret_of (closeHandle sd p2) = Some (f, p')"
    | "f = Ret EVENT_CALLBACK_CONTINUE" "p' = p3" | "f = Ret EVENT_CALLBACK_CONTINUE" "p' = p1" | "advance sd p1 = Some (f, p')"
  proof -
    have "(if n < 0 then ret_of (closeHandle sd p1)
           else if \<not> isSendDone (px_bufs p1 (out_of sd p1)) then
             (if \<not> SSLNoError (sock_of sd p1) (px_heap p1) then
                (if px_wanted sd p2 = SOCKET_EVENT_NONE then ret_of (closeHandle sd p2) else Some (Ret EVENT_CALLBACK_CONTINUE, p3))
              else Some (Ret EVENT_CALLBACK_CONTINUE, p1))
           else advance sd p1) = Some (f, p')"
      using assms(1) unfolding rw_send_def p0_def [symmetric] p2_def p3_def Let_def by (simp add: 1)
    then show thesis
      by (cases "n < 0"; cases "isSendDone (px_bufs p1 (out_of sd p1))"; cases "SSLNoError (sock_of sd p1) (px_heap p1)";
          cases "px_wanted sd p2 = SOCKET_EVENT_NONE") (auto intro: that)
  qed
  then show ?thesis
    using close_goes_on [of sd p1 f p' p] close_goes_on [of sd p2 f p' p] stay_goes_on [of p3 p] stay_goes_on [of p1 p]
      advance_goes_on [of sd p1 f p' p] s p23 assms(2) waiting_working [OF assms(2)] by cases simp_all
qed

lemma rw_done_goes_on:
  assumes "rw_done q = Some (f, p')" "working (px_state q)" "px_recycled q = px_recycled p"
  shows "goes_on p (f, p')"
proof -
  obtain p1 where 1: "predictNextState q = Some p1" using assms(1) by (auto simp: rw_done_def bind_eq_Some_conv)
  have s: "working (px_state p1)" "px_recycled p1 = px_recycled p"
    using predict_edge [OF 1 assms(2)] edge_working [of "px_state q" "px_state p1"] assms(3) by simp_all
  show ?thesis
  proof (cases "px_state p1 = SERVER_HANDSHAKE")
    case False
    then show ?thesis using assms(1) 1 again_goes_on s by (auto simp: rw_done_def)
  next
    case True
    then obtain r1 p2 where 2: "px_prepareSSL SSide p1 = Some (r1, p2)"
      using assms(1) 1 by (auto simp: rw_done_def bind_eq_Some_conv)
    have s2: "working (px_state p2)" "px_recycled p2 = px_recycled p"
      using core_fields [OF core_prepareSSL [OF 2]] s by simp_all
    show ?thesis
    proof (cases "r1 = 0")
      case False
      then show ?thesis using assms(1) 1 True 2 break_goes_on s2 by (auto simp: rw_done_def)
    next
      case r1: True
      then obtain r2 p3 where 3: "px_prepareSSL CSide p2 = Some (r2, p3)"
        using assms(1) 1 2 True by (auto simp: rw_done_def bind_eq_Some_conv)
      have s3: "working (px_state p3)" "px_recycled p3 = px_recycled p"
        using core_fields [OF core_prepareSSL [OF 3]] s2 by simp_all
      show ?thesis
        using assms(1) 1 True 2 r1 3 break_goes_on s3 again_goes_on by (auto simp: rw_done_def split: if_splits)
    qed
  qed
qed

lemma rw_decide_goes_on:
  assumes "rw_decide q = Some (f, p')" "working (px_state q)"
  shows "goes_on q (f, p')"
proof -
  obtain p1 where 1: "predictNextState q = Some p1" "p' = p1 \<or> notify_200 p1 = Some p'" "f = Again"
    using assms(1) by (auto simp: rw_decide_def bind_eq_Some_conv split: if_splits)
  have "working (px_state p1)" "px_recycled p1 = px_recycled q"
    using predict_edge [OF 1(1) assms(2)] edge_working [of "px_state q" "px_state p1"] by simp_all
  then show ?thesis using 1(2,3) notify_200_state again_goes_on by fastforce
qed

lemma rw_server_handshake_goes_on:
  assumes "rw_server_handshake E q = Some (f, p')" "px_state q = SERVER_HANDSHAKE"
  shows "goes_on q (f, p')"
proof -
  obtain ret p1 where 1: "serverSSLHandShake (disable SSide SOCKET_EVENT_READ (enable SSide SOCKET_EVENT_WRITE q)) = Some (ret, p1)"
    using assms(1) by (auto simp: rw_server_handshake_def bind_eq_Some_conv)
  have s: "px_state p1 = SERVER_HANDSHAKE" "px_recycled p1 = px_recycled q"
    using core_fields [OF core_serverHandshake [OF 1]] assms(2) by simp_all
  consider "p' = p1" "f = Ret EVENT_CALLBACK_CONTINUE" | "ret_of (forceCloseProxy p1) = Some (f, p')"
    | r p2 where "resignCertificate E p1 = Some (r, p2)" "ret_of (forceCloseProxy p2) = Some (f, p') \<or> advance SSide p2 = Some (f, p')"
  proof (cases "ret = TIGERSO_IO_RECALL \<or> ret = TIGERSO_IO_ERROR")
    case True
    have "(if ret = TIGERSO_IO_RECALL then Some (Ret EVENT_CALLBACK_CONTINUE, p1)
           else ret_of (forceCloseProxy p1)) = Some (f, p')"
      using assms(1) True unfolding rw_server_handshake_def 1 by (auto split: if_split_asm)
    then show thesis using that(1,2) by (cases "ret = TIGERSO_IO_RECALL") auto
  next
    case False
    then obtain r p2 where "resignCertificate E p1 = Some (r, p2)" "(if r \<noteq> 0 then ret_of (forceCloseProxy p2) else advance SSide p2) = Some (f, p')"
      using assms(1) 1 by (auto simp: rw_server_handshake_def bind_eq_Some_conv)
    then show thesis using that(3) by (simp split: if_split_asm)
  qed
  then show ?thesis
  proof cases
    case 1
    then show ?thesis using s stay_goes_on by (simp add: waiting_def)
  next
    case 2
    then show ?thesis using s ret_goes_on by simp
  next
    case 3
    have "px_state p2 = SERVER_HANDSHAKE" "px_recycled p2 = px_recycled q" using core_fields [OF core_resign [OF 3(1)]] s by simp_all
    then show ?thesis using 3(2) ret_goes_on advance_goes_on by (auto simp: working_def)
  qed
qed

lemma rw_client_handshake_goes_on:
  assumes "rw_client_handshake q = Some (f, p')" "px_state q = CLIENT_HANDSHAKE"
  shows "goes_on q (f, p')"
proof -
  obtain ret p1 where 1: "clientSSLHandShake (disable CSide SOCKET_EVENT_WRITE (enable CSide SOCKET_EVENT_READ q)) = Some (ret, p1)"
    using assms(1) by (auto simp: rw_client_handshake_def bind_eq_Some_conv)
  have s: "px_state p1 = CLIENT_HANDSHAKE" "px_recycled p1 = px_recycled q"
    using core_fields [OF core_clientHandshake [OF 1]] assms(2) by simp_all
  have "waiting CLIENT_HANDSHAKE" "working CLIENT_HANDSHAKE" by (simp_all add: waiting_def working_def)
  then show ?thesis
    using assms(1) 1 break_goes_on advance_goes_on stay_goes_on s by (auto simp: rw_client_handshake_def split: if_splits)
qed

lemma rw_resetup_goes_on:
  assumes "rw_resetup q = Some (f, p')" "working (px_state q)"
  shows "goes_on q (f, p')"
proof -
  obtain p1 r p2 where 1: "predictNextState q = Some p1" "px_resetup p1 = Some (r, p2)"
    "f = Again \<and> p' = p2 \<or> break_of (forceCloseProxy p2) = Some (f, p')"
    using assms(1) by (auto simp: rw_resetup_def bind_eq_Some_conv split: if_splits)
  have "working (px_state p2)" "px_recycled p2 = px_recycled q"
    using predict_edge [OF 1(1) assms(2)] edge_working [of "px_state q" "px_state p1"] core_fields [OF core_resetup [OF 1(2)]] by simp_all
  then show ?thesis using 1(3) break_goes_on again_goes_on by blast
qed

lemma rw_step_goes_on:
  assumes "rw_step E p = Some (f, p')" "working (px_state p)"
  shows "goes_on p (f, p')"
proof (cases "px_state p")
  case PROXY_INIT
  define q where "q = (switchBuffers p)\<lparr>px_request := (px_request p)\<lparr>p_headerHook := Some 0\<rparr>\<rparr>"
  have q: "px_state q = PROXY_INIT" "px_recycled q = px_recycled p" using PROXY_INIT by (simp_all add: q_def switchBuffers_def)
  have "predictNextState q = Some p'" "f = Again"
    using assms(1) PROXY_INIT by (auto simp: rw_step_def rw_init_def q_def bind_eq_Some_conv)
  then show ?thesis using predict_edge [of q p'] q edge_working [of "px_state q" "px_state p'"] again_goes_on by (simp add: working_def)
next
  case CLIENT_RECV_REQUEST
  then have "rw_recv E CSide (tunnel_bodies p) = Some (f, p')" using assms(1) by (simp add: rw_step_def)
  then show ?thesis using rw_recv_goes_on [of E CSide] CLIENT_RECV_REQUEST by (simp add: tunnel_bodies_def)
next
  case SERVER_RECV_RESPONSE
  then have "rw_recv E SSide p = Some (f, p')" using assms(1) by (simp add: rw_step_def)
  then show ?thesis using rw_recv_goes_on [of E SSide] SERVER_RECV_RESPONSE by simp
next
  case CLIENT_SEND_200OK_DONE
  then have "rw_done (clear_messages p) = Some (f, p')" using assms(1) by (simp add: rw_step_def)
  then show ?thesis using rw_done_goes_on assms(2) by (simp add: clear_fields)
next
  case CLIENT_SEND_RESPONSE_DONE
  then have "rw_done (clear_messages p) = Some (f, p')" using assms(1) by (simp add: rw_step_def)
  then show ?thesis using rw_done_goes_on assms(2) by (simp add: clear_fields)
next
  case CLIENT_HANDSHAKE_DONE
  then have "predictNextState p = Some p'" "f = Again" using assms(1) by (auto simp: rw_step_def rw_next_def bind_eq_Some_conv)
  then show ?thesis
    using predict_edge [of p p'] assms(2) edge_working [of "px_state p" "px_state p'"] again_goes_on by simp
qed (use assms rw_decide_goes_on rw_send_goes_on [of _ p f p' p] rw_done_goes_on [of p f p' p] rw_server_handshake_goes_on rw_resetup_goes_on
      rw_client_handshake_goes_on in \<open>auto simp: rw_step_def working_def waiting_def\<close>)

lemma rests_trans: "px_recycled q = px_recycled p \<Longrightarrow> rests q r \<Longrightarrow> rests p r"
  by (simp add: rests_def)

lemma RWEventHandle_rests: "RWEventHandle n E p = Some (r, p') \<Longrightarrow> working (px_state p) \<Longrightarrow> rests p p'"
proof (induction n E p arbitrary: r p' rule: RWEventHandle.induct)
  case (2 n E p)
  then obtain f p1 where s: "rw_step E p = Some (f, p1)" by (auto split: option.splits)
  note g = rw_step_goes_on [OF s 2(3)]
  show ?case
  proof (cases f)
    case Again
    then have "px_recycled p1 = px_recycled p" "working (px_state p1)" using g by (simp_all add: goes_on_def)
    moreover have "RWEventHandle n E p1 = Some (r, p')" using 2(2) s Again by simp
    ultimately have "rests p1 p'" using 2(1) [OF s refl] Again by simp
    then show ?thesis by (rule rests_trans [OF \<open>px_recycled p1 = px_recycled p\<close>])
  qed (use 2(2) s g in \<open>auto simp: goes_on_def\<close>)
qed simp

end
