(* ===== verification/ProxyThms.thy ===== *)
theory ProxyThms
  imports ProxyProps
begin

text \<open>
  What a proxy connection guarantees, and what it does not: the states between calls, the way of
  the bytes, the server that is kept for good, and the request that is never answered.
\<close>

section \<open>The states between calls\<close>

definition at_rest :: "HttpProxyState \<Rightarrow> bool" where
  "at_rest s \<longleftrightarrow> s = PROXY_INIT \<or> waiting s"

definition call_rests :: "pconn \<Rightarrow> pconn \<Rightarrow> bool" where
  "call_rests p p' \<longleftrightarrow> px_recycled p' = px_recycled p \<and> at_rest (px_state p') \<or> px_recycled p' = px_recycled p + 1 \<and> pristine p'"

lemma rests_call: "rests p p' \<Longrightarrow> call_rests p p'"
  by (auto simp: rests_def call_rests_def at_rest_def)

lemma call_rests_state: "call_rests p p' \<Longrightarrow> at_rest (px_state p')"
  by (auto simp: call_rests_def at_rest_def pristine_def)

lemma same_rests: "px_recycled p' = px_recycled p \<Longrightarrow> px_state p' = px_state p \<Longrightarrow> at_rest (px_state p) \<Longrightarrow> call_rests p p'"
  by (simp add: call_rests_def)

lemma at_rest_working: "at_rest s \<Longrightarrow> working s"
  using waiting_working by (auto simp: at_rest_def working_def)

lemma forceCloseServer_rests:
  assumes "forceCloseServer p = Some (r, p')" "at_rest (px_state p)"
  shows "call_rests p p'"
proof -
  obtain p1 where 1: "px_tcpClose SSide p = Some p1" "p' = (if \<not> exist (px_client p1) then px_recycle p1 else p1)"
    using assms(1) by (auto simp: forceCloseServer_def bind_eq_Some_conv)
  note f = core_fields [OF core_tcpClose_server [OF 1(1)]]
  then show ?thesis
    using 1(2) f assms(2) recycle_pristine same_rests by (auto simp: call_rests_def px_recycle_fields)
qed

lemma error_rests:
  assumes "errorHandle sd p = Some (r, p') \<or> rdhupHandle sd p = Some (r, p') \<or> timeoutHandle sd p = Some (r, p')"
    "at_rest (px_state p)"
  shows "call_rests p p'"
  using assms forceCloseServer_rests rests_call [OF forceCloseProxy_rests]
  by (auto simp: errorHandle_def rdhupHandle_def timeoutHandle_def forceCloseClient_def split: side.splits)

lemma connected_rests:
  assumes "serverConnectHandle n E ip p = Some (r, p')" "at_rest (px_state p)"
  shows "call_rests p p'"
proof -
  obtain ret p1 where 1: "server_connect E ip p = Some (ret, p1)"
    using assms(1) by (auto simp: serverConnectHandle_def bind_eq_Some_conv)
  note f = core_fields [OF core_server_connect [OF 1]]
  consider "px_state p1 \<noteq> CLIENT_RECV_REQUEST_DONE" | "px_state p1 = CLIENT_RECV_REQUEST_DONE" "ret = 0"
    | "px_state p1 = CLIENT_RECV_REQUEST_DONE" "ret \<noteq> 0" by blast
  then show ?thesis
  proof cases
    case 1
    then have "p' = p1" using assms(1) \<open>server_connect E ip p = Some (ret, p1)\<close> by (simp add: serverConnectHandle_def)
    then show ?thesis using same_rests f assms(2) by simp
  next
    case 2
    then obtain r2 where "RWEventHandle n E p1 = Some (r2, p')"
      using assms(1) 1 by (auto simp: serverConnectHandle_def bind_eq_Some_conv)
    then have "rests p1 p'" using RWEventHandle_rests 2(1) by (simp add: working_def)
    then show ?thesis using rests_trans f rests_call by blast
  next
    case 3
    then obtain p2 where "notify_error prepare503Response p1 = Some p2" "p' = enable CSide SOCKET_EVENT_WRITE p2"
      using assms(1) 1 by (auto simp: serverConnectHandle_def bind_eq_Some_conv)
    then show ?thesis using notify_error_state same_rests f assms(2) by simp
  qed
qed

lemma tunnel_read_rests:
  assumes "SSLTunnelReadHandle sd p = Some (r, p')" "waiting (px_state p)"
  shows "call_rests p p'"
proof -
  obtain n p1 where 1: "px_recv sd p = Some (n, p1)" "closeHandle sd p1 = Some (r, p') \<or> p' = enable sd SOCKET_EVENT_WRITE p1"
    using assms(1) by (auto simp: SSLTunnelReadHandle_def bind_eq_Some_conv split: if_splits)
  have s: "waiting (px_state p1)" "px_recycled p1 = px_recycled p" using recv_state [OF 1(1)] assms(2) by simp_all
  show ?thesis
  proof (cases "closeHandle sd p1 = Some (r, p')")
    case True
    then show ?thesis using closeHandle_rests s rests_trans rests_call by blast
  qed (use 1(2) s in \<open>simp add: call_rests_def at_rest_def\<close>)
qed

lemma tunnel_write_rests:
  assumes "SSLTunnelWriteHandle sd p = Some (r, p')" "waiting (px_state p)"
  shows "call_rests p p'"
proof (cases "readableBytes (px_bufs p (out_of sd p)) = 0")
  case True
  then show ?thesis using assms same_rests by (simp add: SSLTunnelWriteHandle_def at_rest_def)
next
  case False
  then obtain n p1 where 1: "px_send sd p = Some (n, p1)"
    "closeHandle sd p1 = Some (r, p') \<or> p' = p1 \<or> p' = enable sd SOCKET_EVENT_READ (disable sd SOCKET_EVENT_WRITE p1)"
    using assms(1) by (auto simp: SSLTunnelWriteHandle_def bind_eq_Some_conv split: if_splits)
  have s: "waiting (px_state p1)" "px_recycled p1 = px_recycled p" using send_state [OF 1(1)] assms(2) by simp_all
  show ?thesis
  proof (cases "closeHandle sd p1 = Some (r, p')")
    case True
    then show ?thesis using closeHandle_rests s rests_trans rests_call by blast
  qed (use 1(2) s in \<open>auto simp: call_rests_def at_rest_def\<close>)
qed

lemma px_call_rests: "px_call E p p' \<Longrightarrow> at_rest (px_state p) \<Longrightarrow> call_rests p p'"
proof (induction rule: px_call.induct)
  case (call_io n p r p')
  then show ?case using RWEventHandle_rests at_rest_working rests_call by blast
next
  case (call_close p sd r p')
  then show ?case using closeHandle_rests rests_call by (auto simp: at_rest_def)
next
  case (call_tunnel_read p sd r p')
  then show ?case using tunnel_read_rests by (auto simp: at_rest_def)
next
  case (call_tunnel_write p sd r p')
  then show ?case using tunnel_write_rests by (auto simp: at_rest_def)
qed (auto intro: error_rests connected_rests same_rests)

lemma px_calls_rest: "px_calls E p p' \<Longrightarrow> at_rest (px_state p) \<Longrightarrow> at_rest (px_state p')"
  by (induction rule: px_calls.induct) (auto intro: call_rests_state px_call_rests)


definition demo_env :: px_env where
  "demo_env = \<lparr>pe_inet = (\<lambda>_. 0), pe_lib = demo_lib\<rparr>"

definition demo_px :: "HttpProxyState \<Rightarrow> answer list \<Rightarrow> pconn" where
  "demo_px s as =
     \<lparr>px_state = s, px_client = (new_Socket 1)\<lparr>s_fd := 5\<rparr>, px_server = (new_Socket 2)\<lparr>s_fd := 6\<rparr>,
      px_bufs = (\<lambda>_. Buffer_new CHR ''x'' 40), px_cin = 0, px_cout = 2, px_sin = 2, px_sout = 0,
      px_request = new_message HTTP_ROLE_REQUEST demo_body 7, px_response = new_message HTTP_ROLE_RESPONSE demo_body 7,
      px_notify = new_message HTTP_ROLE_RESPONSE demo_body 7, px_host = ''a.com'', px_port = ''80'', px_resolve = DNS_UINIT,
      px_resolve_cb = True, px_kern = demo_kern, px_ossl = demo_ossl, px_certs = None, px_recycled = 0, px_ops = [],
      px_script = as, px_rx_c = [], px_tx_c = [], px_rx_s = [], px_tx_s = []\<rparr>"

lemma tcpClose_plain: "s_ctx m = new_SSLContext \<Longrightarrow> \<exists>m' k' ops. tcpClose sd m k h = Some (0, m', k', h, ops)"
  by (simp add: tcpClose_def destory_def ctx_reset_def ctx_active_def validSSL_def new_SSLContext_def free_handle_def SocketUtil_Close_def)

lemma px_tcpClose_plain:
  assumes "px_script p = ATcpClose a # as" "s_ctx (sock_of sd p) = new_SSLContext"
  shows "\<exists>p'. px_tcpClose sd p = Some p' \<and> px_script p' = as \<and> px_state p' = px_state p \<and> px_recycled p' = px_recycled p \<and>
    (\<forall>sd'. sd' \<noteq> sd \<longrightarrow> sock_of sd' p' = sock_of sd' p)"
proof -
  define p1 where "p1 = p\<lparr>px_script := as\<rparr>"
  have s: "sock_of x p1 = sock_of x p" for x by (simp add: p1_def sock_of_def split: side.split)
  obtain m' k' ops where "tcpClose a (sock_of sd p1) (px_kern p1) (px_heap p1) = Some (0, m', k', px_heap p1, ops)"
    using tcpClose_plain [of "sock_of sd p1" a] assms(2) s by metis
  then have "px_tcpClose sd p = Some (emit ops (set_heap (px_heap p1) (set_sock sd m' p1)\<lparr>px_kern := k'\<rparr>))"
    using assms(1) by (simp add: px_tcpClose_def ask_def p1_def)
  then show ?thesis
    by (cases sd) (auto simp: emit_def set_heap_def set_sock_def sock_of_def p1_def split: side.splits)
qed

lemma demo_timeout:
  "\<exists>p'. timeoutHandle CSide (demo_px PROXY_INIT [ATcpClose (0, 0), ATcpClose (0, 0)]) = Some (0, p')"
proof -
  define p where "p = demo_px PROXY_INIT [ATcpClose (0, 0), ATcpClose (0, 0)]"
  obtain p1 where 1: "px_tcpClose CSide p = Some p1" "px_script p1 = [ATcpClose (0, 0)]" "s_ctx (sock_of SSide p1) = new_SSLContext"
    using px_tcpClose_plain [of p "(0, 0)" "[ATcpClose (0, 0)]" CSide] by (auto simp: p_def demo_px_def sock_of_def new_Socket_def)
  then obtain p2 where "px_tcpClose SSide p1 = Some p2" using px_tcpClose_plain by blast
  then show ?thesis using 1(1) unfolding p_def by (simp add: timeoutHandle_def forceCloseClient_def forceCloseProxy_def forceCloseServer_def)
qed





lemmas demo_eval = numeral_3_eq_3 demo_px_def rw_step_def rw_init_def predictNextState_def set_state_def switchBuffers_def enable_def emit_def
  sock_of_def rw_recv_def disable_def tunnel_bodies_def labelTunnelBody_def px_recv_def ask_def in_of_def recvNIO_def setNIO_def exist_def
  valid_fd_def recvFromSocket_def Recv_def isSSL_def ctx_active_def validSSL_def new_Socket_def new_SSLContext_def Let_def cap_to_def
  slice_def blit_def Buffer_new_def writeableBytes_def readableBytes_def sz_sub_ge to_size_def SSLNoError_def set_heap_def set_sock_def
  set_buf_def px_heap_def nb_data_def

lemma demo_start:
  "\<exists>p. RWEventHandle 3 demo_env (demo_px PROXY_INIT
        [ARecv 0 0 [((2, 0), (0, 0), ''GE'', None), ((-1, 11), (0, 0), [], None)], AParse [MessageBegin] 2]) = Some (0, p) \<and>
     px_rx_c p = ''GE'' \<and> px_recycled p = 0 \<and> length (nb_mem (px_bufs p 0)) = 40"
  by (simp add: demo_eval rw_received_def px_parse_def request_parse_def initParser_def new_message_def less_PARSE_STATE_def headers_end_def parse_result_def
    needMoreData_def rw_parsed_def getServerConnectState_def)

section \<open>The way of the bytes\<close>

text \<open>
  C1. A connection that starts in its first state with its buffers unswitched and nothing yet received
  sends to the server the bytes it receives from the client, all of them and in their order, over any
  sequence of handler calls up to its end: what was sent and what still stands in the shared buffer
  are together what was received. Nothing the connection decides on the way (a method it
  does not know, a header, the end of a message, a \<open>CONNECT\<close> request that it answered itself)
  takes a byte out of the stream.
\<close>

theorem proxy_forwards:
  assumes "px_calls E p p'" "px_recycled p' = px_recycled p" "length (nb_mem (px_bufs p' 0)) < 2 ^ 64"
    "px_state p = PROXY_INIT" "px_cin p = 0" "px_sin p = 2" "px_cout p \<in> {1, 2}"
    "nb_wf (px_bufs p 0)" "nb_data (px_bufs p 0) = []" "\<not> nb_msg (px_bufs p 0)" "px_tx_s p = px_rx_c p"
  shows "px_tx_s p' @ nb_data (px_bufs p' 0) = px_rx_c p'"
proof -
  have "forwards p" using assms by (simp add: forwards_def)
  then have "forwards p'" using forwarding.px_calls [OF assms(1)] assms(2,3) by (simp add: keeps_forwarding_def)
  then show ?thesis by (simp add: forwards_def)
qed

theorem proxy_forwards_witness:
  "\<exists>p'. px_calls demo_env (demo_px PROXY_INIT
        [ARecv 0 0 [((2, 0), (0, 0), ''GE'', None), ((-1, 11), (0, 0), [], None)], AParse [MessageBegin] 2]) p' \<and>
     px_tx_s p' @ nb_data (px_bufs p' 0) = ''GE''"
proof -
  define p where "p = demo_px PROXY_INIT [ARecv 0 0 [((2, 0), (0, 0), ''GE'', None), ((-1, 11), (0, 0), [], None)], AParse [MessageBegin] 2]"
  obtain p' where r: "RWEventHandle 3 demo_env p = Some (0, p')"
    and p': "px_rx_c p' = ''GE''" "px_recycled p' = 0" "length (nb_mem (px_bufs p' 0)) = 40"
    using demo_start unfolding p_def by blast
  have c: "px_calls demo_env p p'" by (rule calls_step [OF calls_none call_io [OF r]])
  have "px_tx_s p' @ nb_data (px_bufs p' 0) = px_rx_c p'"
    by (rule proxy_forwards [OF c]) (simp_all add: p' p_def demo_px_def Buffer_new_def nb_wf_def nb_data_def)
  then show ?thesis using c p' unfolding p_def by auto
qed

section \<open>The server that is kept\<close>

text \<open>
  C20. The hook that connects to the server a request names is set once, when the connection starts,
  and clearing the messages after a response drops it. So after the first exchange (or after the
  answer to \<open>CONNECT\<close>) no further request of the connection changes the target, whatever host
  it names: until the connection ends, host and port stay those of the first request.
\<close>

theorem target_kept:
  assumes "rw_step E p = Some (f, q)" "px_state p = CLIENT_SEND_RESPONSE_DONE \<or> px_state p = CLIENT_SEND_200OK_DONE"
    "px_calls E q r" "px_recycled r = px_recycled p"
  shows "p_headerHook (px_request r) = None \<and> px_host r = px_host p \<and> px_port r = px_port p"
proof -
  define c where "c = clear_messages p"
  have c: "px_state c \<noteq> PROXY_INIT" "p_headerHook (px_request c) = None" "px_recycled c = px_recycled p"
    "px_host c = px_host p" "px_port c = px_port p"
    using assms(2) by (auto simp: c_def clear_fields)
  have "rw_done c = Some (f, q)" using assms(1,2) by (auto simp: rw_step_def c_def)
  moreover have "predictable (px_state c)" using assms(2) by (auto simp: c_def clear_fields predictable_def)
  ultimately have "keeps_target c q" by (rule target.rw_done)
  then have "keeps_target c r" using target.px_calls [OF assms(3)] target.trans by blast
  then show ?thesis using c assms(4) by (simp add: keeps_target_def)
qed

lemma demo_fields [simp]:
  "px_state (demo_px s as) = s" "px_recycled (demo_px s as) = 0" "px_host (demo_px s as) = ''a.com''" "px_port (demo_px s as) = ''80''"
  by (simp_all add: demo_px_def)

lemma demo_response_done:
  "\<exists>q. rw_step demo_env (demo_px CLIENT_SEND_RESPONSE_DONE []) = Some (Again, q) \<and> px_recycled q = 0 \<and> px_state q = CLIENT_RECV_REQUEST"
proof -
  define c where "c = clear_messages (demo_px CLIENT_SEND_RESPONSE_DONE [])"
  have "px_state c = CLIENT_SEND_RESPONSE_DONE" "px_recycled c = 0" by (simp_all add: c_def clear_fields)
  moreover have "rw_step demo_env (demo_px CLIENT_SEND_RESPONSE_DONE []) = rw_done c" by (simp add: rw_step_def c_def)
  ultimately show ?thesis by (simp add: rw_done_def predictNextState_def set_state_def)
qed

theorem target_kept_witness:
  "\<exists>q. rw_step demo_env (demo_px CLIENT_SEND_RESPONSE_DONE []) = Some (Again, q) \<and> px_state q = CLIENT_RECV_REQUEST \<and>
       p_headerHook (px_request q) = None \<and> px_host q = ''a.com'' \<and> px_port q = ''80''"
proof -
  obtain q where q: "rw_step demo_env (demo_px CLIENT_SEND_RESPONSE_DONE []) = Some (Again, q)" "px_recycled q = 0"
    "px_state q = CLIENT_RECV_REQUEST"
    using demo_response_done by blast
  show ?thesis using target_kept [OF q(1) _ calls_none] q by (auto simp: demo_px_def)
qed

section \<open>A request that cannot be parsed\<close>

lemma request_parse_error:
  assumes "request_parse E s es n p = Some (HP_PARSE_ERROR, p')" "m_role (px_request p') = HTTP_ROLE_REQUEST"
  shows "needMoreData (px_request p')"
proof -
  have "\<exists>ret. parse_result s ret (px_request p') = HP_PARSE_ERROR"
    using assms(1) by (auto simp: request_parse_def bind_eq_Some_conv Let_def split: prod.splits if_splits)
  then show ?thesis using assms(2) by (auto simp: parse_result_def split: if_splits)
qed

lemma px_parse_error:
  assumes "px_parse E CSide n p = Some (HP_PARSE_ERROR, p')" "m_role (px_request p') = HTTP_ROLE_REQUEST"
  shows "needMoreData (px_request p')"
  using assms request_parse_error by (auto simp: px_parse_def bind_eq_Some_conv Let_def)

lemma addData_msg: "addData grow xs b = Some (n, b') \<Longrightarrow> nb_msg b' = nb_msg b"
  by (auto simp: addData_def makeSpace_def align_def bind_eq_Some_conv split: if_splits option.splits)

lemma notify_attached:
  assumes "notify_error prepare p = Some p'"
  shows "nb_msg (px_bufs p' (out_of CSide p')) \<and> px_tx_c p' = px_tx_c p \<and> px_request p' = px_request p"
proof -
  obtain a b c d p1 m k where 1: "ask ans_notify p = Some ((a, b, c, d), p1)"
    "attach_notice d (p1\<lparr>px_notify := m, px_kern := k\<rparr>) = Some p'"
    using assms by (auto simp: notify_error_def bind_eq_Some_conv)
  have "nb_msg (px_bufs p' (out_of CSide p'))" "px_request p' = px_request p1" "px_tx_c p' = px_tx_c p1"
    using 1(2) addData_msg
    by (fastforce simp: attach_notice_def attach_message_def attachHttpMessage_def out_of_def set_buf_def bind_eq_Some_conv Let_def split: prod.splits)+
  then show ?thesis using core_ask [OF 1(1)] by (simp add: core_eq)
qed

lemma tcpClose_request: "px_tcpClose SSide p = Some p' \<Longrightarrow> px_request p' = px_request p"
  by (auto simp: px_tcpClose_def px_simps dest!: core_ask)

text \<open>
  C39. A request that cannot be parsed is meant to be answered with 400. The notification is put
  into the client's output buffer and the server is closed, but the state is still the one that
  receives the request, and the next state is predicted as for an incomplete one: the loop goes
  round in the receiving state with both events disabled, so it reads on, and nothing has been sent.
\<close>

theorem bad_request_unanswered:
  assumes "rw_received E CSide n p = Some (f, q)" "px_parse E CSide n p = Some (HP_PARSE_ERROR, p1)" "n \<noteq> 0"
    "px_state p = CLIENT_RECV_REQUEST" "exist (px_client p)" "m_role (px_request p1) = HTTP_ROLE_REQUEST"
  shows "f = Again \<and> px_state q = CLIENT_RECV_REQUEST \<and> \<not> exist (px_server q) \<and> nb_msg (px_bufs q (out_of CSide q)) \<and>
    px_tx_c q = px_tx_c p \<and> rw_step E q = rw_recv E CSide (tunnel_bodies q)"
proof -
  have b: "bad_request p1 = Some (f, q)"
    using assms(1-3) by (simp add: rw_received_def rw_parsed_def)
  obtain p2 r p3 where 1: "notify_error prepare400Response p1 = Some p2" "forceCloseServer p2 = Some (r, p3)" "advance CSide p3 = Some (f, q)"
    using b by (auto simp: bad_request_def bind_eq_Some_conv)
  have t: "same_but_target p p1" using px_parse_target [OF assms(2)] assms(5) by simp
  have s1: "px_state p1 = CLIENT_RECV_REQUEST" "exist (px_client p1)" "px_tx_c p1 = px_tx_c p"
    using target_fields [OF t] assms(4,5) t by (auto simp: exist_def same_but_target_def core_eq)
  note s2 = notify_error_state [OF 1(1)] notify_attached [OF 1(1)]
  have e2: "exist (px_client p2)" using s2 s1 by simp
  note c3 = core_forceCloseServer [OF 1(2) e2]
  obtain p4 where 4: "px_tcpClose SSide p2 = Some p4" "p3 = (if \<not> exist (px_client p4) then px_recycle p4 else p4)"
    using 1(2) by (auto simp: forceCloseServer_def bind_eq_Some_conv)
  have p3: "p3 = p4" using 4 core_exist [OF core_tcpClose_server [OF 4(1)]] e2 by simp
  have "needMoreData (px_request p3)"
    using px_parse_error [OF assms(2,6)] s2 tcpClose_request [OF 4(1)] p3 by simp
  then have q: "f = Again" "q = disable_both CSide p3"
    using 1(3) s1 s2 core_fields [OF c3] by (simp_all add: advance_def predictNextState_def)
  have "\<not> exist (px_server p3)" using px_tcpClose_closed [OF 4(1)] p3 by (simp add: sock_of_def)
  moreover have "px_state p3 = CLIENT_RECV_REQUEST" "px_tx_c p3 = px_tx_c p" "nb_msg (px_bufs p3 (out_of CSide p3))"
    using c3 s1 s2 by (simp_all add: core_eq out_of_def)
  moreover have "px_bufs q = px_bufs p3" "px_tx_c q = px_tx_c p3" "out_of CSide q = out_of CSide p3"
    using q(2) by (simp_all add: disable_both_def disable_def emit_def out_of_def)
  ultimately show ?thesis using q by (simp add: rw_step_def)
qed

definition demo_bad :: pconn where
  "demo_bad = (demo_px CLIENT_RECV_REQUEST [AParse [MessageBegin] 1, ANotify 1 [] (0, 0, 0) (Some CHR ''x''), ATcpClose (0, 0)])
     \<lparr>px_bufs := (\<lambda>_. (Buffer_new CHR ''x'' 40)\<lparr>nb_wr := 10\<rparr>)\<rparr>"

lemma demo_parse_error:
  "\<exists>p1. px_parse demo_env CSide 2 demo_bad = Some (HP_PARSE_ERROR, p1) \<and> m_role (px_request p1) = HTTP_ROLE_REQUEST \<and>
     px_script p1 = [ANotify 1 [] (0, 0, 0) (Some CHR ''x''), ATcpClose (0, 0)] \<and> px_state p1 = CLIENT_RECV_REQUEST \<and>
     exist (px_client p1) \<and> px_notify p1 = new_message HTTP_ROLE_RESPONSE demo_body 7 \<and>
     px_bufs p1 = px_bufs demo_bad \<and> px_cout p1 = 2 \<and> s_ctx (px_server p1) = new_SSLContext"
  by (simp add: demo_bad_def demo_eval px_parse_def request_parse_def initParser_def new_message_def less_PARSE_STATE_def headers_end_def
      parse_result_def needMoreData_def)

lemma body_writeIn_small:
  assumes "ring_ok (b_ring b)" "length xs < space (b_ring b)" "xs \<noteq> []" "\<not> isFull (b_ring b)"
  shows "\<exists>b'. body_writeIn fuel outss res xs b k = Some (int (length xs), b', k)"
proof -
  obtain r where "writeIn (Some xs) (b_ring b) = Some (int (length xs), r)"
    using writeIn_spec [OF assms(1,4,3)] assms(2) by auto
  then show ?thesis using assms(2) by (simp add: body_writeIn_def)
qed

lemma demo_ring_facts: "ring_ok (b_ring demo_body)" "\<not> isFull (b_ring demo_body)" "space (b_ring demo_body) > 200"
  by (simp_all add: demo_body_def ring_ok_def isFull_def space_def ring_new_def rb_clear_def capacity_def sz_sub_def Let_def)

lemma demo_notified:
  assumes "px_script p = ANotify 1 [] (0, 0, 0) (Some CHR ''x'') # as" "px_notify p = new_message HTTP_ROLE_RESPONSE demo_body 7"
    "px_bufs p (px_cout p) = (Buffer_new CHR ''x'' 40)\<lparr>nb_wr := 10\<rparr>"
  shows "\<exists>p'. notify_error prepare400Response p = Some p' \<and> px_script p' = as \<and> px_state p' = px_state p \<and> px_server p' = px_server p \<and>
    px_client p' = px_client p"
proof -
  define m where "m = set_header ''Content-length'' (dec_str (length defaultResponse403Body)) (prepare_head 403 ''close'' (px_notify p))"
  have mb: "m_body m = demo_body" by (simp add: m_def prepare_head_def setDesc_def setStatuscode_def set_header_def new_message_def assms(2) Let_def)
  obtain b where "body_writeIn 1 [] (0, 0, 0) defaultResponse403Body demo_body (px_kern p) = Some (int (length defaultResponse403Body), b, px_kern p)"
    using body_writeIn_small [OF demo_ring_facts(1) _ _ demo_ring_facts(2), of defaultResponse403Body] demo_ring_facts(3)
    by (fastforce simp: defaultResponse403Body_def)
  then have pr: "prepare400Response 1 [] (0, 0, 0) (px_notify p) (px_kern p) = Some (m\<lparr>m_body := b\<rparr>, px_kern p)"
    by (simp add: prepare400Response_def prepare403Response_def prepare_error_def setBody_def m_def [symmetric] mb)
  define c where "c = (nb_clear ((Buffer_new CHR ''x'' 40)\<lparr>nb_wr := 10\<rparr>))\<lparr>nb_msg := True, nb_senddone := False\<rparr>"
  have "nb_ok c" "nb_movable c" by (simp_all add: c_def nb_clear_def Buffer_new_def nb_ok_def nb_movable_def)
  moreover obtain h m' where "getHeader (m\<lparr>m_body := b\<rparr>) = (h, m')" by fastforce
  moreover from calculation obtain b' where "addData (Some CHR ''x'') h c = Some (length h, b')"
    using addData_spec by blast
  ultimately show ?thesis using assms(1,3) pr
    by (simp add: notify_error_def ask_def attach_notice_def attach_message_def attachHttpMessage_def out_of_def c_def set_buf_def split: prod.splits)
qed

theorem bad_request_unanswered_witness:
  "\<exists>p1 q. px_parse demo_env CSide 2 demo_bad = Some (HP_PARSE_ERROR, p1) \<and> rw_received demo_env CSide 2 demo_bad = Some (Again, q) \<and>
     px_state q = CLIENT_RECV_REQUEST \<and> nb_msg (px_bufs q (out_of CSide q)) \<and> px_tx_c q = []"
proof -
  obtain p1 where p1: "px_parse demo_env CSide 2 demo_bad = Some (HP_PARSE_ERROR, p1)" "m_role (px_request p1) = HTTP_ROLE_REQUEST"
    "px_script p1 = [ANotify 1 [] (0, 0, 0) (Some CHR ''x''), ATcpClose (0, 0)]" "px_state p1 = CLIENT_RECV_REQUEST"
    "exist (px_client p1)" "px_notify p1 = new_message HTTP_ROLE_RESPONSE demo_body 7" "px_bufs p1 = px_bufs demo_bad" "px_cout p1 = 2"
    "s_ctx (px_server p1) = new_SSLContext"
    using demo_parse_error by blast
  obtain p2 where p2: "notify_error prepare400Response p1 = Some p2" "px_script p2 = [ATcpClose (0, 0)]" "px_server p2 = px_server p1"
    "px_client p2 = px_client p1" "px_state p2 = px_state p1"
    using demo_notified [OF p1(3,6)] p1(7,8) by (auto simp: demo_bad_def)
  obtain p3 where p3: "px_tcpClose SSide p2 = Some p3" "px_state p3 = px_state p2"
    using px_tcpClose_plain [OF p2(2), of SSide] p1(9) p2(3) by (auto simp: sock_of_def)
  have "exist (px_client p3)" using core_exist [OF core_tcpClose_server [OF p3(1)]] p1(5) p2(4) by simp
  then obtain f q where "rw_received demo_env CSide 2 demo_bad = Some (f, q)"
    using p1(1,4) p2(1,5) p3
    by (simp add: rw_received_def rw_parsed_def bad_request_def forceCloseServer_def advance_def predictNextState_def)
  moreover from bad_request_unanswered [OF this p1(1) _ _ _ p1(2)]
  have "f = Again \<and> px_state q = CLIENT_RECV_REQUEST \<and> nb_msg (px_bufs q (out_of CSide q)) \<and> px_tx_c q = px_tx_c demo_bad"
    by (simp add: demo_bad_def demo_px_def exist_def valid_fd_def)
  ultimately show ?thesis using p1(1) by (auto simp: demo_bad_def demo_px_def)
qed

end
