(* ===== verification/ProxyLoop.thy ===== *)
theory ProxyLoop
  imports ProxyThms
begin

text \<open>
  The loop of \<open>RWEventHandle\<close> comes to an end: a round that goes on either consumes an answer of the outside
  world or leaves a state that asks for none for one that does.
\<close>

text \<open>How many answers an operation leaves; no operation adds one.\<close>

abbreviation answers :: "pconn \<Rightarrow> nat" where
  "answers p \<equiv> length (px_script p)"

lemma ask_answers: "ask kind p = Some (a, p') \<Longrightarrow> answers p = Suc (answers p')"
  by (auto simp: ask_def split: list.splits)

lemma events_answers [simp]:
  "px_script (emit xs p) = px_script p" "px_script (enable sd f p) = px_script p" "px_script (disable sd f p) = px_script p"
  "px_script (disable_both sd p) = px_script p" "px_script (handle sd h f p) = px_script p" "px_script (set_heap hp p) = px_script p"
  "px_script (set_sock sd m p) = px_script p" "px_script (set_buf i b p) = px_script p" "px_script (set_state s p) = px_script p"
  "px_script (switchBuffers p) = px_script p" "px_script (tunnel_bodies p) = px_script p"
  by (simp_all add: emit_def enable_def disable_def disable_both_def handle_def set_heap_def set_sock_def set_buf_def set_state_def
      switchBuffers_def tunnel_bodies_def split: side.split)

lemma bookkeeping_answers [simp]:
  "px_script (px_recycle p) = px_script p" "px_script (clear_messages p) = px_script p" "px_script (mark_head p) = px_script p"
  by (simp_all add: px_recycle_def clear_messages_def mark_head_def Let_def split: prod.split)

lemmas answer_defs = bind_eq_Some_conv Let_def

lemma predict_answers: "predictNextState p = Some p' \<Longrightarrow> px_script p' = px_script p"
  by (cases "px_state p") (auto simp: predictNextState_def bind_eq_Some_conv)

lemma recv_answers: "px_recv sd p = Some (n, p') \<Longrightarrow> answers p' < answers p"
  by (cases sd) (auto simp: px_recv_def answer_defs dest!: ask_answers)

lemma send_answers: "px_send sd p = Some (n, p') \<Longrightarrow> answers p' < answers p"
  by (cases sd) (auto simp: px_send_def answer_defs dest!: ask_answers)

lemma tcpClose_answers: "px_tcpClose sd p = Some p' \<Longrightarrow> answers p' < answers p"
  by (auto simp: px_tcpClose_def answer_defs dest!: ask_answers)

lemma forceCloseServer_answers: "forceCloseServer p = Some (r, p') \<Longrightarrow> answers p' < answers p"
  by (auto simp: forceCloseServer_def answer_defs dest!: tcpClose_answers)

lemma server_connect_answers: "server_connect E ip p = Some (r, p') \<Longrightarrow> answers p' \<le> answers p"
  by (auto simp: server_connect_def answer_defs case_prod_beta dest!: ask_answers split: if_splits)

lemma resolver_call_answers: "resolver_call E ip p = Some (r, p') \<Longrightarrow> answers p' \<le> answers p"
  by (auto simp: resolver_call_def answer_defs dest!: server_connect_answers split: if_splits)

lemma resolver_answers: "resolver_resolve E host p = Some (r, p') \<Longrightarrow> answers p' \<le> answers p"
proof -
  assume r: "resolver_resolve E host p = Some (r, p')"
  let ?p = "p\<lparr>px_resolve := DNS_UINIT\<rparr>"
  consider "resolver_call E host ?p = Some (r, p')"
    | a q where "ask ans_resolve ?p = Some (a, q)" "px_script p' = px_script q \<or> (\<exists>ip. resolver_call E ip q = Some (r, p'))"
    using r by (auto simp: resolver_resolve_def answer_defs split: if_split_asm) (auto split: dns_result.split_asm)
  then show "answers p' \<le> answers p"
    by cases (fastforce dest: resolver_call_answers ask_answers)+
qed

lemma retarget_answers: "retarget E host port p = Some (r, p') \<Longrightarrow> answers p' < answers p"
  by (fastforce simp: retarget_def answer_defs case_prod_beta dest!: resolver_answers forceCloseServer_answers)

lemma header_hook_answers: "requestHeaderCompleteHandle E p = Some (r, p') \<Longrightarrow> answers p' \<le> answers p"
  by (fastforce simp: requestHeaderCompleteHandle_def answer_defs case_prod_beta dest!: retarget_answers split: if_splits)

lemma headers_end_answers: "headers_end E e p = Some p' \<Longrightarrow> answers p' \<le> answers p"
  by (auto simp: headers_end_def dest!: header_hook_answers split: if_splits)

lemma request_events_answers: "request_events E es p = Some p' \<Longrightarrow> answers p' \<le> answers p"
proof (induction es arbitrary: p)
  case (Cons e es)
  then obtain m k p1 where "headers_end E e (p\<lparr>px_request := m, px_kern := k\<rparr>) = Some p1" "request_events E es p1 = Some p'"
    by (auto simp: bind_eq_Some_conv)
  then show ?case using headers_end_answers Cons.IH by fastforce
qed simp

lemma parse_answers: "px_parse E sd n p = Some (r, p') \<Longrightarrow> answers p' < answers p"
  by (cases sd) (fastforce simp: px_parse_def request_parse_def response_parse_def answer_defs case_prod_beta
      dest!: request_events_answers ask_answers split: if_splits)+

lemma notify_error_answers: "notify_error prepare p = Some p' \<Longrightarrow> answers p' < answers p"
  by (auto simp: notify_error_def attach_notice_def answer_defs dest!: ask_answers)

lemma notify_200_answers: "notify_200 p = Some p' \<Longrightarrow> answers p' < answers p"
  by (auto simp: notify_200_def attach_notice_def answer_defs dest!: ask_answers)

lemma handshake_answers: "handshake sd call p = Some (r, p') \<Longrightarrow> answers p' < answers p"
  by (auto simp: handshake_def answer_defs dest!: ask_answers split: if_splits)

lemma prepareSSL_answers: "px_prepareSSL sd p = Some (r, p') \<Longrightarrow> answers p' < answers p"
  by (auto simp: px_prepareSSL_def answer_defs dest!: ask_answers)

lemma resign_answers: "resignCertificate E p = Some (r, p') \<Longrightarrow> answers p' < answers p"
  by (auto simp: resignCertificate_def answer_defs dest!: ask_answers)

lemma resetup_answers: "px_resetup p = Some (r, p') \<Longrightarrow> answers p' < answers p"
  by (auto simp: px_resetup_def answer_defs dest!: ask_answers)

section \<open>Rounds of the loop\<close>

text \<open>The states in which a round begins with a question to the outside world.\<close>

definition asking :: "HttpProxyState \<Rightarrow> bool" where
  "asking s \<longleftrightarrow> s \<in> {CLIENT_RECV_REQUEST, CLIENT_SEND_200OK, SERVER_HANDSHAKE, SERVER_HANDSHAKE_DONE, CLIENT_HANDSHAKE,
     SERVER_SEND_REQUEST, SERVER_RECV_RESPONSE, CLIENT_SEND_RESPONSE}"

definition rounds_left :: "pconn \<Rightarrow> nat" where
  "rounds_left p = 2 * answers p + (if asking (px_state p) then 0 else 1)"

lemma fewer_rounds: "answers q < answers p \<Longrightarrow> rounds_left q < rounds_left p"
  by (simp add: rounds_left_def)

lemma now_asking: "answers q \<le> answers p \<Longrightarrow> asking (px_state q) \<Longrightarrow> \<not> asking (px_state p) \<Longrightarrow> rounds_left q < rounds_left p"
  by (simp add: rounds_left_def)

lemma break_stops [simp]: "break_of x \<noteq> Some (Again, q)" "ret_of x \<noteq> Some (Again, q)"
  by (cases x; auto simp: break_of_def ret_of_def)+

lemma advance_answers: "advance sd p = Some (Again, q) \<Longrightarrow> answers q = answers p"
  by (auto simp: advance_def bind_eq_Some_conv dest: predict_answers)

lemma bad_request_answers: "bad_request p = Some (Again, q) \<Longrightarrow> answers q < answers p"
  by (auto simp: bad_request_def bind_eq_Some_conv dest!: notify_error_answers forceCloseServer_answers advance_answers)

lemma unavailable_answers: "unavailable p = Some (Again, q) \<Longrightarrow> answers q < answers p"
  by (auto simp: unavailable_def bind_eq_Some_conv dest!: notify_error_answers advance_answers)

lemma rw_parsed_answers: "rw_parsed sd ret p = Some (Again, q) \<Longrightarrow> answers q \<le> answers p"
  by (auto simp: rw_parsed_def bind_eq_Some_conv dest!: bad_request_answers unavailable_answers advance_answers
      split: if_splits side.splits ServerConnectState.splits)

lemma rw_received_answers: "rw_received E sd n p = Some (Again, q) \<Longrightarrow> answers q \<le> answers p"
  by (fastforce simp: rw_received_def bind_eq_Some_conv dest!: advance_answers parse_answers rw_parsed_answers split: if_splits)

lemma rw_recv_answers: "rw_recv E sd p = Some (Again, q) \<Longrightarrow> answers q < answers p"
  by (fastforce simp: rw_recv_def answer_defs dest!: recv_answers rw_received_answers split: if_splits)

lemma rw_send_answers: "rw_send sd p = Some (Again, q) \<Longrightarrow> answers q < answers p"
  by (fastforce simp: rw_send_def answer_defs dest!: send_answers advance_answers split: if_splits)

lemma rw_server_handshake_answers: "rw_server_handshake E p = Some (Again, q) \<Longrightarrow> px_state p = SERVER_HANDSHAKE \<Longrightarrow> answers q < answers p"
  by (fastforce simp: rw_server_handshake_def serverSSLHandShake_def bind_eq_Some_conv
      dest!: handshake_answers resign_answers advance_answers split: if_splits)

lemma rw_client_handshake_answers: "rw_client_handshake p = Some (Again, q) \<Longrightarrow> px_state p = CLIENT_HANDSHAKE \<Longrightarrow> answers q < answers p"
  by (fastforce simp: rw_client_handshake_def clientSSLHandShake_def bind_eq_Some_conv
      dest!: handshake_answers advance_answers split: if_splits)

lemma rw_resetup_answers: "rw_resetup p = Some (Again, q) \<Longrightarrow> answers q < answers p"
  by (auto simp: rw_resetup_def bind_eq_Some_conv dest!: predict_answers resetup_answers split: if_splits)

lemma rw_done_answers: "rw_done p = Some (Again, q) \<Longrightarrow> answers q \<le> answers p"
  by (fastforce simp: rw_done_def bind_eq_Some_conv dest!: predict_answers prepareSSL_answers split: if_splits)

lemma rw_decide_answers: "rw_decide p = Some (Again, q) \<Longrightarrow> answers q \<le> answers p"
  by (fastforce simp: rw_decide_def bind_eq_Some_conv dest!: predict_answers notify_200_answers split: if_splits)

lemma rw_init_answers: "rw_init p = Some (Again, q) \<Longrightarrow> px_script q = px_script p"
  by (auto simp: rw_init_def bind_eq_Some_conv dest!: predict_answers)

text \<open>A state that asks nothing leads to one that does.\<close>

lemma edge_asks: "px_edge s s' \<Longrightarrow> \<not> asking s \<Longrightarrow> asking s'"
  by (induction rule: px_edge.induct) (simp_all add: asking_def)

lemma predict_asks:
  assumes "predictNextState p = Some q" "working (px_state p)" "\<not> asking (px_state p)"
  shows "asking (px_state q)"
  using predict_edge [OF assms(1,2)] edge_asks assms(3) by blast

lemma rw_done_asks:
  assumes "rw_done p = Some (Again, q)" "working (px_state p)" "\<not> asking (px_state p)"
  shows "asking (px_state q)"
proof -
  obtain p1 where 1: "predictNextState p = Some p1"
    "q = p1 \<or> (\<exists>p2. px_prepareSSL SSide p1 = Some (0, p2) \<and> px_prepareSSL CSide p2 = Some (0, q))"
    using assms(1) by (auto simp: rw_done_def bind_eq_Some_conv split: if_splits)
  have "px_state q = px_state p1" using 1(2) core_fields core_prepareSSL by metis
  then show ?thesis using predict_asks [OF 1(1) assms(2,3)] by simp
qed

lemma rw_decide_asks:
  assumes "rw_decide p = Some (Again, q)" "working (px_state p)" "\<not> asking (px_state p)"
  shows "asking (px_state q)"
proof -
  obtain p1 where 1: "predictNextState p = Some p1" "q = p1 \<or> notify_200 p1 = Some q"
    using assms(1) by (auto simp: rw_decide_def bind_eq_Some_conv split: if_splits)
  then have "px_state q = px_state p1" using notify_200_state by blast
  then show ?thesis using predict_asks [OF 1(1) assms(2,3)] by simp
qed

lemma rw_init_asks:
  assumes "rw_init p = Some (Again, q)" "px_state p = PROXY_INIT"
  shows "asking (px_state q)"
proof -
  let ?p = "(switchBuffers p)\<lparr>px_request := (px_request p)\<lparr>p_headerHook := Some 0\<rparr>\<rparr>"
  have "px_state ?p = PROXY_INIT" using assms(2) by (simp add: switchBuffers_def)
  moreover have "predictNextState ?p = Some q" using assms(1) by (auto simp: rw_init_def bind_eq_Some_conv)
  ultimately show ?thesis using predict_asks [of ?p q] by (simp add: working_def asking_def)
qed

lemma asking_step:
  assumes "rw_step E p = Some (Again, q)" "asking (px_state p)"
  shows "answers q < answers p"
  using assms rw_recv_answers [of E CSide "tunnel_bodies p" q] rw_recv_answers [of E SSide p q] rw_send_answers
    rw_server_handshake_answers rw_client_handshake_answers rw_resetup_answers
  by (cases "px_state p") (simp_all add: rw_step_def asking_def)

lemma silent_step:
  assumes "rw_step E p = Some (Again, q)" "working (px_state p)" "\<not> asking (px_state p)"
  shows "answers q \<le> answers p \<and> asking (px_state q)"
proof -
  have c: "px_state (clear_messages p) = px_state p" "px_script (clear_messages p) = px_script p"
    by (simp_all add: clear_messages_def split: prod.split)
  consider "rw_init p = Some (Again, q)" "px_state p = PROXY_INIT" | "rw_decide p = Some (Again, q)"
    | "rw_done p = Some (Again, q)" | "rw_done (clear_messages p) = Some (Again, q)" | "predictNextState p = Some q"
    using assms by (cases "px_state p") (auto simp: rw_step_def rw_next_def working_def asking_def bind_eq_Some_conv)
  then show ?thesis
  proof cases
    case 1
    then show ?thesis using rw_init_answers rw_init_asks by simp
  next
    case 2
    then show ?thesis using rw_decide_answers rw_decide_asks assms(2,3) by blast
  next
    case 3
    then show ?thesis using rw_done_answers rw_done_asks assms(2,3) by blast
  next
    case 4
    then show ?thesis using rw_done_answers [OF 4] rw_done_asks [OF 4] assms(2,3) c by simp
  next
    case 5
    then show ?thesis using predict_answers predict_asks assms(2,3) by fastforce
  qed
qed

lemma step_rounds:
  assumes "rw_step E p = Some (Again, q)" "working (px_state p)"
  shows "rounds_left q < rounds_left p \<and> working (px_state q)"
proof
  show "rounds_left q < rounds_left p"
    using asking_step [OF assms(1)] silent_step [OF assms] by (cases "asking (px_state p)") (simp_all add: rounds_left_def)
  show "working (px_state q)" using rw_step_goes_on [OF assms] by (simp add: goes_on_def)
qed

text \<open>With rounds enough a call goes on to the first round that does not go on.\<close>

lemma call_returns:
  "rounds_left p < n \<Longrightarrow> working (px_state p) \<Longrightarrow>
   \<exists>q. (\<lambda>a b. rw_step E a = Some (Again, b))\<^sup>*\<^sup>* p q \<and>
     (case rw_step E q of
        None \<Rightarrow> RWEventHandle n E p = None
      | Some (Ret r, p') \<Rightarrow> RWEventHandle n E p = Some (r, p')
      | Some (Again, p') \<Rightarrow> False)"
proof (induction n arbitrary: p)
  case (Suc n)
  show ?case
  proof (cases "\<exists>q. rw_step E p = Some (Again, q)")
    case True
    then obtain q where q: "rw_step E p = Some (Again, q)" by blast
    have r: "rounds_left q < n" "working (px_state q)" using step_rounds [OF q Suc.prems(2)] Suc.prems(1) by simp_all
    have "RWEventHandle (Suc n) E p = RWEventHandle n E q" using q by simp
    then show ?thesis using Suc.IH [OF r] converse_rtranclp_into_rtranclp [of "\<lambda>a b. rw_step E a = Some (Again, b)" p q] q by metis
  next
    case False
    then show ?thesis by (intro exI [of _ p]) (auto split: option.split flow.split)
  qed
qed simp

text \<open>In the tunnel state the loop would never end; no call reaches it, since \<open>isNeedTunnelSSL\<close> says no.\<close>

lemma tunnel_spins: "px_state p = TCP_TUNNEL \<Longrightarrow> RWEventHandle n E p = None"
proof (induction n arbitrary: p)
  case (Suc n)
  moreover have "px_state (SSLTunnelInit p) = TCP_TUNNEL"
    using Suc.prems by (simp add: SSLTunnelInit_def Let_def)
  ultimately show ?case by (simp add: rw_step_def)
qed simp



end
