(* ===== verification/DnsCache.thy ===== *)
theory DnsCache
  imports Base "HOL-Library.List_Lexorder"
begin

text \<open>
  \<open>dns/DNSCache.cpp\<close>: the cache of resolved names. Its nodes stand in shared memory under a
  process-wide lock, and are found by probing the eight 16-bit words of the MD5 digest of the
  name; what arrives while the lock is busy waits in a map of the process. The digest
  function, the clock and whether \<open>try_lock\<close> succeeds are arguments, and so are the bytes behind
  a C string that \<open>memcmp\<close> and \<open>memcpy\<close> read beyond its end.
\<close>

abbreviation MD5_KEYSIZE :: nat where "MD5_KEYSIZE \<equiv> 16"
abbreviation IPV4_ADDRSIZE :: nat where "IPV4_ADDRSIZE \<equiv> 16"
abbreviation HASH_NODENUM :: nat where "HASH_NODENUM \<equiv> 65536"
abbreviation HOST_MAXLENGTH :: nat where "HOST_MAXLENGTH \<equiv> 256"

record DNSNode =
  dn_host :: bytes
  dn_key :: bytes
  dn_addr :: bytes
  dn_expires :: int

record DNSCache =
  dc_nodes :: "(nat \<Rightarrow> DNSNode) option"
  dc_stick :: "bytes \<rightharpoonup> bytes list"
  dc_memory :: "(bytes \<times> bytes \<times> int) list"

text \<open>What a call finds outside: the digest, the time, and the bytes behind its strings.\<close>

record dns_env =
  de_md5 :: "bytes \<Rightarrow> bytes"
  de_now :: int
  de_junk :: bytes

definition set_nodes :: "(nat \<Rightarrow> DNSNode) \<Rightarrow> DNSCache \<Rightarrow> DNSCache" where
  "set_nodes nodes c = c\<lparr>dc_nodes := Some nodes\<rparr>"

text \<open>The conversion of a wider integer to \<open>int\<close>.\<close>

definition to_int :: "int \<Rightarrow> int" where
  "to_int x = (x + 2 ^ 31) mod 2 ^ 32 - 2 ^ 31"

section \<open>Probing\<close>

definition le16 :: "bytes \<Rightarrow> nat" where
  "le16 xs = of_char (xs ! 0) + 256 * of_char (xs ! 1)"

definition getNextHashkey :: "bytes \<Rightarrow> nat \<Rightarrow> nat \<Rightarrow> nat option" where
  "getNextHashkey pkey len cnt =
     (let start = (if cnt * 2 > len \<or> cnt * 2 + 1 > len then 0 else cnt * 2)
      in do { xs \<leftarrow> slice start 2 pkey; Some (le16 xs mod HASH_NODENUM) })"

definition calcMd5 :: "dns_env \<Rightarrow> bytes \<Rightarrow> bytes" where
  "calcMd5 e buf = de_md5 e (c_str buf)"

definition getHashkey :: "dns_env \<Rightarrow> bytes \<Rightarrow> bytes \<times> nat option" where
  "getHashkey e host = (let k = calcMd5 e host in (k, getNextHashkey k MD5_KEYSIZE 0))"

definition isNodeUsed :: "int \<Rightarrow> DNSNode \<Rightarrow> bool" where
  "isNodeUsed now n \<longleftrightarrow> \<not> dn_expires n < now"

text \<open>\<open>memcmp(host, node.host_, strlen(host)) == 0\<close>: the name in the node may be longer.\<close>

definition host_matches :: "bytes \<Rightarrow> DNSNode \<Rightarrow> bool option" where
  "host_matches h n = do { xs \<leftarrow> slice 0 (length h) (dn_host n); Some (xs = h) }"

lemma getNextHashkey_wraps: "8 \<le> cnt \<Longrightarrow> getNextHashkey k MD5_KEYSIZE cnt = getNextHashkey k MD5_KEYSIZE 0"
  by (simp add: getNextHashkey_def)

lemma probe_bound:
  "Some n = getNextHashkey k MD5_KEYSIZE (Suc cnt) \<Longrightarrow> Some key = getNextHashkey k MD5_KEYSIZE 0 \<Longrightarrow> n \<noteq> key \<Longrightarrow> cnt < 7"
  using getNextHashkey_wraps [of "Suc cnt" k] by (cases "cnt < 7") (simp_all, metis option.inject)

text \<open>The loop of \<open>queryIP\<close>: the slot that holds the name, if one of the probes does.\<close>

function find_loop :: "bytes \<Rightarrow> (nat \<Rightarrow> DNSNode) \<Rightarrow> int \<Rightarrow> bytes \<Rightarrow> nat \<Rightarrow> nat \<Rightarrow> nat option option" where
  "find_loop k nodes now h cnt slot =
     (case (if isNodeUsed now (nodes slot) then host_matches h (nodes slot) else Some False) of
        None \<Rightarrow> None
      | Some True \<Rightarrow> Some (Some slot)
      | Some False \<Rightarrow>
          (case (getNextHashkey k MD5_KEYSIZE (Suc cnt), getNextHashkey k MD5_KEYSIZE 0) of
             (Some n, Some key) \<Rightarrow> if n = key then Some None else find_loop k nodes now h (Suc cnt) n
           | _ \<Rightarrow> None))"
  by pat_completeness auto
termination
  by (relation "measure (\<lambda>(k, nodes, now, h, cnt, slot). 7 - cnt)") (auto dest: probe_bound)

text \<open>The loop of \<open>DNS2Shared\<close>: the first slot that is free or holds the name, or the one of the probes
  that expires first.\<close>

function place_loop :: "bytes \<Rightarrow> (nat \<Rightarrow> DNSNode) \<Rightarrow> int \<Rightarrow> bytes \<Rightarrow> nat \<Rightarrow> nat \<Rightarrow> nat \<Rightarrow> int \<Rightarrow> nat option" where
  "place_loop k nodes now h cnt slot todie_of todie_at =
     (case (if isNodeUsed now (nodes slot) then host_matches h (nodes slot) else Some True) of
        None \<Rightarrow> None
      | Some True \<Rightarrow> Some slot
      | Some False \<Rightarrow>
          (let (tof, tat) = (if dn_expires (nodes slot) < todie_at then (slot, dn_expires (nodes slot)) else (todie_of, todie_at))
           in (case (getNextHashkey k MD5_KEYSIZE (Suc cnt), getNextHashkey k MD5_KEYSIZE 0) of
                 (Some n, Some key) \<Rightarrow> if n = key then Some tof else place_loop k nodes now h (Suc cnt) n tof tat
               | _ \<Rightarrow> None)))"
  by pat_completeness auto
termination
  by (relation "measure (\<lambda>(k, nodes, now, h, cnt, slot, t, a). 7 - cnt)") (auto dest: probe_bound split: if_splits)

declare find_loop.simps [simp del] place_loop.simps [simp del]

section \<open>Storing\<close>

text \<open>\<open>updateNode\<close>. \<open>sizeof(host)\<close> is the size of a pointer, so that eight bytes are compared. The name
  is copied without its terminating NUL, the address with what follows it.\<close>

definition updateNode :: "dns_env \<Rightarrow> DNSNode \<Rightarrow> bytes \<Rightarrow> bytes \<Rightarrow> bytes \<Rightarrow> int \<Rightarrow> (int \<times> DNSNode) option" where
  "updateNode e n h k ip ttl =
     (let expires = de_now e + ttl
      in do { old \<leftarrow> slice 0 8 (dn_host n);
              new \<leftarrow> slice 0 8 (h @ NUL # de_junk e);
              if old = new \<and> expires < dn_expires n then Some (0, n)
              else
               do { host \<leftarrow> blit 0 h (dn_host n);
                    kb \<leftarrow> slice 0 MD5_KEYSIZE k;
                    key \<leftarrow> blit 0 kb (dn_key n);
                    ipb \<leftarrow> slice 0 IPV4_ADDRSIZE (ip @ NUL # de_junk e);
                    addr \<leftarrow> blit 0 ipb (dn_addr n);
                    Some (0, n\<lparr>dn_host := host, dn_key := key, dn_addr := addr, dn_expires := expires\<rparr>) } })"

definition store2Memory :: "dns_env \<Rightarrow> bytes option \<Rightarrow> bytes option \<Rightarrow> int \<Rightarrow> DNSCache \<Rightarrow> int \<times> DNSCache" where
  "store2Memory e host ip ttl c =
     (case (host, ip) of
        (Some h, Some i) \<Rightarrow>
          if ttl < 0 then (-1, c)
          else (0, c\<lparr>dc_memory := insort_key fst (c_str h, c_str i, de_now e + ttl) (filter (\<lambda>x. fst x \<noteq> c_str h) (dc_memory c))\<rparr>)
      | _ \<Rightarrow> (-1, c))"

definition DNS2Shared :: "bool \<Rightarrow> dns_env \<Rightarrow> bytes option \<Rightarrow> bytes option \<Rightarrow> int \<Rightarrow> DNSCache \<Rightarrow> (int \<times> DNSCache) option" where
  "DNS2Shared locked e host ip ttl c =
     (case (host, ip) of
        (Some h0, Some i0) \<Rightarrow>
          if ttl < 0 \<or> \<not> locked then Some (-1, c)
          else
           (let h = c_str h0; (k, hk) = getHashkey e h0
            in do { key \<leftarrow> hk;
                    nodes \<leftarrow> dc_nodes c;
                    slot \<leftarrow> place_loop k nodes (de_now e) h 0 key key (dn_expires (nodes key));
                    (r, n) \<leftarrow> updateNode e (nodes slot) h k (c_str i0) ttl;
                    Some (if r \<noteq> 0 then -1 else 0, set_nodes (nodes(slot := n)) c) })
      | _ \<Rightarrow> Some (-1, c))"

fun flush_loop :: "bool \<Rightarrow> dns_env \<Rightarrow> (bytes \<times> bytes \<times> int) list \<Rightarrow> DNSCache \<Rightarrow> DNSCache option" where
  "flush_loop locked e [] c = Some c"
| "flush_loop locked e ((host, ip, expires) # xs) c =
     do { c1 \<leftarrow> (if expires > de_now e
                then map_option snd (DNS2Shared locked e (Some host) (Some ip) (to_int (expires - de_now e)) c)
                else Some c);
          flush_loop locked e xs c1 }"

definition memory2Shared :: "bool \<Rightarrow> dns_env \<Rightarrow> DNSCache \<Rightarrow> (int \<times> DNSCache) option" where
  "memory2Shared locked e c =
     (if \<not> locked then Some (-1, c)
      else do { c1 \<leftarrow> flush_loop locked e (dc_memory c) c; Some (0, c1\<lparr>dc_memory := []\<rparr>) })"

definition updateDNS :: "bool \<Rightarrow> dns_env \<Rightarrow> bytes option \<Rightarrow> bytes option \<Rightarrow> int \<Rightarrow> DNSCache \<Rightarrow> (int \<times> DNSCache) option" where
  "updateDNS locked e host ip ttl c =
     (if host = None \<or> ip = None \<or> ttl < 0 then Some (-1, c)
      else if \<not> locked then Some (store2Memory e host ip ttl c)
      else do { (ret, c1) \<leftarrow> DNS2Shared locked e host ip ttl c;
                (_, c2) \<leftarrow> memory2Shared locked e c1;
                Some (ret, c2) })"

section \<open>Asking\<close>

definition setStickDNSNode :: "bytes \<Rightarrow> bytes \<Rightarrow> DNSCache \<Rightarrow> int \<times> DNSCache" where
  "setStickDNSNode host ip c =
     (0, c\<lparr>dc_stick := (dc_stick c)(host \<mapsto> (case dc_stick c host of None \<Rightarrow> [] | Some xs \<Rightarrow> xs) @ [ip])\<rparr>)"

text \<open>The second record is returned; there may be only one.\<close>

definition getStickDNSNode :: "bytes \<Rightarrow> DNSCache \<Rightarrow> (int \<times> bytes) option" where
  "getStickDNSNode host c =
     (case dc_stick c host of
        Some ips \<Rightarrow> if length ips > 1 then Some (0, ips ! 1) else None
      | None \<Rightarrow> Some (-1, []))"

definition queryIP :: "bool \<Rightarrow> dns_env \<Rightarrow> bytes option \<Rightarrow> bytes option \<Rightarrow> DNSCache \<Rightarrow> (int \<times> bytes option \<times> DNSCache) option" where
  "queryIP locked e host ipaddr c =
     (case (host, ipaddr) of
        (Some h0, Some buf) \<Rightarrow>
          do { (r, stick) \<leftarrow> getStickDNSNode (c_str h0) c;
               if r = 0 then do { b \<leftarrow> blit 0 stick buf; Some (0, Some b, c) }
               else
                (let h = c_str h0; (k, hk) = getHashkey e h0
                 in do { key \<leftarrow> hk;
                         if \<not> locked then Some (-1, ipaddr, c)
                         else
                          do { (_, c1) \<leftarrow> memory2Shared locked e c;
                               case dc_nodes c1 of
                                 None \<Rightarrow> Some (-1, ipaddr, c1)
                               | Some nodes \<Rightarrow>
                                   do { found \<leftarrow> find_loop k nodes (de_now e) h 0 key;
                                        case found of
                                          None \<Rightarrow> Some (-1, ipaddr, c1)
                                        | Some slot \<Rightarrow>
                                            do { a \<leftarrow> slice 0 IPV4_ADDRSIZE (dn_addr (nodes slot));
                                                 b \<leftarrow> blit 0 a buf;
                                                 Some (0, Some b, c1) } } } }) }
      | _ \<Rightarrow> Some (-1, ipaddr, c))"

section \<open>What is stored is found\<close>

definition env_ok :: "dns_env \<Rightarrow> bool" where
  "env_ok e \<longleftrightarrow> (\<forall>x. length (de_md5 e x) = MD5_KEYSIZE) \<and> IPV4_ADDRSIZE \<le> length (de_junk e)"

definition node_ok :: "DNSNode \<Rightarrow> bool" where
  "node_ok n \<longleftrightarrow> length (dn_host n) = HOST_MAXLENGTH \<and> length (dn_key n) = MD5_KEYSIZE \<and> length (dn_addr n) = IPV4_ADDRSIZE"

lemma host_matches_ok: "node_ok n \<Longrightarrow> length h \<le> HOST_MAXLENGTH \<Longrightarrow> host_matches h n = Some (take (length h) (dn_host n) = h)"
  by (simp add: host_matches_def node_ok_def slice_def)

lemma probe_Some: "length k = MD5_KEYSIZE \<Longrightarrow> \<exists>n. getNextHashkey k MD5_KEYSIZE cnt = Some n"
  by (auto simp: getNextHashkey_def slice_def)

text \<open>Storing always finds a slot, and a node put there is what a search then comes to.\<close>

lemma place_loop_step:
  assumes "isNodeUsed now (nodes slot)" "host_matches h (nodes slot) = Some False"
    "getNextHashkey k MD5_KEYSIZE (Suc cnt) = Some n" "getNextHashkey k MD5_KEYSIZE 0 = Some key"
  shows "place_loop k nodes now h cnt slot t a =
    (if n = key then Some (if dn_expires (nodes slot) < a then slot else t)
     else place_loop k nodes now h (Suc cnt) n (if dn_expires (nodes slot) < a then slot else t)
            (if dn_expires (nodes slot) < a then dn_expires (nodes slot) else a))"
  using assms by (subst place_loop.simps) (simp add: Let_def)

lemma find_loop_step:
  assumes "isNodeUsed now (nodes slot) \<Longrightarrow> host_matches h (nodes slot) = Some False"
    "getNextHashkey k MD5_KEYSIZE (Suc cnt) = Some n" "getNextHashkey k MD5_KEYSIZE 0 = Some key"
  shows "find_loop k nodes now h cnt slot = (if n = key then Some None else find_loop k nodes now h (Suc cnt) n)"
  using assms by (subst find_loop.simps) simp

lemma place_loop_Some:
  assumes "length k = MD5_KEYSIZE" "\<And>i. node_ok (nodes i)" "length h \<le> HOST_MAXLENGTH"
  shows "\<exists>s. place_loop k nodes now h cnt slot t a = Some s"
proof (induction "7 - cnt" arbitrary: cnt slot t a rule: less_induct)
  case less
  obtain n key where nk: "getNextHashkey k MD5_KEYSIZE (Suc cnt) = Some n" "getNextHashkey k MD5_KEYSIZE 0 = Some key"
    using probe_Some [OF assms(1)] by blast
  have m: "host_matches h (nodes slot) \<noteq> None" using host_matches_ok assms by simp
  show ?case
  proof (cases "isNodeUsed now (nodes slot) \<and> host_matches h (nodes slot) = Some False")
    case True
    show ?thesis
    proof (cases "n = key")
      case False
      then have "7 - Suc cnt < 7 - cnt" using probe_bound [of n k cnt key] nk by simp
      then show ?thesis using less place_loop_step [of now nodes slot h k cnt n key] True nk False by simp
    qed (use place_loop_step [of now nodes slot h k cnt n key] True nk in simp)
  next
    case False
    then show ?thesis using m by (subst place_loop.simps) (auto split: option.splits bool.splits)
  qed
qed

lemma place_then_find:
  assumes "place_loop k nodes now h cnt slot t a = Some s" "isNodeUsed now' n" "host_matches h n = Some True"
  shows "s = t \<or> find_loop k (nodes(s := n)) now' h cnt slot = Some (Some s)"
  using assms(1)
proof (induction "7 - cnt" arbitrary: cnt slot t a rule: less_induct)
  case less
  note prems = less.prems assms(2,3)
  show ?case
  proof (cases "s = slot")
    case True
    then show ?thesis using prems by (simp add: find_loop.simps)
  next
    case False
    then have used: "isNodeUsed now (nodes slot)" "host_matches h (nodes slot) = Some False"
      using prems(1) by (auto simp: place_loop.simps [of k nodes] split: if_splits option.splits bool.splits)
    obtain n' key where nk: "getNextHashkey k MD5_KEYSIZE (Suc cnt) = Some n'" "getNextHashkey k MD5_KEYSIZE 0 = Some key"
      using prems(1) used by (auto simp: place_loop.simps [of k nodes] split: if_splits option.splits bool.splits)
    define t' where "t' = (if dn_expires (nodes slot) < a then slot else t)"
    define a' where "a' = (if dn_expires (nodes slot) < a then dn_expires (nodes slot) else a)"
    note step = place_loop_step [of now nodes slot h k cnt n' key t a, OF used nk, folded t'_def a'_def]
    show ?thesis
    proof (cases "n' = key")
      case True
      then show ?thesis using step prems(1) False by (auto simp: t'_def split: if_splits)
    next
      case n': False
      have "s = t' \<or> find_loop k (nodes(s := n)) now' h (Suc cnt) n' = Some (Some s)"
        using less.hyps [of "Suc cnt" n' t' a'] probe_bound [of n' k cnt key] step prems(1) nk n' by simp
      moreover have "find_loop k (nodes(s := n)) now' h cnt slot = find_loop k (nodes(s := n)) now' h (Suc cnt) n'"
        using find_loop_step [of now' "nodes(s := n)" slot h k cnt n' key] used nk n' False by simp
      ultimately show ?thesis using False by (auto simp: t'_def split: if_splits)
    qed
  qed
qed

lemma updateNode_ok:
  assumes "env_ok e" "node_ok n" "length h \<le> HOST_MAXLENGTH" "length k = MD5_KEYSIZE" "NUL \<notin> set ip" "length ip < IPV4_ADDRSIZE"
    "take 8 (dn_host n) = take 8 (h @ NUL # de_junk e) \<Longrightarrow> dn_expires n \<le> de_now e + ttl"
  shows "\<exists>n'. updateNode e n h k ip ttl = Some (0, n') \<and> node_ok n' \<and> dn_expires n' = de_now e + ttl \<and>
    host_matches h n' = Some True \<and> c_str (dn_addr n') = ip"
proof -
  have l: "slice 0 8 (dn_host n) = Some (take 8 (dn_host n))" "slice 0 8 (h @ NUL # de_junk e) = Some (take 8 (h @ NUL # de_junk e))"
    "slice 0 MD5_KEYSIZE k = Some k" "slice 0 IPV4_ADDRSIZE (ip @ NUL # de_junk e) = Some (take IPV4_ADDRSIZE (ip @ NUL # de_junk e))"
    using assms(1,2,4) by (auto simp: slice_def node_ok_def env_ok_def)
  define addr where "addr = take IPV4_ADDRSIZE (ip @ NUL # de_junk e)"
  have a: "length addr = IPV4_ADDRSIZE" "c_str addr = ip"
    using assms(1,5,6) by (auto simp: addr_def env_ok_def c_str_def take_Cons' takeWhile_append)
  define n' where "n' = n\<lparr>dn_host := h @ drop (length h) (dn_host n), dn_key := k, dn_addr := addr, dn_expires := de_now e + ttl\<rparr>"
  have "updateNode e n h k ip ttl = Some (0, n')"
    using l assms(2,3,4,7) a(1) by (auto simp: updateNode_def blit_def node_ok_def n'_def addr_def Let_def)
  moreover have "node_ok n'" using assms(2,3,4) a(1) by (simp add: node_ok_def n'_def)
  moreover have "host_matches h n' = Some True"
    using host_matches_ok [OF \<open>node_ok n'\<close> assms(3)] by (simp add: n'_def)
  ultimately show ?thesis using a(2) by (auto simp: n'_def)
qed

lemma DNS2Shared_c_str: "DNS2Shared l e (Some (c_str h)) (Some (c_str i)) ttl c = DNS2Shared l e (Some h) (Some i) ttl c"
  by (simp add: DNS2Shared_def getHashkey_def calcMd5_def)

lemma DNS2Shared_found:
  assumes "env_ok e" "dc_nodes c = Some nodes" "\<And>i. node_ok (nodes i)" "length (c_str host) \<le> HOST_MAXLENGTH"
    "length (c_str ip) < IPV4_ADDRSIZE" "0 \<le> ttl"
    "\<And>i. take 8 (dn_host (nodes i)) = take 8 (c_str host @ NUL # de_junk e) \<Longrightarrow> dn_expires (nodes i) \<le> de_now e + ttl"
  shows "\<exists>slot n key. DNS2Shared True e (Some host) (Some ip) ttl c = Some (0, set_nodes (nodes(slot := n)) c) \<and>
    getNextHashkey (calcMd5 e host) MD5_KEYSIZE 0 = Some key \<and> node_ok n \<and> c_str (dn_addr n) = c_str ip \<and>
    (\<forall>now'. now' \<le> de_now e + ttl \<longrightarrow> find_loop (calcMd5 e host) (nodes(slot := n)) now' (c_str host) 0 key = Some (Some slot))"
proof -
  define k where "k = calcMd5 e host"
  define h where "h = c_str host"
  have k: "length k = MD5_KEYSIZE" using assms(1) by (simp add: k_def calcMd5_def env_ok_def)
  obtain key where key: "getNextHashkey k MD5_KEYSIZE 0 = Some key" using probe_Some [OF k] by blast
  obtain slot where slot: "place_loop k nodes (de_now e) h 0 key key (dn_expires (nodes key)) = Some slot"
    using place_loop_Some [OF k, of nodes h] assms(3,4) unfolding h_def by blast
  obtain n where n: "updateNode e (nodes slot) h k (c_str ip) ttl = Some (0, n)" "node_ok n" "dn_expires n = de_now e + ttl"
    "host_matches h n = Some True" "c_str (dn_addr n) = c_str ip"
    using updateNode_ok [OF assms(1,3) _ k, of h "c_str ip" slot ttl] assms(4,5,7) unfolding h_def by auto
  have "find_loop k (nodes(slot := n)) now' h 0 key = Some (Some slot)" if "now' \<le> de_now e + ttl" for now'
  proof (cases "slot = key")
    case True
    then show ?thesis using n(3,4) that by (subst find_loop.simps) (simp add: isNodeUsed_def)
  next
    case False
    then show ?thesis using place_then_find [OF slot _ n(4), of now'] n(3) that by (simp add: isNodeUsed_def)
  qed
  moreover have "DNS2Shared True e (Some host) (Some ip) ttl c = Some (0, set_nodes (nodes(slot := n)) c)"
    using assms(2,6) key slot n(1) by (simp add: DNS2Shared_def getHashkey_def k_def h_def Let_def)
  ultimately show ?thesis using key n(2,5) unfolding k_def h_def by blast
qed

text \<open>
  C19. A stored address is found. Whether or not the lock was free when the answer arrived, a later query
  under the lock, before the record expires, returns the address that was stored, wherever the
  probes put it; this holds for every state of the table whose nodes for the same first eight characters do not
  expire later than the new record, and the loops end after at most eight probes. Names of up to 256
  and addresses of up to 15 characters stay inside the arrays of the node.
\<close>

theorem dns_cache_answers:
  assumes "env_ok e" "env_ok e'" "de_md5 e' = de_md5 e" "de_junk e' = de_junk e"
    "de_now e \<le> de_now e'" "de_now e' < de_now e + ttl" "0 \<le> ttl" "ttl < 2 ^ 31"
    "dc_nodes c = Some nodes" "\<And>i. node_ok (nodes i)" "dc_memory c = []" "dc_stick c (c_str host) = None"
    "length (c_str host) \<le> HOST_MAXLENGTH" "length (c_str ip) < IPV4_ADDRSIZE" "length buf = IPV4_ADDRSIZE"
    "\<And>i. take 8 (dn_host (nodes i)) = take 8 (c_str host @ NUL # de_junk e) \<Longrightarrow> dn_expires (nodes i) \<le> de_now e + ttl"
  shows "\<exists>c' b c''. updateDNS locked e (Some host) (Some ip) ttl c = Some (0, c') \<and>
    queryIP True e' (Some host) (Some buf) c' = Some (0, Some b, c'') \<and> c_str b = c_str ip"
proof -
  define e1 where "e1 = (if locked then e else e')"
  define ttl1 where "ttl1 = de_now e + ttl - de_now e1"
  define c1 where "c1 = (if locked then c else c\<lparr>dc_memory := [(c_str host, c_str ip, de_now e + ttl)]\<rparr>)"
  have c1: "dc_nodes c1 = Some nodes" "dc_stick c1 = dc_stick c" using assms(9) by (simp_all add: c1_def)
  have md5: "calcMd5 e1 host = calcMd5 e' host" "calcMd5 e1 (c_str host) = calcMd5 e' host"
    using assms(3) by (simp_all add: e1_def calcMd5_def)
  obtain slot n key where s: "DNS2Shared True e1 (Some (c_str host)) (Some (c_str ip)) ttl1 c1 = Some (0, set_nodes (nodes(slot := n)) c1)"
    "getNextHashkey (calcMd5 e' host) MD5_KEYSIZE 0 = Some key" "node_ok n" "c_str (dn_addr n) = c_str ip"
    "find_loop (calcMd5 e' host) (nodes(slot := n)) (de_now e') (c_str host) 0 key = Some (Some slot)"
    using DNS2Shared_found [of e1 c1 nodes "c_str host" "c_str ip" ttl1] assms md5 c1
    by (auto simp: e1_def ttl1_def split: if_splits)
  have a: "slice 0 IPV4_ADDRSIZE (dn_addr n) = Some (dn_addr n)" "blit 0 (dn_addr n) buf = Some (dn_addr n)"
    using s(3) assms(15) by (simp_all add: node_ok_def slice_def blit_def)
  show ?thesis
  proof (cases locked)
    case True
    have "DNS2Shared True e (Some host) (Some ip) ttl c = Some (0, set_nodes (nodes(slot := n)) c)"
      using s(1) True by (simp add: e1_def ttl1_def c1_def DNS2Shared_c_str)
    then show ?thesis
      using True assms(7,11,12) s a
      by (simp add: updateDNS_def memory2Shared_def set_nodes_def queryIP_def getStickDNSNode_def getHashkey_def)
  next
    case False
    have t: "to_int ttl1 = ttl1" "ttl1 = de_now e + ttl - de_now e'" "de_now e + ttl > de_now e'"
      using False assms(5,6,8) by (simp_all add: to_int_def ttl1_def e1_def)
    have u: "updateDNS locked e (Some host) (Some ip) ttl c = Some (0, c1)"
      using False assms(7,11) by (simp add: updateDNS_def store2Memory_def c1_def)
    have m: "memory2Shared True e' c1 = Some (0, (set_nodes (nodes(slot := n)) c1)\<lparr>dc_memory := []\<rparr>)"
      using False s(1) t by (simp add: memory2Shared_def c1_def e1_def)
    show ?thesis
      using u m assms(12) c1(2) s a by (simp add: queryIP_def getStickDNSNode_def getHashkey_def set_nodes_def)
  qed
qed

definition demo_dns_env :: "int \<Rightarrow> dns_env" where
  "demo_dns_env now = \<lparr>de_md5 = (\<lambda>_. replicate 16 CHR ''m''), de_now = now, de_junk = replicate 16 CHR ''j''\<rparr>"

definition demo_cache :: DNSCache where
  "demo_cache =
     \<lparr>dc_nodes = Some (\<lambda>_. \<lparr>dn_host = replicate 256 NUL, dn_key = replicate 16 NUL, dn_addr = replicate 16 NUL, dn_expires = 9\<rparr>),
      dc_stick = Map.empty, dc_memory = []\<rparr>"

theorem dns_cache_answers_witness:
  "\<exists>c' b c''. updateDNS False (demo_dns_env 10) (Some ''a.com'') (Some ''10.0.0.1'') 60 demo_cache = Some (0, c') \<and>
     queryIP True (demo_dns_env 40) (Some ''a.com'') (Some (replicate 16 NUL)) c' = Some (0, Some b, c'') \<and> c_str b = ''10.0.0.1''"
proof -
  define node where "node = \<lparr>dn_host = replicate 256 NUL, dn_key = replicate 16 NUL, dn_addr = replicate 16 NUL, dn_expires = 9\<rparr>"
  have "c_str ''a.com'' = ''a.com''" "c_str ''10.0.0.1'' = ''10.0.0.1''" by (simp_all add: c_str_id NUL_def)
  then show ?thesis
    using dns_cache_answers [of "demo_dns_env 10" "demo_dns_env 40" 60 demo_cache "\<lambda>_. node" "''a.com''" "''10.0.0.1''" "replicate 16 NUL" False]
    by (simp add: demo_dns_env_def demo_cache_def env_ok_def node_ok_def node_def)
qed

end
