(* ===== verification/DnsMsg.thy ===== *)
theory DnsMsg
  imports DnsCache
begin

unbundle bit_operations_syntax

text \<open>
  The messages of \<open>dns/DNSResolver.cpp\<close>: packing a query, reading names with labels and pointers,
  resource records, and the answer. Both message buffers have 512 bytes; pointers into them
  are offsets, and reading or writing outside of an array is undefined, which the value
  \<open>None\<close> stands for. \<open>None\<close> is also the value of a recursion that never ends.
\<close>

abbreviation DNS_DOMAIN_NAME_LIMIT :: nat where "DNS_DOMAIN_NAME_LIMIT \<equiv> 255"
abbreviation DNS_MESSAGE_LIMIT :: nat where "DNS_MESSAGE_LIMIT \<equiv> 512"
abbreviation DNS_STANDARD_QUERY_FLAGS :: "16 word" where "DNS_STANDARD_QUERY_FLAGS \<equiv> 0x0100"
abbreviation DNS_HEADER_FLAGS_RD :: "16 word" where "DNS_HEADER_FLAGS_RD \<equiv> 0x0100"
abbreviation DNS_TYPE_A :: nat where "DNS_TYPE_A \<equiv> 1"
abbreviation DNS_RRNAME_OFFSETFLAG :: "8 word" where "DNS_RRNAME_OFFSETFLAG \<equiv> 0xc0"
abbreviation DNS_ERR :: int where "DNS_ERR \<equiv> -1"
abbreviation DNS_OK :: int where "DNS_OK \<equiv> 0"
abbreviation DNS_ID_MISMATCH :: int where "DNS_ID_MISMATCH \<equiv> -4"
abbreviation DNS_RESOLVE_ERR :: int where "DNS_RESOLVE_ERR \<equiv> -3"
abbreviation DNS_INPUT_ERR :: int where "DNS_INPUT_ERR \<equiv> -2"
abbreviation HEADER_SIZE :: nat where "HEADER_SIZE \<equiv> 12"

section \<open>Packing a query\<close>

text \<open>The bytes of \<open>htons(w)\<close>.\<close>

definition net16 :: "16 word \<Rightarrow> bytes" where
  "net16 w = [char_of (unat w div 256), char_of (unat w mod 256)]"

text \<open>The pieces \<open>strtok(domain, ".")\<close> yields.\<close>

fun dot_tokens :: "bytes \<Rightarrow> bytes \<Rightarrow> bytes list" where
  "dot_tokens cur [] = (if cur = [] then [] else [cur])"
| "dot_tokens cur (c # cs) =
     (if c = CHR ''.'' then (if cur = [] then [] else [cur]) @ dot_tokens [] cs else dot_tokens (cur @ [c]) cs)"

text \<open>The loop over the labels: a length byte and the label.\<close>

fun pack_labels :: "bytes list \<Rightarrow> nat \<Rightarrow> bytes \<Rightarrow> (nat \<times> bytes) option" where
  "pack_labels [] cur buf = Some (cur, buf)"
| "pack_labels (l # ls) cur buf =
     do { b1 \<leftarrow> blit cur [char_of (length l)] buf;
          b2 \<leftarrow> blit (cur + 1) l b1;
          pack_labels ls (cur + 1 + length l) b2 }"

text \<open>\<open>packDNSQuery\<close>: the length of the query, the buffer, and the new \<open>ID_\<close> and \<open>query_name_\<close>. The array
  \<open>domain\<close> must hold the name and a NUL behind it.\<close>

definition packDNSQuery :: "16 word \<Rightarrow> bytes option \<Rightarrow> nat \<Rightarrow> (int \<times> (bytes \<times> 16 word \<times> bytes) option) option" where
  "packDNSQuery tid query_name len =
     (case query_name of
        None \<Rightarrow> Some (DNS_INPUT_ERR, None)
      | Some q0 \<Rightarrow>
         do { let buf0 = replicate DNS_MESSAGE_LIMIT NUL;
              let header = net16 tid @ net16 (DNS_STANDARD_QUERY_FLAGS OR DNS_HEADER_FLAGS_RD) @ net16 1 @ net16 0 @ net16 0 @ net16 1;
              buf1 \<leftarrow> blit 0 header buf0;
              q \<leftarrow> slice 0 len q0;
              domain \<leftarrow> blit 0 q (replicate DNS_DOMAIN_NAME_LIMIT NUL);
              if NUL \<notin> set domain then None
              else
               do { (cur, buf2) \<leftarrow> pack_labels (dot_tokens [] (c_str domain)) HEADER_SIZE buf1;
                    buf3 \<leftarrow> blit (cur + 1) (net16 1) buf2;
                    buf4 \<leftarrow> blit (cur + 3) (net16 1) buf3;
                    buf5 \<leftarrow> blit (cur + 6) (net16 0x0029) buf4;
                    buf6 \<leftarrow> blit (cur + 8) (net16 1280) buf5;
                    Some (int (cur + 16), Some (buf6, tid, q)) } })"

section \<open>Reading names\<close>

definition byte_at :: "nat \<Rightarrow> bytes \<Rightarrow> 8 word option" where
  "byte_at i buf = (if i < length buf then Some (of_char (buf ! i)) else None)"

definition startWithLabel :: "8 word \<Rightarrow> bool" where
  "startWithLabel c \<longleftrightarrow> c AND NOT DNS_RRNAME_OFFSETFLAG \<noteq> 0"

definition startWithPointer :: "8 word \<Rightarrow> bool" where
  "startWithPointer c \<longleftrightarrow> \<not> startWithLabel c"

text \<open>The loop of \<open>resolveRRName\<close> over labels; the array \<open>name\<close> is written at \<open>pos\<close>.\<close>

function label_loop :: "bytes \<Rightarrow> nat \<Rightarrow> bytes \<Rightarrow> nat \<Rightarrow> (nat \<times> bytes \<times> nat) option" where
  "label_loop buf cur name pos =
     (case byte_at cur buf of
        None \<Rightarrow> None
      | Some num \<Rightarrow>
          if num \<noteq> 0 \<and> startWithLabel num then
            (case do { xs \<leftarrow> slice (cur + 1) (unat num) buf; n1 \<leftarrow> blit pos xs name; blit (pos + unat num) ''.'' n1 } of
               None \<Rightarrow> None
             | Some n2 \<Rightarrow> label_loop buf (cur + 1 + unat num) n2 (pos + unat num + 1))
          else Some (cur, name, pos))"
  by pat_completeness auto
termination
  by (relation "measure (\<lambda>(buf, cur, name, pos). length buf - cur)") (auto simp: byte_at_def split: if_splits)

declare label_loop.simps [simp del]

text \<open>The offset of a pointer is the sum of its two bytes: the shifted value is overwritten.\<close>

partial_function (option) resolveRRName :: "bytes \<Rightarrow> nat \<Rightarrow> bytes \<Rightarrow> nat \<Rightarrow> (int \<times> bytes) option" where
  "resolveRRName buf curp name pos =
     do { (cur, name1, pos1) \<leftarrow> label_loop buf curp name pos;
          num \<leftarrow> byte_at cur buf;
          if num = 0 then Some (int (cur + 1 - curp), name1)
          else if startWithPointer num then
            do { low \<leftarrow> byte_at (cur + 1) buf;
                 let high = num AND NOT DNS_RRNAME_OFFSETFLAG;
                 let offset = (ucast high + ucast low :: 16 word);
                 (r, name2) \<leftarrow> resolveRRName buf (unat offset) name1 pos1;
                 if r < 0 then Some (DNS_RESOLVE_ERR, name2) else Some (int (cur + 2 - curp), name2) }
          else Some (int (cur - curp), name1) }"

section \<open>Records and answers\<close>

definition host16 :: "nat \<Rightarrow> bytes \<Rightarrow> nat option" where
  "host16 i buf = do { a \<leftarrow> byte_at i buf; b \<leftarrow> byte_at (i + 1) buf; Some (256 * unat a + unat b) }"

definition host32 :: "nat \<Rightarrow> bytes \<Rightarrow> nat option" where
  "host32 i buf = do { a \<leftarrow> host16 i buf; b \<leftarrow> host16 (i + 2) buf; Some (65536 * a + b) }"

definition inet_ntoa :: "bytes \<Rightarrow> bytes" where
  "inet_ntoa b =
     dec_str (of_char (b ! 0)) @ ''.'' @ dec_str (of_char (b ! 1)) @ ''.'' @ dec_str (of_char (b ! 2)) @ ''.'' @ dec_str (of_char (b ! 3))"

text \<open>\<open>resolveRR\<close>: the bytes read, the type, the time to live and the data.\<close>

definition resolveRR :: "bytes \<Rightarrow> nat \<Rightarrow> bytes \<Rightarrow> bytes \<Rightarrow> (int \<times> nat \<times> nat \<times> bytes) option" where
  "resolveRR buf curp name rdata =
     do { (resolved, name1) \<leftarrow> resolveRRName buf curp name 0;
          if 0 > resolved then Some (DNS_RESOLVE_ERR, 0, 0, rdata)
          else
           do { let cur = curp + nat resolved;
                type \<leftarrow> host16 cur buf;
                rclass \<leftarrow> host16 (cur + 2) buf;
                ttl \<leftarrow> host32 (cur + 4) buf;
                num \<leftarrow> host16 (cur + 8) buf;
                let cur = cur + 10;
                (res, data) \<leftarrow>
                  (if num = 2 then
                     do { c \<leftarrow> byte_at cur buf;
                          if startWithPointer c then resolveRRName buf cur rdata 0
                          else do { xs \<leftarrow> slice cur num buf; d \<leftarrow> blit 0 xs rdata; Some (0, d) } }
                   else do { xs \<leftarrow> slice cur num buf; d \<leftarrow> blit 0 xs rdata; Some (0, d) });
                if 0 > res then Some (res, type, ttl, data)
                else
                 do { data1 \<leftarrow> (if type = DNS_TYPE_A
                               then blit 0 (take IPV4_ADDRSIZE (inet_ntoa data @ replicate IPV4_ADDRSIZE NUL)) data else Some data);
                      Some (int (cur + num - curp), type, ttl, data1) } } }"

text \<open>What an answer leaves in the resolver.\<close>

record dns_answer =
  da_name :: bytes
  da_ttl :: int
  da_cache :: DNSCache

text \<open>The records of one section; the first address of the answer section ends the search.\<close>

fun section_loop :: "bool \<Rightarrow> dns_env \<Rightarrow> bytes \<Rightarrow> bytes \<Rightarrow> bool \<Rightarrow> nat \<Rightarrow> nat \<Rightarrow> dns_answer
    \<Rightarrow> ((int + nat) \<times> dns_answer) option" where
  "section_loop lock e qname buf answers 0 cur a = Some (Inr cur, a)"
| "section_loop lock e qname buf answers (Suc n) cur a =
     do { (resolved, type, ttl, rdata) \<leftarrow> resolveRR buf cur (replicate DNS_DOMAIN_NAME_LIMIT NUL) (replicate DNS_DOMAIN_NAME_LIMIT NUL);
          if 0 > resolved then Some (Inl resolved, a)
          else if answers \<and> type = DNS_TYPE_A then
            do { let name = c_str rdata;
                 (_, c) \<leftarrow> updateDNS lock e (Some qname) (Some name) (to_int (int ttl)) (da_cache a);
                 Some (Inl DNS_OK, \<lparr>da_name = name, da_ttl = int ttl, da_cache = c\<rparr>) }
          else section_loop lock e qname buf answers n (cur + nat resolved) a }"

text \<open>\<open>resvDNSAnswer\<close>; \<open>strlen\<close> of a buffer without a NUL reads past it.\<close>

definition resvDNSAnswer :: "bool \<Rightarrow> dns_env \<Rightarrow> 16 word \<Rightarrow> bytes \<Rightarrow> bytes \<Rightarrow> dns_answer \<Rightarrow> (int \<times> dns_answer) option" where
  "resvDNSAnswer lock e ID qname buf a =
     (if NUL \<notin> set buf then None
      else if length (c_str buf) < 2 then Some (DNS_ERR, a)
      else
       do { hid \<leftarrow> host16 0 buf;
            if unat ID \<noteq> hid then Some (DNS_ID_MISMATCH, a)
            else
             do { (resolved, _) \<leftarrow> resolveRRName buf HEADER_SIZE (replicate DNS_DOMAIN_NAME_LIMIT NUL) 0;
                  if 0 > resolved then Some (resolved, a)
                  else
                   do { answers \<leftarrow> host16 6 buf;
                        authorities \<leftarrow> host16 8 buf;
                        additions \<leftarrow> host16 10 buf;
                        if answers = 0 then Some (DNS_ERR, a)
                        else
                         do { (r1, a1) \<leftarrow> section_loop lock e qname buf True answers (HEADER_SIZE + nat resolved + 4) a;
                              case r1 of
                                Inl r \<Rightarrow> Some (r, a1)
                              | Inr cur1 \<Rightarrow>
                                 do { (r2, a2) \<leftarrow> section_loop lock e qname buf False authorities cur1 a1;
                                      case r2 of
                                        Inl r \<Rightarrow> Some (r, a2)
                                      | Inr cur2 \<Rightarrow>
                                         do { (r3, a3) \<leftarrow> section_loop lock e qname buf False additions cur2 a2;
                                              case r3 of Inl r \<Rightarrow> Some (r, a3) | Inr _ \<Rightarrow> Some (DNS_ERR, a3) } } } } } })"

end
