(* ===== verification/DnsRead.thy ===== *)
theory DnsRead
  imports DnsMsg
begin

text \<open>
  What the message functions of the resolver read and write: the layout of a query, the reading of
  what was packed, answers with an address, and the messages that leave the arrays or the stack.
\<close>

section \<open>Bytes of a message\<close>

definition enc_name :: "bytes list \<Rightarrow> bytes" where
  "enc_name ls = concat (map (\<lambda>l. char_of (length l) # l) ls)"

definition dotted :: "bytes list \<Rightarrow> bytes" where
  "dotted ls = concat (map (\<lambda>l. l @ ''.'') ls)"

definition good_label :: "bytes \<Rightarrow> bool" where
  "good_label l \<longleftrightarrow> 0 < length l \<and> length l < 64 \<and> CHR ''.'' \<notin> set l \<and> NUL \<notin> set l"

lemma enc_simps [simp]: "enc_name [] = []" "enc_name (l # ls) = char_of (length l) # l @ enc_name ls"
  "dotted [] = []" "dotted (l # ls) = l @ CHR ''.'' # dotted ls"
  by (simp_all add: enc_name_def dotted_def)

lemma dotted_length: "length (dotted ls) = length (enc_name ls)"
  by (induction ls) simp_all

lemma drop_append_eq: "drop i buf = xs @ ys \<Longrightarrow> drop (i + length xs) buf = ys"
  by (metis add.commute append_eq_conv_conj drop_drop)

lemma drop_Cons_eq: "drop i buf = c # cs \<Longrightarrow> drop (i + 1) buf = cs"
  using drop_append_eq [of i buf "[c]" cs] by simp

lemma byte_at_drop: "drop i buf = c # cs \<Longrightarrow> byte_at i buf = Some (of_char c)"
  by (metis byte_at_def drop_eq_Nil leI list.discI nth_via_drop)

lemma slice_drop: "drop i buf = xs @ ys \<Longrightarrow> i \<le> length buf \<Longrightarrow> slice i (length xs) buf = Some xs"
proof -
  assume a: "drop i buf = xs @ ys" "i \<le> length buf"
  have "length buf - i = length xs + length ys" using a(1) by (metis length_append length_drop)
  then show ?thesis using a by (simp add: slice_def)
qed

lemma of_char_nat: "(of_char (char_of (n :: nat)) :: 8 word) = of_nat (n mod 256)"
proof -
  have "(of_char (char_of n) :: 8 word) = of_nat (of_char (char_of n))" by (rule of_nat_of_char [symmetric])
  then show ?thesis by (simp add: take_bit_eq_mod)
qed

lemma host16_drop:
  assumes "drop i buf = net16 w @ ys"
  shows "host16 i buf = Some (unat w)"
proof -
  have 1: "byte_at i buf = Some (of_nat (unat w div 256 mod 256))"
    using assms byte_at_drop by (simp add: net16_def of_char_nat)
  have "drop (i + 1) buf = char_of (unat w mod 256) # ys"
    using assms drop_Cons_eq by (simp add: net16_def)
  then have 2: "byte_at (i + 1) buf = Some (of_nat (unat w mod 256))"
    using byte_at_drop by (simp add: of_char_nat)
  have "unat w < 2 ^ 16" using unsigned_less [of w] by simp
  then have "unat w div 256 < 256" by simp
  then have "unat (of_nat (unat w div 256) :: 8 word) = unat w div 256" "unat (of_nat (unat w mod 256) :: 8 word) = unat w mod 256"
    by (simp_all add: unat_of_nat)
  then show ?thesis using 1 2 \<open>unat w div 256 < 256\<close> by (simp add: host16_def)
qed


lemma host16_at: "buf = pre @ net16 w @ ys \<Longrightarrow> length pre = i \<Longrightarrow> host16 i buf = Some (unat w)"
  by (rule host16_drop [of i buf w ys]) simp

lemma label_byte:
  assumes "0 < n" "n < 64"
  shows "(of_nat n :: 8 word) \<noteq> 0 \<and> startWithLabel (of_nat n) \<and> unat (of_nat n :: 8 word) = n"
proof -
  have u: "unat (of_nat n :: 8 word) = n" using assms by (simp add: unat_of_nat)
  have m: "NOT DNS_RRNAME_OFFSETFLAG = (mask 6 :: 8 word)" by (simp add: mask_numeral)
  have "(of_nat n :: 8 word) AND NOT DNS_RRNAME_OFFSETFLAG = take_bit 6 (of_nat n)"
    unfolding m by (simp add: take_bit_eq_mask)
  also have "\<dots> = of_nat n"
    by (rule word_unat_eq_iff [THEN iffD2]) (use assms u in \<open>simp add: unsigned_take_bit_eq take_bit_nat_eq_self_iff\<close>)
  finally show ?thesis using assms u by (auto simp: startWithLabel_def)
qed

lemma pointer_byte: "startWithPointer 0xc0" "(0xc0 :: 8 word) AND NOT DNS_RRNAME_OFFSETFLAG = 0"
  by (simp_all add: startWithPointer_def startWithLabel_def)

lemma label_loop_spec:
  assumes "drop cur buf = enc_name ls @ rest" "\<forall>l \<in> set ls. 0 < length l \<and> length l < 64" "rest \<noteq> []"
    "pos + length (enc_name ls) \<le> length name" "\<not> (of_char (hd rest) \<noteq> (0 :: 8 word) \<and> startWithLabel (of_char (hd rest)))"
  shows "label_loop buf cur name pos =
    Some (cur + length (enc_name ls), take pos name @ dotted ls @ drop (pos + length (enc_name ls)) name, pos + length (enc_name ls))"
  using assms
proof (induction ls arbitrary: cur name pos)
  case Nil
  then obtain c cs where "rest = c # cs" by (cases rest) auto
  then show ?case using Nil byte_at_drop [of cur buf c cs] by (subst label_loop.simps) auto
next
  case (Cons l ls)
  define n where "n = length l"
  have n: "0 < n" "n < 64" using Cons.prems(2) by (simp_all add: n_def)
  note lb = label_byte [OF n]
  have d: "drop cur buf = char_of n # l @ enc_name ls @ rest" using Cons.prems(1) by (simp add: n_def)
  then have b: "byte_at cur buf = Some (of_nat n)" using byte_at_drop n(2) by (simp add: of_char_nat)
  note d1 = drop_Cons_eq [OF d]
  have "cur + 1 \<le> length buf" using b by (simp add: byte_at_def split: if_splits)
  then have s: "slice (cur + 1) n buf = Some l" using slice_drop [OF d1] by (simp add: n_def)
  have w: "blit pos l name = Some (take pos name @ l @ drop (pos + n) name)"
    using Cons.prems(4) by (simp add: blit_def n_def)
  define name1 where "name1 = take pos name @ l @ CHR ''.'' # drop (pos + n + 1) name"
  have w2: "blit (pos + n) ''.'' (take pos name @ l @ drop (pos + n) name) = Some name1"
    using Cons.prems(4) by (simp add: blit_def n_def name1_def)
  have d2: "drop (cur + 1 + n) buf = enc_name ls @ rest" using drop_append_eq [OF d1] by (simp add: n_def)
  have l1: "length name1 = length name" using Cons.prems(4) by (simp add: name1_def n_def)
  have "label_loop buf cur name pos = label_loop buf (cur + 1 + n) name1 (pos + n + 1)"
    using b s w w2 lb by (subst label_loop.simps) simp
  also have "\<dots> = Some (cur + 1 + n + length (enc_name ls), take (pos + n + 1) name1 @ dotted ls @ drop (pos + n + 1 + length (enc_name ls)) name1,
      pos + n + 1 + length (enc_name ls))"
    by (rule Cons.IH [OF d2]) (use Cons.prems l1 in \<open>auto simp: n_def\<close>)
  also have "take (pos + n + 1) name1 = take pos name @ l @ ''.''"
    using Cons.prems(4) by (simp add: name1_def n_def)
  also have "drop (pos + n + 1 + length (enc_name ls)) name1 = drop (pos + n + 1 + length (enc_name ls)) name"
    using Cons.prems(4) by (simp add: name1_def n_def add_ac)
  finally show ?case by (simp add: n_def add.assoc)
qed

section \<open>Packing\<close>

lemma pack_labels_spec:
  "cur + length (enc_name ls) \<le> length buf \<Longrightarrow>
   pack_labels ls cur buf = Some (cur + length (enc_name ls), take cur buf @ enc_name ls @ drop (cur + length (enc_name ls)) buf)"
proof (induction ls arbitrary: cur buf)
  case (Cons l ls)
  define b2 where "b2 = take cur buf @ char_of (length l) # l @ drop (cur + 1 + length l) buf"
  have "blit cur [char_of (length l)] buf = Some (take cur buf @ char_of (length l) # drop (cur + 1) buf)"
    using Cons.prems by (simp add: blit_def)
  moreover have "blit (cur + 1) l (take cur buf @ char_of (length l) # drop (cur + 1) buf) = Some b2"
    using Cons.prems by (simp add: blit_def b2_def add_ac)
  moreover have "pack_labels ls (cur + 1 + length l) b2 =
      Some (cur + 1 + length l + length (enc_name ls), take (cur + 1 + length l) b2 @ enc_name ls @ drop (cur + 1 + length l + length (enc_name ls)) b2)"
    by (rule Cons.IH) (use Cons.prems in \<open>simp add: b2_def\<close>)
  moreover have "take (cur + 1 + length l) b2 = take cur buf @ char_of (length l) # l"
    "drop (cur + 1 + length l + length (enc_name ls)) b2 = drop (cur + 1 + length l + length (enc_name ls)) buf"
    using Cons.prems by (simp_all add: b2_def add_ac)
  ultimately show ?case by (simp add: add_ac)
qed simp

lemma tokens_length: "length (enc_name (dot_tokens cur s)) \<le> length cur + length s + 1"
  by (induction cur s rule: dot_tokens.induct) auto

lemma tokens_prefix: "CHR ''.'' \<notin> set l \<Longrightarrow> dot_tokens cur (l @ s) = dot_tokens (cur @ l) s"
  by (induction l arbitrary: cur) auto

lemma tokens_dotted: "\<forall>l \<in> set ls. good_label l \<Longrightarrow> dot_tokens [] (dotted ls) = ls"
  by (induction ls) (auto simp: good_label_def tokens_prefix)

lemma tokens_last_dot: "dot_tokens cur (s @ ''.'') = dot_tokens cur s"
  by (induction cur s rule: dot_tokens.induct) simp_all

lemma tokens_host: "dotted ls = host @ ''.'' \<Longrightarrow> \<forall>l \<in> set ls. good_label l \<Longrightarrow> dot_tokens [] host = ls"
  using tokens_last_dot [of "[]" host] tokens_dotted [of ls] by simp

lemma blit_zeros:
  "off = length pre + k \<Longrightarrow> k + length xs \<le> m \<Longrightarrow>
   blit off xs (pre @ replicate m NUL) = Some ((pre @ replicate k NUL @ xs) @ replicate (m - (k + length xs)) NUL)"
  by (simp add: blit_def)

definition query_head :: "16 word \<Rightarrow> bytes" where
  "query_head tid = net16 tid @ net16 0x0100 @ net16 1 @ net16 0 @ net16 0 @ net16 1"

definition query_tail :: bytes where
  "query_tail = NUL # net16 1 @ net16 1 @ NUL # net16 0x0029 @ net16 1280"

lemma net16_length [simp]: "length (net16 w) = 2"
  by (simp add: net16_def)

lemma pack_query:
  assumes "length host < DNS_DOMAIN_NAME_LIMIT" "e = enc_name (dot_tokens [] (c_str host))"
  shows "packDNSQuery tid (Some host) (length host) =
    Some (int (28 + length e), Some (query_head tid @ e @ query_tail @ replicate (490 - length e) NUL, tid, host))"
proof -
  have "length (c_str host) \<le> length host" by (simp add: c_str_def length_takeWhile_le)
  then have e: "length e \<le> 255" using tokens_length [of "[]" "c_str host"] assms by simp
  define dom where "dom = host @ replicate (255 - length host) NUL"
  have "255 - length host = Suc (254 - length host)" using assms(1) by simp
  then have dom: "blit 0 host (replicate DNS_DOMAIN_NAME_LIMIT NUL) = Some dom" "NUL \<in> set dom"
    using assms(1) by (simp_all add: dom_def blit_def)
  have domc: "c_str dom = c_str host"
  proof (cases "NUL \<in> set host")
    case True
    then show ?thesis by (simp add: dom_def c_str_def takeWhile_append1 [of NUL])
  next
    case False
    then have "takeWhile (\<lambda>c. c \<noteq> NUL) dom = host @ []"
      unfolding dom_def by (subst takeWhile_append2) (auto simp: takeWhile_replicate)
    then show ?thesis using False by (simp add: c_str_def c_str_id [unfolded c_str_def])
  qed
  have h: "blit 0 (query_head tid) (replicate DNS_MESSAGE_LIMIT NUL) = Some (query_head tid @ replicate 500 NUL)"
    by (simp add: blit_def query_head_def)
  have hl: "length (query_head tid) = 12" by (simp add: query_head_def)
  have p: "pack_labels (dot_tokens [] (c_str dom)) HEADER_SIZE (query_head tid @ replicate 500 NUL) =
      Some (12 + length e, (query_head tid @ e) @ replicate (500 - length e) NUL)"
    using pack_labels_spec [of 12 "dot_tokens [] (c_str dom)" "query_head tid @ replicate 500 NUL"] e hl domc assms(2) by simp
  define b3 where "b3 = query_head tid @ e @ NUL # net16 1"
  have 3: "blit (12 + length e + 1) (net16 1) ((query_head tid @ e) @ replicate (500 - length e) NUL) =
      Some (b3 @ replicate (497 - length e) NUL)"
    using blit_zeros [of "12 + length e + 1" "query_head tid @ e" 1 "net16 1" "500 - length e"] e hl by (simp add: b3_def)
  have 4: "blit (12 + length e + 3) (net16 1) (b3 @ replicate (497 - length e) NUL) =
      Some ((b3 @ net16 1) @ replicate (495 - length e) NUL)"
    using blit_zeros [of "12 + length e + 3" b3 0 "net16 1" "497 - length e"] e hl by (simp add: b3_def)
  have 5: "blit (12 + length e + 6) (net16 0x0029) ((b3 @ net16 1) @ replicate (495 - length e) NUL) =
      Some ((b3 @ net16 1 @ NUL # net16 0x0029) @ replicate (492 - length e) NUL)"
    using blit_zeros [of "12 + length e + 6" "b3 @ net16 1" 1 "net16 0x0029" "495 - length e"] e hl by (simp add: b3_def)
  have 6: "blit (12 + length e + 8) (net16 1280) ((b3 @ net16 1 @ NUL # net16 0x0029) @ replicate (492 - length e) NUL) =
      Some ((b3 @ net16 1 @ NUL # net16 0x0029 @ net16 1280) @ replicate (490 - length e) NUL)"
    using blit_zeros [of "12 + length e + 8" "b3 @ net16 1 @ NUL # net16 0x0029" 0 "net16 1280" "492 - length e"] e hl by (simp add: b3_def)
  have f: "DNS_STANDARD_QUERY_FLAGS OR DNS_HEADER_FLAGS_RD = 0x0100" by simp
  show ?thesis
    using dom h p 3 4 5 6 unfolding packDNSQuery_def f query_head_def [symmetric]
    by (simp add: b3_def query_tail_def)
qed

lemma of_char_NUL [simp]: "(of_char NUL :: 8 word) = 0"
  by (simp add: NUL_def)

lemma read_name:
  assumes "drop cur buf = enc_name ls @ NUL # rest" "\<forall>l \<in> set ls. 0 < length l \<and> length l < 64"
    "pos + length (enc_name ls) \<le> length name"
  shows "resolveRRName buf cur name pos =
    Some (int (length (enc_name ls) + 1), take pos name @ dotted ls @ drop (pos + length (enc_name ls)) name)"
proof -
  have "byte_at (cur + length (enc_name ls)) buf = Some 0"
    using byte_at_drop [OF drop_append_eq [OF assms(1)]] by simp
  then show ?thesis
    using label_loop_spec [OF assms(1,2) _ assms(3)] by (subst resolveRRName.simps) simp
qed

text \<open>
  C14. Queries. For every name of up to 254 characters the query fits its buffer: it has twelve header
  bytes that carry the identifier, and at most 283 bytes in all. A name of 256 characters or more
  overruns the array it is copied to. When the labels of the name have between 1 and 63 characters,
  reading the name back out of the query with the resolver's own reader gives the name and its length.
\<close>

theorem dns_query_roundtrip:
  "(length host < DNS_DOMAIN_NAME_LIMIT \<longrightarrow>
      (\<exists>n q. packDNSQuery tid (Some host) (length host) = Some (n, Some (q, tid, host)) \<and> n \<le> 283 \<and>
             length q = DNS_MESSAGE_LIMIT \<and> host16 0 q = Some (unat tid) \<and>
             (\<forall>ls. dotted ls = host @ ''.'' \<and> (\<forall>l \<in> set ls. good_label l) \<longrightarrow> n = int (length host + 29) \<and>
                resolveRRName q HEADER_SIZE (replicate DNS_DOMAIN_NAME_LIMIT NUL) 0 =
                  Some (int (length host + 2), host @ ''.'' @ replicate (254 - length host) NUL)))) \<and>
   (DNS_DOMAIN_NAME_LIMIT < length host \<longrightarrow> packDNSQuery tid (Some host) (length host) = None)"
proof (intro conjI impI)
  assume "DNS_DOMAIN_NAME_LIMIT < length host"
  then show "packDNSQuery tid (Some host) (length host) = None"
    by (simp add: packDNSQuery_def Let_def blit_def [of 0 host])
next
  assume l: "length host < DNS_DOMAIN_NAME_LIMIT"
  define e where "e = enc_name (dot_tokens [] (c_str host))"
  define q where "q = query_head tid @ e @ query_tail @ replicate (490 - length e) NUL"
  have "length (c_str host) \<le> length host" by (simp add: c_str_def length_takeWhile_le)
  then have e: "length e \<le> 255" using tokens_length [of "[]" "c_str host"] l by (simp add: e_def)
  have q: "packDNSQuery tid (Some host) (length host) = Some (int (28 + length e), Some (q, tid, host))"
    using pack_query [OF l e_def] by (simp add: q_def)
  have lq: "length q = DNS_MESSAGE_LIMIT" using e by (simp add: q_def query_head_def query_tail_def)
  have i: "host16 0 q = Some (unat tid)" using host16_drop [of 0 q tid] by (simp add: q_def query_head_def)
  have rb: "int (28 + length e) = int (length host + 29) \<and> resolveRRName q HEADER_SIZE (replicate DNS_DOMAIN_NAME_LIMIT NUL) 0 =
          Some (int (length host + 2), host @ ''.'' @ replicate (254 - length host) NUL)"
    if ls: "dotted ls = host @ ''.''" "\<forall>l \<in> set ls. good_label l" for ls
  proof -
    have "NUL \<notin> set (dotted ls)" using ls(2) by (induction ls) (auto simp: good_label_def NUL_def)
    then have "c_str host = host" using ls(1) by (intro c_str_id) auto
    then have e': "e = enc_name ls" using tokens_host [OF ls] by (simp add: e_def)
    have len: "length (enc_name ls) = length host + 1" using ls(1) dotted_length [of ls] by simp
    have "drop HEADER_SIZE q = enc_name ls @ NUL # (net16 1 @ net16 1 @ NUL # net16 0x0029 @ net16 1280 @ replicate (490 - length e) NUL)"
      by (simp add: q_def query_head_def query_tail_def e')
    then have "resolveRRName q HEADER_SIZE (replicate DNS_DOMAIN_NAME_LIMIT NUL) 0 =
        Some (int (length (enc_name ls) + 1), dotted ls @ replicate (255 - length (enc_name ls)) NUL)"
      using read_name [of HEADER_SIZE q ls _ 0 "replicate DNS_DOMAIN_NAME_LIMIT NUL"] ls(2) len l by (auto simp: good_label_def)
    then show ?thesis using len ls(1) e' by simp
  qed
  show "\<exists>n q. packDNSQuery tid (Some host) (length host) = Some (n, Some (q, tid, host)) \<and> n \<le> 283 \<and>
             length q = DNS_MESSAGE_LIMIT \<and> host16 0 q = Some (unat tid) \<and>
             (\<forall>ls. dotted ls = host @ ''.'' \<and> (\<forall>l \<in> set ls. good_label l) \<longrightarrow> n = int (length host + 29) \<and>
                resolveRRName q HEADER_SIZE (replicate DNS_DOMAIN_NAME_LIMIT NUL) 0 =
                  Some (int (length host + 2), host @ ''.'' @ replicate (254 - length host) NUL))"
    by (rule exI [of _ "int (28 + length e)"], rule exI [of _ q]) (use q lq i e rb in auto)
qed

theorem dns_query_roundtrip_witness:
  "\<exists>q. packDNSQuery 0x1234 (Some ''www.a.de'') 8 = Some (37, Some (q, 0x1234, ''www.a.de'')) \<and>
     resolveRRName q HEADER_SIZE (replicate DNS_DOMAIN_NAME_LIMIT NUL) 0 = Some (10, ''www.a.de.'' @ replicate 246 NUL)"
proof -
  define h where "h = ''www.a.de''"
  have l: "length h = 8" by (simp add: h_def)
  obtain n q where q: "packDNSQuery 0x1234 (Some h) 8 = Some (n, Some (q, 0x1234, h))"
    "\<forall>ls. dotted ls = h @ ''.'' \<and> (\<forall>l \<in> set ls. good_label l) \<longrightarrow> n = 37 \<and>
       resolveRRName q HEADER_SIZE (replicate DNS_DOMAIN_NAME_LIMIT NUL) 0 = Some (10, h @ ''.'' @ replicate 246 NUL)"
    using dns_query_roundtrip [THEN conjunct1, of h "0x1234"] l by auto
  have "dotted [''www'', ''a'', ''de''] = h @ ''.''" "\<forall>l \<in> set [''www'', ''a'', ''de'']. good_label l"
    by (simp_all add: good_label_def NUL_def h_def)
  then show ?thesis using q unfolding h_def by fastforce
qed

section \<open>Answers\<close>

definition net32 :: "32 word \<Rightarrow> bytes" where
  "net32 w = net16 (of_nat (unat w div 65536)) @ net16 (of_nat (unat w mod 65536))"

lemma host32_drop:
  assumes "drop i buf = net32 w @ ys"
  shows "host32 i buf = Some (unat w)"
proof -
  have "unat w < 2 ^ 32" using unsigned_less [of w] by simp
  then have "unat w div 65536 < 65536" by simp
  have 1: "host16 i buf = Some (unat w div 65536)"
    using host16_drop [of i buf "of_nat (unat w div 65536)"] assms \<open>unat w div 65536 < 65536\<close>
    by (simp add: net32_def unat_of_nat)
  have "drop (i + 2) buf = net16 (of_nat (unat w mod 65536)) @ ys"
    using drop_append_eq [of i buf "net16 (of_nat (unat w div 65536))" "net16 (of_nat (unat w mod 65536)) @ ys"] assms by (simp add: net32_def)
  then have "host16 (i + 2) buf = Some (unat w mod 65536)"
    using host16_drop by (simp add: unat_of_nat)
  then show ?thesis using 1 by (simp add: host32_def)
qed

text \<open>A record whose name points to the question, and the records an answer may have before the address.\<close>

definition rr_bytes :: "16 word \<Rightarrow> 32 word \<Rightarrow> bytes \<Rightarrow> bytes" where
  "rr_bytes ty ttl data = [CHR 0xC0, CHR 0x0C] @ net16 ty @ net16 1 @ net32 ttl @ net16 (of_nat (length data)) @ data"

definition copied :: "bytes \<Rightarrow> bool" where
  "copied data \<longleftrightarrow> length data \<le> 255 \<and> (length data = 2 \<longrightarrow> startWithLabel (of_char (data ! 0)))"

lemma rr_length: "length (rr_bytes ty ttl data) = 12 + length data"
  by (simp add: rr_bytes_def net32_def)

lemma read_pointer:
  assumes "drop cur buf = [CHR 0xC0, CHR 0x0C] @ ys" "drop HEADER_SIZE buf = enc_name ls @ NUL # zs"
    "\<forall>l \<in> set ls. 0 < length l \<and> length l < 64" "length (enc_name ls) \<le> length name"
  shows "\<exists>name'. resolveRRName buf cur name 0 = Some (2, name')"
proof -
  have b: "byte_at cur buf = Some 0xc0" "byte_at (cur + 1) buf = Some 0x0c"
    using byte_at_drop [of cur buf "CHR 0xC0"] byte_at_drop [of "cur + 1" buf "CHR 0x0C" ys] drop_Cons_eq [of cur buf] assms(1)
    by simp_all
  have l: "label_loop buf cur name 0 = Some (cur, name, 0)"
    using b(1) pointer_byte by (subst label_loop.simps) (simp add: startWithPointer_def)
  obtain name' where "resolveRRName buf 12 name 0 = Some (int (length (enc_name ls) + 1), name')"
    using read_name [OF assms(2,3), of 0 name] assms(4) by simp
  then show ?thesis using b l pointer_byte by (subst resolveRRName.simps) (simp add: Let_def)
qed

lemma net32_length [simp]: "length (net32 w) = 4"
  by (simp add: net32_def)

lemma record_fields:
  assumes "drop i buf = net16 ty @ net16 cl @ net32 ttl @ net16 n @ data"
  shows "host16 i buf = Some (unat ty)" "host16 (i + 2) buf = Some (unat cl)" "host32 (i + 4) buf = Some (unat ttl)"
    "host16 (i + 8) buf = Some (unat n)" "drop (i + 10) buf = data" "i + 10 \<le> length buf"
proof -
  have d: "drop (i + k) buf = drop k (net16 ty @ net16 cl @ net32 ttl @ net16 n @ data)" for k
    unfolding assms [symmetric] by (simp add: add.commute)
  show "host16 i buf = Some (unat ty)" by (rule host16_drop [OF assms])
  show "host16 (i + 2) buf = Some (unat cl)" by (rule host16_drop) (use d [of 2] in simp)
  show "host32 (i + 4) buf = Some (unat ttl)" by (rule host32_drop) (use d [of 4] in simp)
  show "host16 (i + 8) buf = Some (unat n)" by (rule host16_drop) (use d [of 8] in simp)
  show "drop (i + 10) buf = data" using d [of 10] by simp
  have "10 \<le> length (drop i buf)" using assms by simp
  then show "i + 10 \<le> length buf" by simp
qed

lemma read_record:
  assumes "drop cur buf = rr_bytes ty ttl data @ ys" "drop HEADER_SIZE buf = enc_name ls @ NUL # zs"
    "\<forall>l \<in> set ls. 0 < length l \<and> length l < 64" "length (enc_name ls) \<le> 255" "copied data"
  shows "resolveRR buf cur (replicate 255 NUL) (replicate 255 NUL) =
    (let d = data @ replicate (255 - length data) NUL
     in do { d1 \<leftarrow> (if unat ty = DNS_TYPE_A then blit 0 (take IPV4_ADDRSIZE (inet_ntoa d @ replicate IPV4_ADDRSIZE NUL)) d else Some d);
             Some (int (12 + length data), unat ty, unat ttl, d1) })"
proof -
  define d where "d = data @ replicate (255 - length data) NUL"
  have len: "unat (of_nat (length data) :: 16 word) = length data" using assms(5) by (simp add: copied_def unat_of_nat)
  obtain name' where n: "resolveRRName buf cur (replicate 255 NUL) 0 = Some (2, name')"
    using read_pointer [of cur buf _ ls zs "replicate 255 NUL"] assms(1-4) by (auto simp: rr_bytes_def)
  define c2 where "c2 = cur + 2"
  have e1: "drop c2 buf = net16 ty @ net16 1 @ net32 ttl @ net16 (of_nat (length data)) @ data @ ys"
    using drop_append_eq [of cur buf "[CHR 0xC0, CHR 0x0C]"] assms(1) by (simp add: rr_bytes_def c2_def)
  note f = record_fields [OF e1]
  have h: "host16 c2 buf = Some (unat ty)" "host16 (c2 + 2) buf = Some 1" "host32 (c2 + 4) buf = Some (unat ttl)"
    "host16 (c2 + 8) buf = Some (length data)"
    using f len by simp_all
  have e5: "drop (c2 + 10) buf = data @ ys" and le: "c2 + 10 \<le> length buf" using f by simp_all
  have s: "slice (c2 + 10) (length data) buf = Some data" using slice_drop [OF e5 le] .
  have w: "blit 0 data (replicate 255 NUL) = Some d" using assms(5) by (simp add: blit_def d_def copied_def)
  have b: "\<exists>c. byte_at (c2 + 10) buf = Some c \<and> \<not> startWithPointer c" if l2: "length data = 2"
  proof -
    obtain x xs where "data = x # xs" using l2 by (cases data) auto
    then show ?thesis using byte_at_drop [of "c2 + 10" buf x] e5 l2 assms(5) by (auto simp: startWithPointer_def copied_def)
  qed
  have c2: "cur + nat 2 = c2" "int (c2 + 10 + length data - cur) = int (12 + length data)" by (simp_all add: c2_def)
  have "resolveRR buf cur (replicate 255 NUL) (replicate 255 NUL) =
    do { (res, data') \<leftarrow> Some (0 :: int, d);
         if 0 > res then Some (res, unat ty, unat ttl, data')
         else do { d1 \<leftarrow> (if unat ty = DNS_TYPE_A then blit 0 (take IPV4_ADDRSIZE (inet_ntoa data' @ replicate IPV4_ADDRSIZE NUL)) data' else Some data');
                   Some (int (12 + length data), unat ty, unat ttl, d1) } }"
    unfolding resolveRR_def n Let_def by (cases "length data = 2") (use c2 h s w b in auto)
  then show ?thesis unfolding d_def [symmetric] by simp
qed

lemma dec_byte: "n < 256 \<Longrightarrow> length (dec_str n) \<le> 3"
  by (subst dec_str.simps, subst dec_str.simps [of "n div 10"], subst dec_str.simps [of "n div 10 div 10"]) auto

lemma inet_ntoa_string: "length (inet_ntoa d) \<le> 15" "NUL \<notin> set (inet_ntoa d)"
proof -
  have b: "of_char c < (256 :: nat)" for c by (cases c) (simp add: of_char_def)
  show "length (inet_ntoa d) \<le> 15"
    using dec_byte [OF b [of "d ! 0"]] dec_byte [OF b [of "d ! 1"]] dec_byte [OF b [of "d ! 2"]] dec_byte [OF b [of "d ! 3"]]
    by (simp add: inet_ntoa_def)
  have "NUL \<notin> set (dec_str n)" for n using dec_str_digits [of n] digit_not_special by blast
  then show "NUL \<notin> set (inet_ntoa d)" by (simp add: inet_ntoa_def NUL_def)
qed

lemma inet_ntoa_data: "length ip = 4 \<Longrightarrow> inet_ntoa (ip @ xs) = inet_ntoa ip"
  by (simp add: inet_ntoa_def nth_append)

text \<open>The address record of the answer section.\<close>

lemma read_address:
  assumes "drop cur buf = rr_bytes 1 ttl ip @ ys" "drop HEADER_SIZE buf = enc_name ls @ NUL # zs"
    "\<forall>l \<in> set ls. 0 < length l \<and> length l < 64" "length (enc_name ls) \<le> 255" "length ip = 4"
  shows "\<exists>d. resolveRR buf cur (replicate 255 NUL) (replicate 255 NUL) = Some (16, 1, unat ttl, d) \<and> c_str d = inet_ntoa ip"
proof -
  define a where "a = inet_ntoa ip"
  define d where "d = ip @ replicate 251 NUL"
  have a: "length a \<le> 15" "NUL \<notin> set a" using inet_ntoa_string by (simp_all add: a_def)
  then have t: "take IPV4_ADDRSIZE (inet_ntoa d @ replicate IPV4_ADDRSIZE NUL) = a @ NUL # replicate (15 - length a) NUL"
    using inet_ntoa_data [OF assms(5)] by (auto simp: d_def a_def [symmetric] take_replicate min_def replicate_Suc [symmetric] Suc_diff_le simp del: replicate_Suc)
  define d1 where "d1 = a @ NUL # replicate (15 - length a) NUL @ drop 16 d"
  have "blit 0 (take IPV4_ADDRSIZE (inet_ntoa d @ replicate IPV4_ADDRSIZE NUL)) d = Some d1"
    using a t assms(5) by (simp add: blit_def d1_def d_def)
  then have "resolveRR buf cur (replicate 255 NUL) (replicate 255 NUL) = Some (16, 1, unat ttl, d1)"
    using read_record [OF assms(1-4)] assms(5) by (simp add: copied_def d_def Let_def)
  moreover have "takeWhile (\<lambda>c. c \<noteq> NUL) d1 = a @ []"
    unfolding d1_def by (subst takeWhile_append2) (use a(2) in auto)
  then have "c_str d1 = a" by (simp add: c_str_def)
  ultimately show ?thesis by (simp add: a_def)
qed

definition skipped :: "16 word \<times> 32 word \<times> bytes \<Rightarrow> bool" where
  "skipped x = (case x of (ty, ttl, data) \<Rightarrow> ty \<noteq> 1 \<and> copied data)"

definition rr_of :: "16 word \<times> 32 word \<times> bytes \<Rightarrow> bytes" where
  "rr_of x = (case x of (ty, ttl, data) \<Rightarrow> rr_bytes ty ttl data)"

lemma section_address:
  assumes "drop HEADER_SIZE buf = enc_name ls @ NUL # zs" "\<forall>l \<in> set ls. 0 < length l \<and> length l < 64" "length (enc_name ls) \<le> 255"
    "length ip = 4" "drop cur buf = concat (map rr_of others) @ rr_bytes 1 ttl ip @ ys" "\<forall>x \<in> set others. skipped x"
    "updateDNS lock e (Some qname) (Some (inet_ntoa ip)) (to_int (int (unat ttl))) (da_cache a) = Some (u, c)"
  shows "section_loop lock e qname buf True (Suc (length others + m)) cur a =
    Some (Inl DNS_OK, \<lparr>da_name = inet_ntoa ip, da_ttl = int (unat ttl), da_cache = c\<rparr>)"
  using assms(5,6)
proof (induction others arbitrary: cur)
  case Nil
  then obtain d where "resolveRR buf cur (replicate 255 NUL) (replicate 255 NUL) = Some (16, 1, unat ttl, d)" "c_str d = inet_ntoa ip"
    using read_address [of cur buf ttl ip ys ls zs] assms(1-4) by auto
  then show ?case using assms(7) by simp
next
  case (Cons x others)
  obtain ty t data where x: "x = (ty, t, data)" by (cases x)
  have 1: "drop cur buf = rr_bytes ty t data @ concat (map rr_of others) @ rr_bytes 1 ttl ip @ ys" "unat ty \<noteq> 1" "copied data"
    using Cons.prems x word_unat_eq_iff [of ty 1] by (simp_all add: rr_of_def [of "(ty, t, data)"] skipped_def)
  have "resolveRR buf cur (replicate 255 NUL) (replicate 255 NUL) = Some (int (12 + length data), unat ty, unat t, data @ replicate (255 - length data) NUL)"
    using read_record [OF 1(1) assms(1-3) 1(3)] 1(2) by (simp add: Let_def)
  moreover have "drop (cur + (12 + length data)) buf = concat (map rr_of others) @ rr_bytes 1 ttl ip @ ys"
    using drop_append_eq [OF 1(1)] by (simp add: rr_length)
  ultimately show ?case using Cons.IH [of "cur + (12 + length data)"] Cons.prems(2) 1(2) by (simp add: nat_add_distrib add_ac)
qed

text \<open>
  C15. Answers. A response with the right identifier, whose question name has labels of 1 to 63
  characters and at most 255 bytes, and whose answer section has any records that are no address, each with up to 255
  bytes of data, before an address record (the names being pointers to the question), is accepted, and the address
  found is the first one, in dotted form, with its time to live; it is handed to the cache. But when one of the
  two bytes of the identifier is zero, every response is rejected.
\<close>

theorem dns_answer_first_address:
  assumes "\<forall>l \<in> set ls. 0 < length l \<and> length l < 64" "length (enc_name ls) \<le> 255"
    "length flags = 2" "length qtype = 4" "length ip = 4" "\<forall>x \<in> set others. skipped x"
    "length others + m < 65535"
    "buf = net16 ID @ flags @ net16 1 @ net16 (of_nat (Suc (length others + m))) @ net16 nauth @ net16 nadd @
           enc_name ls @ NUL # qtype @ concat (map rr_of others) @ rr_bytes 1 ttl ip @ rest"
    "updateDNS lock e (Some qname) (Some (inet_ntoa ip)) (to_int (int (unat ttl))) (da_cache a) = Some (u, c)"
  shows "resvDNSAnswer lock e ID qname buf a =
    Some (if unat ID div 256 = 0 \<or> unat ID mod 256 = 0 then (DNS_ERR, a)
          else (DNS_OK, \<lparr>da_name = inet_ntoa ip, da_ttl = int (unat ttl), da_cache = c\<rparr>))"
proof -
  have "unat ID < 2 ^ 16" using unsigned_less [of ID] by simp
  then have id: "unat ID div 256 < 256" by simp
  define hi where "hi = (char_of (unat ID div 256) :: char)"
  define lo where "lo = (char_of (unat ID mod 256) :: char)"
  have z: "char_of n = NUL \<longleftrightarrow> n = 0" if "n < 256" for n :: nat
  proof -
    have "(of_char (char_of n) :: nat) = of_char NUL \<longleftrightarrow> char_of n = NUL" by (rule of_char_eq_iff)
    moreover have "(of_char NUL :: nat) = 0" by (simp add: NUL_def)
    ultimately show ?thesis using that by simp
  qed
  have zs: "hi = NUL \<longleftrightarrow> unat ID div 256 = 0" "lo = NUL \<longleftrightarrow> unat ID mod 256 = 0"
    unfolding hi_def lo_def by (rule z [OF id], rule z) simp
  have b: "buf = hi # lo # drop 2 buf" using assms(8) by (simp add: net16_def hi_def lo_def)
  have nul: "NUL \<in> set buf" using assms(8) by simp
  show ?thesis
  proof (cases "hi = NUL \<or> lo = NUL")
    case True
    then have "length (c_str buf) < 2" by (subst b) (auto simp: c_str_def)
    then show ?thesis using True zs nul by (auto simp: resvDNSAnswer_def)
  next
    case False
    then have l: "\<not> length (c_str buf) < 2" by (subst b) (auto simp: c_str_def)
    have q: "drop HEADER_SIZE buf = enc_name ls @ NUL # qtype @ concat (map rr_of others) @ rr_bytes 1 ttl ip @ rest"
      unfolding assms(8) using assms(3) by simp
    have n: "unat (of_nat (Suc (length others + m)) :: 16 word) = Suc (length others + m)"
      using assms(7) by (subst unat_of_nat) simp
    define cnt where "cnt = (of_nat (Suc (length others + m)) :: 16 word)"
    note n = n [folded cnt_def]
    define post where "post = enc_name ls @ NUL # qtype @ concat (map rr_of others) @ rr_bytes 1 ttl ip @ rest"
    have bp: "buf = net16 ID @ flags @ net16 1 @ net16 cnt @ net16 nauth @ net16 nadd @ post"
      using assms(8) by (simp add: cnt_def post_def)
    have h: "host16 0 buf = Some (unat ID)" "host16 6 buf = Some (Suc (length others + m))" "host16 8 buf = Some (unat nauth)"
      "host16 10 buf = Some (unat nadd)"
      using host16_at [of buf "[]" ID _ 0] host16_at [of buf "net16 ID @ flags @ net16 1" cnt _ 6]
        host16_at [of buf "net16 ID @ flags @ net16 1 @ net16 cnt" nauth _ 8]
        host16_at [of buf "net16 ID @ flags @ net16 1 @ net16 cnt @ net16 nauth" nadd _ 10] bp assms(3) n
      by simp_all
    obtain name' where r: "resolveRRName buf HEADER_SIZE (replicate DNS_DOMAIN_NAME_LIMIT NUL) 0 = Some (int (length (enc_name ls) + 1), name')"
      using read_name [OF q assms(1), of 0 "replicate DNS_DOMAIN_NAME_LIMIT NUL"] assms(2) by simp
    define p where "p = HEADER_SIZE + (length (enc_name ls) + 1)"
    have "drop p buf = qtype @ concat (map rr_of others) @ rr_bytes 1 ttl ip @ rest"
      using drop_Cons_eq [OF drop_append_eq [OF q]] by (simp add: p_def)
    then have d: "drop (p + 4) buf = concat (map rr_of others) @ rr_bytes 1 ttl ip @ rest"
      using drop_append_eq [of p buf qtype] assms(4) by simp
    have "section_loop lock e qname buf True (Suc (length others + m)) (p + 4) a =
        Some (Inl DNS_OK, \<lparr>da_name = inet_ntoa ip, da_ttl = int (unat ttl), da_cache = c\<rparr>)"
      by (rule section_address [OF q assms(1,2,5) d assms(6,9)])
    moreover have "HEADER_SIZE + nat (int (length (enc_name ls) + 1)) + 4 = p + 4" by (simp add: p_def)
    ultimately show ?thesis
      using False zs nul l unfolding resvDNSAnswer_def h r by (simp add: p_def del: section_loop.simps)
  qed
qed

definition demo_answer :: bytes where
  "demo_answer = net16 0x1234 @ net16 0x8180 @ net16 1 @ net16 (of_nat 2) @ net16 0 @ net16 0 @ enc_name [''a'', ''de''] @ NUL # (net16 1 @ net16 1) @
     rr_bytes 5 300 ''xyz'' @ rr_bytes 1 60 [CHR 0x0A, CHR 0x00, CHR 0x00, CHR 0x01] @ replicate 40 NUL"

lemma demo_ip: "inet_ntoa [CHR 0x0A, CHR 0x00, CHR 0x00, CHR 0x01] = ''10.0.0.1''"
  by code_simp

theorem dns_answer_first_address_witness:
  "\<exists>c. resvDNSAnswer False (demo_dns_env 10) 0x1234 ''a.de'' demo_answer \<lparr>da_name = [], da_ttl = 0, da_cache = demo_cache\<rparr> =
     Some (DNS_OK, \<lparr>da_name = ''10.0.0.1'', da_ttl = 60, da_cache = c\<rparr>)"
proof -
  obtain u c where "updateDNS False (demo_dns_env 10) (Some ''a.de'') (Some (inet_ntoa [CHR 0x0A, CHR 0x00, CHR 0x00, CHR 0x01])) (to_int (int (unat (60 :: 32 word)))) demo_cache = Some (u, c)"
    by (simp add: updateDNS_def store2Memory_def to_int_def)
  then show ?thesis
    using dns_answer_first_address [of "[''a'', ''de'']" "net16 0x8180" "net16 1 @ net16 1" "[CHR 0x0A, CHR 0x00, CHR 0x00, CHR 0x01]"
        "[(5, 300, ''xyz'')]" 0 demo_answer "0x1234" 0 0 60 "replicate 40 NUL" False "demo_dns_env 10" "''a.de''"
        "\<lparr>da_name = [], da_ttl = 0, da_cache = demo_cache\<rparr>" u c]
    by (simp add: demo_answer_def rr_of_def skipped_def copied_def demo_ip)
qed

text \<open>
  C40. Messages that break the reader. A name that is a pointer to itself is followed for ever. A record whose
  data length is more than 255 writes behind the array for the data, whatever the data are. Both hold at every position of
  every message.
\<close>

theorem dns_reader_hazards:
  "(drop p buf = CHR 0xC0 # char_of p # rest \<and> p < 256 \<longrightarrow> resolveRRName buf p name pos = None) \<and>
   (drop cur buf = [NUL] @ net16 ty @ net16 cl @ net32 ttl @ net16 n @ data \<and> 255 < unat n \<longrightarrow>
      resolveRR buf cur name (replicate DNS_DOMAIN_NAME_LIMIT NUL) = None)"
proof (intro conjI impI; elim conjE)
  assume a: "drop p buf = CHR 0xC0 # char_of p # rest" "p < 256"
  have b: "byte_at p buf = Some 0xc0" "byte_at (p + 1) buf = Some (of_nat p)"
    using byte_at_drop [OF a(1)] byte_at_drop [OF drop_Cons_eq [OF a(1)]] a(2) by (simp_all add: of_char_nat)
  have l: "label_loop buf p name pos = Some (p, name, pos)" for name pos
    using b(1) pointer_byte by (subst label_loop.simps) (simp add: startWithPointer_def)
  have "unat (of_nat p :: 8 word) = p" using a(2) by (simp add: unat_of_nat)
  then have o: "unat (ucast (of_nat p :: 8 word) :: 16 word) = p" using a(2) by (simp add: unsigned_ucast_eq take_bit_nat_eq_self_iff)
  have "\<not> (buf' = buf \<and> p' = p)" if "resolveRRName buf' p' name' pos' = Some y" for buf' p' name' pos' y
  proof (rule resolveRRName.raw_induct [where P = "\<lambda>b q m i y. \<not> (b = buf \<and> q = p)", OF _ that], intro notI)
    fix f buf' p' name' pos' y
    assume ih: "\<And>b q m i y. f b q m i = Some y \<Longrightarrow> \<not> (b = buf \<and> q = p)" and e: "buf' = buf \<and> p' = p"
      and s: "(label_loop buf' p' name' pos' \<bind> (\<lambda>(cur, name1, pos1). byte_at cur buf' \<bind> (\<lambda>num.
          if num = 0 then Some (int (cur + 1 - p'), name1)
          else if startWithPointer num then byte_at (cur + 1) buf' \<bind> (\<lambda>low.
            let high = num AND NOT DNS_RRNAME_OFFSETFLAG; offset = (ucast high + ucast low :: 16 word)
            in f buf' (unat offset) name1 pos1 \<bind> (\<lambda>(r, name2).
                 if r < 0 then Some (DNS_RESOLVE_ERR, name2) else Some (int (cur + 2 - p'), name2)))
          else Some (int (cur - p'), name1)))) = Some y"
    obtain r name2 where "f buf p name' pos' = Some (r, name2)"
      using s e b l pointer_byte o by (auto simp: bind_eq_Some_conv Let_def)
    then show False using ih by blast
  qed
  then show "resolveRRName buf p name pos = None" by (metis not_None_eq)
next
  assume a: "drop cur buf = [NUL] @ net16 ty @ net16 cl @ net32 ttl @ net16 n @ data" "255 < unat n"
  have e1: "drop (cur + 1) buf = net16 ty @ net16 cl @ net32 ttl @ net16 n @ data" using drop_append_eq [OF a(1)] by simp
  define c1 where "c1 = cur + 1"
  note f = record_fields [OF e1, folded c1_def]
  have b: "byte_at cur buf = Some 0" using byte_at_drop [of cur buf NUL] a(1) by simp
  then have r: "resolveRRName buf cur name 0 = Some (1, name)"
    by (subst resolveRRName.simps) (simp add: label_loop.simps)
  have c1: "cur + nat 1 = c1" by (simp add: c1_def)
  have s: "slice i (unat n) buf = Some xs \<Longrightarrow> blit 0 xs (replicate DNS_DOMAIN_NAME_LIMIT NUL) = None" for i xs
    using a(2) slice_length [of i "unat n" buf xs] by (simp add: blit_def)
  show "resolveRR buf cur name (replicate DNS_DOMAIN_NAME_LIMIT NUL) = None"
    unfolding resolveRR_def r Let_def using a(2) f s c1 by (auto split: Option.bind_splits)
qed

theorem dns_reader_hazards_witness:
  "resolveRRName ([CHR 0xC0, CHR 0x00] @ replicate 510 NUL) 0 (replicate 255 NUL) 0 = None \<and>
   resolveRR ([NUL] @ net16 1 @ net16 1 @ net32 60 @ net16 300 @ replicate 500 NUL) 0 (replicate 255 NUL) (replicate 255 NUL) = None"
proof -
  have z: "char_of (0 :: nat) = CHR 0x00" by code_simp
  have a: "drop 0 ([CHR 0xC0, CHR 0x00] @ replicate 510 NUL) = CHR 0xC0 # char_of (0 :: nat) # replicate 510 NUL \<and> (0 :: nat) < 256"
    by (simp add: z)
  have b: "drop 0 ([NUL] @ net16 1 @ net16 1 @ net32 60 @ net16 300 @ replicate 500 NUL) =
      [NUL] @ net16 1 @ net16 1 @ net32 60 @ net16 300 @ replicate 500 NUL \<and> 255 < unat (300 :: 16 word)"
    by simp
  show ?thesis using dns_reader_hazards [THEN conjunct1, rule_format, OF a] dns_reader_hazards [THEN conjunct2, rule_format, OF b] by simp
qed

end
