(* ===== verification/DnsResolver.thy ===== *)
theory DnsResolver
  imports Conn DnsRead
begin

text \<open>
  \<open>dns/DNSResolver.cpp\<close>: the resolver object. A name is answered at once when it is an address or in
  the cache; otherwise a query is packed and sent over a UDP socket, whose events end in exactly
  one call of the connection's callback. The callback is client code: its result is an argument, and
  its calls are recorded.
\<close>

abbreviation DNS_UINIT :: int where "DNS_UINIT \<equiv> 2"
abbreviation DNS_ON_PROCESS :: int where "DNS_ON_PROCESS \<equiv> 1"

record resolver =
  rs_cache :: DNSCache
  rs_query :: bytes
  rs_response :: bytes
  rs_ID :: "16 word"
  rs_query_name :: bytes
  rs_answer_name :: bytes
  rs_answer_ttl :: int
  rs_state :: int
  rs_callback :: bool
  rs_sock :: Socket
  rs_in :: netbuf
  rs_out :: netbuf
  rs_kern :: kern
  rs_heap :: ssl_heap
  rs_ops :: "loop_op list"
  rs_calls :: "(bytes \<times> int) list"

text \<open>What the calls of one operation find outside.\<close>

record udp_env =
  ue_dns :: dns_env
  ue_lock :: bool
  ue_inet :: "bytes \<Rightarrow> 32 word"
  ue_callback :: "bytes \<Rightarrow> int \<Rightarrow> int"
  ue_close :: "sysres \<times> sysres"
  ue_tid :: "16 word"
  ue_primary :: bytes
  ue_listen :: listen_env
  ue_connect :: sysres
  ue_nio :: "int \<times> int"
  ue_grow :: "char option"
  ue_register :: "(int \<times> nat option) option"
  ue_recv :: "int \<times> int \<times> recv_res list"
  ue_send :: send_res
  ue_message :: HttpMessage

definition callHandle :: "udp_env \<Rightarrow> resolver \<Rightarrow> int \<times> resolver" where
  "callHandle e r =
     (if rs_callback r then
       (let name = c_str (rs_answer_name r);
            st = (if ue_callback e name (rs_answer_ttl r) \<noteq> 0 then DNS_ERR else DNS_UINIT)
        in (st, r\<lparr>rs_calls := rs_calls r @ [(name, rs_answer_ttl r)], rs_state := st\<rparr>))
      else (DNS_ERR, r\<lparr>rs_state := DNS_ERR\<rparr>))"

definition udp_close :: "udp_env \<Rightarrow> resolver \<Rightarrow> resolver option" where
  "udp_close e r =
     do { (_, s, k, h, ops) \<leftarrow> Socket_close (fst (ue_close e)) (snd (ue_close e)) (rs_sock r) (rs_kern r) (rs_heap r);
          Some (r\<lparr>rs_sock := s, rs_kern := k, rs_heap := h, rs_ops := rs_ops r @ ops\<rparr>) }"

definition queryDNSCache :: "udp_env \<Rightarrow> bytes \<Rightarrow> resolver \<Rightarrow> (int \<times> resolver) option" where
  "queryDNSCache e host r =
     do { (ret, ip, c) \<leftarrow> queryIP (ue_lock e) (ue_dns e) (Some host) (Some (replicate IPV4_ADDRSIZE NUL)) (rs_cache r);
          if ret = 0 then
            do { a \<leftarrow> ip;
                 if NUL \<notin> set a then None
                 else Some (DNS_OK, r\<lparr>rs_cache := c, rs_answer_name := c_str a\<rparr>) }
          else Some (DNS_ERR, r\<lparr>rs_cache := c\<rparr>) }"

definition asyncQueryInit :: "udp_env \<Rightarrow> bytes \<Rightarrow> resolver \<Rightarrow> (int \<times> resolver) option" where
  "asyncQueryInit e host r =
     do { (len, packed) \<leftarrow> packDNSQuery (ue_tid e) (Some (host @ [NUL])) (length host);
          (q, tid, name) \<leftarrow> packed;
          let r1 = r\<lparr>rs_query := q, rs_ID := tid, rs_query_name := name, rs_answer_name := [], rs_answer_ttl := 0,
                     rs_response := replicate DNS_MESSAGE_LIMIT NUL\<rparr>;
          r2 \<leftarrow> udp_close e r1;
          let (s, bin, bout) = Socket_reset (rs_sock r2) (rs_in r2) (rs_out r2);
          (ret, s1, k, h, ops) \<leftarrow> CreateUDPConnect (ue_inet e) (ue_listen e) (ue_connect e) (fst (ue_close e)) (snd (ue_close e))
                                    (fst (ue_nio e)) (snd (ue_nio e)) (ue_primary e) ''53'' True s (rs_kern r2) (rs_heap r2);
          let r3 = r2\<lparr>rs_sock := s1, rs_in := bin, rs_out := bout, rs_kern := k, rs_heap := h, rs_ops := rs_ops r2 @ ops\<rparr>;
          if ret \<noteq> 0 then Some (DNS_ERR, r3)
          else
           (let (s2, k2) = setNIO True (fst (ue_nio e)) (snd (ue_nio e)) s1 k
            in do { xs \<leftarrow> slice 0 (nat len) q;
                    (_, b) \<leftarrow> addData (ue_grow e) xs bout;
                    Some (DNS_OK, r3\<lparr>rs_sock := s2, rs_kern := k2, rs_out := b\<rparr>) }) }"

text \<open>\<open>asyncQueryStart\<close>: the callbacks of the channel, and the write event.\<close>

definition asyncQueryStart :: "resolver \<Rightarrow> int \<times> resolver" where
  "asyncQueryStart r =
     (if s_chan (rs_sock r) = None then (DNS_INPUT_ERR, r)
      else
       (let i = s_id (rs_sock r)
        in (DNS_OK, r\<lparr>rs_ops := rs_ops r @ [SetHandle i (Some H_READ) SOCKET_EVENT_READ, SetHandle i (Some H_WRITE) SOCKET_EVENT_WRITE,
                 SetHandle i (Some H_ERROR) SOCKET_EVENT_ERROR, SetHandle i (Some H_TIMEOUT) SOCKET_EVENT_TIMEOUT,
                 Enable i SOCKET_EVENT_WRITE]\<rparr>)))"

definition resolve :: "udp_env \<Rightarrow> bytes \<Rightarrow> resolver \<Rightarrow> (int \<times> resolver) option" where
  "resolve e host r0 =
     (let r = r0\<lparr>rs_answer_name := [], rs_state := DNS_UINIT\<rparr>
      in if ValidateAddr host then Some (callHandle e (r\<lparr>rs_answer_name := host\<rparr>))
         else
          do { (c, r1) \<leftarrow> queryDNSCache e host r;
               if c = DNS_OK then Some (callHandle e r1)
               else
                do { (i, r2) \<leftarrow> asyncQueryInit e host r1;
                     if i \<noteq> DNS_OK then Some (DNS_ERR, r2\<lparr>rs_state := DNS_ERR\<rparr>)
                     else
                      (let (g, r3) = (case ue_register e of
                                        None \<Rightarrow> (0, r2)
                                      | Some (g, ch) \<Rightarrow> (g, r2\<lparr>rs_sock := (rs_sock r2)\<lparr>s_chan := ch\<rparr>\<rparr>))
                       in if g \<noteq> 0 then Some (DNS_ERR, r3\<lparr>rs_state := DNS_ERR\<rparr>)
                          else
                           (let (s, r4) = asyncQueryStart r3
                            in if s \<noteq> DNS_OK then Some (DNS_ERR, r4\<lparr>rs_state := DNS_ERR\<rparr>)
                               else Some (DNS_ON_PROCESS, r4\<lparr>rs_state := DNS_ON_PROCESS\<rparr>))) } })"

definition getAnswer :: "resolver \<Rightarrow> int \<times> (bytes \<times> int) option" where
  "getAnswer r = (if rs_answer_name r = [] then (DNS_ERR, None) else (DNS_OK, Some (rs_answer_name r, rs_answer_ttl r)))"

section \<open>The events of the query\<close>

definition dns_errorHandle :: "udp_env \<Rightarrow> resolver \<Rightarrow> (int \<times> resolver) option" where
  "dns_errorHandle e r =
     (let r1 = (if rs_callback r then snd (callHandle e (r\<lparr>rs_answer_name := []\<rparr>)) else r)
      in do { r2 \<leftarrow> udp_close e r1; Some (EVENT_CALLBACK_BREAK, r2) })"

definition dns_timeoutHandle :: "udp_env \<Rightarrow> resolver \<Rightarrow> (int \<times> resolver) option" where
  "dns_timeoutHandle e r = dns_errorHandle e r"

definition sendQuery :: "udp_env \<Rightarrow> resolver \<Rightarrow> (int \<times> resolver) option" where
  "sendQuery e r =
     do { (n, _, b, s, k, h, _) \<leftarrow> send_buffer (ue_send e) (ue_message e) (rs_out r) (rs_sock r) (rs_kern r) (rs_heap r);
          let r1 = r\<lparr>rs_out := b, rs_sock := s, rs_kern := k, rs_heap := h\<rparr>;
          if n < 0 then dns_errorHandle e r1
          else if readableBytes b > 0 then Some (EVENT_CALLBACK_CONTINUE, r1)
          else Some (EVENT_CALLBACK_CONTINUE,
                     r1\<lparr>rs_ops := rs_ops r1 @ [Enable (s_id s) SOCKET_EVENT_READ, Disable (s_id s) SOCKET_EVENT_WRITE]\<rparr>) }"

text \<open>\<open>recvAnswer\<close> copies all that was received into the response buffer.\<close>

definition recvAnswer :: "udp_env \<Rightarrow> resolver \<Rightarrow> (int \<times> resolver) option" where
  "recvAnswer e r =
     (let (getfl, setfl, outs) = ue_recv e
      in do { (n, b1, s, k, h) \<leftarrow> recvNIO getfl setfl outs (Some (rs_in r)) (rs_sock r) (rs_kern r) (rs_heap r);
              b \<leftarrow> b1;
              let r1 = r\<lparr>rs_in := b, rs_sock := s, rs_kern := k, rs_heap := h\<rparr>;
              if n < 0 then dns_errorHandle e r1
              else
               do { xs \<leftarrow> slice (nb_rd b) (readableBytes b) (nb_mem b);
                    resp \<leftarrow> blit 0 xs (rs_response r1);
                    let r2 = r1\<lparr>rs_response := resp, rs_in := nb_clear b\<rparr>;
                    (ret, a) \<leftarrow> resvDNSAnswer (ue_lock e) (ue_dns e) (rs_ID r2) (rs_query_name r2) resp
                                 \<lparr>da_name = rs_answer_name r2, da_ttl = rs_answer_ttl r2, da_cache = rs_cache r2\<rparr>;
                    let r3 = r2\<lparr>rs_answer_name := da_name a, rs_answer_ttl := da_ttl a, rs_cache := da_cache a\<rparr>;
                    if ret \<noteq> DNS_OK then dns_errorHandle e r3
                    else
                     do { r4 \<leftarrow> udp_close e r3;
                          Some (EVENT_CALLBACK_BREAK, if rs_callback r4 then snd (callHandle e r4) else r4) } } })"

definition dns_reset :: "udp_env \<Rightarrow> resolver \<Rightarrow> resolver option" where
  "dns_reset e r = map_option (\<lambda>r1. r1\<lparr>rs_callback := False\<rparr>) (udp_close e (r\<lparr>rs_state := DNS_UINIT\<rparr>))"

section \<open>Every query ends in one call\<close>

datatype dns_event = EvSend | EvRecv | EvError | EvTimeout

definition dns_handle :: "udp_env \<Rightarrow> dns_event \<Rightarrow> resolver \<Rightarrow> (int \<times> resolver) option" where
  "dns_handle e ev r =
     (case ev of EvSend \<Rightarrow> sendQuery e r | EvRecv \<Rightarrow> recvAnswer e r | EvError \<Rightarrow> dns_errorHandle e r | EvTimeout \<Rightarrow> dns_timeoutHandle e r)"

text \<open>The events of the query's socket, up to the handler that ends it.\<close>

fun dns_run :: "(udp_env \<times> dns_event) list \<Rightarrow> resolver \<Rightarrow> (bool \<times> resolver) option" where
  "dns_run [] r = Some (False, r)"
| "dns_run ((e, ev) # evs) r =
     do { (ret, r1) \<leftarrow> dns_handle e ev r;
          if ret = EVENT_CALLBACK_BREAK then Some (True, r1) else dns_run evs r1 }"

definition called_back :: "resolver \<Rightarrow> resolver \<Rightarrow> bool" where
  "called_back r r' \<longleftrightarrow> (\<exists>name ttl. rs_calls r' = rs_calls r @ [(name, ttl)]) \<and> (rs_state r' = DNS_UINIT \<or> rs_state r' = DNS_ERR)"

definition kept_waiting :: "resolver \<Rightarrow> resolver \<Rightarrow> bool" where
  "kept_waiting r r' \<longleftrightarrow> rs_callback r' = rs_callback r \<and> rs_calls r' = rs_calls r \<and> rs_state r' = rs_state r"

lemma callHandle_calls: "rs_callback r \<Longrightarrow> callHandle e r = (st, r') \<Longrightarrow> called_back r r'"
  by (auto simp: callHandle_def called_back_def Let_def split: if_splits)

lemma close_keeps: "udp_close e r = Some r' \<Longrightarrow> kept_waiting r r'"
  by (auto simp: udp_close_def kept_waiting_def bind_eq_Some_conv)

lemma called_back_trans: "kept_waiting r r1 \<Longrightarrow> called_back r1 r2 \<Longrightarrow> called_back r r2"
  "called_back r r1 \<Longrightarrow> kept_waiting r1 r2 \<Longrightarrow> called_back r r2"
  "kept_waiting r r1 \<Longrightarrow> kept_waiting r1 r2 \<Longrightarrow> kept_waiting r r2"
  by (auto simp: kept_waiting_def called_back_def)

lemma errorHandle_calls:
  assumes "dns_errorHandle e r = Some (ret, r')" "kept_waiting r0 r" "rs_callback r0"
  shows "ret = EVENT_CALLBACK_BREAK \<and> called_back r0 r'"
proof -
  define ra where "ra = r\<lparr>rs_answer_name := []\<rparr>"
  have a: "kept_waiting r0 ra" "rs_callback ra" using assms(2,3) by (simp_all add: ra_def kept_waiting_def)
  have "called_back ra (snd (callHandle e ra))" using callHandle_calls [OF a(2)] by (metis prod.collapse)
  moreover have "rs_callback r" using assms(2,3) by (simp add: kept_waiting_def)
  then have "do { r2 \<leftarrow> udp_close e (snd (callHandle e ra)); Some (EVENT_CALLBACK_BREAK, r2) } = Some (ret, r')"
    using assms(1) by (simp add: dns_errorHandle_def ra_def)
  then obtain "udp_close e (snd (callHandle e ra)) = Some r'" "ret = EVENT_CALLBACK_BREAK"
    by (cases "udp_close e (snd (callHandle e ra))") simp_all
  ultimately show ?thesis using called_back_trans close_keeps a(1) by blast
qed

lemma handle_calls:
  assumes "dns_handle e ev r = Some (ret, r')" "rs_callback r"
  shows "(ret = EVENT_CALLBACK_BREAK \<and> called_back r r') \<or> (ret = EVENT_CALLBACK_CONTINUE \<and> kept_waiting r r')"
proof (cases ev)
  case EvSend
  then obtain n m b s k h out where s: "send_buffer (ue_send e) (ue_message e) (rs_out r) (rs_sock r) (rs_kern r) (rs_heap r) = Some (n, m, b, s, k, h, out)"
    using assms(1) by (auto simp: dns_handle_def sendQuery_def bind_eq_Some_conv)
  define r1 where "r1 = r\<lparr>rs_out := b, rs_sock := s, rs_kern := k, rs_heap := h\<rparr>"
  have k: "kept_waiting r r1" by (simp add: r1_def kept_waiting_def)
  have "dns_errorHandle e r1 = Some (ret, r') \<or> ret = EVENT_CALLBACK_CONTINUE \<and> kept_waiting r r'"
    using assms(1) EvSend s by (auto simp: dns_handle_def sendQuery_def r1_def kept_waiting_def Let_def split: if_splits)
  then show ?thesis using errorHandle_calls k assms(2) by blast
next
  case EvRecv
  obtain g f outs where u: "ue_recv e = (g, f, outs)" by (cases "ue_recv e")
  then obtain n b s k h where s: "recvNIO g f outs (Some (rs_in r)) (rs_sock r) (rs_kern r) (rs_heap r) = Some (n, Some b, s, k, h)"
    using assms(1) EvRecv by (auto simp: dns_handle_def recvAnswer_def bind_eq_Some_conv)
  define r1 where "r1 = r\<lparr>rs_in := b, rs_sock := s, rs_kern := k, rs_heap := h\<rparr>"
  have k1: "kept_waiting r r1" by (simp add: r1_def kept_waiting_def)
  consider "dns_errorHandle e r1 = Some (ret, r')" | r3 where "kept_waiting r r3" "dns_errorHandle e r3 = Some (ret, r')"
    | r3 r4 where "kept_waiting r r3" "udp_close e r3 = Some r4" "ret = EVENT_CALLBACK_BREAK"
        "r' = (if rs_callback r4 then snd (callHandle e r4) else r4)"
  proof (cases "n < 0")
    case True
    then show thesis using assms(1) EvRecv u s that(1) by (simp add: dns_handle_def recvAnswer_def r1_def)
  next
    case False
    then obtain xs resp res a where x: "slice (nb_rd b) (readableBytes b) (nb_mem b) = Some xs" "blit 0 xs (rs_response r1) = Some resp"
      "resvDNSAnswer (ue_lock e) (ue_dns e) (rs_ID r1) (rs_query_name r1) resp
         \<lparr>da_name = rs_answer_name r1, da_ttl = rs_answer_ttl r1, da_cache = rs_cache r1\<rparr> = Some (res, a)"
      using assms(1) EvRecv u s by (auto simp: dns_handle_def recvAnswer_def r1_def bind_eq_Some_conv)
    define r3 where "r3 = r1\<lparr>rs_response := resp, rs_in := nb_clear b, rs_answer_name := da_name a, rs_answer_ttl := da_ttl a, rs_cache := da_cache a\<rparr>"
    have k3: "kept_waiting r r3" by (simp add: r3_def r1_def kept_waiting_def)
    have "recvAnswer e r = (if res \<noteq> DNS_OK then dns_errorHandle e r3
        else do { r4 \<leftarrow> udp_close e r3; Some (EVENT_CALLBACK_BREAK, if rs_callback r4 then snd (callHandle e r4) else r4) })"
      using u s False x by (simp add: recvAnswer_def r1_def r3_def Let_def)
    then show thesis
      using assms(1) EvRecv that(2,3) k3 by (auto simp: dns_handle_def bind_eq_Some_conv split: if_splits)
  qed
  then show ?thesis
  proof cases
    case 1
    then show ?thesis using errorHandle_calls k1 assms(2) by blast
  next
    case 2
    then show ?thesis using errorHandle_calls assms(2) by blast
  next
    case 3
    then have "kept_waiting r r4" "rs_callback r4" using called_back_trans(3) close_keeps assms(2) by (auto simp: kept_waiting_def)
    then show ?thesis using 3 callHandle_calls called_back_trans(1) by (metis prod.collapse)
  qed
qed (use assms errorHandle_calls [of e r ret r' r] in \<open>simp_all add: dns_handle_def dns_timeoutHandle_def kept_waiting_def\<close>)

lemma dns_run_calls:
  "dns_run evs r = Some (ended, r') \<Longrightarrow> rs_callback r \<Longrightarrow> if ended then called_back r r' else kept_waiting r r'"
proof (induction evs arbitrary: r)
  case (Cons x evs)
  obtain e ev where x: "x = (e, ev)" by (cases x)
  obtain ret r1 where h: "dns_handle e ev r = Some (ret, r1)" using Cons.prems(1) x by (auto simp: bind_eq_Some_conv)
  consider "ret = EVENT_CALLBACK_BREAK" "called_back r r1" | "ret = EVENT_CALLBACK_CONTINUE" "kept_waiting r r1"
    using handle_calls [OF h Cons.prems(2)] by blast
  then show ?case
  proof cases
    case 1
    then show ?thesis using Cons.prems(1) x h by simp
  next
    case 2
    then have "dns_run evs r1 = Some (ended, r')" "rs_callback r1" using Cons.prems x h by (simp_all add: kept_waiting_def)
    then have "if ended then called_back r1 r' else kept_waiting r1 r'" by (rule Cons.IH)
    then show ?thesis using 2(2) called_back_trans by (auto split: if_splits)
  qed
qed (simp add: kept_waiting_def)

lemma cache_keeps: "queryDNSCache e host r = Some (c, r') \<Longrightarrow> kept_waiting r r'"
proof -
  assume a: "queryDNSCache e host r = Some (c, r')"
  obtain ret ip d where q: "queryIP (ue_lock e) (ue_dns e) (Some host) (Some (replicate IPV4_ADDRSIZE NUL)) (rs_cache r) = Some (ret, ip, d)"
    using a unfolding queryDNSCache_def
    by (cases "queryIP (ue_lock e) (ue_dns e) (Some host) (Some (replicate IPV4_ADDRSIZE NUL)) (rs_cache r)") auto
  show ?thesis
  proof (cases "ret = 0")
    case True
    then show ?thesis using a q by (cases ip) (simp_all add: queryDNSCache_def kept_waiting_def split: if_splits, auto)
  next
    case False
    then show ?thesis using a q by (auto simp: queryDNSCache_def kept_waiting_def)
  qed
qed

lemma init_keeps: "asyncQueryInit e host r = Some (c, r') \<Longrightarrow> kept_waiting r r'"
proof -
  assume a: "asyncQueryInit e host r = Some (c, r')"
  obtain len q tid name where p: "packDNSQuery (ue_tid e) (Some (host @ [NUL])) (length host) = Some (len, Some (q, tid, name))"
    using a by (auto simp: asyncQueryInit_def bind_eq_Some_conv)
  define r1 where "r1 = r\<lparr>rs_query := q, rs_ID := tid, rs_query_name := name, rs_answer_name := [], rs_answer_ttl := 0,
                     rs_response := replicate DNS_MESSAGE_LIMIT NUL\<rparr>"
  obtain r2 where c: "udp_close e r1 = Some r2"
    using a p by (auto simp: asyncQueryInit_def r1_def bind_eq_Some_conv)
  have k2: "kept_waiting r r2" using close_keeps [OF c] by (simp add: r1_def kept_waiting_def)
  obtain s bin bout where sr: "Socket_reset (rs_sock r2) (rs_in r2) (rs_out r2) = (s, bin, bout)" by (cases "Socket_reset (rs_sock r2) (rs_in r2) (rs_out r2)")
  define cu where "cu = CreateUDPConnect (ue_inet e) (ue_listen e) (ue_connect e) (fst (ue_close e)) (snd (ue_close e))
                                    (fst (ue_nio e)) (snd (ue_nio e)) (ue_primary e) ''53'' True s (rs_kern r2) (rs_heap r2)"
  define send where "send s1 k r3 =
      (let (s2, k2) = setNIO True (fst (ue_nio e)) (snd (ue_nio e)) s1 k
       in do { xs \<leftarrow> slice 0 (nat len) q; (_, b) \<leftarrow> addData (ue_grow e) xs bout; Some (DNS_OK, r3\<lparr>rs_sock := s2, rs_kern := k2, rs_out := b\<rparr>) })"
    for s1 k and r3 :: resolver
  have e: "do { (ret, s1, k, h, ops) \<leftarrow> cu;
             let r3 = r2\<lparr>rs_sock := s1, rs_in := bin, rs_out := bout, rs_kern := k, rs_heap := h, rs_ops := rs_ops r2 @ ops\<rparr>;
             if ret \<noteq> 0 then Some (DNS_ERR, r3) else send s1 k r3 } = Some (c, r')"
    using a p c sr by (simp add: asyncQueryInit_def r1_def cu_def send_def cong: if_cong)
  then obtain ret s1 k h ops where cu: "cu = Some (ret, s1, k, h, ops)" by (cases cu) auto
  define r3 where "r3 = r2\<lparr>rs_sock := s1, rs_in := bin, rs_out := bout, rs_kern := k, rs_heap := h, rs_ops := rs_ops r2 @ ops\<rparr>"
  have k3: "kept_waiting r2 r3" by (simp add: r3_def kept_waiting_def)
  have e3: "(if ret \<noteq> 0 then Some (DNS_ERR, r3) else send s1 k r3) = Some (c, r')" using e cu by (simp add: r3_def Let_def split: if_splits)
  have "kept_waiting r3 r'"
  proof (cases "ret = 0")
    case True
    then have "send s1 k r3 = Some (c, r')" using e3 by simp
    then show ?thesis by (auto simp: send_def kept_waiting_def bind_eq_Some_conv split: prod.splits)
  next
    case False
    then show ?thesis using e3 by (simp add: kept_waiting_def)
  qed
  then have "kept_waiting r2 r'" using k3 called_back_trans(3) by blast
  then show ?thesis using k2 called_back_trans(3) by blast
qed

text \<open>
  C13. A resolver whose callback is set calls it exactly once per name. When \<open>resolve\<close> answers at
  once, with an address, from the cache or with a failure of the callback itself, the call was made by it, and
  a failure to send the query makes no call and is reported. When it reports that a query is on its way, no call was made;
  whatever then happens on the socket, in any order (partial sends, answers good and bad, errors, a timeout), there is no call
  while the handlers go on, and exactly one at the handler that ends the query, after which the resolver is idle or failed.
\<close>

theorem dns_calls_back:
  assumes "rs_callback r" "resolve e host r = Some (ret, r1)" "dns_run evs r1 = Some (ended, r2)"
  shows "(ret = DNS_ON_PROCESS \<longrightarrow> rs_calls r1 = rs_calls r \<and> rs_state r1 = DNS_ON_PROCESS \<and>
            (if ended then (\<exists>name ttl. rs_calls r2 = rs_calls r @ [(name, ttl)]) \<and> (rs_state r2 = DNS_UINIT \<or> rs_state r2 = DNS_ERR)
             else rs_calls r2 = rs_calls r \<and> rs_state r2 = DNS_ON_PROCESS)) \<and>
         (ret \<noteq> DNS_ON_PROCESS \<longrightarrow> rs_state r1 = ret \<and>
            (rs_calls r1 = rs_calls r \<and> ret = DNS_ERR \<or>
             (\<exists>name ttl. rs_calls r1 = rs_calls r @ [(name, ttl)] \<and> ret = (if ue_callback e name ttl = 0 then DNS_UINIT else DNS_ERR))))"
proof -
  have now: "rs_callback q \<Longrightarrow> rs_calls q = rs_calls r \<Longrightarrow> callHandle e q = (ret, r1) \<Longrightarrow> ret \<noteq> DNS_ON_PROCESS \<and> rs_state r1 = ret \<and>
      (\<exists>name ttl. rs_calls r1 = rs_calls r @ [(name, ttl)] \<and> ret = (if ue_callback e name ttl = 0 then DNS_UINIT else DNS_ERR))" for q
    by (rule conjI, simp add: callHandle_def Let_def split: if_splits)
      (auto simp: callHandle_def Let_def split: if_splits intro!: exI [of _ "c_str (rs_answer_name q)"] exI [of _ "rs_answer_ttl q"])
  define q where "q = r\<lparr>rs_answer_name := [], rs_state := DNS_UINIT\<rparr>"
  have q: "rs_callback q" "rs_calls q = rs_calls r" using assms(1) by (simp_all add: q_def)
  show ?thesis
  proof (cases "ValidateAddr host")
    case True
    then have "callHandle e (q\<lparr>rs_answer_name := host\<rparr>) = (ret, r1)" using assms(2) by (simp add: resolve_def q_def)
    then show ?thesis using now [of "q\<lparr>rs_answer_name := host\<rparr>"] q by simp
  next
    case False
    then obtain c q1 where c: "queryDNSCache e host q = Some (c, q1)"
      using assms(2) by (auto simp: resolve_def q_def bind_eq_Some_conv)
    have k1: "rs_callback q1" "rs_calls q1 = rs_calls r" using cache_keeps [OF c] q by (simp_all add: kept_waiting_def)
    show ?thesis
    proof (cases "c = DNS_OK")
      case True
      then have "callHandle e q1 = (ret, r1)" using assms(2) False c by (simp add: resolve_def q_def)
      then show ?thesis using now k1 by blast
    next
      case nc: False
      then obtain i q2 where i: "asyncQueryInit e host q1 = Some (i, q2)"
        using assms(2) False c by (auto simp: resolve_def q_def bind_eq_Some_conv)
      have k2: "rs_callback q2" "rs_calls q2 = rs_calls r" using init_keeps [OF i] k1 by (simp_all add: kept_waiting_def)
      have 3: "rs_callback r1 \<and> rs_calls r1 = rs_calls r \<and> rs_state r1 = ret \<and> (ret = DNS_ERR \<or> ret = DNS_ON_PROCESS)"
        using assms(2) False c nc i k2
        by (auto simp: resolve_def q_def asyncQueryStart_def Let_def split: if_splits option.splits)
      then show ?thesis using dns_run_calls [OF assms(3)] by (auto simp: called_back_def kept_waiting_def split: if_splits)
    qed
  qed
qed

definition demo_udp_env :: udp_env where
  "demo_udp_env =
     \<lparr>ue_dns = demo_dns_env 10, ue_lock = False, ue_inet = (\<lambda>_. 0), ue_callback = (\<lambda>_ _. 0), ue_close = ((0, 0), (0, 0)), ue_tid = 7,
      ue_primary = ''8.8.8.8'',
      ue_listen = \<lparr>e_socket = 9, e_dup1 = 600, e_reuseaddr = 0, e_reuseport = 0, e_getfl = 0, e_setfl = 0, e_bind = 0, e_dup2 = 0, e_listen = 0\<rparr>,
      ue_connect = (0, 0), ue_nio = (0, 0), ue_grow = Some CHR ''x'', ue_register = Some (0, Some 3),
      ue_recv = (0, 0, []),
      ue_send = \<lparr>sr_getfl = 0, sr_setfl = 0, sr_sends = [], sr_sendfile = False, sr_fuel = 0, sr_rings = [], sr_files = [],
                 sr_body_sends = [], sr_body_reads = []\<rparr>,
      ue_message = new_message HTTP_ROLE_REQUEST demo_body 7\<rparr>"

definition demo_resolver :: resolver where
  "demo_resolver =
     \<lparr>rs_cache = demo_cache, rs_query = [], rs_response = [], rs_ID = 0, rs_query_name = [], rs_answer_name = [], rs_answer_ttl = 0,
      rs_state = DNS_UINIT, rs_callback = True, rs_sock = new_Socket 4, rs_in = Buffer_new NUL 40, rs_out = Buffer_new NUL 40,
      rs_kern = demo_kern, rs_heap = demo_heap, rs_ops = [], rs_calls = []\<rparr>"

lemma pack_terminated:
  "packDNSQuery tid (Some (h @ [NUL])) (length h) = packDNSQuery tid (Some h) (length h)"
proof -
  have "slice 0 (length h) (h @ [NUL]) = slice 0 (length h) h" by (simp add: slice_def)
  then show ?thesis by (simp add: packDNSQuery_def)
qed

lemma close_plain:
  "s_ctx m = new_SSLContext \<Longrightarrow> Socket_close sd sd' m k h = tcpClose sd' m k h"
  "destory sd' new_SSLContext h = Some (new_SSLContext, h)"
  by (simp_all add: Socket_close_def isSSL_def ctx_active_def validSSL_def destory_def ctx_reset_def free_handle_def new_SSLContext_def)

lemma close_defined: "s_ctx m = new_SSLContext \<Longrightarrow> \<exists>x. Socket_close sd sd' m k h = Some x"
  by (cases "SocketUtil_Close (m\<lparr>s_ctx := new_SSLContext, s_chan := None\<rparr>) k") (simp add: close_plain tcpClose_def)

text \<open>The query of the example: nothing in the cache, a socket, and 33 bytes to send.\<close>

lemma demo_init:
  "\<exists>r2. asyncQueryInit demo_udp_env ''a.de'' (demo_resolver\<lparr>rs_answer_name := [], rs_state := DNS_UINIT\<rparr>) = Some (DNS_OK, r2) \<and>
        s_ctx (rs_sock r2) = new_SSLContext \<and> rs_heap r2 = demo_heap"
proof -
  define h where "h = ''a.de''"
  define q where "q = query_head 7 @ enc_name (dot_tokens [] (c_str h)) @ query_tail @
    replicate (490 - length (enc_name (dot_tokens [] (c_str h)))) NUL"
  have "c_str h = h" by (simp add: h_def c_str_id NUL_def)
  then have n: "length (enc_name (dot_tokens [] (c_str h))) = 5" by (simp add: h_def enc_name_def)
  have q: "packDNSQuery 7 (Some (h @ [NUL])) (length h) = Some (33, Some (q, 7, h))"
    using pack_query [OF _ refl, of h 7] n unfolding pack_terminated by (simp add: h_def q_def)
  have s: "slice 0 33 q = Some (take 33 q)" using n by (simp add: slice_def q_def query_head_def query_tail_def)
  obtain b where b: "addData (Some CHR ''x'') (take 33 q) (nb_clear (Buffer_new NUL 40)) = Some (length (take 33 q), b)"
    using addData_spec [of "nb_clear (Buffer_new NUL 40)" "CHR ''x''" "take 33 q"]
    by (auto simp: nb_clear_def Buffer_new_def nb_ok_def nb_movable_def)
  have v: "ValidateAddr ''8.8.8.8''" "ValidatePort ''53''" by code_simp+
  show ?thesis
    using q s b unfolding h_def
    by (simp add: asyncQueryInit_def demo_udp_env_def demo_resolver_def udp_close_def close_plain tcpClose_def Let_def new_Socket_def
        SocketUtil_Close_def exist_def valid_fd_def Socket_reset_def CreateUDPConnect_def Connect_def v PackSockAddr_def sys_socket_def
        RelocateFileDescriptor_def sys_dupfd_def setNIO_def SetSockOpt_def)
qed

lemma demo_query:
  "\<exists>r1. resolve demo_udp_env ''a.de'' demo_resolver = Some (DNS_ON_PROCESS, r1) \<and>
        s_ctx (rs_sock r1) = new_SSLContext \<and> rs_heap r1 = demo_heap"
proof -
  define q where "q = demo_resolver\<lparr>rs_answer_name := [], rs_state := DNS_UINIT\<rparr>"
  obtain r2 where i: "asyncQueryInit demo_udp_env ''a.de'' q = Some (DNS_OK, r2)"
    "s_ctx (rs_sock r2) = new_SSLContext" "rs_heap r2 = demo_heap"
    using demo_init by (auto simp: q_def)
  have v: "\<not> ValidateAddr ''a.de''" by code_simp
  have ue_register_demo: "ue_register demo_udp_env = Some (0, Some 3)" by (simp add: demo_udp_env_def)
  have c: "queryDNSCache demo_udp_env ''a.de'' q = Some (DNS_ERR, q)"
    by (simp add: queryDNSCache_def q_def demo_udp_env_def demo_resolver_def demo_cache_def queryIP_def getStickDNSNode_def
        getHashkey_def calcMd5_def demo_dns_env_def getNextHashkey_def slice_def)
  show ?thesis
    using v c i unfolding resolve_def q_def [symmetric]
    by (simp add: asyncQueryStart_def ue_register_demo Let_def)
qed

theorem dns_calls_back_witness:
  "\<exists>r1 r2. resolve demo_udp_env ''a.de'' demo_resolver = Some (DNS_ON_PROCESS, r1) \<and>
     dns_run [(demo_udp_env, EvTimeout)] r1 = Some (True, r2) \<and> length (rs_calls r2) = 1"
proof -
  obtain r1 where r1: "resolve demo_udp_env ''a.de'' demo_resolver = Some (DNS_ON_PROCESS, r1)"
    "s_ctx (rs_sock r1) = new_SSLContext" "rs_heap r1 = demo_heap"
    using demo_query by blast
  define ra where "ra = (if rs_callback r1 then snd (callHandle demo_udp_env (r1\<lparr>rs_answer_name := []\<rparr>)) else r1)"
  have "rs_sock ra = rs_sock r1" "rs_heap ra = rs_heap r1" by (simp_all add: ra_def callHandle_def Let_def)
  then obtain r2 where "udp_close demo_udp_env ra = Some r2"
    using r1(2) close_defined [of "rs_sock ra" "fst (ue_close demo_udp_env)" "snd (ue_close demo_udp_env)" "rs_kern ra" "rs_heap ra"]
    by (auto simp: udp_close_def)
  then have "dns_run [(demo_udp_env, EvTimeout)] r1 = Some (True, r2)"
    by (simp add: dns_handle_def dns_timeoutHandle_def dns_errorHandle_def ra_def)
  then show ?thesis
    using r1(1) dns_calls_back [of demo_resolver demo_udp_env "''a.de''" DNS_ON_PROCESS r1 "[(demo_udp_env, EvTimeout)]" True r2]
    by (auto simp: demo_resolver_def)
qed

end
