(* ===== verification/HttpConn.thy ===== *)
theory HttpConn
  imports Conn
begin

text \<open>
  \<open>http/HttpConnection.cpp\<close>: one connection of the HTTP server, a state machine driven by the events
  of its socket. The connection's own parser works on the request; the parser
  inside the request object is never used, so the parser fields of the request stand for the
  connection's parser. \<open>hc_recycled\<close> counts how often the connection was handed back to its
  factory, and \<open>hc_ops\<close> collects the operations on the event loop.
\<close>

datatype HttpState =
    TCP_INIT | HTTPS_HANDSHAKE | HTTPS_HANDSHAKE_DONE | RECV_REQUEST | RECV_REQUEST_DONE
  | SEND_RESPONSE | SEND_RESPONSE_DONE | HTTPS_CLOSE | HTTPS_CLOSE_DONE | TCP_CLOSE

record hconn =
  hc_state :: HttpState
  hc_sock :: Socket
  hc_in :: netbuf
  hc_out :: netbuf
  hc_request :: HttpMessage
  hc_response :: HttpMessage
  hc_kern :: kern
  hc_heap :: ssl_heap
  hc_recycled :: nat
  hc_ops :: "loop_op list"
  hc_script :: "answer list"

text \<open>The service of the acceptor, and the detector of file types.\<close>

record hc_env =
  he_ssl :: bool
  he_root :: bytes
  he_mime :: "bytes \<Rightarrow> bytes option"

definition hc_ask :: "(answer \<Rightarrow> 'a option) \<Rightarrow> hconn \<Rightarrow> ('a \<times> hconn) option" where
  "hc_ask kind h = (case hc_script h of [] \<Rightarrow> None | a # as \<Rightarrow> map_option (\<lambda>x. (x, h\<lparr>hc_script := as\<rparr>)) (kind a))"

section \<open>The socket\<close>

definition hc_emit :: "loop_op list \<Rightarrow> hconn \<Rightarrow> hconn" where
  "hc_emit xs h = h\<lparr>hc_ops := hc_ops h @ xs\<rparr>"

definition hc_enable :: "evf \<Rightarrow> hconn \<Rightarrow> hconn" where
  "hc_enable f h = hc_emit [Enable (s_id (hc_sock h)) f] h"

definition hc_disable :: "evf \<Rightarrow> hconn \<Rightarrow> hconn" where
  "hc_disable f h = hc_emit [Disable (s_id (hc_sock h)) f] h"

definition hc_handle :: "nat \<Rightarrow> evf \<Rightarrow> hconn \<Rightarrow> hconn" where
  "hc_handle f ev h = hc_emit [SetHandle (s_id (hc_sock h)) (Some f) ev] h"

definition hc_quiet :: "hconn \<Rightarrow> hconn" where
  "hc_quiet h = hc_disable SOCKET_EVENT_WRITE (hc_disable SOCKET_EVENT_READ h)"

definition hc_wanted :: "hconn \<Rightarrow> evf" where
  "hc_wanted h = wanted_event (hc_sock h) (hc_heap h)"

definition hc_recv :: "hconn \<Rightarrow> (int \<times> hconn) option" where
  "hc_recv h =
     do { ((getfl, setfl, outs), h1) \<leftarrow> hc_ask ans_recv h;
          (n, b, m, k, hp) \<leftarrow> recvNIO getfl setfl outs (Some (hc_in h1)) (hc_sock h1) (hc_kern h1) (hc_heap h1);
          b1 \<leftarrow> b;
          Some (n, h1\<lparr>hc_in := b1, hc_sock := m, hc_kern := k, hc_heap := hp\<rparr>) }"

definition hc_send :: "hconn \<Rightarrow> (int \<times> hconn) option" where
  "hc_send h =
     do { (r, h1) \<leftarrow> hc_ask ans_send h;
          (n, m, b, s, k, hp, _) \<leftarrow> send_buffer r (hc_response h1) (hc_out h1) (hc_sock h1) (hc_kern h1) (hc_heap h1);
          Some (n, h1\<lparr>hc_response := m, hc_out := b, hc_sock := s, hc_kern := k, hc_heap := hp\<rparr>) }"

section \<open>Closing\<close>

definition resetResources :: "hconn \<Rightarrow> hconn" where
  "resetResources h =
     (let (rq, k1) = msg_clear (hc_request h) (hc_kern h);
          (rs, k2) = msg_clear (hc_response h) k1
      in h\<lparr>hc_in := nb_clear (hc_in h), hc_out := nb_clear (hc_out h), hc_request := rq, hc_response := rs,
           hc_kern := k2, hc_state := RECV_REQUEST\<rparr>)"

definition hc_recycle :: "hconn \<Rightarrow> hconn" where
  "hc_recycle h =
     (let (s, b, b') = Socket_reset (hc_sock h) (hc_in h) (hc_out h);
          h1 = resetResources (h\<lparr>hc_sock := s, hc_in := b, hc_out := b'\<rparr>)
      in h1\<lparr>hc_state := TCP_INIT, hc_recycled := hc_recycled h1 + 1\<rparr>)"

definition hc_close :: "hconn \<Rightarrow> (int \<times> hconn) option" where
  "hc_close h =
     do { ((s1, s2), h1) \<leftarrow> hc_ask ans_close h;
          (r, m, k, hp, ops) \<leftarrow> Socket_close s1 s2 (hc_sock h1) (hc_kern h1) (hc_heap h1);
          Some (r, hc_emit ops (h1\<lparr>hc_sock := m, hc_kern := k, hc_heap := hp\<rparr>)) }"

text \<open>The handler asks for the event the close waits for even when there is none.\<close>

definition hc_closeHandle :: "hconn \<Rightarrow> (int \<times> hconn) option" where
  "hc_closeHandle h =
     do { (ret, h1) \<leftarrow> hc_close h;
          if ret \<noteq> 0 \<and> isSSL (hc_sock h1) (hc_heap h1) then
           (let h2 = hc_quiet h1; ev = hc_wanted h2
            in Some (EVENT_CALLBACK_CONTINUE, hc_enable ev (hc_handle H_CLOSE ev h2)))
          else Some (EVENT_CALLBACK_BREAK, hc_recycle h1) }"

definition hc_errorHandle :: "hconn \<Rightarrow> (int \<times> hconn) option" where
  "hc_errorHandle h = hc_closeHandle h"

definition hc_rdhupHandle :: "hconn \<Rightarrow> (int \<times> hconn) option" where
  "hc_rdhupHandle h = hc_closeHandle h"

text \<open>A timeout closes the socket but does not recycle the connection.\<close>

definition hc_timeoutHandle :: "hconn \<Rightarrow> (int \<times> hconn) option" where
  "hc_timeoutHandle h =
     do { (sd, h1) \<leftarrow> hc_ask ans_tcp h;
          (r, m, k, hp, ops) \<leftarrow> tcpClose sd (hc_sock h1) (hc_kern h1) (hc_heap h1);
          Some (r, hc_emit ops (h1\<lparr>hc_sock := m, hc_kern := k, hc_heap := hp\<rparr>)) }"

section \<open>The requested file\<close>

text \<open>The name of the file for a URL: what begins at its first slash, unless that is all of it.\<close>

definition request_path :: "bytes \<Rightarrow> bytes \<Rightarrow> bytes" where
  "request_path root url =
     (case find_char CHR ''/'' url of
        Some p \<Rightarrow> if length (drop p url) > 1 then root @ drop p url else root @ ''/index.html''
      | None \<Rightarrow> root @ ''/index.html'')"

definition get_refused :: "hconn \<Rightarrow> hconn option" where
  "get_refused h =
     do { ((fuel, outss, res, _), h1) \<leftarrow> hc_ask ans_notify h;
          (m, k) \<leftarrow> prepare403Response fuel outss res (hc_response h1) (hc_kern h1);
          Some (h1\<lparr>hc_response := m, hc_kern := k\<rparr>) }"

definition get_served :: "hc_env \<Rightarrow> File \<Rightarrow> bytes \<Rightarrow> hconn \<Rightarrow> hconn option" where
  "get_served E garbage path h =
     (let keepalive = isKeepAlive (m_version (hc_request h)) (m_headers (hc_request h));
          r1 = setStatuscode 200 (hc_response h);
          r2 = r1\<lparr>m_headers := setKeepAlive keepalive (m_headers r1)\<rparr>
      in do { (_, r3, k) \<leftarrow> setBodyFileName (he_mime E) garbage path r2 (hc_kern h);
              Some (h\<lparr>hc_response := setChunkedTransfer True (set_header ''Server'' ''tigerso'' r3), hc_kern := k\<rparr>) })"

definition doGet :: "hc_env \<Rightarrow> hconn \<Rightarrow> hconn option" where
  "doGet E h =
     (let path = request_path (he_root E) (m_url (hc_request h))
      in do { ((g1, g2), h1) \<leftarrow> hc_ask ans_files h;
              (f, k1) \<leftarrow> File_new path g1 (hc_kern h1);
              if \<not> testExist f k1 then get_refused (h1\<lparr>hc_kern := k1\<rparr>) else get_served E g2 path (h1\<lparr>hc_kern := k1\<rparr>) })"

definition switchRequest :: "hc_env \<Rightarrow> hconn \<Rightarrow> hconn option" where
  "switchRequest E h = doGet E h"

definition hc_attach :: "hconn \<Rightarrow> hconn option" where
  "hc_attach h =
     do { (grow, h1) \<leftarrow> hc_ask ans_attach h;
          (m, b) \<leftarrow> attach_message grow (hc_response h1) (hc_out h1);
          Some (h1\<lparr>hc_response := m, hc_out := b\<rparr>) }"

section \<open>The handshake\<close>

text \<open>\<open>SSLHandShake\<close>. Without a TLS context it returns what the close handler does.\<close>

definition SSLHandShake :: "hconn \<Rightarrow> (int \<times> hconn) option" where
  "SSLHandShake h =
     (if \<not> isSSL (hc_sock h) (hc_heap h) then hc_closeHandle h
      else
       do { ((r, sd), h1) \<leftarrow> hc_ask ans_shake h;
            (ret, c, hp) \<leftarrow> ctx_accept r sd (s_ctx (hc_sock h1)) (hc_heap h1);
            let h2 = h1\<lparr>hc_sock := (hc_sock h1)\<lparr>s_ctx := c\<rparr>, hc_heap := hp\<rparr>;
            if ret = SCTX_IO_OK then
              Some (TIGERSO_IO_OK,
                    hc_enable SOCKET_EVENT_READ (hc_handle H_READ SOCKET_EVENT_READ
                      (hc_disable SOCKET_EVENT_WRITE (h2\<lparr>hc_state := HTTPS_HANDSHAKE_DONE\<rparr>))))
            else if ret = SCTX_IO_RECALL then
             (let h3 = hc_quiet h2; ev = hc_wanted h3 in Some (TIGERSO_IO_RECALL, hc_enable ev (hc_handle H_READ ev h3)))
            else if ret = SCTX_IO_ERROR then do { (_, h3) \<leftarrow> hc_closeHandle h2; Some (TIGERSO_IO_ERROR, h3) }
            else Some (TIGERSO_IO_ERROR, h2) })"

definition hc_prepareSSL :: "hconn \<Rightarrow> (int \<times> hconn) option" where
  "hc_prepareSSL h =
     do { ((new, set_fd, sd), h1) \<leftarrow> hc_ask ans_init h;
          (r, m, hp) \<leftarrow> prepareSSLContext new set_fd sd (hc_sock h1) (hc_heap h1);
          Some (r, h1\<lparr>hc_sock := m, hc_heap := hp\<rparr>) }"

section \<open>Reading\<close>

definition hc_ret :: "(int \<times> hconn) option \<Rightarrow> (flow \<times> hconn) option" where
  "hc_ret x = map_option (\<lambda>(r, h). (Ret r, h)) x"

definition hc_state_to :: "HttpState \<Rightarrow> hconn \<Rightarrow> hconn" where
  "hc_state_to s h = h\<lparr>hc_state := s\<rparr>"

text \<open>A failed receive of a TLS socket waits for the event it wants.\<close>

definition recv_failed :: "hconn \<Rightarrow> (int \<times> hconn) option" where
  "recv_failed h =
     (if isSSL (hc_sock h) (hc_heap h) then
       (let h1 = hc_quiet h; ev = hc_wanted h1
        in if ev = SOCKET_EVENT_NONE then hc_closeHandle h1
           else Some (EVENT_CALLBACK_CONTINUE, hc_enable ev (hc_disable SOCKET_EVENT_READ (hc_handle H_READ ev h1))))
      else hc_closeHandle h)"

definition hc_parse :: "int \<Rightarrow> hconn \<Rightarrow> (int \<times> hconn) option" where
  "hc_parse recvn h =
     do { ((events, n), h1) \<leftarrow> hc_ask ans_parse h;
          (r, m, k) \<leftarrow> parser_parse (\<lambda>_ m. m) events n (hc_request h1) (hc_kern h1);
          Some (r, h1\<lparr>hc_request := m, hc_kern := k\<rparr>) }"

definition hc_bad_request :: "hconn \<Rightarrow> (int \<times> hconn) option" where
  "hc_bad_request h =
     do { ((fuel, outss, res, _), h1) \<leftarrow> hc_ask ans_notify h;
          (m, k) \<leftarrow> prepare400Response fuel outss res (hc_response h1) (hc_kern h1);
          h2 \<leftarrow> hc_attach (h1\<lparr>hc_response := m, hc_kern := k\<rparr>);
          Some (EVENT_CALLBACK_BREAK,
                hc_enable SOCKET_EVENT_WRITE (hc_handle H_WRITE SOCKET_EVENT_WRITE (hc_disable SOCKET_EVENT_READ h2))) }"

definition hc_receive :: "hconn \<Rightarrow> (flow \<times> hconn) option" where
  "hc_receive h =
     do { (recvn, h1) \<leftarrow> hc_recv h;
          if TIGERSO_IO_ERROR = recvn then hc_ret (recv_failed h1)
          else if recvn = 0 then
            (if \<not> needMoreData (hc_request h1) then hc_ret (hc_closeHandle h1)
             else Some (Ret EVENT_CALLBACK_CONTINUE,
                        hc_enable SOCKET_EVENT_READ (hc_disable SOCKET_EVENT_WRITE (hc_handle H_READ SOCKET_EVENT_READ h1))))
          else
            do { (parsedn, h2) \<leftarrow> hc_parse recvn h1;
                 if parsedn \<noteq> recvn then hc_ret (hc_bad_request h2)
                 else if needMoreData (hc_request h2) then Some (Ret EVENT_CALLBACK_CONTINUE, h2)
                 else Some (Again, hc_state_to RECV_REQUEST_DONE h2) } }"

definition hc_respond :: "hc_env \<Rightarrow> hconn \<Rightarrow> (flow \<times> hconn) option" where
  "hc_respond E h =
     do { h1 \<leftarrow> switchRequest E h;
          h2 \<leftarrow> hc_attach h1;
          Some (Ret EVENT_CALLBACK_CONTINUE,
                hc_state_to SEND_RESPONSE
                  (hc_enable SOCKET_EVENT_WRITE (hc_disable SOCKET_EVENT_READ (hc_handle H_WRITE SOCKET_EVENT_WRITE h2)))) }"

text \<open>One round of the loop; the states without a case go around for ever.\<close>

definition hc_step :: "hc_env \<Rightarrow> hconn \<Rightarrow> (flow \<times> hconn) option" where
  "hc_step E h =
     (case hc_state h of
        TCP_INIT \<Rightarrow>
          if he_ssl E then do { (_, h1) \<leftarrow> hc_prepareSSL h; Some (Again, hc_state_to HTTPS_HANDSHAKE h1) }
          else Some (Again, hc_state_to RECV_REQUEST h)
      | HTTPS_HANDSHAKE \<Rightarrow>
          do { (ret, h1) \<leftarrow> SSLHandShake h;
               if ret \<noteq> TIGERSO_IO_OK then Some (Ret EVENT_CALLBACK_CONTINUE, h1)
               else Some (Again, hc_state_to HTTPS_HANDSHAKE_DONE h1) }
      | HTTPS_HANDSHAKE_DONE \<Rightarrow> Some (Again, hc_state_to RECV_REQUEST h)
      | RECV_REQUEST \<Rightarrow> hc_receive h
      | RECV_REQUEST_DONE \<Rightarrow> hc_respond E h
      | _ \<Rightarrow> Some (Again, h))"

text \<open>\<open>None\<close> when the rounds or the answers run out.\<close>

fun hc_readHandle :: "nat \<Rightarrow> hc_env \<Rightarrow> hconn \<Rightarrow> (int \<times> hconn) option" where
  "hc_readHandle 0 E h = None"
| "hc_readHandle (Suc n) E h =
     (case hc_step E h of
        None \<Rightarrow> None
      | Some (Ret r, h1) \<Rightarrow> Some (r, h1)
      | Some (Again, h1) \<Rightarrow> hc_readHandle n E h1)"

section \<open>Writing\<close>

definition send_failed :: "hconn \<Rightarrow> (int \<times> hconn) option" where
  "send_failed h =
     (if isSSL (hc_sock h) (hc_heap h) then
       (let h1 = hc_quiet h; ev = hc_wanted h1
        in if ev = SOCKET_EVENT_NONE then hc_closeHandle h1
           else Some (EVENT_CALLBACK_CONTINUE, hc_enable ev (hc_handle H_WRITE ev h1)))
      else hc_closeHandle h)"

definition hc_writeHandle :: "hconn \<Rightarrow> (int \<times> hconn) option" where
  "hc_writeHandle h =
     do { (ret, h1) \<leftarrow> hc_send h;
          if TIGERSO_IO_ERROR = ret then send_failed h1
          else if \<not> isSendDone (hc_out h1) then Some (EVENT_CALLBACK_CONTINUE, h1)
          else
           (let h2 = hc_state_to SEND_RESPONSE_DONE h1
            in if isKeepAlive (m_version (hc_response h2)) (m_headers (hc_response h2)) then
                 Some (EVENT_CALLBACK_CONTINUE,
                       hc_enable SOCKET_EVENT_READ (hc_handle H_READ SOCKET_EVENT_READ
                         (hc_disable SOCKET_EVENT_WRITE (resetResources h2))))
               else hc_closeHandle h2) }"

end
