(* ===== verification/SockFrame.thy ===== *)
theory SockFrame
  imports Conn
begin

text \<open>
  What sending and receiving never change in a socket: its number, its channel and its descriptor.
  Only the TLS context, the blocking flag and the stage do change.
\<close>

definition same_sock :: "Socket \<Rightarrow> Socket \<Rightarrow> bool" where
  "same_sock m m' \<longleftrightarrow> s_id m' = s_id m \<and> s_chan m' = s_chan m \<and> s_fd m' = s_fd m"

lemma same_sock_refl [simp, intro!]: "same_sock m m"
  by (simp add: same_sock_def)

lemma same_sock_trans: "same_sock a b \<Longrightarrow> same_sock b c \<Longrightarrow> same_sock a c"
  by (simp add: same_sock_def)

lemma setNIO_same: "setNIO u g s m k = (m', k') \<Longrightarrow> same_sock m m'"
  by (auto simp: setNIO_def same_sock_def split: if_splits)

lemma Recv_same: "Recv nb r sd m h = Some (ret, rn, m', h') \<Longrightarrow> same_sock m m'"
  by (auto simp: Recv_def same_sock_def Let_def split: if_splits option.splits)

lemma Send_same: "Send nb r sd m h = Some (ret, rn, m', h') \<Longrightarrow> same_sock m m'"
  by (auto simp: Send_def same_sock_def Let_def split: if_splits option.splits)

lemma prepareSSL_same: "prepareSSLContext new set_fd sd m h = Some (r, m', h') \<Longrightarrow> same_sock m m'"
  by (auto simp: prepareSSLContext_def same_sock_def bind_eq_Some_conv Let_def split: if_splits prod.splits)

section \<open>Receiving\<close>

lemma recv_loop_same: "recv_loop len ext outs b m h = Some (ret, len', b', m', h') \<Longrightarrow> same_sock m m'"
proof (induction outs arbitrary: len ext b m h)
  case (Cons x outs)
  obtain r sd xs grow where x: "x = (r, sd, xs, grow)" by (cases x)
  obtain s rn m1 h1 where R: "Recv 0 (cap_to (writeableBytes b) r) sd m h = Some (s, rn, m1, h1)"
    using Cons.prems(1) x by (auto simp: bind_eq_Some_conv)
  show ?case
  proof (cases "s > 0")
    case False
    then show ?thesis using Cons.prems R x Recv_same [OF R] by auto
  next
    case True
    then have "\<exists>n ext' b2. recv_loop n ext' outs b2 m1 h1 = Some (ret, len', b', m', h')"
      using Cons.prems R x by (auto simp: bind_eq_Some_conv Let_def split: if_splits)
    then show ?thesis using Cons.IH Recv_same [OF R] same_sock_trans by blast
  qed
qed simp

lemma recvNIO_same: "recvNIO g s outs (Some b) m k h = Some (n, b', m', k', h') \<Longrightarrow> same_sock m m'"
proof -
  assume a: "recvNIO g s outs (Some b) m k h = Some (n, b', m', k', h')"
  obtain m1 k1 where s: "setNIO True g s m k = (m1, k1)" by fastforce
  have "same_sock m1 m'"
    using a s by (auto simp: recvNIO_def recvFromSocket_def bind_eq_Some_conv dest!: recv_loop_same split: if_splits)
  then show ?thesis using setNIO_same [OF s] same_sock_trans by blast
qed

section \<open>Sending\<close>

lemma send_sock_loop_same: "send_sock_loop n outs b m h = Some (e, ys, b', m', h') \<Longrightarrow> same_sock m m'"
proof (induction outs arbitrary: b m h e ys)
  case (Cons x outs)
  obtain r sd where x: "x = (r, sd)" by (cases x)
  show ?case
  proof (cases "rb_size b = 0")
    case False
    then obtain xs ret rn m1 h1 where c: "chunk b = Some xs" and S: "Send 0 (capped xs r) sd m h = Some (ret, rn, m1, h1)"
      using Cons.prems x by (auto simp: bind_eq_Some_conv)
    have "m' = m1 \<or> (\<exists>b1 h1 e' ys'. send_sock_loop n outs b1 m1 h1 = Some (e', ys', b', m', h'))"
      using Cons.prems False x c S by (auto simp: bind_eq_Some_conv split: if_splits)
    then show ?thesis using Cons.IH Send_same [OF S] same_sock_trans by blast
  qed (use Cons.prems x in auto)
qed (auto split: if_splits)

lemma rb_send_same: "rb_send2Socket outs b m h = Some (ret, ys, b', m', h') \<Longrightarrow> same_sock m m'"
  by (auto simp: rb_send2Socket_def bind_eq_Some_conv Let_def dest: send_sock_loop_same split: if_splits option.splits)

abbreviation w_same :: "bworld \<Rightarrow> bworld \<Rightarrow> bool" where
  "w_same w w' \<equiv> same_sock (w_sock w) (w_sock w')"

lemma w_send_same: "w_send w = Some (r, w') \<Longrightarrow> w_same w w'"
  by (auto simp: w_send_def bind_eq_Some_conv dest: rb_send_same split: list.splits)

lemma w_others_same:
  "w_read w = Some (r, w') \<Longrightarrow> w_same w w'"
  "w_put xs w = Some w' \<Longrightarrow> w_same w w'"
  "w_same w (w_clear w)" "w_same w (w_reset w)" "w_same w (w_state s w)"
  by (auto simp: w_read_def w_put_def w_clear_def w_reset_def w_state_def bind_eq_Some_conv split: list.splits prod.splits)

lemmas w_frame = w_send_same w_others_same same_sock_trans

lemma w_state_sock [simp]: "w_sock (w_state s w) = w_sock w" "w_sock (w_reset w) = w_sock w" "w_sock (w_clear w) = w_sock w"
  by (simp_all add: w_state_def w_reset_def w_clear_def split: prod.splits)

lemma sendChunk_label_same: "sendChunk_label s left w = Some (c, w') \<Longrightarrow> w_same w w'"
  by (cases "(s, left, w)" rule: sendChunk_label.cases)
     (auto simp: bind_eq_Some_conv Let_def split: if_splits dest!: w_send_same w_others_same(1,2))

lemma sendChunk_run_same: "sendChunk_run fuel pos left w = Some (r, w') \<Longrightarrow> w_same w w'"
proof (induction fuel arbitrary: pos left w)
  case (Suc fuel)
  show ?case
  proof (cases pos)
    case None
    then show ?thesis using Suc.prems Suc.IH by (auto split: if_splits)
  next
    case (Some s)
    then obtain c w1 where l: "sendChunk_label s left w = Some (c, w1)" using Suc.prems by (auto simp: bind_eq_Some_conv)
    then have "w_same w1 w'" using Suc.prems Suc.IH Some by (cases c) auto
    then show ?thesis using sendChunk_label_same [OF l] same_sock_trans by blast
  qed
qed simp

lemma sendContent_read_same: "sendContent_read fuel w = Some (r, w') \<Longrightarrow> w_same w w'"
proof (induction fuel arbitrary: w)
  case (Suc fuel)
  show ?case
  proof (cases "f_readdone (b_file (w_body w))")
    case False
    then obtain ret w1 where 1: "w_read w = Some (ret, w1)" using Suc.prems by (auto simp: bind_eq_Some_conv)
    show ?thesis
    proof (cases "ret < 0")
      case nf: False
      then obtain ret2 w2 where 2: "w_send w1 = Some (ret2, w2)" using Suc.prems False 1 by (auto simp: bind_eq_Some_conv)
      have "w_same w2 w'"
        using Suc.prems False 1 nf 2 Suc.IH
        by (fastforce simp: bind_eq_Some_conv split: if_splits dest!: w_others_same(2) intro: same_sock_trans)
      then show ?thesis using w_others_same(1) [OF 1] w_send_same [OF 2] same_sock_trans by blast
    qed (use Suc.prems False 1 w_others_same(1) [OF 1] in auto)
  qed (use Suc.prems in auto)
qed simp

lemma sendContent_tail_same: "sendContent_tail fuel w = Some (r, w') \<Longrightarrow> w_same w w'"
proof (induction fuel arbitrary: w)
  case (Suc fuel)
  obtain ret w1 where 1: "w_send w = Some (ret, w1)" using Suc.prems by (auto simp: bind_eq_Some_conv)
  have "w_same w1 w'"
    using Suc.prems 1 Suc.IH
    by (fastforce simp: bind_eq_Some_conv split: if_splits dest!: w_others_same(2) intro: same_sock_trans)
  then show ?case using w_send_same [OF 1] same_sock_trans by blast
qed simp

lemma body_send_same: "body_send2Socket sf fuel rings files w = Some (r, w') \<Longrightarrow> w_same w w'"
  by (fastforce simp: body_send2Socket_def sendChunk_def sendContent_def bind_eq_Some_conv Let_def
      split: if_splits option.splits dest!: sendChunk_run_same sendContent_read_same sendContent_tail_same intro: same_sock_trans)

lemma nb_send_loop_same: "nb_send_loop len ret0 outs b w = Some (ret, len', b', w') \<Longrightarrow> w_same w w'"
proof (induction outs arbitrary: len ret0 b w)
  case (Cons x outs)
  obtain r sd where x: "x = (r, sd)" by (cases x)
  show ?case
  proof (cases "readableBytes b > 0")
    case True
    then obtain xs s sn m1 h1 where S: "slice (nb_rd b) (readableBytes b) (nb_mem b) = Some xs"
      "Send 0 (capped xs r) sd (w_sock w) (w_heap w) = Some (s, sn, m1, h1)"
      using Cons.prems x by (auto simp: bind_eq_Some_conv)
    then have "same_sock m1 (w_sock w')"
      using Cons.prems x True Cons.IH by (fastforce simp: bind_eq_Some_conv Let_def split: if_splits)
    then show ?thesis using Send_same [OF S(2)] same_sock_trans by blast
  qed (use Cons.prems x in auto)
qed (auto split: if_splits)

lemma sendToSocket_same:
  assumes "sendToSocket body outs b w = Some (ret, b', w')" "\<And>w r w'. body w = Some (r, w') \<Longrightarrow> w_same w w'"
  shows "w_same w w'"
proof -
  obtain r len b1 w1 where l: "nb_send_loop 0 0 outs b w = Some (r, len, b1, w1)"
    using assms(1) by (auto simp: sendToSocket_def bind_eq_Some_conv)
  have "w_same w1 w'"
    using assms(1) l assms(2) by (auto simp: sendToSocket_def bind_eq_Some_conv split: if_splits)
  then show ?thesis using nb_send_loop_same [OF l] same_sock_trans by blast
qed

lemma send_buffer_same:
  assumes "send_buffer r m b s k h = Some (n, m', b', s', k', h', out)"
  shows "same_sock s s'"
proof -
  define w where "w = \<lparr>w_body = m_body m, w_sock = s, w_heap = h, w_kern = k, w_out = [],
                           w_sends = sr_body_sends r, w_reads = sr_body_reads r\<rparr>"
  define body where "body = body_send2Socket (sr_sendfile r) (sr_fuel r) (sr_rings r) (sr_files r)"
  obtain w' where w': "sendNIO (sr_getfl r) (sr_setfl r) body (sr_sends r) (Some b) w = Some (n, Some b', w')" "s' = w_sock w'"
    using assms unfolding send_buffer_def w_def [symmetric] body_def [symmetric] by (auto simp: bind_eq_Some_conv)
  obtain m1 k1 where s1: "setNIO True (sr_getfl r) (sr_setfl r) (w_sock w) (w_kern w) = (m1, k1)" by fastforce
  have "same_sock m1 s'"
  proof (cases "exist m1")
    case True
    then have "sendToSocket body (sr_sends r) b (w\<lparr>w_sock := m1, w_kern := k1\<rparr>) = Some (n, b', w')"
      using w'(1) s1 by (auto simp: sendNIO_def bind_eq_Some_conv)
    then show ?thesis using sendToSocket_same [of body] body_send_same w'(2) unfolding body_def by fastforce
  qed (use w' s1 in \<open>auto simp: sendNIO_def\<close>)
  then show ?thesis using setNIO_same [OF s1] same_sock_trans by (simp add: w_def)
qed

end
