(* ===== verification/HttpProps.thy ===== *)
theory HttpProps
  imports HttpConn SockFrame
begin

unbundle bit_operations_syntax

text \<open>
  The connection of the HTTP server together with the channel of its socket: which events are
  enabled and which handlers they run. The operations a handler performs on the loop change
  this view the way the event loop changes the channel.
\<close>

record armed =
  ar_chan :: bool
  ar_fd :: bool
  ar_read :: bool
  ar_write :: bool
  ar_rcb :: "nat option"
  ar_wcb :: "nat option"

definition arm_enable :: "evf \<Rightarrow> armed \<Rightarrow> armed" where
  "arm_enable f a =
     (if ar_chan a \<and> ar_fd a
      then a\<lparr>ar_read := ar_read a \<or> f AND SOCKET_EVENT_READ \<noteq> 0, ar_write := ar_write a \<or> f AND SOCKET_EVENT_WRITE \<noteq> 0\<rparr> else a)"

definition arm_disable :: "evf \<Rightarrow> armed \<Rightarrow> armed" where
  "arm_disable f a =
     (if ar_chan a \<and> ar_fd a
      then a\<lparr>ar_read := ar_read a \<and> f AND SOCKET_EVENT_READ = 0, ar_write := ar_write a \<and> f AND SOCKET_EVENT_WRITE = 0\<rparr> else a)"

definition arm_handle :: "nat option \<Rightarrow> evf \<Rightarrow> armed \<Rightarrow> armed" where
  "arm_handle h f a =
     (if ar_chan a
      then a\<lparr>ar_rcb := if f AND SOCKET_EVENT_READ \<noteq> 0 then h else ar_rcb a, ar_wcb := if f AND SOCKET_EVENT_WRITE \<noteq> 0 then h else ar_wcb a\<rparr>
      else a)"

definition arm_remove :: "armed \<Rightarrow> armed" where
  "arm_remove a = a\<lparr>ar_chan := False, ar_read := False, ar_write := False, ar_rcb := None, ar_wcb := None\<rparr>"

fun arm_op :: "nat \<Rightarrow> loop_op \<Rightarrow> armed \<Rightarrow> armed" where
  "arm_op s (Enable i f) a = (if i = s then arm_enable f a else a)"
| "arm_op s (Disable i f) a = (if i = s then arm_disable f a else a)"
| "arm_op s (SetHandle i h f) a = (if i = s then arm_handle h f a else a)"
| "arm_op s (RemoveSock i) a = (if i = s then arm_remove a else a)"
| "arm_op s (SetFd i fd lst) a = (if i = s then a\<lparr>ar_fd := 0 \<le> fd\<rparr> else a)"
| "arm_op s _ a = a"

definition arm_ops :: "nat \<Rightarrow> loop_op list \<Rightarrow> armed \<Rightarrow> armed" where
  "arm_ops s ops a = fold (arm_op s) ops a"

lemma arm_ops_simps [simp]:
  "arm_ops s [] a = a" "arm_ops s (x # xs) a = arm_ops s xs (arm_op s x a)"
  "arm_ops s (xs @ ys) a = arm_ops s ys (arm_ops s xs a)"
  by (simp_all add: arm_ops_def)

section \<open>The view of the event loop\<close>

definition arm_view :: "nat \<Rightarrow> evloop \<Rightarrow> armed" where
  "arm_view s l =
     (case sock_chan l s of
        None \<Rightarrow> \<lparr>ar_chan = False, ar_fd = sock_exist s l, ar_read = False, ar_write = False, ar_rcb = None, ar_wcb = None\<rparr>
      | Some c \<Rightarrow>
          (case chans l c of
             None \<Rightarrow> \<lparr>ar_chan = False, ar_fd = sock_exist s l, ar_read = False, ar_write = False, ar_rcb = None, ar_wcb = None\<rparr>
           | Some ch \<Rightarrow> \<lparr>ar_chan = True, ar_fd = sock_exist s l, ar_read = readFlag ch, ar_write = writeFlag ch,
                         ar_rcb = readable_cb ch, ar_wcb = writeable_cb ch\<rparr>))"

text \<open>The operations a handler of a connection performs.\<close>

fun handler_op :: "loop_op \<Rightarrow> bool" where
  "handler_op (Enable i f) = True"
| "handler_op (Disable i f) = True"
| "handler_op (SetHandle i h f) = True"
| "handler_op (RemoveSock i) = True"
| "handler_op (SetFd i fd lst) = True"
| "handler_op _ = False"

text \<open>An operation that only changes the epoll registration or another socket's channel is not seen.\<close>

lemma view_eq: "sock_chan l' s = sock_chan l s \<Longrightarrow> sock_fd l' s = sock_fd l s \<Longrightarrow>
    (\<And>c. sock_chan l s = Some c \<Longrightarrow> chans l' c = chans l c) \<Longrightarrow> arm_view s l' = arm_view s l"
  by (simp add: arm_view_def sock_exist_def split: option.splits)

lemma epoll_ctl_rest: "epoll_ctl op fd ev l = (r, l') \<Longrightarrow> chans l' = chans l \<and> sock_chan l' = sock_chan l \<and> sock_fd l' = sock_fd l"
  by (cases op) (auto simp: epoll_ctl.simps split: if_splits)

lemma update_rest:
  "loop_updateChannel c l = Some (r, l') \<Longrightarrow> chans l' = chans l \<and> sock_chan l' = sock_chan l \<and> sock_fd l' = sock_fd l"
  by (fastforce simp: loop_updateChannel_def ctlChannel_def bind_eq_Some_conv split: if_splits option.splits dest!: epoll_ctl_rest)

lemma removeChannel_rest:
  "removeChannel c l = Some (r, l') \<Longrightarrow> chans l' = chans l \<and> sock_chan l' = sock_chan l \<and> sock_fd l' = sock_fd l"
  by (fastforce simp: removeChannel_def ctlChannel_def bind_eq_Some_conv split: if_splits option.splits dest!: epoll_ctl_rest)

definition flagged :: "bool \<Rightarrow> bool \<Rightarrow> nat \<Rightarrow> evloop \<Rightarrow> evloop \<Rightarrow> bool" where
  "flagged rd wr c l l' \<longleftrightarrow> sock_chan l' = sock_chan l \<and> sock_fd l' = sock_fd l \<and>
     (\<exists>ch. chans l c = Some ch \<and> chans l' = (chans l)(c \<mapsto> ch\<lparr>readFlag := rd, writeFlag := wr\<rparr>))"

lemma flag_events:
  "enableReadEvent c l = Some l' \<Longrightarrow> chans l c = Some ch \<Longrightarrow> flagged True (writeFlag ch) c l l'"
  "disableReadEvent c l = Some l' \<Longrightarrow> chans l c = Some ch \<Longrightarrow> flagged False (writeFlag ch) c l l'"
  "enableWriteEvent c l = Some l' \<Longrightarrow> chans l c = Some ch \<Longrightarrow> flagged (readFlag ch) True c l l'"
  "disableWriteEvent c l = Some l' \<Longrightarrow> chans l c = Some ch \<Longrightarrow> flagged (readFlag ch) False c l l'"
  by (fastforce simp: enableReadEvent_def disableReadEvent_def enableWriteEvent_def disableWriteEvent_def flagged_def
      split: if_splits dest!: update_rest)+

lemma flagged_trans: "flagged a b c l l1 \<Longrightarrow> flagged a' b' c l1 l2 \<Longrightarrow> flagged a' b' c l l2"
  by (auto simp: flagged_def)

lemma flagged_self: "chans l c = Some ch \<Longrightarrow> flagged (readFlag ch) (writeFlag ch) c l l"
  by (auto simp: flagged_def)

lemma event_flags:
  assumes "chans l c = Some ch" "sock_chan l i = Some c" "sock_exist i l"
  shows "enableEvent i f l = Some (b, l') \<Longrightarrow>
      flagged (readFlag ch \<or> f AND SOCKET_EVENT_READ \<noteq> 0) (writeFlag ch \<or> f AND SOCKET_EVENT_WRITE \<noteq> 0) c l l'"
    and "disableEvent i f l = Some (b, l') \<Longrightarrow>
      flagged (readFlag ch \<and> f AND SOCKET_EVENT_READ = 0) (writeFlag ch \<and> f AND SOCKET_EVENT_WRITE = 0) c l l'"
proof -
  have *: "chans l1 c = Some (ch\<lparr>readFlag := rd, writeFlag := wr\<rparr>)" if "flagged rd wr c l l1" for rd wr l1
    using that assms(1) by (auto simp: flagged_def)
  show "flagged (readFlag ch \<or> f AND SOCKET_EVENT_READ \<noteq> 0) (writeFlag ch \<or> f AND SOCKET_EVENT_WRITE \<noteq> 0) c l l'"
    if "enableEvent i f l = Some (b, l')"
  proof -
    obtain l1 where l1: "(if f AND SOCKET_EVENT_READ \<noteq> 0 then enableReadEvent c l else Some l) = Some l1"
      "(if f AND SOCKET_EVENT_WRITE \<noteq> 0 then enableWriteEvent c l1 else Some l1) = Some l'"
      using \<open>enableEvent i f l = Some (b, l')\<close> assms by (auto simp: enableEvent_def bind_eq_Some_conv)
    have 1: "flagged (readFlag ch \<or> f AND SOCKET_EVENT_READ \<noteq> 0) (writeFlag ch) c l l1"
      using l1(1) flag_events(1) [OF _ assms(1)] flagged_self [OF assms(1)] by (auto split: if_splits)
    show ?thesis
      using l1(2) flag_events(3) [OF _ * [OF 1]] flagged_trans [OF 1] 1 by (auto split: if_splits)
  qed
  show "flagged (readFlag ch \<and> f AND SOCKET_EVENT_READ = 0) (writeFlag ch \<and> f AND SOCKET_EVENT_WRITE = 0) c l l'"
    if "disableEvent i f l = Some (b, l')"
  proof -
    obtain l1 where l1: "(if f AND SOCKET_EVENT_READ \<noteq> 0 then disableReadEvent c l else Some l) = Some l1"
      "(if f AND SOCKET_EVENT_WRITE \<noteq> 0 then disableWriteEvent c l1 else Some l1) = Some l'"
      using \<open>disableEvent i f l = Some (b, l')\<close> assms by (auto simp: disableEvent_def bind_eq_Some_conv)
    have 1: "flagged (readFlag ch \<and> f AND SOCKET_EVENT_READ = 0) (writeFlag ch) c l l1"
      using l1(1) flag_events(2) [OF _ assms(1)] flagged_self [OF assms(1)] by (auto split: if_splits)
    show ?thesis
      using l1(2) flag_events(4) [OF _ * [OF 1]] flagged_trans [OF 1] 1 by (auto split: if_splits)
  qed
qed

lemma own_chan: "sock_refs l \<Longrightarrow> sock_chan l i = Some c \<Longrightarrow> i \<noteq> s \<Longrightarrow> sock_chan l s \<noteq> Some c"
  unfolding sock_refs_def by (metis option.inject)

lemma chan_cases:
  assumes "sock_refs l"
  obtains "sock_chan l i = None" | c where "sock_chan l i = Some c" "\<not> sock_exist i l"
    | c ch where "sock_chan l i = Some c" "sock_exist i l" "chans l c = Some ch"
proof (cases "sock_chan l i")
  case (Some c)
  then obtain ch where "chans l c = Some ch" using assms unfolding sock_refs_def by blast
  then show thesis using that Some by blast
qed (rule that)

lemma flagged_view:
  assumes "sock_refs l" "sock_chan l i = Some c" "flagged rd wr c l l'"
  shows "arm_view s l' = (if i = s then (arm_view s l)\<lparr>ar_read := rd, ar_write := wr\<rparr> else arm_view s l)"
proof (cases "i = s")
  case True
  then show ?thesis using assms by (auto simp: flagged_def arm_view_def sock_exist_def)
next
  case False
  then have "sock_chan l s \<noteq> Some c" using own_chan assms(1,2) by blast
  then show ?thesis using False assms by (auto simp: flagged_def arm_view_def sock_exist_def split: option.splits)
qed

lemma view_some: "sock_chan l i = Some c \<Longrightarrow> chans l c = Some ch \<Longrightarrow>
    arm_view i l = \<lparr>ar_chan = True, ar_fd = sock_exist i l, ar_read = readFlag ch, ar_write = writeFlag ch,
                         ar_rcb = readable_cb ch, ar_wcb = writeable_cb ch\<rparr>"
  by (simp add: arm_view_def)

lemma event_view:
  assumes "sock_refs l"
  shows "enableEvent i f l = Some (b, l') \<Longrightarrow> arm_view s l' = arm_op s (Enable i f) (arm_view s l)"
    and "disableEvent i f l = Some (b, l') \<Longrightarrow> arm_view s l' = arm_op s (Disable i f) (arm_view s l)"
proof -
  show "arm_view s l' = arm_op s (Enable i f) (arm_view s l)" if "enableEvent i f l = Some (b, l')"
    using assms
  proof (cases rule: chan_cases [of l i])
    case (3 c ch)
    then show ?thesis
      using flagged_view [OF assms 3(1) event_flags(1) [OF 3(3,1,2) that], of s]
        view_some [OF 3(1,3)] 3(2) by (cases "i = s") (simp_all add: arm_enable_def)
  qed (use that in \<open>auto simp: enableEvent_def arm_enable_def arm_view_def split: option.splits\<close>)
  show "arm_view s l' = arm_op s (Disable i f) (arm_view s l)" if "disableEvent i f l = Some (b, l')"
    using assms
  proof (cases rule: chan_cases [of l i])
    case (3 c ch)
    then show ?thesis
      using flagged_view [OF assms 3(1) event_flags(2) [OF 3(3,1,2) that], of s]
        view_some [OF 3(1,3)] 3(2) by (cases "i = s") (simp_all add: arm_disable_def)
  qed (use that in \<open>auto simp: disableEvent_def arm_disable_def arm_view_def split: option.splits\<close>)
qed

lemma handle_view:
  assumes "sock_refs l" "setEventHandle i h f l = Some (b, l')"
  shows "arm_view s l' = arm_op s (SetHandle i h f) (arm_view s l)"
proof (cases "sock_chan l i")
  case None
  then show ?thesis using assms(2) by (auto simp: setEventHandle_def arm_handle_def arm_view_def)
next
  case (Some c)
  then obtain ch where ch: "chans l c = Some ch" using assms(1) by (auto simp: sock_refs_def)
  then have l': "l' = l\<lparr>chans := (chans l)(c \<mapsto> set_callbacks h f ch)\<rparr>"
    using assms(2) Some by (simp add: setEventHandle_def)
  show ?thesis
  proof (cases "i = s")
    case True
    then show ?thesis using Some ch l' by (simp add: arm_view_def arm_handle_def set_callbacks_def sock_exist_def)
  next
    case False
    then have "sock_chan l s \<noteq> Some c" using own_chan assms(1) Some by blast
    then show ?thesis using False l' by (auto simp: arm_view_def sock_exist_def split: option.splits)
  qed
qed

lemma remove_view:
  assumes "sock_refs l" "loop_do (RemoveSock i) l = Some l'"
  shows "arm_view s l' = arm_op s (RemoveSock i) (arm_view s l)"
proof (cases "sock_chan l i")
  case None
  then show ?thesis using assms(2) by (auto simp: arm_view_def arm_remove_def)
next
  case (Some c)
  then obtain ch where ch: "chans l c = Some ch" "c_sock ch = i" using assms(1) by (auto simp: sock_refs_def)
  obtain l1 l2 where l12: "disableReadEvent c l = Some l1" "disableWriteEvent c l1 = Some l2"
    using assms(2) Some by (auto simp: Channel_remove_def disableAllEvent_def bind_eq_Some_conv)
  have 1: "flagged False (writeFlag ch) c l l1" using flag_events(2) [OF l12(1) ch(1)] .
  then have "chans l1 c = Some (ch\<lparr>readFlag := False, writeFlag := writeFlag ch\<rparr>)" using ch(1) by (auto simp: flagged_def)
  then have 2: "flagged False False c l l2" using flag_events(4) [OF l12(2)] flagged_trans [OF 1] by fastforce
  then have c2: "chans l2 c = Some (ch\<lparr>readFlag := False, writeFlag := False\<rparr>)" "sock_chan l2 = sock_chan l" "sock_fd l2 = sock_fd l"
    using ch(1) by (auto simp: flagged_def)
  have e: "\<exists>l3. unregisterChannel i l2 = Some (0, l3) \<and> l' = l3\<lparr>sock_chan := (sock_chan l3)(i := None)\<rparr>"
    using assms(2) Some l12 ch(2) c2(1)
    by (auto simp: Channel_remove_def disableAllEvent_def unregisterChannel_def bind_eq_Some_conv split: option.splits)
  then obtain l3 where l3: "unregisterChannel i l2 = Some (0, l3)" "l' = l3\<lparr>sock_chan := (sock_chan l3)(i := None)\<rparr>" by blast
  obtain r l4 where l4: "removeChannel c l2 = Some (r, l4)" "chans l3 = (chans l4)(c \<mapsto> (the (chans l4 c))\<lparr>c_fd := -1\<rparr>)"
    "sock_chan l3 = (sock_chan l4)(i := None)" "sock_fd l3 = sock_fd l4"
    using l3(1) Some c2(2) by (auto simp: unregisterChannel_def bind_eq_Some_conv split: option.splits)
  have l4': "chans l4 = chans l2" "sock_chan l4 = sock_chan l2" "sock_fd l4 = sock_fd l2" using removeChannel_rest [OF l4(1)] by simp_all
  show ?thesis
  proof (cases "i = s")
    case True
    then show ?thesis using Some ch(1) l3(2) l4(3,4) l4' c2 by (simp add: arm_view_def arm_remove_def sock_exist_def)
  next
    case False
    then have n: "sock_chan l s \<noteq> Some c" using own_chan assms(1) Some by blast
    have "chans l2 = (chans l)(c \<mapsto> ch\<lparr>readFlag := False, writeFlag := False\<rparr>)" using 2 ch(1) by (auto simp: flagged_def)
    then show ?thesis
      using False n l3(2) l4(2,3,4) l4' c2(2,3) by (auto simp: arm_view_def sock_exist_def split: option.splits)
  qed
qed

text \<open>
  The view of a socket's channel. Whatever operations of the kind a connection's handler performs are applied
  to an event loop in good order, what is enabled on the socket's channel and which handlers its
  events run afterwards is what the operations make of the view; those on other sockets do not matter.
\<close>

lemma ops_view:
  assumes "loop_ok l" "\<forall>x \<in> set ops. handler_op x"
  shows "\<exists>l'. loop_dos ops l = Some l' \<and> loop_ok l' \<and> arm_view s l' = arm_ops s ops (arm_view s l)"
  using assms
proof (induction ops arbitrary: l)
  case (Cons x ops)
  obtain l1 where l1: "loop_do x l = Some l1" "loop_ok l1"
    using loop_do_step [OF Cons.prems(1), of x] by (auto simp: ok_step_def)
  have r: "sock_refs l" using Cons.prems(1) by (simp add: loop_ok_def)
  have "handler_op x" using Cons.prems(2) by simp
  then have "arm_view s l1 = arm_op s x (arm_view s l)"
  proof (cases x)
    case (Enable i f)
    then show ?thesis using l1(1) event_view(1) [OF r] by auto
  next
    case (Disable i f)
    then show ?thesis using l1(1) event_view(2) [OF r] by auto
  next
    case (SetHandle i h f)
    then show ?thesis using l1(1) handle_view [OF r] by auto
  next
    case (RemoveSock i)
    then show ?thesis using l1(1) remove_view [OF r] by blast
  next
    case (SetFd i fd lst)
    then show ?thesis using l1(1) by (auto simp: arm_view_def sock_exist_def split: option.splits)
  qed simp_all
  then show ?case using Cons.IH [OF l1(2)] Cons.prems(2) l1(1) by auto
qed simp

end
