(* ===== verification/HttpServer.thy ===== *)
theory HttpServer
  imports HttpProps
begin

unbundle bit_operations_syntax

text \<open>
  The connection of the HTTP server between the event loop and the kernel: a state machine
  whose steps are the batches the kernel reports, the handlers the loop calls for them, and
  the timer. The channel is the view of \<open>HttpProps\<close>.
\<close>

section \<open>What the calls keep\<close>

definition calm :: "hconn \<Rightarrow> hconn \<Rightarrow> bool" where
  "calm h h' \<longleftrightarrow> same_sock (hc_sock h) (hc_sock h') \<and> hc_state h' = hc_state h \<and> hc_recycled h' = hc_recycled h \<and> hc_ops h' = hc_ops h"

lemma calm_refl [simp]: "calm h h"
  by (simp add: calm_def)

lemma calm_trans: "calm a b \<Longrightarrow> calm b c \<Longrightarrow> calm a c"
  by (auto simp: calm_def intro: same_sock_trans)

lemma calm_ask: "hc_ask kind h = Some (x, h') \<Longrightarrow> calm h h'"
  by (auto simp: hc_ask_def calm_def split: list.splits)

lemma calm_recv: "hc_recv h = Some (n, h') \<Longrightarrow> calm h h'"
  by (auto simp: hc_recv_def bind_eq_Some_conv dest!: calm_ask recvNIO_same) (auto simp: calm_def intro: same_sock_trans)

lemma calm_send: "hc_send h = Some (n, h') \<Longrightarrow> calm h h'"
  by (auto simp: hc_send_def bind_eq_Some_conv dest!: calm_ask send_buffer_same) (auto simp: calm_def intro: same_sock_trans)

lemma calm_prepareSSL: "hc_prepareSSL h = Some (r, h') \<Longrightarrow> calm h h'"
  by (auto simp: hc_prepareSSL_def bind_eq_Some_conv dest!: calm_ask prepareSSL_same) (auto simp: calm_def intro: same_sock_trans)

lemma calm_parse: "hc_parse n h = Some (r, h') \<Longrightarrow> calm h h'"
  by (auto simp: hc_parse_def bind_eq_Some_conv dest!: calm_ask) (auto simp: calm_def)

lemma calm_attach: "hc_attach h = Some h' \<Longrightarrow> calm h h'"
  by (auto simp: hc_attach_def bind_eq_Some_conv dest!: calm_ask) (auto simp: calm_def)

lemma calm_refused: "get_refused h = Some h' \<Longrightarrow> calm h h'"
  by (auto simp: get_refused_def bind_eq_Some_conv dest!: calm_ask) (auto simp: calm_def)

lemma calm_served: "get_served E g path h = Some h' \<Longrightarrow> calm h h'"
  by (auto simp: get_served_def Let_def bind_eq_Some_conv calm_def)

lemma calm_doGet: "doGet E h = Some h' \<Longrightarrow> calm h h'"
  by (auto simp: doGet_def Let_def bind_eq_Some_conv split: if_splits dest!: calm_ask calm_refused calm_served)
    (auto simp: calm_def intro: same_sock_trans)

lemma emit_simps [simp]:
  "hc_state (hc_emit xs h) = hc_state h" "hc_recycled (hc_emit xs h) = hc_recycled h" "hc_sock (hc_emit xs h) = hc_sock h"
  "hc_ops (hc_emit xs h) = hc_ops h @ xs" "hc_heap (hc_emit xs h) = hc_heap h"
  by (simp_all add: hc_emit_def)

lemmas op_defs = hc_enable_def hc_disable_def hc_handle_def hc_quiet_def

lemma state_to_simps [simp]:
  "hc_state (hc_state_to s h) = s" "hc_recycled (hc_state_to s h) = hc_recycled h" "hc_sock (hc_state_to s h) = hc_sock h"
  "hc_ops (hc_state_to s h) = hc_ops h" "hc_heap (hc_state_to s h) = hc_heap h"
  by (simp_all add: hc_state_to_def)

lemma reset_simps [simp]:
  "hc_state (resetResources h) = RECV_REQUEST" "hc_recycled (resetResources h) = hc_recycled h" "hc_sock (resetResources h) = hc_sock h"
  "hc_ops (resetResources h) = hc_ops h" "hc_heap (resetResources h) = hc_heap h"
  by (simp_all add: resetResources_def Let_def split: prod.splits)

lemma recycle_simps [simp]:
  "hc_state (hc_recycle h) = TCP_INIT" "hc_recycled (hc_recycle h) = Suc (hc_recycled h)"
  "s_id (hc_sock (hc_recycle h)) = s_id (hc_sock h)" "s_chan (hc_sock (hc_recycle h)) = None" "s_fd (hc_sock (hc_recycle h)) = -1"
  "hc_ops (hc_recycle h) = hc_ops h" "s_ctx (hc_sock (hc_recycle h)) = s_ctx (hc_sock h)" "hc_heap (hc_recycle h) = hc_heap h"
  by (simp_all add: hc_recycle_def Let_def Socket_reset_def new_Socket_def)

lemma wanted_cases: "hc_wanted h \<in> {SOCKET_EVENT_NONE, SOCKET_EVENT_READ, SOCKET_EVENT_WRITE}"
  by (simp add: hc_wanted_def wanted_event_def)

section \<open>Closing\<close>

text \<open>The channel operations of a close that waits for an event, and of one that is done.\<close>

definition waits_on :: "nat \<Rightarrow> evf \<Rightarrow> nat \<Rightarrow> loop_op list" where
  "waits_on i ev f = [Disable i SOCKET_EVENT_READ, Disable i SOCKET_EVENT_WRITE, SetHandle i (Some f) ev, Enable i ev]"

definition shuts :: "Socket \<Rightarrow> loop_op list \<Rightarrow> bool" where
  "shuts m ops \<longleftrightarrow>
     (\<exists>fd lst. ops = (if s_chan m \<noteq> None then [RemoveSock (s_id m)] else []) @ [SetFd (s_id m) fd lst])"

definition closes :: "hconn \<Rightarrow> int \<times> hconn \<Rightarrow> bool" where
  "closes h x \<longleftrightarrow>
     (case x of (r, h') \<Rightarrow> s_id (hc_sock h') = s_id (hc_sock h) \<and>
        ((r = EVENT_CALLBACK_CONTINUE \<and> calm (h\<lparr>hc_ops := []\<rparr>) (h'\<lparr>hc_ops := []\<rparr>) \<and> isSSL (hc_sock h) (hc_heap h) \<and>
           (\<exists>ev \<in> {SOCKET_EVENT_NONE, SOCKET_EVENT_READ, SOCKET_EVENT_WRITE}. hc_ops h' = hc_ops h @ waits_on (s_id (hc_sock h)) ev H_CLOSE)) \<or>
         (r = EVENT_CALLBACK_BREAK \<and> hc_state h' = TCP_INIT \<and> hc_recycled h' = Suc (hc_recycled h) \<and>
           s_chan (hc_sock h') = None \<and> (\<exists>ops. shuts (hc_sock h) ops \<and> hc_ops h' = hc_ops h @ ops))))"

lemma reset_inactive: "ctx_reset c h = Some (c', h') \<Longrightarrow> \<not> ctx_active c' h'"
  by (auto simp: ctx_reset_def ctx_active_def validSSL_def bind_eq_Some_conv)

lemma tcpClose_done:
  "tcpClose sd m k h = Some (r, m', k', h', ops) \<Longrightarrow>
   r = 0 \<and> s_id m' = s_id m \<and> s_chan m' = None \<and> \<not> isSSL m' h' \<and> shuts m ops"
  by (auto simp: tcpClose_def SocketUtil_Close_def bind_eq_Some_conv Let_def isSSL_def destory_def shuts_def
      dest!: reset_inactive split: if_splits)

lemma ctx_close_recall: "ctx_close sd sd' c h = Some (SCTX_IO_RECALL, c', h') \<Longrightarrow> ctx_active c h \<and> ctx_active c' h'"
  by (auto simp: ctx_close_def Let_def bind_eq_Some_conv ctx_active_def split: if_splits)

lemma shuts_ctx: "shuts (m\<lparr>s_ctx := c\<rparr>) ops = shuts m ops"
  by (simp add: shuts_def)

lemma close_cases:
  assumes "Socket_close sd sd' m k h = Some (r, m', k', h', ops)"
  shows "(r = -1 \<and> isSSL m h \<and> isSSL m' h' \<and> same_sock m m' \<and> ops = []) \<or>
   (r = 0 \<and> s_id m' = s_id m \<and> s_chan m' = None \<and> \<not> isSSL m' h' \<and> shuts m ops)"
proof (cases "isSSL m h")
  case False
  then have "tcpClose sd' m k h = Some (r, m', k', h', ops)" using assms by (simp add: Socket_close_def)
  from tcpClose_done [OF this] show ?thesis by simp
next
  case True
  obtain r1 c1 h1 where c: "ctx_close sd sd' (s_ctx m) h = Some (r1, c1, h1)"
    using assms True by (auto simp: Socket_close_def split: option.splits)
  show ?thesis
  proof (cases "r1 = SCTX_IO_RECALL")
    case r: True
    then show ?thesis
      using assms True c ctx_close_recall [of sd sd' "s_ctx m" h c1 h1] by (auto simp: Socket_close_def isSSL_def same_sock_def)
  next
    case False
    then have "tcpClose sd' (m\<lparr>s_ctx := c1\<rparr>) k h1 = Some (r, m', k', h', ops)" using assms True c by (simp add: Socket_close_def)
    from tcpClose_done [OF this] show ?thesis by (simp add: shuts_ctx)
  qed
qed

lemma closeHandle_closes:
  assumes "hc_closeHandle h = Some x"
  shows "closes h x"
proof -
  obtain ret h1 where c: "hc_close h = Some (ret, h1)" using assms by (auto simp: hc_closeHandle_def bind_eq_Some_conv)
  obtain s1 s2 h0 m k hp ops where a: "hc_ask ans_close h = Some ((s1, s2), h0)"
    "Socket_close s1 s2 (hc_sock h0) (hc_kern h0) (hc_heap h0) = Some (ret, m, k, hp, ops)"
    "h1 = hc_emit ops (h0\<lparr>hc_sock := m, hc_kern := k, hc_heap := hp\<rparr>)"
    using c by (auto simp: hc_close_def bind_eq_Some_conv)
  have h0: "calm h h0" "hc_sock h0 = hc_sock h" "hc_heap h0 = hc_heap h"
    using calm_ask [OF a(1)] a(1) by (auto simp: hc_ask_def split: list.splits)
  show ?thesis
    using close_cases [OF a(2)]
  proof
    assume *: "ret = -1 \<and> isSSL (hc_sock h0) (hc_heap h0) \<and> isSSL m hp \<and> same_sock (hc_sock h0) m \<and> ops = []"
    then show ?thesis
      using assms c a(3) h0 wanted_cases [of "hc_quiet h1"]
      by (auto simp: hc_closeHandle_def closes_def op_defs Let_def calm_def waits_on_def same_sock_def)
  next
    assume *: "ret = 0 \<and> s_id m = s_id (hc_sock h0) \<and> s_chan m = None \<and> \<not> isSSL m hp \<and> shuts (hc_sock h0) ops"
    then show ?thesis
      using assms c a(3) h0 by (auto simp: hc_closeHandle_def closes_def calm_def)
  qed
qed

section \<open>The machine\<close>

datatype hook = Hup nat | In | Out

fun hook_cb :: "armed \<Rightarrow> hook \<Rightarrow> nat option" where
  "hook_cb a (Hup f) = Some f"
| "hook_cb a In = ar_rcb a"
| "hook_cb a Out = ar_wcb a"

text \<open>The handlers due for an event, in the order of the loop; the ones for the end of
  the connection and for errors never change.\<close>

definition hc_due :: "evf \<Rightarrow> hook list" where
  "hc_due ev =
     (if ev AND EPOLLRDHUP \<noteq> 0 then [Hup H_RDHUP] else []) @ (if ev AND EPOLLHUP \<noteq> 0 then [Hup H_ERROR] else []) @
     (if ev AND EPOLLERR \<noteq> 0 then [Hup H_ERROR] else []) @ (if ev AND EPOLLIN \<noteq> 0 then [In] else []) @
     (if ev AND EPOLLOUT \<noteq> 0 then [Out] else [])"

definition reports :: "evf \<Rightarrow> armed \<Rightarrow> bool" where
  "reports ev a \<longleftrightarrow> (ev AND EPOLLIN \<noteq> 0 \<longrightarrow> ar_read a) \<and> (ev AND EPOLLOUT \<noteq> 0 \<longrightarrow> ar_write a)"

definition hc_call :: "nat \<Rightarrow> hc_env \<Rightarrow> nat \<Rightarrow> hconn \<Rightarrow> (int \<times> hconn) option" where
  "hc_call n E f h =
     (if f = H_READ then hc_readHandle n E h else if f = H_WRITE then hc_writeHandle h
      else if f = H_ERROR then hc_errorHandle h else if f = H_RDHUP then hc_rdhupHandle h
      else if f = H_TIMEOUT then hc_timeoutHandle h else if f = H_CLOSE then hc_closeHandle h else None)"

record conf =
  cf_arm :: armed
  cf_conn :: hconn
  cf_due :: "hook list"
  cf_timed :: bool

definition before_call :: "answer list \<Rightarrow> hconn \<Rightarrow> hconn" where
  "before_call as h = h\<lparr>hc_ops := [], hc_script := as\<rparr>"

definition after_call :: "armed \<Rightarrow> hconn \<Rightarrow> armed" where
  "after_call a h = arm_ops (s_id (hc_sock h)) (hc_ops h) a"

inductive server_step :: "hc_env \<Rightarrow> conf \<Rightarrow> conf \<Rightarrow> bool" for E where
  poll: "cf_due s = [] \<Longrightarrow> reports ev (cf_arm s) \<Longrightarrow> server_step E s (s\<lparr>cf_due := hc_due ev\<rparr>)"
| skip: "cf_due s = x # rest \<Longrightarrow> hook_cb (cf_arm s) x = None \<or> \<not> ar_chan (cf_arm s) \<Longrightarrow> server_step E s (s\<lparr>cf_due := rest\<rparr>)"
| call: "cf_due s = x # rest \<Longrightarrow> ar_chan (cf_arm s) \<Longrightarrow> hook_cb (cf_arm s) x = Some f \<Longrightarrow>
         hc_call n E f (before_call as (cf_conn s)) = Some (r, h) \<Longrightarrow>
         server_step E s (s\<lparr>cf_arm := after_call (cf_arm s) h, cf_conn := h,
                            cf_due := if r = EVENT_CALLBACK_BREAK \<or> r = EVENT_CALLBACK_DROPWAITED then [] else rest\<rparr>)"
| time: "cf_due s = [] \<Longrightarrow> ar_chan (cf_arm s) \<Longrightarrow> hc_call n E H_TIMEOUT (before_call as (cf_conn s)) = Some (r, h) \<Longrightarrow>
         server_step E s (s\<lparr>cf_arm := after_call (cf_arm s) h, cf_conn := h, cf_timed := True\<rparr>)"

text \<open>A connection the acceptor has just filled with a client.\<close>

definition accepted :: "conf \<Rightarrow> bool" where
  "accepted s \<longleftrightarrow>
     cf_due s = [] \<and> \<not> cf_timed s \<and> hc_state (cf_conn s) = TCP_INIT \<and> s_chan (hc_sock (cf_conn s)) \<noteq> None \<and>
     cf_arm s = \<lparr>ar_chan = True, ar_fd = True, ar_read = True, ar_write = False, ar_rcb = Some H_READ, ar_wcb = None\<rparr>"

inductive server_reach :: "hc_env \<Rightarrow> conf \<Rightarrow> conf \<Rightarrow> bool" for E where
  start: "server_reach E s s"
| more: "server_reach E s t \<Longrightarrow> server_step E t u \<Longrightarrow> server_reach E s u"

section \<open>The invariant\<close>

definition sending :: "hconn \<Rightarrow> bool" where
  "sending h \<longleftrightarrow> hc_state h \<in> {SEND_RESPONSE, SEND_RESPONSE_DONE}"

definition hc_at_rest :: "hconn \<Rightarrow> bool" where
  "hc_at_rest h \<longleftrightarrow> hc_state h \<in> {TCP_INIT, HTTPS_HANDSHAKE, RECV_REQUEST, SEND_RESPONSE, SEND_RESPONSE_DONE}"

definition reading :: "hconn \<Rightarrow> bool" where
  "reading h \<longleftrightarrow> hc_state h \<in> {TCP_INIT, HTTPS_HANDSHAKE, HTTPS_HANDSHAKE_DONE, RECV_REQUEST, RECV_REQUEST_DONE}"

definition link :: "armed \<Rightarrow> hconn \<Rightarrow> bool" where
  "link a h \<longleftrightarrow>
     (ar_chan a \<longrightarrow> ar_fd a) \<and> (\<not> ar_chan a \<longrightarrow> \<not> ar_read a \<and> \<not> ar_write a) \<and> \<not> (ar_read a \<and> ar_write a) \<and>
     (s_chan (hc_sock h) = None \<longrightarrow> \<not> ar_chan a) \<and> ar_rcb a \<noteq> Some H_TIMEOUT \<and> ar_wcb a \<noteq> Some H_TIMEOUT"

definition no_read :: "armed \<Rightarrow> bool" where
  "no_read a \<longleftrightarrow> (ar_read a \<longrightarrow> ar_rcb a \<noteq> Some H_READ) \<and> (ar_write a \<longrightarrow> ar_wcb a \<noteq> Some H_READ)"

definition settled :: "armed \<Rightarrow> hconn \<Rightarrow> bool" where
  "settled a h \<longleftrightarrow> link (after_call a h) h \<and> hc_at_rest h \<and> (sending h \<longrightarrow> no_read (after_call a h))"

definition no_shake :: "hconn \<Rightarrow> bool" where
  "no_shake h \<longleftrightarrow> hc_state h \<notin> {HTTPS_HANDSHAKE, HTTPS_HANDSHAKE_DONE}"

text \<open>A call either leaves the connection with its client, or gives it back once and takes its channel away.\<close>

definition ended :: "armed \<Rightarrow> hconn \<Rightarrow> hconn \<Rightarrow> bool" where
  "ended a h h' \<longleftrightarrow>
     ((hc_recycled h' = hc_recycled h \<and> ar_chan (after_call a h') = ar_chan (after_call a h)) \<or>
      (hc_recycled h' = Suc (hc_recycled h) \<and> \<not> ar_chan (after_call a h'))) \<and>
     (no_shake h \<longrightarrow> no_shake h')"

lemmas ended_defs = ended_def no_shake_def

definition settles :: "armed \<Rightarrow> hconn \<Rightarrow> hconn \<Rightarrow> bool" where
  "settles a h h' \<longleftrightarrow> settled a h' \<and> ended a h h'"

definition under_way :: "armed \<Rightarrow> hconn \<Rightarrow> bool" where
  "under_way a h \<longleftrightarrow> link (after_call a h) h \<and> reading h"

lemma after_ops:
  "s_id (hc_sock h') = s_id (hc_sock h) \<Longrightarrow> hc_ops h' = hc_ops h @ xs \<Longrightarrow>
   after_call a h' = arm_ops (s_id (hc_sock h)) xs (after_call a h)"
  by (simp add: after_call_def)

lemma arm_chan [simp]: "ar_chan (arm_enable f a) = ar_chan a" "ar_chan (arm_disable f a) = ar_chan a" "ar_chan (arm_handle x f a) = ar_chan a"
  by (simp_all add: arm_enable_def arm_disable_def arm_handle_def)

lemma calm_link: "calm h h' \<Longrightarrow> after_call a h' = after_call a h \<and> link b h' = link b h \<and> sending h' = sending h \<and> hc_at_rest h' = hc_at_rest h
    \<and> reading h' = reading h \<and> settled a h' = settled a h \<and> under_way a h' = under_way a h"
  by (simp add: calm_def same_sock_def after_call_def link_def sending_def hc_at_rest_def reading_def settled_def under_way_def)

lemma arm_waits:
  "arm_ops i (waits_on i ev f) a =
     (if ar_chan a then
        (if ar_fd a then a\<lparr>ar_read := ev AND SOCKET_EVENT_READ \<noteq> 0, ar_write := ev AND SOCKET_EVENT_WRITE \<noteq> 0,
             ar_rcb := if ev AND SOCKET_EVENT_READ \<noteq> 0 then Some f else ar_rcb a,
             ar_wcb := if ev AND SOCKET_EVENT_WRITE \<noteq> 0 then Some f else ar_wcb a\<rparr>
         else a\<lparr>ar_rcb := if ev AND SOCKET_EVENT_READ \<noteq> 0 then Some f else ar_rcb a,
             ar_wcb := if ev AND SOCKET_EVENT_WRITE \<noteq> 0 then Some f else ar_wcb a\<rparr>)
      else a)"
  by (simp add: waits_on_def arm_enable_def arm_disable_def arm_handle_def)

lemma arm_shuts:
  assumes "shuts m ops" "s_chan m = None \<longrightarrow> \<not> ar_chan a" "\<not> ar_chan a \<longrightarrow> \<not> ar_read a \<and> \<not> ar_write a"
    "ar_rcb a \<noteq> Some H_TIMEOUT" "ar_wcb a \<noteq> Some H_TIMEOUT"
  shows "\<not> ar_chan (arm_ops (s_id m) ops a) \<and> \<not> ar_read (arm_ops (s_id m) ops a) \<and> \<not> ar_write (arm_ops (s_id m) ops a) \<and>
    ar_rcb (arm_ops (s_id m) ops a) \<noteq> Some H_TIMEOUT \<and> ar_wcb (arm_ops (s_id m) ops a) \<noteq> Some H_TIMEOUT"
  using assms by (auto simp: shuts_def arm_remove_def split: if_splits)

lemma closes_settled:
  assumes "closes h (r, h')" "link (after_call a h) h" "hc_at_rest h"
  shows "settles a h h'"
proof -
  have i: "s_id (hc_sock h') = s_id (hc_sock h)" using assms(1) by (simp add: closes_def)
  consider (wait) ev where "r = EVENT_CALLBACK_CONTINUE" "calm (h\<lparr>hc_ops := []\<rparr>) (h'\<lparr>hc_ops := []\<rparr>)"
      "ev \<in> {SOCKET_EVENT_NONE, SOCKET_EVENT_READ, SOCKET_EVENT_WRITE}" "hc_ops h' = hc_ops h @ waits_on (s_id (hc_sock h)) ev H_CLOSE"
    | (shut) ops where "r = EVENT_CALLBACK_BREAK" "hc_state h' = TCP_INIT" "s_chan (hc_sock h') = None" "shuts (hc_sock h) ops"
      "hc_ops h' = hc_ops h @ ops" "hc_recycled h' = Suc (hc_recycled h)"
    using assms(1) by (auto simp: closes_def)
  then show ?thesis
  proof cases
    case wait
    have "hc_state h' = hc_state h" "s_chan (hc_sock h') = s_chan (hc_sock h)" "hc_recycled h' = hc_recycled h"
      using wait(2) by (simp_all add: calm_def same_sock_def)
    then show ?thesis
      using wait(1,3) after_ops [OF i wait(4), of a] assms(2,3)
      by (auto simp: settles_def ended_defs settled_def link_def hc_at_rest_def arm_waits no_read_def)
  next
    case shut
    then show ?thesis
      using arm_shuts [OF shut(4), of "after_call a h"] after_ops [OF i shut(5), of a] assms(2)
      by (auto simp: settles_def ended_defs settled_def link_def hc_at_rest_def sending_def)
  qed
qed

text \<open>What a handler does last to the channel, after any calls of a socket.\<close>

lemma calm_rules:
  "calm h h1 \<Longrightarrow> link (after_call a h) h \<Longrightarrow> link (after_call a h1) h1"
  "calm h h1 \<Longrightarrow> under_way a h \<Longrightarrow> under_way a h1" "calm h h1 \<Longrightarrow> settled a h \<Longrightarrow> settled a h1"
  using calm_link by metis+

lemma emit_after: "after_call a (hc_emit xs h) = arm_ops (s_id (hc_sock h)) xs (after_call a h)"
  by (simp add: after_call_def)

lemma state_after [simp]: "after_call a (hc_state_to s h) = after_call a h" "after_call a (resetResources h) = after_call a h"
  "link b (hc_state_to s h) = link b h" "link b (resetResources h) = link b h"
  by (simp_all add: after_call_def link_def)

lemma link_emit [simp]: "link b (hc_emit xs h) = link b h"
  by (simp add: link_def)

lemma reading_emit: "reading (hc_emit xs h) = reading h" "hc_at_rest (hc_emit xs h) = hc_at_rest h" "sending (hc_emit xs h) = sending h"
  by (simp_all add: reading_def hc_at_rest_def sending_def)

definition turned :: "nat \<Rightarrow> armed \<Rightarrow> hconn \<Rightarrow> bool" where
  "turned f b h \<longleftrightarrow> link b h \<and> (f \<noteq> H_READ \<longrightarrow> no_read b)"

lemma wait_link:
  assumes "link b h" "ev \<in> {SOCKET_EVENT_NONE, SOCKET_EVENT_READ, SOCKET_EVENT_WRITE}" "f \<noteq> H_TIMEOUT"
  shows "turned f (arm_ops i (waits_on i ev f) b) h"
proof -
  consider "ev = SOCKET_EVENT_NONE" | "ev = SOCKET_EVENT_READ" | "ev = SOCKET_EVENT_WRITE" using assms(2) by blast
  then show ?thesis using assms(1,3) by cases (simp_all add: turned_def link_def arm_waits no_read_def)
qed

text \<open>The ways a handler turns to one event.\<close>

lemma turns:
  assumes "link b h" "f \<noteq> H_TIMEOUT"
  shows "turned f (arm_enable SOCKET_EVENT_READ (arm_handle (Some f) SOCKET_EVENT_READ (arm_disable SOCKET_EVENT_WRITE b))) h"
    and "turned f (arm_enable SOCKET_EVENT_READ (arm_disable SOCKET_EVENT_WRITE (arm_handle (Some f) SOCKET_EVENT_READ b))) h"
    and "turned f (arm_enable SOCKET_EVENT_WRITE (arm_handle (Some f) SOCKET_EVENT_WRITE (arm_disable SOCKET_EVENT_READ b))) h"
    and "turned f (arm_enable SOCKET_EVENT_WRITE (arm_disable SOCKET_EVENT_READ (arm_handle (Some f) SOCKET_EVENT_WRITE b))) h"
  using assms by (simp_all add: turned_def link_def no_read_def arm_enable_def arm_disable_def arm_handle_def)

lemma wanted_link:
  assumes "link b h" "ev \<in> {SOCKET_EVENT_NONE, SOCKET_EVENT_READ, SOCKET_EVENT_WRITE}"
  shows "link (arm_enable ev (arm_disable SOCKET_EVENT_READ (arm_handle (Some H_READ) ev
    (arm_disable SOCKET_EVENT_WRITE (arm_disable SOCKET_EVENT_READ b))))) h"
proof -
  consider "ev = SOCKET_EVENT_NONE" | "ev = SOCKET_EVENT_READ" | "ev = SOCKET_EVENT_WRITE" using assms(2) by blast
  then show ?thesis using assms(1) by cases (simp_all add: link_def arm_enable_def arm_disable_def arm_handle_def)
qed

lemma closeHandle_settled:
  assumes "hc_closeHandle h = Some (r, h')" "link (after_call a h) h" "hc_at_rest h"
  shows "settles a h h'"
  using closes_settled [OF closeHandle_closes [OF assms(1)] assms(2,3)] .

lemma settles_from: "calm g h \<Longrightarrow> settles a h h' = settles a g h'"
  by (simp add: settles_def ended_defs calm_def after_call_def same_sock_def)

lemma calm_keeps: "calm g h \<Longrightarrow> hc_recycled h = hc_recycled g \<and> after_call a h = after_call a g \<and> no_shake h = no_shake g"
  by (simp add: no_shake_def calm_def after_call_def same_sock_def)

lemma quiet_rest: "hc_at_rest (hc_quiet h) = hc_at_rest h"
  by (simp add: op_defs reading_emit)

lemma settles_settled: "settles a h h' \<Longrightarrow> settled a h'"
  by (simp add: settles_def)

lemma settles_quiet: "settles a (hc_quiet h) h' = settles a h h'"
  by (simp add: settles_def ended_defs op_defs emit_after)

lemma settles_state: "settles a (hc_state_to SEND_RESPONSE_DONE h) h' \<Longrightarrow> settles a h h'"
  by (simp add: settles_def ended_defs)

lemma recv_failed_settled:
  assumes "recv_failed h = Some (r, h')" "link (after_call a h) h" "hc_state h = RECV_REQUEST"
  shows "settles a h h'"
proof -
  let ?i = "s_id (hc_sock h)"
  have rest: "hc_at_rest h" "\<not> sending h" using assms(3) by (simp_all add: hc_at_rest_def sending_def)
  show ?thesis
  proof (cases "isSSL (hc_sock h) (hc_heap h)")
    case False
    then have "hc_closeHandle h = Some (r, h')" using assms(1) by (simp add: recv_failed_def)
    then show ?thesis using closeHandle_settled assms(2) rest by blast
  next
    case True
    let ?h = "hc_quiet h"
    have l: "link (after_call a ?h) ?h"
      using assms(2) by (auto simp: op_defs emit_after link_def arm_disable_def)
    show ?thesis
    proof (cases "hc_wanted ?h = SOCKET_EVENT_NONE")
      case none: True
      then have "hc_closeHandle ?h = Some (r, h')" using assms(1) True by (simp add: recv_failed_def Let_def)
      then show ?thesis using closeHandle_settled [OF _ l] rest quiet_rest settles_quiet by blast
    next
      case False
      then have "h' = hc_enable (hc_wanted ?h) (hc_disable SOCKET_EVENT_READ (hc_handle H_READ (hc_wanted ?h) ?h))"
        using assms(1) True by (simp add: recv_failed_def Let_def)
      then show ?thesis
        using wanted_link [OF assms(2) wanted_cases [of ?h]] rest
        by (simp add: settles_def ended_defs settled_def op_defs emit_after reading_emit)
    qed
  qed
qed

lemma send_failed_settled:
  assumes "send_failed h = Some (r, h')" "link (after_call a h) h" "hc_at_rest h"
  shows "settles a h h'"
proof (cases "isSSL (hc_sock h) (hc_heap h)")
  case False
  then have "hc_closeHandle h = Some (r, h')" using assms(1) by (simp add: send_failed_def)
  then show ?thesis using closeHandle_settled assms(2,3) by blast
next
  case True
  let ?h = "hc_quiet h"
  have l: "link (after_call a ?h) ?h"
    using assms(2) by (auto simp: op_defs emit_after link_def arm_disable_def)
  show ?thesis
  proof (cases "hc_wanted ?h = SOCKET_EVENT_NONE")
    case none: True
    then have "hc_closeHandle ?h = Some (r, h')" using assms(1) True by (simp add: send_failed_def Let_def)
    then show ?thesis using closeHandle_settled [OF _ l] assms(3) quiet_rest settles_quiet by blast
  next
    case False
    then have "h' = hc_enable (hc_wanted ?h) (hc_handle H_WRITE (hc_wanted ?h) ?h)"
      using assms(1) True by (simp add: send_failed_def Let_def)
    then have h': "h' = hc_emit (waits_on (s_id (hc_sock h)) (hc_wanted ?h) H_WRITE) h"
      by (simp add: op_defs hc_emit_def waits_on_def)
    then show ?thesis
      using wait_link [OF assms(2) wanted_cases [of ?h], where f = H_WRITE and i = "s_id (hc_sock h)"] assms(3)
      by (simp add: turned_def settles_def ended_defs settled_def emit_after reading_emit arm_waits)
  qed
qed

lemma writeHandle_settled:
  assumes "hc_writeHandle h = Some (r, h')" "settled a h"
  shows "settles a h h'"
proof -
  obtain ret h1 where s: "hc_send h = Some (ret, h1)" using assms(1) by (auto simp: hc_writeHandle_def bind_eq_Some_conv)
  note c = settles_from [OF calm_send [OF s], of a h', symmetric]
  have h1: "settled a h1" using calm_rules(3) [OF calm_send [OF s] assms(2)] .
  then have l1: "link (after_call a h1) h1" "hc_at_rest h1" by (simp_all add: settled_def)
  let ?h = "hc_state_to SEND_RESPONSE_DONE h1"
  consider "send_failed h1 = Some (r, h')" | "h' = h1"
    | "h' = hc_enable SOCKET_EVENT_READ (hc_handle H_READ SOCKET_EVENT_READ (hc_disable SOCKET_EVENT_WRITE (resetResources ?h)))"
    | "hc_closeHandle ?h = Some (r, h')"
    using assms(1) s by (auto simp: hc_writeHandle_def Let_def split: if_splits)
  then show ?thesis
  proof cases
    case 1
    then show ?thesis using send_failed_settled l1 c by blast
  next
    case 2
    then show ?thesis using h1 c by (simp add: settles_def ended_defs)
  next
    case 3
    then have h': "h' = hc_emit [Disable (s_id (hc_sock h1)) SOCKET_EVENT_WRITE, SetHandle (s_id (hc_sock h1)) (Some H_READ) SOCKET_EVENT_READ,
        Enable (s_id (hc_sock h1)) SOCKET_EVENT_READ] (resetResources ?h)"
      by (simp add: op_defs hc_emit_def)
    show ?thesis
      using turns(1) [OF l1(1), of H_READ] h' c
      by (simp add: turned_def settles_def ended_defs settled_def emit_after reading_emit hc_at_rest_def sending_def)
  next
    case 4
    have "hc_at_rest ?h" by (simp add: hc_at_rest_def)
    then show ?thesis using settles_state closeHandle_settled [OF 4] l1 c by simp
  qed
qed

section \<open>One round of reading\<close>

fun hc_rank :: "HttpState \<Rightarrow> nat" where
  "hc_rank TCP_INIT = 5" | "hc_rank HTTPS_HANDSHAKE = 4" | "hc_rank HTTPS_HANDSHAKE_DONE = 3" | "hc_rank RECV_REQUEST = 2"
| "hc_rank RECV_REQUEST_DONE = 1" | "hc_rank _ = 0"

fun well_after :: "armed \<Rightarrow> hconn \<Rightarrow> flow \<times> hconn \<Rightarrow> bool" where
  "well_after a h (Ret r, h') \<longleftrightarrow> settled a h' \<and> (hc_state h \<noteq> HTTPS_HANDSHAKE \<longrightarrow> ended a h h')"
| "well_after a h (Again, h') \<longleftrightarrow> under_way a h' \<and> hc_rank (hc_state h') < hc_rank (hc_state h) \<and>
     (hc_state h \<noteq> HTTPS_HANDSHAKE \<longrightarrow> hc_recycled h' = hc_recycled h \<and> ar_chan (after_call a h') = ar_chan (after_call a h)) \<and>
     (hc_state h \<noteq> TCP_INIT \<longrightarrow> no_shake h \<longrightarrow> no_shake h')"

lemma well_ret: "settles a h h' \<Longrightarrow> well_after a h (Ret r, h')"
  by (simp add: settles_def)

lemma under_way_to: "link (after_call a h) h \<Longrightarrow> reading (hc_state_to s h) \<Longrightarrow> under_way a (hc_state_to s h)"
  by (simp add: under_way_def)

lemma receive_after:
  assumes "hc_receive h = Some x" "under_way a h" "hc_state h = RECV_REQUEST"
  shows "well_after a h x"
proof -
  obtain recvn h1 where r: "hc_recv h = Some (recvn, h1)" using assms(1) by (auto simp: hc_receive_def bind_eq_Some_conv)
  have c1: "calm h h1" using calm_recv [OF r] .
  have l1: "link (after_call a h1) h1" "hc_state h1 = RECV_REQUEST"
    using calm_rules(1) [OF c1] assms(2,3) c1 by (auto simp: under_way_def calm_def)
  consider (failed) "hc_ret (recv_failed h1) = Some x" | (eof) "hc_ret (hc_closeHandle h1) = Some x"
    | (none) "x = (Ret EVENT_CALLBACK_CONTINUE, hc_enable SOCKET_EVENT_READ (hc_disable SOCKET_EVENT_WRITE (hc_handle H_READ SOCKET_EVENT_READ h1)))"
    | (data) parsedn h2 where "hc_parse recvn h1 = Some (parsedn, h2)"
        "(if parsedn \<noteq> recvn then hc_ret (hc_bad_request h2)
          else if needMoreData (hc_request h2) then Some (Ret EVENT_CALLBACK_CONTINUE, h2)
          else Some (Again, hc_state_to RECV_REQUEST_DONE h2)) = Some x"
  proof -
    consider "TIGERSO_IO_ERROR = recvn" | "TIGERSO_IO_ERROR \<noteq> recvn" "recvn = 0" | "TIGERSO_IO_ERROR \<noteq> recvn" "recvn \<noteq> 0" by blast
    then show thesis
    proof cases
      case 1
      then show ?thesis using assms(1) r by (intro failed) (simp add: hc_receive_def)
    next
      case 2
      then show ?thesis using assms(1) r by (cases "needMoreData (hc_request h1)") (rule none eof; simp add: hc_receive_def)+
    next
      case 3
      then show ?thesis using assms(1) r data by (cases "hc_parse recvn h1") (auto simp: hc_receive_def simp del: ex_simps)
    qed
  qed
  then show ?thesis
  proof cases
    case failed
    then obtain r h' where "recv_failed h1 = Some (r, h')" "x = (Ret r, h')" by (auto simp: hc_ret_def)
    then show ?thesis using recv_failed_settled [OF _ l1] settles_from [OF c1] well_ret by blast
  next
    case eof
    have "hc_at_rest h1" using l1(2) by (simp add: hc_at_rest_def)
    obtain r h' where "hc_closeHandle h1 = Some (r, h')" "x = (Ret r, h')" using eof by (auto simp: hc_ret_def)
    then show ?thesis using closeHandle_settled [OF _ l1(1) \<open>hc_at_rest h1\<close>] settles_from [OF c1] well_ret by blast
  next
    case none
    then show ?thesis
      using turns(2) [OF l1(1), of H_READ] l1(2) calm_keeps [OF c1, of a]
      by (simp add: turned_def ended_defs settles_def settled_def op_defs emit_after reading_emit hc_at_rest_def sending_def)
  next
    case data
    have c2: "calm h1 h2" using calm_parse [OF data(1)] .
    have c12: "calm h h2" using calm_trans [OF c1 c2] .
    have l2: "link (after_call a h2) h2" "hc_state h2 = RECV_REQUEST"
      using calm_rules(1) [OF c2 l1(1)] l1(2) c2 by (auto simp: calm_def)
    consider "hc_ret (hc_bad_request h2) = Some x" | "x = (Ret EVENT_CALLBACK_CONTINUE, h2)" | "x = (Again, hc_state_to RECV_REQUEST_DONE h2)"
      using data(2) by (cases "parsedn \<noteq> recvn"; cases "needMoreData (hc_request h2)") simp_all
    then show ?thesis
    proof cases
      case 1
      then obtain y where y: "hc_bad_request h2 = Some y" "x = (Ret (fst y), snd y)" by (auto simp: hc_ret_def)
      obtain fuel outss res g h' where p1: "hc_ask ans_notify h2 = Some ((fuel, outss, res, g), h')"
        using y(1) by (cases "hc_ask ans_notify h2") (auto simp: hc_bad_request_def)
      obtain m k where p2: "prepare400Response fuel outss res (hc_response h') (hc_kern h') = Some (m, k)"
        using y(1) p1 by (cases "prepare400Response fuel outss res (hc_response h') (hc_kern h')") (auto simp: hc_bad_request_def)
      obtain h4 where p3: "hc_attach (h'\<lparr>hc_response := m, hc_kern := k\<rparr>) = Some h4"
        using y(1) p1 p2 by (cases "hc_attach (h'\<lparr>hc_response := m, hc_kern := k\<rparr>)") (auto simp: hc_bad_request_def)
      have p: "hc_ask ans_notify h2 = Some ((fuel, outss, res, g), h')"
        "hc_attach (h'\<lparr>hc_response := m, hc_kern := k\<rparr>) = Some h4"
        "y = (EVENT_CALLBACK_BREAK, hc_enable SOCKET_EVENT_WRITE (hc_handle H_WRITE SOCKET_EVENT_WRITE (hc_disable SOCKET_EVENT_READ h4)))"
        using y(1) p1 p2 p3 by (simp_all add: hc_bad_request_def)
      have b: "calm h2 (h'\<lparr>hc_response := m, hc_kern := k\<rparr>)" "hc_attach (h'\<lparr>hc_response := m, hc_kern := k\<rparr>) = Some h4"
        "x = (Ret EVENT_CALLBACK_BREAK, hc_enable SOCKET_EVENT_WRITE (hc_handle H_WRITE SOCKET_EVENT_WRITE (hc_disable SOCKET_EVENT_READ h4)))"
        using calm_ask [OF p(1)] p(2,3) y(2) by (simp_all add: calm_def)
      have c: "calm h2 h4" using calm_trans [OF b(1) calm_attach [OF b(2)]] .
      have l: "link (after_call a h4) h4" "hc_state h4 = RECV_REQUEST"
        using calm_rules(1) [OF c l2(1)] l2(2) c by (auto simp: calm_def)
      show ?thesis
        using turns(3) [OF l(1), of H_WRITE] l(2) b(3) calm_keeps [OF c12, of a] calm_keeps [OF c, of a]
        by (simp add: turned_def ended_defs settles_def settled_def op_defs emit_after reading_emit hc_at_rest_def sending_def)
    next
      case 2
      then show ?thesis using l2 calm_keeps [OF c12, of a] by (simp add: settled_def settles_def ended_defs hc_at_rest_def sending_def)
    next
      case 3
      then show ?thesis using l2 assms(3) calm_link [OF c12, of a] c12 by (simp add: under_way_def reading_def calm_def no_shake_def)
    qed
  qed
qed

lemma respond_after:
  assumes "hc_respond E h = Some x" "under_way a h"
  shows "well_after a h x"
proof -
  obtain h1 h2 where s: "doGet E h = Some h1" "hc_attach h1 = Some h2"
    "x = (Ret EVENT_CALLBACK_CONTINUE, hc_state_to SEND_RESPONSE
            (hc_enable SOCKET_EVENT_WRITE (hc_disable SOCKET_EVENT_READ (hc_handle H_WRITE SOCKET_EVENT_WRITE h2))))"
    using assms(1) by (auto simp: hc_respond_def switchRequest_def bind_eq_Some_conv)
  have c: "calm h h2" using calm_trans [OF calm_doGet [OF s(1)] calm_attach [OF s(2)]] .
  have l: "link (after_call a h2) h2" using calm_rules(1) [OF c] assms(2) by (simp add: under_way_def)
  show ?thesis
    using turns(4) [OF l, of H_WRITE] s(3) calm_keeps [OF c, of a]
    by (simp add: turned_def ended_defs settles_def settled_def op_defs emit_after hc_at_rest_def)
qed

lemma shake_after:
  assumes "SSLHandShake h = Some (ret, h')" "under_way a h" "hc_state h = HTTPS_HANDSHAKE"
  shows "if ret = TIGERSO_IO_OK then link (after_call a h') h' else settled a h'"
proof -
  have l: "link (after_call a h) h" "hc_at_rest h" "\<not> sending h"
    using assms(2,3) by (simp_all add: under_way_def hc_at_rest_def sending_def)
  show ?thesis
  proof (cases "isSSL (hc_sock h) (hc_heap h)")
    case False
    then have c: "hc_closeHandle h = Some (ret, h')" using assms(1) by (simp add: SSLHandShake_def)
    then show ?thesis using closeHandle_settled [OF c l(1,2)] by (simp add: settled_def settles_def)
  next
    case True
    then obtain r sd h1 ret1 c hp h2 where s: "hc_ask ans_shake h = Some ((r, sd), h1)"
      "ctx_accept r sd (s_ctx (hc_sock h1)) (hc_heap h1) = Some (ret1, c, hp)" "h2 = h1\<lparr>hc_sock := (hc_sock h1)\<lparr>s_ctx := c\<rparr>, hc_heap := hp\<rparr>"
      using assms(1) by (auto simp: SSLHandShake_def bind_eq_Some_conv)
    have c2: "calm h h2" using calm_ask [OF s(1)] s(3) by (simp add: calm_def same_sock_def)
    have l2: "link (after_call a h2) h2" "hc_at_rest h2" "\<not> sending h2" using calm_link [OF c2, of a "after_call a h"] l by simp_all
    let ?q = "hc_quiet h2"
    consider "ret = TIGERSO_IO_OK" "h' = hc_enable SOCKET_EVENT_READ (hc_handle H_READ SOCKET_EVENT_READ
                      (hc_disable SOCKET_EVENT_WRITE (h2\<lparr>hc_state := HTTPS_HANDSHAKE_DONE\<rparr>)))"
      | "ret = TIGERSO_IO_RECALL" "h' = hc_enable (hc_wanted ?q) (hc_handle H_READ (hc_wanted ?q) ?q)"
      | r3 where "ret = TIGERSO_IO_ERROR" "hc_closeHandle h2 = Some (r3, h')" | "ret = TIGERSO_IO_ERROR" "h' = h2"
      using assms(1) True s by (auto simp: SSLHandShake_def Let_def bind_eq_Some_conv split: if_splits)
    then show ?thesis
    proof cases
      case 1
      then have "h' = hc_emit [Disable (s_id (hc_sock h2)) SOCKET_EVENT_WRITE, SetHandle (s_id (hc_sock h2)) (Some H_READ) SOCKET_EVENT_READ,
          Enable (s_id (hc_sock h2)) SOCKET_EVENT_READ] (hc_state_to HTTPS_HANDSHAKE_DONE h2)"
        by (simp add: op_defs hc_emit_def hc_state_to_def)
      then show ?thesis using turns(1) [OF l2(1), of H_READ] 1(1) by (simp add: turned_def emit_after)
    next
      case 2
      then have h': "h' = hc_emit (waits_on (s_id (hc_sock h2)) (hc_wanted ?q) H_READ) h2"
        by (simp add: op_defs hc_emit_def waits_on_def)
      show ?thesis
        using wait_link [OF l2(1) wanted_cases [of ?q], where f = H_READ and i = "s_id (hc_sock h2)"] l2(2,3) h' 2(1)
        by (simp add: turned_def settled_def emit_after reading_emit)
    next
      case 3
      then show ?thesis using closeHandle_settled [OF 3(2) l2(1,2)] 3(1) by (simp add: settles_def)
    next
      case 4
      then show ?thesis using l2 by (simp add: settled_def)
    qed
  qed
qed

lemma step_after:
  assumes "hc_step E h = Some x" "under_way a h"
  shows "well_after a h x"
proof -
  have l: "link (after_call a h) h" using assms(2) by (simp add: under_way_def)
  have to: "under_way a (hc_state_to s h1)" if "calm h h1" "reading (hc_state_to s h1)" for s h1
    using calm_rules(1) [OF that(1) l] that(2) by (simp add: under_way_def)
  consider "hc_state h = TCP_INIT" | "hc_state h = HTTPS_HANDSHAKE" | "hc_state h = HTTPS_HANDSHAKE_DONE"
    | "hc_state h = RECV_REQUEST" | "hc_state h = RECV_REQUEST_DONE"
    using assms(2) by (auto simp: under_way_def reading_def)
  then show ?thesis
  proof cases
    case 1
    show ?thesis
    proof (cases "he_ssl E")
      case True
      then obtain r h1 where p: "hc_prepareSSL h = Some (r, h1)" "x = (Again, hc_state_to HTTPS_HANDSHAKE h1)"
        using assms(1) 1 by (auto simp: hc_step_def bind_eq_Some_conv)
      then show ?thesis
        using to [OF calm_prepareSSL [OF p(1)], of HTTPS_HANDSHAKE] calm_keeps [OF calm_prepareSSL [OF p(1)], of a] 1
        by (simp add: reading_def)
    next
      case False
      then have "x = (Again, hc_state_to RECV_REQUEST h)" using assms(1) 1 by (simp add: hc_step_def)
      then show ?thesis using to [of h RECV_REQUEST] 1 by (simp add: reading_def)
    qed
  next
    case 2
    then obtain ret h1 where s: "SSLHandShake h = Some (ret, h1)"
      "(if ret \<noteq> TIGERSO_IO_OK then Some (Ret EVENT_CALLBACK_CONTINUE, h1) else Some (Again, hc_state_to HTTPS_HANDSHAKE_DONE h1)) = Some x"
      using assms(1) by (auto simp: hc_step_def bind_eq_Some_conv)
    then show ?thesis using shake_after [OF s(1) assms(2) 2] 2 by (auto simp: under_way_def reading_def no_shake_def split: if_splits)
  next
    case 3
    then have "x = (Again, hc_state_to RECV_REQUEST h)" using assms(1) by (simp add: hc_step_def)
    then show ?thesis using to [of h RECV_REQUEST] 3 by (simp add: reading_def no_shake_def)
  next
    case 4
    then show ?thesis using assms receive_after by (simp add: hc_step_def)
  next
    case 5
    then show ?thesis using assms respond_after by (simp add: hc_step_def)
  qed
qed

lemma readHandle_settled:
  "hc_readHandle n E h = Some (r, h') \<Longrightarrow> under_way a h \<Longrightarrow> settled a h'"
proof (induction n arbitrary: h)
  case (Suc n)
  then show ?case using step_after by (fastforce split: option.splits prod.splits flow.splits)
qed simp

text \<open>Whether the loop of \<open>readHandle\<close> is still going after so many rounds.\<close>

fun hc_goes_on :: "nat \<Rightarrow> hc_env \<Rightarrow> hconn \<Rightarrow> bool" where
  "hc_goes_on 0 E h = True"
| "hc_goes_on (Suc n) E h = (case hc_step E h of Some (Again, h') \<Rightarrow> hc_goes_on n E h' | _ \<Rightarrow> False)"

lemma hc_goes_on_bound: "under_way a h \<Longrightarrow> hc_rank (hc_state h) < n \<Longrightarrow> \<not> hc_goes_on n E h"
proof (induction n arbitrary: h)
  case (Suc n)
  show ?case
  proof
    assume "hc_goes_on (Suc n) E h"
    then obtain h' where h': "hc_step E h = Some (Again, h')" "hc_goes_on n E h'"
      by (auto split: option.splits prod.splits flow.splits)
    then have "under_way a h'" "hc_rank (hc_state h') < hc_rank (hc_state h)" using step_after [OF h'(1) Suc.prems(1)] by simp_all
    then show False using Suc.IH Suc.prems(2) h'(2) by simp
  qed
qed simp

lemma spins: "hc_state h \<in> {SEND_RESPONSE, SEND_RESPONSE_DONE} \<Longrightarrow> hc_goes_on n E h"
  by (induction n) (auto simp: hc_step_def)

section \<open>The machine keeps the invariant\<close>

definition due_ok :: "armed \<Rightarrow> hconn \<Rightarrow> hook list \<Rightarrow> bool" where
  "due_ok a h due \<longleftrightarrow>
     (\<exists>hs io. due = map Hup hs @ io \<and> set hs \<subseteq> {H_RDHUP, H_ERROR} \<and> io \<in> {[], [In], [Out]} \<and>
        (sending h \<longrightarrow> (\<forall>x \<in> set io. hook_cb a x \<noteq> Some H_READ)))"

definition conf_ok :: "conf \<Rightarrow> bool" where
  "conf_ok s \<longleftrightarrow>
     link (cf_arm s) (cf_conn s) \<and> hc_at_rest (cf_conn s) \<and> (sending (cf_conn s) \<longrightarrow> no_read (cf_arm s)) \<and>
     due_ok (cf_arm s) (cf_conn s) (cf_due s)"

lemma before_simps [simp]:
  "after_call a (before_call as h) = a" "link b (before_call as h) = link b h" "hc_at_rest (before_call as h) = hc_at_rest h"
  "sending (before_call as h) = sending h" "reading (before_call as h) = reading h" "hc_state (before_call as h) = hc_state h"
  "hc_recycled (before_call as h) = hc_recycled h" "hc_sock (before_call as h) = hc_sock h"
  by (simp_all add: before_call_def after_call_def link_def hc_at_rest_def sending_def reading_def)

lemma timeout_after:
  assumes "hc_timeoutHandle h = Some (r, h')" "link (after_call a h) h"
  shows "hc_state h' = hc_state h" "hc_recycled h' = hc_recycled h" "s_chan (hc_sock h') = None"
    and "\<not> ar_chan (after_call a h') \<and> \<not> ar_read (after_call a h') \<and> \<not> ar_write (after_call a h') \<and>
    ar_rcb (after_call a h') \<noteq> Some H_TIMEOUT \<and> ar_wcb (after_call a h') \<noteq> Some H_TIMEOUT"
proof -
  obtain sd h1 m k hp ops where t: "hc_ask ans_tcp h = Some (sd, h1)" "tcpClose sd (hc_sock h1) (hc_kern h1) (hc_heap h1) = Some (r, m, k, hp, ops)"
    "h' = hc_emit ops (h1\<lparr>hc_sock := m, hc_kern := k, hc_heap := hp\<rparr>)"
    using assms(1) by (auto simp: hc_timeoutHandle_def bind_eq_Some_conv)
  have c: "calm h h1" "hc_sock h1 = hc_sock h" using calm_ask [OF t(1)] t(1) by (auto simp: hc_ask_def split: list.splits)
  have d: "s_id m = s_id (hc_sock h)" "s_chan m = None" "shuts (hc_sock h) ops" using tcpClose_done [OF t(2)] c(2) by simp_all
  show "hc_state h' = hc_state h" "hc_recycled h' = hc_recycled h" "s_chan (hc_sock h') = None"
    using t(3) c d by (simp_all add: calm_def)
  have "hc_ops h' = hc_ops h @ ops" "s_id (hc_sock h') = s_id (hc_sock h)" using t(3) c d by (simp_all add: calm_def)
  then show "\<not> ar_chan (after_call a h') \<and> \<not> ar_read (after_call a h') \<and> \<not> ar_write (after_call a h') \<and>
    ar_rcb (after_call a h') \<noteq> Some H_TIMEOUT \<and> ar_wcb (after_call a h') \<noteq> Some H_TIMEOUT"
    using after_ops [of h' h ops a] arm_shuts [OF d(3), of "after_call a h"] assms(2) by (simp add: link_def)
qed

lemma call_settled:
  assumes "hc_call n E f h = Some (r, h')" "settled a h" "f \<noteq> H_TIMEOUT" "f = H_READ \<longrightarrow> \<not> sending h"
  shows "settled a h'"
proof -
  have l: "link (after_call a h) h" "hc_at_rest h" using assms(2) by (simp_all add: settled_def)
  consider "f = H_READ" "hc_readHandle n E h = Some (r, h')" | "hc_writeHandle h = Some (r, h')" | "hc_closeHandle h = Some (r, h')"
    using assms(1,3) by (auto simp: hc_call_def hc_errorHandle_def hc_rdhupHandle_def split: if_splits)
  then show ?thesis
  proof cases
    case 1
    have "under_way a h" using l assms(4) 1(1) by (auto simp: under_way_def hc_at_rest_def reading_def sending_def)
    then show ?thesis using readHandle_settled 1(2) by blast
  next
    case 2
    then show ?thesis using writeHandle_settled assms(2) by (simp add: settles_def)
  next
    case 3
    then show ?thesis using closeHandle_settled l by (simp add: settles_def)
  qed
qed

text \<open>A close that waits leaves the other event's handler alone.\<close>

lemma closes_hooks:
  assumes "closes h (r, h')" "r \<noteq> EVENT_CALLBACK_BREAK"
  shows "sending h' = sending h \<and> hook_cb (after_call a h') x \<in> {hook_cb (after_call a h) x, Some H_CLOSE}"
proof -
  obtain ev where ev: "hc_ops h' = hc_ops h @ waits_on (s_id (hc_sock h)) ev H_CLOSE" "s_id (hc_sock h') = s_id (hc_sock h)" "hc_state h' = hc_state h"
    using assms by (auto simp: closes_def calm_def)
  then show ?thesis using after_ops [OF ev(2,1), of a] by (cases x) (simp_all add: arm_waits sending_def)
qed

lemma conf_ok_step:
  assumes "server_step E s t" "conf_ok s"
  shows "conf_ok t"
  using assms
proof (cases rule: server_step.cases)
  case (poll ev)
  let ?hs = "(if ev AND EPOLLRDHUP \<noteq> 0 then [H_RDHUP] else []) @ (if ev AND EPOLLHUP \<noteq> 0 then [H_ERROR] else []) @
     (if ev AND EPOLLERR \<noteq> 0 then [H_ERROR] else [])"
  let ?io = "(if ev AND EPOLLIN \<noteq> 0 then [In] else []) @ (if ev AND EPOLLOUT \<noteq> 0 then [Out] else [])"
  have due: "hc_due ev = map Hup ?hs @ ?io" by (simp add: hc_due_def)
  have hs: "set ?hs \<subseteq> {H_RDHUP, H_ERROR}" by auto
  have io: "?io \<in> {[], [In], [Out]} \<and> (sending (cf_conn s) \<longrightarrow> (\<forall>x \<in> set ?io. hook_cb (cf_arm s) x \<noteq> Some H_READ))"
    using poll(3) assms(2) by (auto simp: reports_def conf_ok_def link_def no_read_def)
  have "due_ok (cf_arm s) (cf_conn s) (hc_due ev)"
    unfolding due_ok_def using due hs io by blast
  then show ?thesis using assms(2) poll(1) by (simp add: conf_ok_def)
next
  case (skip x rest)
  have "due_ok (cf_arm s) (cf_conn s) (x # rest)" using assms(2) skip(2) by (simp add: conf_ok_def)
  then obtain hs io where d: "x # rest = map Hup hs @ io" "set hs \<subseteq> {H_RDHUP, H_ERROR}" "io \<in> {[], [In], [Out]}"
    "sending (cf_conn s) \<longrightarrow> (\<forall>x \<in> set io. hook_cb (cf_arm s) x \<noteq> Some H_READ)"
    unfolding due_ok_def by blast
  have "due_ok (cf_arm s) (cf_conn s) rest"
  proof (cases hs)
    case Nil
    then have "rest = map Hup [] @ []" using d(1,3) by auto
    then show ?thesis unfolding due_ok_def by (intro exI [of _ "[]"]) simp
  next
    case (Cons y ys)
    then have "rest = map Hup ys @ io" "set ys \<subseteq> {H_RDHUP, H_ERROR}" using d(1,2) by auto
    then show ?thesis unfolding due_ok_def using d(3,4) by blast
  qed
  then show ?thesis using assms(2) skip(1) by (simp add: conf_ok_def)
next
  case (call x rest f n as r h)
  let ?a = "cf_arm s" and ?b = "before_call as (cf_conn s)"
  have d0: "due_ok ?a (cf_conn s) (x # rest)" using assms(2) call(2) by (simp add: conf_ok_def)
  then obtain hs io where d: "x # rest = map Hup hs @ io" "set hs \<subseteq> {H_RDHUP, H_ERROR}" "io \<in> {[], [In], [Out]}"
    "sending (cf_conn s) \<longrightarrow> (\<forall>x \<in> set io. hook_cb ?a x \<noteq> Some H_READ)"
    unfolding due_ok_def by blast
  have st: "settled ?a ?b" using assms(2) by (simp add: conf_ok_def settled_def)
  have nil: "due_ok a h []" for a h unfolding due_ok_def by (intro exI [of _ "[]"]) simp
  have ok: "conf_ok t" if "settled ?a h" "r \<noteq> EVENT_CALLBACK_BREAK \<longrightarrow> due_ok (after_call ?a h) h rest"
    using that call(1) nil by (auto simp: conf_ok_def settled_def)
  show ?thesis
  proof (cases hs)
    case Nil
    then have x: "rest = []" "x \<in> set io" using d(1,3) by auto
    then have "f = H_READ \<longrightarrow> \<not> sending ?b" using d(4) call(4) by auto
    moreover have "f \<noteq> H_TIMEOUT" using x(2) d(3) call(4) assms(2) by (auto simp: conf_ok_def link_def)
    ultimately show ?thesis using ok call_settled [OF call(5) st] nil x(1) by simp
  next
    case (Cons y ys)
    then have x: "x = Hup y" "rest = map Hup ys @ io" "y = H_RDHUP \<or> y = H_ERROR" "set ys \<subseteq> {H_RDHUP, H_ERROR}" using d(1,2) by auto
    then have c: "hc_closeHandle ?b = Some (r, h)"
      using call(4,5) by (auto simp: hc_call_def hc_errorHandle_def hc_rdhupHandle_def)
    have "due_ok (after_call ?a h) h rest" if "r \<noteq> EVENT_CALLBACK_BREAK"
    proof -
      note k = closes_hooks [OF closeHandle_closes [OF c] that, of ?a]
      have "sending h \<longrightarrow> (\<forall>x \<in> set io. hook_cb (after_call ?a h) x \<noteq> Some H_READ)"
      proof (intro impI ballI)
        fix y assume "sending h" "y \<in> set io"
        then show "hook_cb (after_call ?a h) y \<noteq> Some H_READ" using k [of y] d(4) by auto
      qed
      then show ?thesis unfolding due_ok_def using x(2,4) d(3) by blast
    qed
    moreover have "settled ?a h" using closeHandle_settled [OF c, of ?a] st by (simp add: settles_def settled_def)
    ultimately show ?thesis using ok by blast
  qed
next
  case (time n as r h)
  have t: "hc_timeoutHandle (before_call as (cf_conn s)) = Some (r, h)" using time(4) by (simp add: hc_call_def)
  have l: "link (after_call (cf_arm s) (before_call as (cf_conn s))) (before_call as (cf_conn s))" using assms(2) by (simp add: conf_ok_def)
  have d: "due_ok (after_call (cf_arm s) h) h []" unfolding due_ok_def by (intro exI [of _ "[]"]) simp
  show ?thesis
    using timeout_after [OF t l] assms(2) time(1,2) d
    by (simp add: conf_ok_def link_def hc_at_rest_def no_read_def)
qed

text \<open>What the machine is about to call is never the timeout handler, and not the read handler while sending.\<close>

lemma due_handler:
  assumes "conf_ok s" "cf_due s = x # rest" "hook_cb (cf_arm s) x = Some f"
  shows "f \<noteq> H_TIMEOUT \<and> (f = H_READ \<longrightarrow> \<not> sending (cf_conn s))"
proof -
  have due: "due_ok (cf_arm s) (cf_conn s) (x # rest)" using assms(1,2) by (simp add: conf_ok_def)
  obtain hs io where d: "x # rest = map Hup hs @ io" "set hs \<subseteq> {H_RDHUP, H_ERROR}" "io \<in> {[], [In], [Out]}"
    "sending (cf_conn s) \<longrightarrow> (\<forall>x \<in> set io. hook_cb (cf_arm s) x \<noteq> Some H_READ)"
    using due unfolding due_ok_def by blast
  show ?thesis
  proof (cases hs)
    case Nil
    then have "x = In \<or> x = Out" "x \<in> set io" using d(1,3) by auto
    then show ?thesis using d(4) assms(1,3) by (auto simp: conf_ok_def link_def)
  next
    case (Cons y ys)
    then have "f = y" "y = H_RDHUP \<or> y = H_ERROR" using d(1,2) assms(3) by auto
    then show ?thesis by auto
  qed
qed

lemma conf_ok_reach: "server_reach E s t \<Longrightarrow> conf_ok s \<Longrightarrow> conf_ok t"
  by (induction rule: server_reach.induct) (auto intro: conf_ok_step)

lemma accepted_ok: "accepted s \<Longrightarrow> conf_ok s"
  by (auto simp: accepted_def conf_ok_def link_def hc_at_rest_def sending_def due_ok_def)

text \<open>
  C4. The read handler of a server connection loops without a case for the states in which a response
  is sent: called in one of them it would never return. It is never called in one: whatever
  the kernel reports and answers and however often the timer strikes, from the moment a client is accepted a
  handler always leaves the connection in one of five states and with at most one of
  reading and writing enabled, and whenever the loop is about to call the read handler, its
  loop ends within six rounds.
\<close>

theorem server_never_spins:
  assumes "accepted s" "server_reach E s t"
  shows "hc_at_rest (cf_conn t) \<and> \<not> (ar_read (cf_arm t) \<and> ar_write (cf_arm t)) \<and>
    (\<forall>x rest as. cf_due t = x # rest \<longrightarrow> ar_chan (cf_arm t) \<longrightarrow> hook_cb (cf_arm t) x = Some H_READ \<longrightarrow>
       \<not> hc_goes_on 6 E (before_call as (cf_conn t)))"
proof -
  have ok: "conf_ok t" using conf_ok_reach [OF assms(2) accepted_ok [OF assms(1)]] .
  have "\<not> hc_goes_on 6 E (before_call as (cf_conn t))" if "cf_due t = x # rest" "hook_cb (cf_arm t) x = Some H_READ" for x rest as
  proof -
    have "\<not> sending (cf_conn t)" using due_handler [OF ok that] by simp
    then have "under_way (cf_arm t) (before_call as (cf_conn t))"
      using ok by (auto simp: conf_ok_def under_way_def hc_at_rest_def reading_def sending_def)
    moreover have "hc_rank (hc_state h) < 6" for h by (cases "hc_state h") simp_all
    ultimately show ?thesis using hc_goes_on_bound by blast
  qed
  then show ?thesis using ok by (auto simp: conf_ok_def link_def)
qed

section \<open>How often a connection is handed back\<close>

lemma readHandle_ended:
  "hc_readHandle n E h = Some (r, h') \<Longrightarrow> under_way a h \<Longrightarrow> \<not> he_ssl E \<Longrightarrow> no_shake h \<Longrightarrow> ended a h h'"
proof (induction n arbitrary: h)
  case (Suc n)
  obtain f h1 where s: "hc_step E h = Some (f, h1)" using Suc.prems(1) by (auto split: option.splits)
  have w: "well_after a h (f, h1)" using step_after [OF s Suc.prems(2)] .
  have ns: "no_shake h1" if "f = Again"
  proof (cases "hc_state h = TCP_INIT")
    case True
    then show ?thesis using s Suc.prems(3) by (simp add: hc_step_def) (auto simp: no_shake_def)
  next
    case False
    then show ?thesis using w that Suc.prems(4) by (simp add: no_shake_def)
  qed
  have st: "hc_state h \<noteq> HTTPS_HANDSHAKE" using Suc.prems(4) by (simp add: no_shake_def)
  show ?case
  proof (cases f)
    case Again
    then have "ended a h1 h'" using Suc.IH [of h1] Suc.prems(1,3) s w ns by simp
    then show ?thesis using w st Again ns by (simp add: ended_def)
  next
    case (Ret r1)
    then show ?thesis using w s Suc.prems(1) st by simp
  qed
qed simp

definition counted :: "nat \<Rightarrow> conf \<Rightarrow> bool" where
  "counted r0 s \<longleftrightarrow>
     no_shake (cf_conn s) \<and> (cf_timed s \<longrightarrow> \<not> ar_chan (cf_arm s)) \<and>
     hc_recycled (cf_conn s) = r0 + (if ar_chan (cf_arm s) \<or> cf_timed s then 0 else 1)"

lemma call_ended:
  assumes "hc_call n E f h = Some (r, h')" "settled a h" "f \<noteq> H_TIMEOUT" "f = H_READ \<longrightarrow> \<not> sending h" "\<not> he_ssl E" "no_shake h"
  shows "ended a h h'"
proof -
  have l: "link (after_call a h) h" "hc_at_rest h" using assms(2) by (simp_all add: settled_def)
  consider "f = H_READ" "hc_readHandle n E h = Some (r, h')" | "hc_writeHandle h = Some (r, h')" | "hc_closeHandle h = Some (r, h')"
    using assms(1,3) by (auto simp: hc_call_def hc_errorHandle_def hc_rdhupHandle_def split: if_splits)
  then show ?thesis
  proof cases
    case 1
    have "under_way a h" using l assms(4) 1(1) by (auto simp: under_way_def hc_at_rest_def reading_def sending_def)
    then show ?thesis using readHandle_ended 1(2) assms(5,6) by blast
  next
    case 2
    then show ?thesis using writeHandle_settled assms(2) by (simp add: settles_def)
  next
    case 3
    then show ?thesis using closeHandle_settled l by (simp add: settles_def)
  qed
qed

lemma counted_step:
  assumes "server_step E s t" "conf_ok s" "counted r0 s" "\<not> he_ssl E"
  shows "counted r0 t"
  using assms(1)
proof (cases rule: server_step.cases)
  case (call x rest f n as r h)
  let ?b = "before_call as (cf_conn s)"
  have st: "settled (cf_arm s) ?b" using assms(2) by (simp add: conf_ok_def settled_def)
  have ns: "no_shake ?b" using assms(3) by (simp add: counted_def no_shake_def)
  have f: "f \<noteq> H_TIMEOUT" "f = H_READ \<longrightarrow> \<not> sending ?b" using due_handler [OF assms(2) call(2,4)] by simp_all
  have e: "ended (cf_arm s) ?b h" using call_ended [OF call(5) st f assms(4) ns] .
  have "\<not> cf_timed s" using assms(3) call(3) by (auto simp: counted_def)
  then show ?thesis using e ns assms(3) call(1,3) by (auto simp: ended_def counted_def)
next
  case (time n as r h)
  have t: "hc_timeoutHandle (before_call as (cf_conn s)) = Some (r, h)" using time(4) by (simp add: hc_call_def)
  have l: "link (after_call (cf_arm s) (before_call as (cf_conn s))) (before_call as (cf_conn s))" using assms(2) by (simp add: conf_ok_def)
  show ?thesis using timeout_after [OF t l] assms(3) time(1,3) by (simp add: counted_def no_shake_def)
qed (use assms(3) in \<open>simp_all add: counted_def\<close>)

text \<open>
  C21. Handing a connection back. A connection of a service without TLS is handed back to its factory exactly once
  for every client that it is closed for, and then its channel is gone, so that no handler runs
  any more; as long as it has the channel it has not been handed back. When the timer closes it,
  it is never handed back at all: the factory has lost the connection.
\<close>

theorem recycled_once:
  assumes "accepted s" "server_reach E s t" "\<not> he_ssl E"
  shows "hc_recycled (cf_conn t) = hc_recycled (cf_conn s) + (if ar_chan (cf_arm t) \<or> cf_timed t then 0 else 1) \<and>
    (cf_timed t \<longrightarrow> \<not> ar_chan (cf_arm t))"
proof -
  have "conf_ok t \<and> counted (hc_recycled (cf_conn s)) t"
    using assms(2,1)
  proof (induction rule: server_reach.induct)
    case (start s)
    then show ?case using accepted_ok by (auto simp: counted_def accepted_def no_shake_def)
  next
    case (more s t u)
    then show ?case using conf_ok_step counted_step assms(3) by blast
  qed
  then show ?thesis by (simp add: counted_def)
qed

section \<open>A run\<close>

definition demo_hconn :: "answer list \<Rightarrow> hconn" where
  "demo_hconn as =
     \<lparr>hc_state = TCP_INIT, hc_sock = (new_Socket 1)\<lparr>s_fd := 5, s_chan := Some 3\<rparr>, hc_in = Buffer_new CHR ''x'' 40,
      hc_out = Buffer_new CHR ''x'' 40, hc_request = new_message HTTP_ROLE_REQUEST demo_body 7,
      hc_response = new_message HTTP_ROLE_RESPONSE demo_body 7, hc_kern = demo_kern, hc_heap = demo_heap,
      hc_recycled = 0, hc_ops = [], hc_script = as\<rparr>"

definition demo_conf :: conf where
  "demo_conf =
     \<lparr>cf_arm = \<lparr>ar_chan = True, ar_fd = True, ar_read = True, ar_write = False, ar_rcb = Some H_READ, ar_wcb = None\<rparr>,
      cf_conn = demo_hconn [], cf_due = [], cf_timed = False\<rparr>"

definition demo_henv :: "bool \<Rightarrow> hc_env" where
  "demo_henv ssl = \<lparr>he_ssl = ssl, he_root = ''/srv'', he_mime = (\<lambda>_. None)\<rparr>"

lemma demo_accepted: "accepted demo_conf"
  by (simp add: accepted_def demo_conf_def demo_hconn_def)

text \<open>The client closes: the loop calls the handler of the read side's end.\<close>

lemma demo_polled: "server_step E demo_conf (demo_conf\<lparr>cf_due := hc_due EPOLLRDHUP\<rparr>)"
  by (rule poll) (simp_all add: demo_conf_def reports_def)

lemma demo_due: "hc_due EPOLLRDHUP = [Hup H_RDHUP]"
  by (simp add: hc_due_def)

lemma demo_rdhup:
  "\<exists>h. hc_call 6 E H_RDHUP (before_call [AClose (0, 0) (0, 0)] (demo_hconn [])) = Some (EVENT_CALLBACK_BREAK, h) \<and>
     hc_recycled h = 1 \<and> hc_ops h = [RemoveSock 1, SetFd 1 (-1) False] \<and> s_id (hc_sock h) = 1"
  by (simp add: hc_call_def hc_rdhupHandle_def hc_closeHandle_def hc_close_def hc_ask_def before_call_def demo_hconn_def Socket_close_def
      tcpClose_def destory_def ctx_reset_def ctx_active_def validSSL_def new_SSLContext_def free_handle_def SocketUtil_Close_def
      isSSL_def new_Socket_def hc_emit_def hc_recycle_def Socket_reset_def resetResources_def Let_def exist_def valid_fd_def
      split: prod.splits)

lemma demo_closed:
  "\<exists>t. server_reach E demo_conf t \<and> hc_recycled (cf_conn t) = 1 \<and> \<not> cf_timed t"
proof -
  obtain h where h: "hc_call 6 E H_RDHUP (before_call [AClose (0, 0) (0, 0)] (demo_hconn [])) = Some (EVENT_CALLBACK_BREAK, h)" "hc_recycled h = 1"
    using demo_rdhup by blast
  let ?s = "demo_conf\<lparr>cf_due := hc_due EPOLLRDHUP\<rparr>"
  have "server_step E ?s (?s\<lparr>cf_arm := after_call (cf_arm ?s) h, cf_conn := h,
      cf_due := if EVENT_CALLBACK_BREAK = EVENT_CALLBACK_BREAK \<or> EVENT_CALLBACK_BREAK = EVENT_CALLBACK_DROPWAITED then [] else []\<rparr>)"
    by (rule call [where x = "Hup H_RDHUP" and f = H_RDHUP and n = 6 and as = "[AClose (0, 0) (0, 0)]"])
      (use h(1) in \<open>simp_all add: demo_due demo_conf_def\<close>)
  then have "server_reach E demo_conf (?s\<lparr>cf_arm := after_call (cf_arm ?s) h, cf_conn := h, cf_due := []\<rparr>)"
    using more [OF more [OF start demo_polled]] by fastforce
  then show ?thesis using h(2) by (intro exI conjI) (auto simp: demo_conf_def)
qed

theorem recycled_once_witness:
  "\<exists>t. server_reach (demo_henv False) demo_conf t \<and> hc_recycled (cf_conn t) = 1 \<and> \<not> ar_chan (cf_arm t)"
proof -
  obtain t where t: "server_reach (demo_henv False) demo_conf t" "hc_recycled (cf_conn t) = 1" "\<not> cf_timed t"
    using demo_closed by blast
  have z: "hc_recycled (cf_conn demo_conf) = 0" by (simp add: demo_conf_def demo_hconn_def)
  have "\<not> he_ssl (demo_henv False)" by (simp add: demo_henv_def)
  from conjunct1 [OF recycled_once [OF demo_accepted t(1) this]]
  have "1 = (0 :: nat) + (if ar_chan (cf_arm t) \<or> cf_timed t then 0 else 1)" unfolding t(2) z .
  then have "\<not> ar_chan (cf_arm t)" by (cases "ar_chan (cf_arm t)") simp_all
  then show ?thesis using t by blast
qed

lemma demo_readable: "server_reach E demo_conf (demo_conf\<lparr>cf_due := [In]\<rparr>)"
proof -
  have "server_step E demo_conf (demo_conf\<lparr>cf_due := hc_due EPOLLIN\<rparr>)" by (rule poll) (simp_all add: demo_conf_def reports_def)
  moreover have "hc_due EPOLLIN = [In]" by (simp add: hc_due_def)
  ultimately show ?thesis using more [OF start] by metis
qed

theorem server_never_spins_witness:
  "server_reach (demo_henv True) demo_conf (demo_conf\<lparr>cf_due := [In]\<rparr>) \<and> \<not> hc_goes_on 6 (demo_henv True) (demo_hconn [])"
proof -
  have "before_call [] (demo_hconn []) = demo_hconn []" by (simp add: before_call_def demo_hconn_def)
  moreover have "\<not> hc_goes_on 6 (demo_henv True) (before_call [] (cf_conn (demo_conf\<lparr>cf_due := [In]\<rparr>)))"
  proof -
    have "cf_due (demo_conf\<lparr>cf_due := [In]\<rparr>) = In # []" "ar_chan (cf_arm (demo_conf\<lparr>cf_due := [In]\<rparr>))"
      "hook_cb (cf_arm (demo_conf\<lparr>cf_due := [In]\<rparr>)) In = Some H_READ"
      by (simp_all add: demo_conf_def)
    then show ?thesis using server_never_spins [OF demo_accepted demo_readable [of "demo_henv True"]] by blast
  qed
  moreover have "cf_conn (demo_conf\<lparr>cf_due := [In]\<rparr>) = demo_hconn []" by (simp add: demo_conf_def)
  ultimately show ?thesis using demo_readable by metis
qed

section \<open>The file that is served\<close>

lemma fname_new:
  assumes "blit 0 s (replicate 1024 NUL) = Some arr"
  shows "c_str arr = c_str s"
proof -
  have "arr = s @ replicate (1024 - length s) NUL" using assms by (auto simp: blit_def split: if_splits)
  then show ?thesis
    by (cases "1024 - length s") (auto simp: c_str_def takeWhile_append takeWhile_eq_all_conv intro: takeWhile_eq_all_conv [THEN iffD2, symmetric])
qed

lemma File_new_rest: "File_new s g k = Some (f, k') \<Longrightarrow> length s \<le> 1024 \<and> fname f = c_str s \<and> disk k' = disk k"
  by (auto simp: File_new_def File_reset_def File_close_def bind_eq_Some_conv Let_def fname_def fname_new sys_close_def
      blit_def split: if_splits)

lemma request_path_rest:
  assumes "CHR ''/'' \<notin> set pre" "rest \<noteq> []"
  shows "request_path root (pre @ CHR ''/'' # rest) = root @ CHR ''/'' # rest"
  using assms by (simp add: request_path_def find_char_append)

lemma status_set: "\<not> is_request m \<Longrightarrow> m_status (setStatuscode c m) = c \<and> \<not> is_request (setStatuscode c m)"
  by (simp add: setStatuscode_def setDesc_def is_request_def Let_def)

lemma prepare_error_status:
  "\<not> is_request m \<Longrightarrow> prepare_error c t fuel outss res m k = Some (m', k') \<Longrightarrow> m_status m' = c"
  using status_set [of m c]
  by (auto simp: prepare_error_def setBody_def prepare_head_def set_header_def setDesc_def Let_def bind_eq_Some_conv is_request_def)

lemma setBodyFileName_rest:
  assumes "setBodyFileName mime g fn m k = Some (r, m', k')" "fn \<noteq> []"
  shows "m_status m' = m_status m \<and> m_bodyname m' = fn \<and> fname (b_file (m_body m')) = c_str fn"
proof -
  obtain b k1 where b: "setFile (Some fn) (m_body m) k = Some (b, k1)" using assms by (auto simp: setBodyFileName_def bind_eq_Some_conv)
  have "m_status m' = m_status m \<and> m_bodyname m' = fn \<and> m_body m' = b"
    using assms b by (auto simp: setBodyFileName_def bind_eq_Some_conv Let_def split: if_splits option.splits)
  moreover have "fname (b_file b) = c_str fn"
    using b by (auto simp: setFile_def setFilename_def bind_eq_Some_conv Let_def fname_def fname_new split: prod.splits)
  ultimately show ?thesis by simp
qed

lemma refused_status: "get_refused h = Some h' \<Longrightarrow> \<not> is_request (hc_response h) \<Longrightarrow> m_status (hc_response h') = 403"
  by (auto simp: get_refused_def hc_ask_def bind_eq_Some_conv prepare403Response_def split: list.splits dest!: prepare_error_status)

lemma served_file:
  assumes "get_served E g path h = Some h'" "path \<noteq> []" "\<not> is_request (hc_response h)"
  shows "m_status (hc_response h') = 200 \<and> m_bodyname (hc_response h') = path \<and>
          fname (b_file (m_body (hc_response h'))) = c_str path \<and> b_chunked (m_body (hc_response h')) \<and>
          header_of ''Transfer-Encoding'' (hc_response h') = ''chunked''"
proof -
  let ?r1 = "setStatuscode 200 (hc_response h)"
  let ?r2 = "?r1\<lparr>m_headers := setKeepAlive (isKeepAlive (m_version (hc_request h)) (m_headers (hc_request h))) (m_headers ?r1)\<rparr>"
  obtain q r3 k2 where b: "setBodyFileName (he_mime E) g path ?r2 (hc_kern h) = Some (q, r3, k2)"
    "hc_response h' = setChunkedTransfer True (set_header ''Server'' ''tigerso'' r3)"
    using assms(1) by (auto simp: get_served_def bind_eq_Some_conv Let_def)
  have "m_status ?r2 = 200" using status_set [of "hc_response h" 200] assms(3) by simp
  then show ?thesis
    using setBodyFileName_rest [OF b(1) assms(2)] b(2)
    by (simp add: setChunkedTransfer_def set_header_def header_of_def getValueByHeader_def find_set strcaseeq_def)
qed


definition get_conn :: hconn where
  "get_conn = (demo_hconn [AFiles (demo_file (-1)) (demo_file (-1)), ANotify 0 [] (0, 0, 0) None])\<lparr>
     hc_request := (new_message HTTP_ROLE_REQUEST demo_body 7)\<lparr>m_url := ''/../etc/passwd''\<rparr>,
     hc_kern := demo_kern\<lparr>disk := [''/srv/../etc/passwd'' \<mapsto> ''root'']\<rparr>\<rparr>"

lemma get_conn_found: "File_exist (c_str ''/srv/../etc/passwd'') (hc_kern get_conn)"
  by (simp add: c_str_def NUL_def File_exist_def get_conn_def)

lemma get_conn_parts:
  "m_url (hc_request get_conn) = [] @ ''/'' @ ''../etc/passwd''" "\<not> is_request (hc_response get_conn)"
  "''/srv/../etc/passwd'' = he_root (demo_henv False) @ ''/'' @ ''../etc/passwd''"
  by (simp_all add: get_conn_def demo_hconn_def demo_henv_def new_message_def is_request_def)

lemma get_conn_runs: "\<exists>h'. doGet (demo_henv False) get_conn = Some h'"
proof -
  have "request_path ''/srv'' ''/../etc/passwd'' = ''/srv/../etc/passwd''" by (simp add: request_path_def)
  then show ?thesis
    by (simp add: doGet_def get_conn_def demo_henv_def demo_hconn_def hc_ask_def File_new_def File_reset_def File_close_def Let_def blit_def
        testExist_def fname_def c_str_def NUL_def File_exist_def sys_close_def get_served_def setBodyFileName_def setFile_def setFilename_def
        split: prod.splits)
qed


section \<open>A handshake without a TLS context\<close>

lemma closeHandle_plain:
  assumes "hc_closeHandle h = Some (r, h')" "\<not> isSSL (hc_sock h) (hc_heap h)"
  shows "r = EVENT_CALLBACK_BREAK \<and> hc_recycled h' = Suc (hc_recycled h) \<and> \<not> isSSL (hc_sock h') (hc_heap h') \<and> s_fd (hc_sock h') = -1"
proof -
  obtain ret h1 where c: "hc_close h = Some (ret, h1)" using assms by (auto simp: hc_closeHandle_def bind_eq_Some_conv)
  obtain s1 s2 h0 m k hp ops where a: "hc_ask ans_close h = Some ((s1, s2), h0)"
    "Socket_close s1 s2 (hc_sock h0) (hc_kern h0) (hc_heap h0) = Some (ret, m, k, hp, ops)"
    "h1 = hc_emit ops (h0\<lparr>hc_sock := m, hc_kern := k, hc_heap := hp\<rparr>)"
    using c by (auto simp: hc_close_def bind_eq_Some_conv)
  have h0: "calm h h0" "hc_sock h0 = hc_sock h" "hc_heap h0 = hc_heap h"
    using calm_ask [OF a(1)] a(1) by (auto simp: hc_ask_def split: list.splits)
  have d: "ret = 0" "\<not> isSSL m hp" using close_cases [OF a(2)] assms(2) h0 by auto
  then have "r = EVENT_CALLBACK_BREAK" "h' = hc_recycle h1" using assms(1) c by (simp_all add: hc_closeHandle_def)
  then show ?thesis using a(3) d(2) h0(1) by (simp add: isSSL_def calm_def)
qed

lemma recv_closed: "hc_recv h = Some (n, h') \<Longrightarrow> s_fd (hc_sock h) = -1 \<Longrightarrow>
    n = TIGERSO_IO_ERROR \<and> hc_recycled h' = hc_recycled h \<and> s_ctx (hc_sock h') = s_ctx (hc_sock h) \<and> hc_heap h' = hc_heap h"
  by (auto simp: hc_recv_def hc_ask_def bind_eq_Some_conv recvNIO_def setNIO_def exist_def valid_fd_def Let_def split: list.splits if_splits)

text \<open>
  When TLS could not be set up for a connection, the handshake step closes it and hands it back to its factory,
  but takes what the closing returned for a success: the read handler goes on to receive from the
  closed socket, fails, and closes and hands the connection back again. The factory then holds it
  twice and gives it to two clients.
\<close>

theorem failed_setup_recycles_twice:
  assumes "hc_readHandle n E h = Some (r, h')" "hc_state h = HTTPS_HANDSHAKE" "\<not> isSSL (hc_sock h) (hc_heap h)"
  shows "r = EVENT_CALLBACK_BREAK \<and> hc_recycled h' = hc_recycled h + 2"
proof -
  obtain n1 where n1: "n = Suc n1" using assms(1) by (cases n) auto
  obtain r1 h1 where c: "hc_closeHandle h = Some (r1, h1)"
    using assms n1 by (auto simp: hc_step_def SSLHandShake_def bind_eq_Some_conv split: option.splits)
  note p = closeHandle_plain [OF c assms(3)]
  then have 1: "hc_readHandle n1 E (hc_state_to HTTPS_HANDSHAKE_DONE h1) = Some (r, h')"
    using assms n1 c by (simp add: hc_step_def SSLHandShake_def)
  then obtain n2 where n2: "n1 = Suc n2" by (cases n1) auto
  let ?h = "hc_state_to RECV_REQUEST (hc_state_to HTTPS_HANDSHAKE_DONE h1)"
  have 2: "hc_readHandle n2 E ?h = Some (r, h')" using 1 n2 by (simp add: hc_step_def)
  then obtain n3 where n3: "n2 = Suc n3" by (cases n2) auto
  obtain m h2 where v: "hc_recv ?h = Some (m, h2)"
    using 2 n3 by (auto simp: hc_step_def hc_receive_def bind_eq_Some_conv split: option.splits)
  note q = recv_closed [OF v]
  have s2: "\<not> isSSL (hc_sock h2) (hc_heap h2)" "m = TIGERSO_IO_ERROR" "hc_recycled h2 = Suc (hc_recycled h)"
    using p q by (simp_all add: isSSL_def)
  have "hc_step E ?h = hc_ret (hc_closeHandle h2)"
    using v s2(1,2) by (simp add: hc_step_def hc_receive_def recv_failed_def)
  then obtain r3 h3 where d: "hc_closeHandle h2 = Some (r3, h3)" "r = r3" "h' = h3"
    using 2 n3 by (cases "hc_closeHandle h2") (auto simp: hc_ret_def)
  then show ?thesis using closeHandle_plain [OF d(1) s2(1)] s2(3) by simp
qed

definition shake_conn :: hconn where
  "shake_conn = (demo_hconn [AClose (0, 0) (0, 0), ARecv 0 0 [], AClose (0, 0) (0, 0)])\<lparr>hc_state := HTTPS_HANDSHAKE\<rparr>"

lemma shake_runs: "\<exists>x. hc_readHandle 3 E shake_conn = Some x"
  by (simp add: shake_conn_def demo_hconn_def numeral_3_eq_3 hc_step_def SSLHandShake_def hc_closeHandle_def hc_close_def hc_ask_def
      Socket_close_def tcpClose_def destory_def ctx_reset_def ctx_active_def validSSL_def new_SSLContext_def free_handle_def
      SocketUtil_Close_def isSSL_def new_Socket_def hc_emit_def hc_recycle_def Socket_reset_def resetResources_def Let_def exist_def
      valid_fd_def hc_state_to_def hc_receive_def hc_recv_def recvNIO_def setNIO_def recv_failed_def hc_ret_def split: prod.splits)

theorem failed_setup_recycles_twice_witness:
  "\<exists>r h'. hc_readHandle 3 (demo_henv True) shake_conn = Some (r, h') \<and> hc_recycled h' = 2"
proof -
  obtain r h' where x: "hc_readHandle 3 (demo_henv True) shake_conn = Some (r, h')" using shake_runs [of "demo_henv True"] by auto
  have z: "hc_recycled shake_conn = 0" "hc_state shake_conn = HTTPS_HANDSHAKE" "\<not> isSSL (hc_sock shake_conn) (hc_heap shake_conn)"
    by (simp_all add: shake_conn_def demo_hconn_def isSSL_def ctx_active_def validSSL_def new_Socket_def new_SSLContext_def)
  show ?thesis using failed_setup_recycles_twice [OF x z(2,3)] x z(1) by auto
qed

end
