(* ===== verification/Acceptor.thy ===== *)
theory Acceptor
  imports HttpServer "HOL-Library.AList" "HOL-Library.Signed_Division"
begin

unbundle bit_operations_syntax

text \<open>
  \<open>net/ConnectionFactory.cpp\<close>, \<open>net/Connection.cpp\<close> and \<open>net/Acceptor.cpp\<close>: the pool of connections, their
  base class, and the listening socket that fills them with clients. The classes of connections are
  an argument: a table of the virtual functions the pool and the acceptor call.
\<close>

section \<open>The factory\<close>

type_synonym IDType = "32 word"

abbreviation HTTP_CONNECTION :: nat where "HTTP_CONNECTION \<equiv> 0"
abbreviation HTTP_PROXY_CONNECTION :: nat where "HTTP_PROXY_CONNECTION \<equiv> 1"
abbreviation TCP_UNKNOWN :: nat where "TCP_UNKNOWN \<equiv> 2"

text \<open>What the factory knows of a connection: its socket, and how it clears itself before it goes back.\<close>

record 'c conn_class =
  co_new :: "nat \<Rightarrow> IDType \<Rightarrow> 'c"
  co_link :: "'c \<Rightarrow> 'c"
  co_sock :: "'c \<Rightarrow> Socket"
  co_put :: "Socket \<Rightarrow> 'c \<Rightarrow> 'c"
  co_clear :: "'c \<Rightarrow> 'c"

record 'c factory =
  f_conns :: "(IDType \<times> 'c) list"
  f_gc :: "nat \<Rightarrow> IDType list"
  f_idbase :: IDType

definition allocID :: "IDType \<Rightarrow> IDType" where
  "allocID base = (if base \<ge> NOT 0 then 1 else base + 1)"

text \<open>\<open>None\<close> for an unknown type, where an assertion fails, and for a recycled number without a connection.\<close>

definition createConnection :: "'c conn_class \<Rightarrow> nat \<Rightarrow> 'c factory \<Rightarrow> (IDType \<times> 'c factory) option" where
  "createConnection C type f =
     (case f_gc f type of
        cid # rest \<Rightarrow>
          (case map_of (f_conns f) cid of
             None \<Rightarrow> None
           | Some c \<Rightarrow> Some (cid, f\<lparr>f_gc := (f_gc f)(type := rest), f_conns := AList.update cid (co_link C c) (f_conns f)\<rparr>))
      | [] \<Rightarrow>
          if type \<noteq> HTTP_PROXY_CONNECTION \<and> type \<noteq> HTTP_CONNECTION then None
          else (let cid = allocID (f_idbase f)
                in Some (cid, f\<lparr>f_idbase := cid, f_conns := AList.update cid (co_new C type cid) (f_conns f)\<rparr>)))"

definition countAliveConnection :: "'c factory \<Rightarrow> int" where
  "countAliveConnection f = int (length (f_conns f)) - sum_list (map (\<lambda>i. int (length (f_gc f i))) [0..<TCP_UNKNOWN])"

text \<open>The factory's and the acceptor's \<open>recycle\<close>, and that of a connection, virtual part first.\<close>

definition factory_recycle :: "nat \<Rightarrow> IDType \<Rightarrow> 'c factory \<Rightarrow> 'c factory" where
  "factory_recycle type cid f = f\<lparr>f_gc := (f_gc f)(type := f_gc f type @ [cid])\<rparr>"

definition connection_recycle :: "'c conn_class \<Rightarrow> nat \<Rightarrow> IDType \<Rightarrow> 'c \<Rightarrow> 'c factory \<Rightarrow> 'c factory" where
  "connection_recycle C type cid c f = factory_recycle type cid (f\<lparr>f_conns := AList.update cid (co_clear C c) (f_conns f)\<rparr>)"

section \<open>The acceptor\<close>

abbreviation H_ACCEPT :: nat where "H_ACCEPT \<equiv> 8"
abbreviation H_LISTEN_ERROR :: nat where "H_LISTEN_ERROR \<equiv> 9"

record acceptor =
  a_listen :: Socket
  a_type :: nat
  a_ip :: bytes
  a_port :: int
  a_limit :: int
  a_wait :: int

text \<open>The acceptor with the factory it is part of, the kernel and the operations on the event loop.\<close>

record 'c server =
  sv_acc :: acceptor
  sv_fact :: "'c factory"
  sv_kern :: kern
  sv_heap :: ssl_heap
  sv_ops :: "loop_op list"

definition sv_emit :: "loop_op list \<Rightarrow> 'c server \<Rightarrow> 'c server" where
  "sv_emit xs v = v\<lparr>sv_ops := sv_ops v @ xs\<rparr>"

definition put_conn :: "'c conn_class \<Rightarrow> IDType \<Rightarrow> Socket \<Rightarrow> 'c \<Rightarrow> 'c server \<Rightarrow> 'c server" where
  "put_conn C cid s c v = v\<lparr>sv_fact := (sv_fact v)\<lparr>f_conns := AList.update cid (co_put C s c) (f_conns (sv_fact v))\<rparr>\<rparr>"

text \<open>\<open>registerChannel\<close> makes the channel \<open>c\<close> for a socket without one.\<close>

definition with_channel :: "nat \<Rightarrow> Socket \<Rightarrow> Socket" where
  "with_channel c s = (if exist s \<and> s_chan s = None then s\<lparr>s_chan := Some c\<rparr> else s)"

definition addIntoFactory :: "nat \<Rightarrow> 'c server \<Rightarrow> int \<times> 'c server" where
  "addIntoFactory c v =
     (let l = a_listen (sv_acc v); i = s_id l
      in (0, sv_emit [Register i c, SetHandle i (Some H_ACCEPT) SOCKET_EVENT_READ, SetHandle i (Some H_LISTEN_ERROR) SOCKET_EVENT_ERROR,
                      SetHandle i (Some H_LISTEN_ERROR) SOCKET_EVENT_RDHUP, Enable i SOCKET_EVENT_READ]
              (v\<lparr>sv_acc := (sv_acc v)\<lparr>a_listen := with_channel c l\<rparr>\<rparr>)))"

definition postEvent :: "'c server \<Rightarrow> int \<times> 'c server" where
  "postEvent v =
     (let a = sv_acc v; n = a_limit a sdiv 8 - (a_limit a - countAliveConnection (sv_fact v))
      in if n > 0 then (0, v\<lparr>sv_acc := a\<lparr>a_wait := n - 1\<rparr>\<rparr>)
         else (0, sv_emit [Enable (s_id (a_listen a)) SOCKET_EVENT_READ] (v\<lparr>sv_acc := a\<lparr>a_wait := n\<rparr>\<rparr>)))"

definition listenOn :: "(bytes \<Rightarrow> 32 word) \<Rightarrow> listen_env \<Rightarrow> 'c server \<Rightarrow> int \<times> 'c server" where
  "listenOn inet e v =
     (let a = sv_acc v; (r, s, k) = CreateListenSocket inet e (a_ip a) (int_str (a_port a)) True (a_listen a) (sv_kern v)
      in (r, sv_emit [SetFd (s_id s) (s_fd s) (s_listening s)] (v\<lparr>sv_acc := a\<lparr>a_listen := s\<rparr>, sv_kern := k\<rparr>)))"

text \<open>The listening socket is set up anew after an error; when that fails the process exits.\<close>

datatype 'a outcome = Returns int 'a | Exits

record relisten =
  rl_close :: "sysres \<times> sysres"
  rl_env :: listen_env
  rl_chan :: nat

definition acceptor_errorHandle :: "(bytes \<Rightarrow> 32 word) \<Rightarrow> relisten \<Rightarrow> 'c server \<Rightarrow> 'c server outcome option" where
  "acceptor_errorHandle inet r v =
     do { (_, m, k, h, ops) \<leftarrow> Socket_close (fst (rl_close r)) (snd (rl_close r)) (a_listen (sv_acc v)) (sv_kern v) (sv_heap v);
          let v1 = sv_emit ops (v\<lparr>sv_acc := (sv_acc v)\<lparr>a_listen := m\<rparr>, sv_kern := k, sv_heap := h\<rparr>);
          let (ret, v2) = listenOn inet (rl_env r) v1;
          if ret \<noteq> 0 then Some Exits else Some (Returns 0 (snd (addIntoFactory (rl_chan r) v2))) }"

definition acceptor_rdhupHandle :: "(bytes \<Rightarrow> 32 word) \<Rightarrow> relisten \<Rightarrow> 'c server \<Rightarrow> 'c server outcome option" where
  "acceptor_rdhupHandle inet r v = acceptor_errorHandle inet r v"

text \<open>One call of \<open>accept\<close>: its result, the peer, the relocated descriptor and the channel made for the client.\<close>

record accept_res =
  ac_res :: sysres
  ac_peer :: sockaddr
  ac_dup :: int
  ac_chan :: nat

definition client_ops :: "nat \<Rightarrow> nat \<Rightarrow> int \<Rightarrow> loop_op list" where
  "client_ops i c fd =
     [SetFd i fd False, Register i c, SetHandle i (Some H_READ) SOCKET_EVENT_READ, SetHandle i (Some H_ERROR) SOCKET_EVENT_ERROR,
      SetHandle i (Some H_RDHUP) SOCKET_EVENT_RDHUP, SetHandle i (Some H_TIMEOUT) SOCKET_EVENT_TIMEOUT, Enable i SOCKET_EVENT_READ]"

fun acceptHandle :: "(32 word \<Rightarrow> bytes) \<Rightarrow> (bytes \<Rightarrow> 32 word) \<Rightarrow> 'c conn_class \<Rightarrow> relisten \<Rightarrow> accept_res list \<Rightarrow> 'c server
    \<Rightarrow> 'c server outcome option" where
  "acceptHandle ntop inet C rl [] v = None"
| "acceptHandle ntop inet C rl (x # xs) v =
     do { (cid, f) \<leftarrow> createConnection C (a_type (sv_acc v)) (sv_fact v);
          c \<leftarrow> map_of (f_conns f) cid;
          let v1 = v\<lparr>sv_fact := f\<rparr>;
          let (ret, s, k) = Accept ntop (ac_res x) (ac_peer x) (ac_dup x) (co_sock C c) (sv_kern v1);
          let v2 = v1\<lparr>sv_kern := k\<rparr>;
          if ret \<noteq> 0 then
           (let v3 = v2\<lparr>sv_fact := connection_recycle C (a_type (sv_acc v)) cid c (sv_fact v2)\<rparr>
            in if ret = -1 then acceptor_errorHandle inet rl v3 else Some (Returns EVENT_CALLBACK_CONTINUE v3))
          else
            acceptHandle ntop inet C rl xs
              (put_conn C cid (with_channel (ac_chan x) s) c (sv_emit (client_ops (s_id s) (ac_chan x) (s_fd s)) v2)) }"

text \<open>A connection to a server, made by the pool.\<close>

definition generateConnectionTo :: "(bytes \<Rightarrow> 32 word) \<Rightarrow> 'c conn_class \<Rightarrow> connect_res \<Rightarrow> bytes \<Rightarrow> int \<Rightarrow> 'c server
    \<Rightarrow> (IDType \<times> 'c server) option" where
  "generateConnectionTo inet C r ip port v =
     do { (cid, f) \<leftarrow> createConnection C (a_type (sv_acc v)) (sv_fact v);
          c \<leftarrow> map_of (f_conns f) cid;
          (ret, s, k, h, ops) \<leftarrow> Connect inet ip (int_str port) (cr_nfd r) (cr_dup r) (cr_getfl r) (cr_setfl r) (cr_conn r) (cr_sd r) (cr_sd' r)
                                 (co_sock C c) (sv_kern v) (sv_heap v);
          let v1 = sv_emit ops (v\<lparr>sv_fact := f, sv_kern := k, sv_heap := h\<rparr>);
          if ret < 0 then
            do { (_, s2, k2, h2, ops2) \<leftarrow> Socket_close (cr_sd r) (cr_sd' r) s (sv_kern v1) (sv_heap v1);
                 Some (cid, put_conn C cid s2 c (sv_emit ops2 (v1\<lparr>sv_kern := k2, sv_heap := h2\<rparr>))) }
          else
           (let (s2, k2) = setNIO True (cr_getfl2 r) (cr_setfl2 r) s (sv_kern v1); i = s_id s2
            in Some (cid, put_conn C cid (with_channel (cr_chan r) s2) c
                     (sv_emit [SetFd i (s_fd s2) False, Register i (cr_chan r), SetHandle i (Some H_WRITE) SOCKET_EVENT_WRITE,
                               SetHandle i (Some H_ERROR) SOCKET_EVENT_ERROR, SetHandle i (Some H_RDHUP) SOCKET_EVENT_RDHUP,
                               SetHandle i (Some H_TIMEOUT) SOCKET_EVENT_TIMEOUT, Enable i SOCKET_EVENT_WRITE] (v1\<lparr>sv_kern := k2\<rparr>)))) }"

section \<open>Who holds a connection\<close>

text \<open>The factory with the numbers of the connections that are in use. What waits in the queues is fit for use.\<close>

definition pool_ok :: "('c \<Rightarrow> bool) \<Rightarrow> 'c factory \<Rightarrow> IDType set \<Rightarrow> bool" where
  "pool_ok fit f used \<longleftrightarrow>
     distinct (map fst (f_conns f)) \<and> distinct (f_gc f 0 @ f_gc f 1) \<and> set (f_gc f 0 @ f_gc f 1) \<inter> used = {} \<and>
     set (f_gc f 0 @ f_gc f 1) \<union> used = fst ` set (f_conns f) \<and> (\<forall>i \<in> fst ` set (f_conns f). i \<le> f_idbase f) \<and>
     (\<forall>i \<in> set (f_gc f 0 @ f_gc f 1). \<forall>c. map_of (f_conns f) i = Some c \<longrightarrow> fit c)"

lemma allocID_next: "b < NOT 0 \<Longrightarrow> unat (allocID b) = unat b + 1"
proof -
  assume b: "b < NOT 0"
  then have "1 + b \<noteq> 0" by (metis add.commute eq_neg_iff_add_eq_0 bit.compl_zero order_less_irrefl)
  then show ?thesis using unatSuc [of b] b leD by (auto simp: allocID_def add.commute)
qed

lemma map_of_some: "i \<in> fst ` set xs \<Longrightarrow> \<exists>c. map_of xs i = Some c"
  by (metis domD dom_map_of_conv_image_fst)

lemma count_alive:
  assumes "pool_ok fit f used"
  shows "countAliveConnection f = int (card used)"
proof -
  have "card (fst ` set (f_conns f)) = length (f_conns f)"
    using assms distinct_card [of "map fst (f_conns f)"] by (simp add: pool_ok_def)
  moreover have "card (fst ` set (f_conns f)) = card (set (f_gc f 0 @ f_gc f 1)) + card used"
  proof -
    have u: "fst ` set (f_conns f) = set (f_gc f 0 @ f_gc f 1) \<union> used" "set (f_gc f 0 @ f_gc f 1) \<inter> used = {}"
      using assms by (simp_all add: pool_ok_def)
    then have "finite used" using finite_subset [of used "fst ` set (f_conns f)"] by simp
    then show ?thesis using u card_Un_disjoint [of "set (f_gc f 0 @ f_gc f 1)" used] by simp
  qed
  moreover have "card (set (f_gc f 0 @ f_gc f 1)) = length (f_gc f 0) + length (f_gc f 1)"
    using assms distinct_card [of "f_gc f 0 @ f_gc f 1"] by (simp add: pool_ok_def)
  ultimately show ?thesis by (simp add: countAliveConnection_def numeral_2_eq_2)
qed

locale connections =
  fixes C :: "'c conn_class" and fit :: "'c \<Rightarrow> bool"
  assumes sock_put: "co_sock C (co_put C s c) = s"
    and fit_new: "fit (co_new C t i)"
    and fit_link: "fit (co_link C c) = fit c"
    and fit_clear: "fit (co_clear C c)"
    and fit_chan: "fit c \<Longrightarrow> s_chan (co_sock C c) = None"
begin

lemma create_ok:
  assumes "pool_ok fit f used" "t < 2" "f_idbase f < NOT 0"
  shows "\<exists>i f' c. createConnection C t f = Some (i, f') \<and> i \<notin> used \<and> pool_ok fit f' (insert i used) \<and>
    map_of (f_conns f') i = Some c \<and> fit c \<and> (\<forall>j. j \<noteq> i \<longrightarrow> map_of (f_conns f') j = map_of (f_conns f) j) \<and>
    unat (f_idbase f') \<le> unat (f_idbase f) + 1"
proof -
  have t: "t = 0 \<or> t = 1" using assms(2) by auto
  show ?thesis
  proof (cases "f_gc f t")
    case Nil
    let ?i = "allocID (f_idbase f)"
    let ?f = "f\<lparr>f_idbase := ?i, f_conns := AList.update ?i (co_new C t ?i) (f_conns f)\<rparr>"
    have n: "unat ?i = unat (f_idbase f) + 1" using allocID_next assms(3) .
    then have less: "f_idbase f < ?i" by (simp add: word_less_nat_alt)
    have new: "?i \<notin> fst ` set (f_conns f)" using less assms(1) unfolding pool_ok_def by (meson leD)
    have c: "createConnection C t f = Some (?i, ?f)" using Nil t by (auto simp: createConnection_def Let_def)
    have "pool_ok fit ?f (insert ?i used)"
      using assms(1) new less
      by (auto simp: pool_ok_def distinct_update dom_update update_conv' dest: less_imp_le order_trans)
    moreover have "?i \<notin> used" using new assms(1) by (auto simp: pool_ok_def)
    ultimately show ?thesis using c n fit_new by (auto simp: update_conv')
  next
    case (Cons i rest)
    have "i \<in> set (f_gc f 0 @ f_gc f 1)" using Cons t by auto
    then have "i \<in> fst ` set (f_conns f)" using assms(1) unfolding pool_ok_def by blast
    then obtain c where c: "map_of (f_conns f) i = Some c" using map_of_some [of i "f_conns f"] by blast
    let ?f = "f\<lparr>f_gc := (f_gc f)(t := rest), f_conns := AList.update i (co_link C c) (f_conns f)\<rparr>"
    have fc: "fit c" using assms(1) Cons t c by (auto simp: pool_ok_def)
    have "createConnection C t f = Some (i, ?f)" using Cons c by (simp add: createConnection_def)
    moreover have "i \<notin> used" using assms(1) Cons t by (auto simp: pool_ok_def)
    moreover have "pool_ok fit ?f (insert i used)"
    proof -
      have old: "distinct (map fst (f_conns f))" "distinct (f_gc f 0 @ f_gc f 1)" "set (f_gc f 0 @ f_gc f 1) \<inter> used = {}"
        "set (f_gc f 0 @ f_gc f 1) \<union> used = fst ` set (f_conns f)" "\<forall>i \<in> fst ` set (f_conns f). i \<le> f_idbase f"
        "\<forall>i \<in> set (f_gc f 0 @ f_gc f 1). \<forall>c. map_of (f_conns f) i = Some c \<longrightarrow> fit c"
        using assms(1) unfolding pool_ok_def by iprover+
      have dom: "fst ` set (f_conns ?f) = fst ` set (f_conns f)" using \<open>i \<in> fst ` set (f_conns f)\<close> by (auto simp: dom_update)
      have gc: "set (f_gc f 0 @ f_gc f 1) = insert i (set (f_gc ?f 0 @ f_gc ?f 1))" "distinct (f_gc ?f 0 @ f_gc ?f 1)"
        "i \<notin> set (f_gc ?f 0 @ f_gc ?f 1)"
        using Cons t old(2) by (elim disjE; auto)+
      show ?thesis
        unfolding pool_ok_def dom
      proof (intro conjI)
        show "distinct (map fst (f_conns ?f))" using distinct_update [OF old(1)] by simp
        show "set (f_gc ?f 0 @ f_gc ?f 1) \<inter> insert i used = {}" using old(3) gc by blast
        show "set (f_gc ?f 0 @ f_gc ?f 1) \<union> insert i used = fst ` set (f_conns f)" using old(4) gc(1) by blast
        show "\<forall>j \<in> set (f_gc ?f 0 @ f_gc ?f 1). \<forall>c. map_of (f_conns ?f) j = Some c \<longrightarrow> fit c"
        proof (intro ballI allI impI)
          fix j d assume j: "j \<in> set (f_gc ?f 0 @ f_gc ?f 1)" "map_of (f_conns ?f) j = Some d"
          then have "j \<noteq> i" using gc(3) by blast
          then have "map_of (f_conns f) j = Some d" using j(2) by (simp add: update_conv')
          then show "fit d" using old(6) gc(1) j(1) by blast
        qed
      qed (use gc(2) old(5) in simp_all)
    qed
    ultimately show ?thesis using fc fit_link by (auto simp: update_conv')
  qed
qed

lemma recycle_ok:
  assumes "pool_ok fit f used" "i \<in> used" "t < 2"
  shows "pool_ok fit (connection_recycle C t i c f) (used - {i})"
proof -
  have t: "t = 0 \<or> t = 1" using assms(3) by auto
  let ?f = "connection_recycle C t i c f"
  have old: "distinct (map fst (f_conns f))" "distinct (f_gc f 0 @ f_gc f 1)" "set (f_gc f 0 @ f_gc f 1) \<inter> used = {}"
    "set (f_gc f 0 @ f_gc f 1) \<union> used = fst ` set (f_conns f)" "\<forall>i \<in> fst ` set (f_conns f). i \<le> f_idbase f"
    "\<forall>i \<in> set (f_gc f 0 @ f_gc f 1). \<forall>c. map_of (f_conns f) i = Some c \<longrightarrow> fit c"
    using assms(1) unfolding pool_ok_def by iprover+
  have i: "i \<notin> set (f_gc f 0 @ f_gc f 1)" using assms(2) old(3) by blast
  have dom: "fst ` set (f_conns ?f) = fst ` set (f_conns f)"
    using old(4) assms(2) by (auto simp: connection_recycle_def factory_recycle_def dom_update)
  have gc: "set (f_gc ?f 0 @ f_gc ?f 1) = insert i (set (f_gc f 0 @ f_gc f 1))" "distinct (f_gc ?f 0 @ f_gc ?f 1)"
    using t old(2) i by (elim disjE; auto simp: connection_recycle_def factory_recycle_def)+
  have conns: "map_of (f_conns ?f) = (map_of (f_conns f))(i \<mapsto> co_clear C c)" "f_idbase ?f = f_idbase f"
    by (simp_all add: connection_recycle_def factory_recycle_def update_conv')
  have move: "insert j A \<union> (B - {j}) = A \<union> B" if "j \<in> B" for j :: IDType and A B using that by blast
  show ?thesis
    unfolding pool_ok_def dom conns
  proof (intro conjI)
    show "distinct (map fst (f_conns ?f))" using distinct_update [OF old(1)] by (simp add: connection_recycle_def factory_recycle_def)
    show "set (f_gc ?f 0 @ f_gc ?f 1) \<inter> (used - {i}) = {}" using old(3) gc(1) by blast
    show "set (f_gc ?f 0 @ f_gc ?f 1) \<union> (used - {i}) = fst ` set (f_conns f)"
      unfolding gc(1) old(4) [symmetric] by (rule move) (rule assms(2))
    show "\<forall>j \<in> set (f_gc ?f 0 @ f_gc ?f 1). \<forall>d. ((map_of (f_conns f))(i \<mapsto> co_clear C c)) j = Some d \<longrightarrow> fit d"
    proof (intro ballI allI impI)
      fix j d assume j: "j \<in> set (f_gc ?f 0 @ f_gc ?f 1)" "((map_of (f_conns f))(i \<mapsto> co_clear C c)) j = Some d"
      show "fit d"
      proof (cases "j = i")
        case True
        then show ?thesis using j(2) fit_clear by auto
      next
        case False
        then have "j \<in> set (f_gc f 0 @ f_gc f 1)" "map_of (f_conns f) j = Some d" using j gc(1) by auto
        then show ?thesis using old(6) by blast
      qed
    qed
  qed (use gc(2) old(5) in simp_all)
qed

lemma update_ok:
  assumes "pool_ok fit f used" "i \<in> used"
  shows "pool_ok fit (f\<lparr>f_conns := AList.update i c (f_conns f)\<rparr>) used"
proof -
  have old: "distinct (map fst (f_conns f))" "set (f_gc f 0 @ f_gc f 1) \<inter> used = {}"
    "set (f_gc f 0 @ f_gc f 1) \<union> used = fst ` set (f_conns f)"
    "\<forall>i \<in> set (f_gc f 0 @ f_gc f 1). \<forall>c. map_of (f_conns f) i = Some c \<longrightarrow> fit c"
    using assms(1) unfolding pool_ok_def by iprover+
  have dom: "fst ` set (AList.update i c (f_conns f)) = fst ` set (f_conns f)" using old(3) assms(2) by (auto simp: dom_update)
  have "\<forall>j \<in> set (f_gc f 0 @ f_gc f 1). \<forall>d. map_of (AList.update i c (f_conns f)) j = Some d \<longrightarrow> fit d"
  proof (intro ballI allI impI)
    fix j d assume j: "j \<in> set (f_gc f 0 @ f_gc f 1)" "map_of (AList.update i c (f_conns f)) j = Some d"
    then have "j \<noteq> i" using old(2) assms(2) by blast
    then have "map_of (f_conns f) j = Some d" using j(2) by (simp add: update_conv')
    then show "fit d" using old(4) j(1) by blast
  qed
  then show ?thesis using assms(1) distinct_update [OF old(1), of i c] dom by (simp add: pool_ok_def)
qed

end

text \<open>The uses of a factory: connections are asked for, and each one that is in use may be handed back.\<close>

inductive pool_run :: "'c conn_class \<Rightarrow> 'c factory \<Rightarrow> IDType set \<Rightarrow> bool" for C where
  fresh: "pool_run C \<lparr>f_conns = [], f_gc = (\<lambda>_. []), f_idbase = 0\<rparr> {}"
| get: "pool_run C f used \<Longrightarrow> t < TCP_UNKNOWN \<Longrightarrow> f_idbase f < NOT 0 \<Longrightarrow> createConnection C t f = Some (i, f') \<Longrightarrow>
        pool_run C f' (insert i used)"
| work: "pool_run C f used \<Longrightarrow> i \<in> used \<Longrightarrow> pool_run C (f\<lparr>f_conns := AList.update i c (f_conns f)\<rparr>) used"
| put: "pool_run C f used \<Longrightarrow> i \<in> used \<Longrightarrow> t < TCP_UNKNOWN \<Longrightarrow> map_of (f_conns f) i = Some c \<Longrightarrow>
        pool_run C (connection_recycle C t i c f) (used - {i})"

context connections
begin

lemma pool_run_ok: "pool_run C f used \<Longrightarrow> pool_ok fit f used"
proof (induction rule: pool_run.induct)
  case fresh
  then show ?case by (simp add: pool_ok_def)
next
  case (get f used t i f')
  then show ?case using create_ok [of f used t] by auto
next
  case (work f used i c)
  then show ?case using update_ok by blast
next
  case (put f used i t c)
  then show ?case using recycle_ok by blast
qed

lemma pool_serves:
  assumes "pool_run C f used" "t < TCP_UNKNOWN" "f_idbase f < NOT 0"
  shows "\<exists>i f'. createConnection C t f = Some (i, f') \<and> i \<notin> used \<and>
    countAliveConnection f = int (card used) \<and> countAliveConnection f' = int (card used) + 1"
proof -
  have ok: "pool_ok fit f used" using pool_run_ok [OF assms(1)] .
  obtain i f' where c: "createConnection C t f = Some (i, f')" "i \<notin> used" "pool_ok fit f' (insert i used)"
    using create_ok [OF ok assms(2,3)] by blast
  have "set (f_gc f 0 @ f_gc f 1) \<union> used = fst ` set (f_conns f)" using ok unfolding pool_ok_def by iprover
  then have "finite used" using finite_subset [of used "fst ` set (f_conns f)"] by simp
  then have "int (card (insert i used)) = int (card used) + 1" using c(2) by simp
  then show ?thesis using c count_alive [OF ok] count_alive [OF c(3)] by auto
qed

end

section \<open>Accepting\<close>

lemma Accept_cases:
  "0 \<le> fst r \<Longrightarrow> \<exists>m k'. Accept ntop r peer dup a k = (0, m, k') \<and> exist m \<and> s_chan m = s_chan a \<and> s_id m = s_id a"
  "fst r < 0 \<Longrightarrow> snd r = EAGAIN \<or> snd r = EWOULDBLOCK \<Longrightarrow> Accept ntop r peer dup a k = (1, a, k)"
  using relocate_valid [of "fst r" MIN_SOCKET_FD dup "k\<lparr>fds := (fds k)(fst r \<mapsto> SockFd)\<rparr>"]
  by (auto simp: Accept_def Let_def exist_def valid_fd_def split: prod.splits)

lemma below_max: "unat (b :: 32 word) < 4294967295 \<Longrightarrow> b < NOT 0"
proof -
  assume b: "unat b < 4294967295"
  have "unat (NOT 0 :: 32 word) = 4294967295" by (simp add: unsigned_minus_1_eq_mask mask_eq_exp_minus_1)
  then show ?thesis using b by (simp add: word_less_nat_alt)
qed

text \<open>A connection that was fit for use, with the socket of a client.\<close>

definition served :: "'c conn_class \<Rightarrow> ('c \<Rightarrow> bool) \<Rightarrow> 'c \<Rightarrow> bool" where
  "served C fit d \<longleftrightarrow> (\<exists>s c. d = co_put C s c \<and> fit c \<and> exist s \<and> s_chan s \<noteq> None)"

context connections
begin

lemma accept_ok:
  assumes "pool_ok fit (sv_fact v) used" "a_type (sv_acc v) < TCP_UNKNOWN" "\<forall>x \<in> set xs. 0 \<le> fst (ac_res x)"
    "fst (ac_res y) < 0" "snd (ac_res y) = EAGAIN \<or> snd (ac_res y) = EWOULDBLOCK"
    "unat (f_idbase (sv_fact v)) + length xs < 4294967295"
  shows "\<exists>v' is. acceptHandle ntop inet C rl (xs @ [y]) v = Some (Returns EVENT_CALLBACK_CONTINUE v') \<and>
    length is = length xs \<and> distinct is \<and> set is \<inter> used = {} \<and> pool_ok fit (sv_fact v') (used \<union> set is) \<and>
    (\<forall>j \<in> used. map_of (f_conns (sv_fact v')) j = map_of (f_conns (sv_fact v)) j) \<and>
    (\<forall>i \<in> set is. \<exists>d. map_of (f_conns (sv_fact v')) i = Some d \<and> served C fit d)"
  using assms
proof (induction xs arbitrary: v used)
  case Nil
  obtain i f c where c: "createConnection C (a_type (sv_acc v)) (sv_fact v) = Some (i, f)" "i \<notin> used" "pool_ok fit f (insert i used)"
    "map_of (f_conns f) i = Some c" "\<forall>j. j \<noteq> i \<longrightarrow> map_of (f_conns f) j = map_of (f_conns (sv_fact v)) j"
    using create_ok [OF Nil.prems(1,2) below_max] Nil.prems(6) by auto
  let ?f = "connection_recycle C (a_type (sv_acc v)) i c f"
  have ok: "pool_ok fit ?f used" using recycle_ok [OF c(3) _ Nil.prems(2), of i c] c(2) by simp
  have "acceptHandle ntop inet C rl [y] v = Some (Returns EVENT_CALLBACK_CONTINUE (v\<lparr>sv_fact := ?f\<rparr>))"
    using c(1,4) Accept_cases(2) [OF Nil.prems(4,5)] by (simp add: Let_def)
  moreover have "map_of (f_conns ?f) j = map_of (f_conns (sv_fact v)) j" if "j \<in> used" for j
    using that c(2,5) by (auto simp: connection_recycle_def factory_recycle_def update_conv')
  ultimately show ?case using ok by (intro exI [of _ "v\<lparr>sv_fact := ?f\<rparr>"] exI [of _ "[]"]) simp
next
  case (Cons x xs)
  obtain i f c where c: "createConnection C (a_type (sv_acc v)) (sv_fact v) = Some (i, f)" "i \<notin> used" "pool_ok fit f (insert i used)"
    "map_of (f_conns f) i = Some c" "fit c" "\<forall>j. j \<noteq> i \<longrightarrow> map_of (f_conns f) j = map_of (f_conns (sv_fact v)) j"
    "unat (f_idbase f) \<le> unat (f_idbase (sv_fact v)) + 1"
    using create_ok [OF Cons.prems(1,2) below_max] Cons.prems(6) by auto
  obtain s k where s: "Accept ntop (ac_res x) (ac_peer x) (ac_dup x) (co_sock C c) (sv_kern v) = (0, s, k)" "exist s"
    using Accept_cases(1) [of "ac_res x" ntop "ac_peer x" "ac_dup x" "co_sock C c" "sv_kern v"] Cons.prems(3) by auto
  let ?s = "with_channel (ac_chan x) s"
  let ?f = "f\<lparr>f_conns := AList.update i (co_put C ?s c) (f_conns f)\<rparr>"
  define v2 where "v2 = put_conn C i ?s c (sv_emit (client_ops (s_id s) (ac_chan x) (s_fd s)) (v\<lparr>sv_fact := f, sv_kern := k\<rparr>))"
  have v2: "sv_fact v2 = ?f" "sv_acc v2 = sv_acc v" by (simp_all add: v2_def put_conn_def sv_emit_def)
  have r: "acceptHandle ntop inet C rl (x # xs @ [y]) v = acceptHandle ntop inet C rl (xs @ [y]) v2"
    using c(1,4) s(1) by (simp add: v2_def Let_def)
  have ok: "pool_ok fit (sv_fact v2) (insert i used)" using update_ok [OF c(3), of i] v2 by simp
  have "unat (f_idbase (sv_fact v2)) + length xs < 4294967295" using c(7) Cons.prems(6) v2 by simp
  then obtain v' js where v': "acceptHandle ntop inet C rl (xs @ [y]) v2 = Some (Returns EVENT_CALLBACK_CONTINUE v')"
    "length js = length xs" "distinct js" "set js \<inter> insert i used = {}" "pool_ok fit (sv_fact v') (insert i used \<union> set js)"
    "\<forall>j \<in> insert i used. map_of (f_conns (sv_fact v')) j = map_of (f_conns (sv_fact v2)) j"
    "\<forall>i \<in> set js. \<exists>d. map_of (f_conns (sv_fact v')) i = Some d \<and> served C fit d"
    using Cons.IH [OF ok] Cons.prems(2,3,4,5) v2(2) by auto
  have i: "map_of (f_conns (sv_fact v')) i = Some (co_put C ?s c)" using v'(6) v2(1) by (simp add: update_conv')
  have "s_chan ?s \<noteq> None" "exist ?s" using s(2) by (simp_all add: with_channel_def exist_def valid_fd_def)
  then have "served C fit (co_put C ?s c)" using c(5) unfolding served_def by blast
  moreover have "map_of (f_conns (sv_fact v')) j = map_of (f_conns (sv_fact v)) j" if "j \<in> used" for j
    using that v'(6) c(2,6) v2(1) by (auto simp: update_conv')
  moreover have "insert i used \<union> set js = used \<union> set (i # js)" by auto
  ultimately show ?case
    using r v' i c(2) by (intro exI [of _ v'] exI [of _ "i # js"]) auto
qed

end

section \<open>The classes of the server\<close>

text \<open>The connections of the HTTP server as a class; \<open>new\<close> makes the object.\<close>

definition http_class :: "(nat \<Rightarrow> hconn) \<Rightarrow> hconn conn_class" where
  "http_class new =
     \<lparr>co_new = (\<lambda>t i. (new (unat i))\<lparr>hc_state := TCP_INIT, hc_sock := new_Socket (unat i)\<rparr>), co_link = (\<lambda>h. h),
      co_sock = hc_sock, co_put = (\<lambda>s h. h\<lparr>hc_sock := s\<rparr>), co_clear = hc_recycle\<rparr>"

definition hconn_fit :: "hconn \<Rightarrow> bool" where
  "hconn_fit h \<longleftrightarrow> hc_state h = TCP_INIT \<and> s_chan (hc_sock h) = None"

interpretation http: connections "http_class new" hconn_fit for new
  by unfold_locales (simp_all add: http_class_def hconn_fit_def new_Socket_def)

text \<open>
  C6. No connection has two clients. Whatever sequence of requests for connections and returns a factory has
  seen, as long as only connections in use are returned and fewer than 2^32 - 1 have been made,
  a request is served with a connection nobody uses, and the count of the living is the number
  in use.
\<close>

theorem pool_exclusive:
  assumes "pool_run (http_class new) f used" "t < TCP_UNKNOWN" "f_idbase f < NOT 0"
  shows "\<exists>i f'. createConnection (http_class new) t f = Some (i, f') \<and> i \<notin> used \<and>
    countAliveConnection f = int (card used) \<and> countAliveConnection f' = int (card used) + 1"
  using assms by (rule http.pool_serves)

lemma http_served: "served (http_class new) hconn_fit d \<Longrightarrow> hc_state d = TCP_INIT \<and> exist (hc_sock d) \<and> s_chan (hc_sock d) \<noteq> None"
  by (auto simp: served_def http_class_def hconn_fit_def)

text \<open>
  C23. Accepting clients. When the kernel has as many clients waiting as it reports, the accept handler takes
  them all, each into a connection nobody used before and no two into the same, and stops; a
  connection taken for the call that found nobody is handed back. Every client's
  connection is in its first state with an open socket that has a channel, and the connections that were in use are
  untouched.
\<close>

theorem acceptHandle_serves:
  assumes "pool_run (http_class new) (sv_fact v) used" "a_type (sv_acc v) < TCP_UNKNOWN" "\<forall>x \<in> set xs. 0 \<le> fst (ac_res x)"
    "fst (ac_res y) < 0" "snd (ac_res y) = EAGAIN \<or> snd (ac_res y) = EWOULDBLOCK"
    "unat (f_idbase (sv_fact v)) + length xs < 4294967295"
  shows "\<exists>v' is. acceptHandle ntop inet (http_class new) rl (xs @ [y]) v = Some (Returns EVENT_CALLBACK_CONTINUE v') \<and>
    length is = length xs \<and> distinct is \<and> set is \<inter> used = {} \<and>
    countAliveConnection (sv_fact v') = int (card (used \<union> set is)) \<and>
    (\<forall>j \<in> used. map_of (f_conns (sv_fact v')) j = map_of (f_conns (sv_fact v)) j) \<and>
    (\<forall>i \<in> set is. \<exists>h. map_of (f_conns (sv_fact v')) i = Some h \<and> hc_state h = TCP_INIT \<and> exist (hc_sock h) \<and> s_chan (hc_sock h) \<noteq> None)"
proof -
  obtain v' "is" where v': "acceptHandle ntop inet (http_class new) rl (xs @ [y]) v = Some (Returns EVENT_CALLBACK_CONTINUE v')"
    "length is = length xs" "distinct is" "set is \<inter> used = {}" "pool_ok hconn_fit (sv_fact v') (used \<union> set is)"
    "\<forall>j \<in> used. map_of (f_conns (sv_fact v')) j = map_of (f_conns (sv_fact v)) j"
    "\<forall>i \<in> set is. \<exists>d. map_of (f_conns (sv_fact v')) i = Some d \<and> served (http_class new) hconn_fit d"
    using http.accept_ok [OF http.pool_run_ok [OF assms(1)] assms(2-6), where ntop = ntop and inet = inet and rl = rl and new = new] by blast
  moreover have "\<forall>i \<in> set is. \<exists>h. map_of (f_conns (sv_fact v')) i = Some h \<and> hc_state h = TCP_INIT \<and> exist (hc_sock h) \<and> s_chan (hc_sock h) \<noteq> None"
    using v'(7) http_served by blast
  ultimately show ?thesis using count_alive [OF v'(5)] by (intro exI [of _ v'] exI [of _ "is"]) simp
qed

section \<open>From the accept to the connection\<close>

lemma register_view:
  assumes "loop_ok l" "sock_chan l s = None" "c \<notin> dom (chans l)" "sock_exist s l"
  shows "\<exists>l'. loop_do (Register s c) l = Some l' \<and> loop_ok l' \<and>
    arm_view s l' = \<lparr>ar_chan = True, ar_fd = True, ar_read = False, ar_write = False, ar_rcb = None, ar_wcb = None\<rparr>"
proof -
  obtain l' where l': "loop_do (Register s c) l = Some l'" "loop_ok l'" using loop_do_step [OF assms(1), of "Register s c"] by (auto simp: ok_step_def)
  let ?l = "l\<lparr>chans := (chans l)(c \<mapsto> new_Channel (sock_fd l s) s), sock_chan := (sock_chan l)(s \<mapsto> c)\<rparr>"
  obtain l2 r where l2: "touch_timer c ?l = Some l2" "addChannel c l2 = Some (r, l')"
    using l'(1) assms(2-4) by (auto simp: registerChannel_def bind_eq_Some_conv split: if_splits)
  have t: "chans l2 = chans ?l \<and> sock_chan l2 = sock_chan ?l \<and> sock_fd l2 = sock_fd ?l"
    using l2(1) by (auto simp: touch_timer_def split: option.splits if_splits)
  have a: "chans l' = chans l2 \<and> sock_chan l' = sock_chan l2 \<and> sock_fd l' = sock_fd l2"
    using l2(2) by (fastforce simp: addChannel_def ctlChannel_def bind_eq_Some_conv split: if_splits option.splits dest!: epoll_ctl_rest)
  show ?thesis
    using l' t a assms(4) by (intro exI [of _ l']) (simp add: arm_view_def sock_exist_def new_Channel_def setEvents_def)
qed

text \<open>
  C34. What the accept handler asks of the event loop makes the accepted connection of the server's
  state machine: in any event loop in good order, where the client's socket has no channel yet,
  its operations leave the loop in good order, with reading enabled and the read handler registered
  and nothing else.
\<close>

theorem client_ops_accept:
  assumes "loop_ok l" "sock_chan l s = None" "c \<notin> dom (chans l)" "0 \<le> fd" "hc_state h = TCP_INIT" "s_chan (hc_sock h) \<noteq> None"
  shows "\<exists>l'. loop_dos (client_ops s c fd) l = Some l' \<and> loop_ok l' \<and>
    accepted \<lparr>cf_arm = arm_view s l', cf_conn = h, cf_due = [], cf_timed = False\<rparr>"
proof -
  obtain l1 where l1: "loop_do (SetFd s fd False) l = Some l1" "loop_ok l1"
    using loop_do_step [OF assms(1), of "SetFd s fd False"] by (auto simp: ok_step_def)
  then have "sock_chan l1 s = None" "c \<notin> dom (chans l1)" "sock_exist s l1" using assms(2-4) by (auto simp: sock_exist_def)
  then obtain l2 where l2: "loop_do (Register s c) l1 = Some l2" "loop_ok l2"
    "arm_view s l2 = \<lparr>ar_chan = True, ar_fd = True, ar_read = False, ar_write = False, ar_rcb = None, ar_wcb = None\<rparr>"
    using register_view [OF l1(2)] by blast
  let ?ops = "[SetHandle s (Some H_READ) SOCKET_EVENT_READ, SetHandle s (Some H_ERROR) SOCKET_EVENT_ERROR,
      SetHandle s (Some H_RDHUP) SOCKET_EVENT_RDHUP, SetHandle s (Some H_TIMEOUT) SOCKET_EVENT_TIMEOUT, Enable s SOCKET_EVENT_READ]"
  obtain l3 where l3: "loop_dos ?ops l2 = Some l3" "loop_ok l3" "arm_view s l3 = arm_ops s ?ops (arm_view s l2)"
    using ops_view [OF l2(2), of ?ops s] by auto
  have "client_ops s c fd = SetFd s fd False # Register s c # ?ops" by (simp add: client_ops_def)
  then have "loop_dos (client_ops s c fd) l = Some l3" using l1(1) l2(1) l3(1) by (simp del: loop_do.simps)
  moreover have "arm_view s l3 = \<lparr>ar_chan = True, ar_fd = True, ar_read = True, ar_write = False, ar_rcb = Some H_READ, ar_wcb = None\<rparr>"
    unfolding l3(3) l2(3) by (simp add: arm_handle_def arm_enable_def)
  ultimately show ?thesis using l3(2) assms(5,6) by (intro exI [of _ l3]) (simp add: accepted_def)
qed

text \<open>
  C38. A connection handed back twice, as after a failed set-up of TLS, is given to the next two clients, when
  no other one waits before it; and a connection number can come again: after the last one the numbers
  begin anew, at one, whoever holds it.
\<close>

theorem returned_twice_shared:
  assumes "f_gc f t = []" "map_of (f_conns f) i = Some c"
  shows "\<exists>f1 f2. createConnection C t (connection_recycle C t i d (connection_recycle C t i c f)) = Some (i, f1) \<and>
      createConnection C t f1 = Some (i, f2) \<and> allocID (NOT 0) = 1"
  using assms by (simp_all add: createConnection_def connection_recycle_def factory_recycle_def update_conv' allocID_def)

section \<open>Examples\<close>

definition empty_pool :: "hconn factory" where
  "empty_pool = \<lparr>f_conns = [], f_gc = (\<lambda>_. []), f_idbase = 0\<rparr>"

lemma empty_run: "pool_run (http_class new) empty_pool {}"
  unfolding empty_pool_def by (rule fresh)

theorem pool_exclusive_witness:
  "\<exists>i f'. createConnection (http_class (\<lambda>_. demo_hconn [])) HTTP_CONNECTION empty_pool = Some (i, f') \<and> countAliveConnection f' = 1"
proof -
  have "f_idbase empty_pool < NOT 0" by (rule below_max) (simp add: empty_pool_def)
  from pool_exclusive [OF empty_run [of "\<lambda>_. demo_hconn []"] _ this, of HTTP_CONNECTION] show ?thesis by auto
qed

definition demo_server :: "hconn server" where
  "demo_server =
     \<lparr>sv_acc = \<lparr>a_listen = new_Socket 0, a_type = HTTP_CONNECTION, a_ip = ''127.0.0.1'', a_port = 80, a_limit = 1024, a_wait = 0\<rparr>,
      sv_fact = empty_pool, sv_kern = demo_kern, sv_heap = demo_heap, sv_ops = []\<rparr>"

definition demo_peer :: sockaddr where
  "demo_peer = \<lparr>sin_family = 2, sin_port = 0, sin_addr = 0\<rparr>"

definition demo_accepts :: "accept_res list" where
  "demo_accepts = [\<lparr>ac_res = (5, 0), ac_peer = demo_peer, ac_dup = 600, ac_chan = 7\<rparr>, \<lparr>ac_res = (6, 0), ac_peer = demo_peer, ac_dup = 601, ac_chan = 8\<rparr>]"

definition no_client :: accept_res where
  "no_client = \<lparr>ac_res = (-1, EAGAIN), ac_peer = demo_peer, ac_dup = 0, ac_chan = 0\<rparr>"

definition demo_relisten :: relisten where
  "demo_relisten = \<lparr>rl_close = ((0, 0), (0, 0)), rl_env = demo_env, rl_chan = 9\<rparr>"

theorem acceptHandle_serves_witness:
  "\<exists>v'. acceptHandle (\<lambda>_. ''1.1.1.1'') (\<lambda>_. 0) (http_class (\<lambda>_. demo_hconn [])) demo_relisten (demo_accepts @ [no_client]) demo_server
      = Some (Returns EVENT_CALLBACK_CONTINUE v') \<and> countAliveConnection (sv_fact v') = 2"
proof -
  have f: "sv_fact demo_server = empty_pool" "a_type (sv_acc demo_server) = HTTP_CONNECTION" by (simp_all add: demo_server_def)
  have r: "pool_run (http_class (\<lambda>_. demo_hconn [])) (sv_fact demo_server) {}" unfolding f(1) by (rule empty_run)
  have x: "\<forall>x \<in> set demo_accepts. 0 \<le> fst (ac_res x)" "length demo_accepts = 2" by (simp_all add: demo_accepts_def)
  have y: "fst (ac_res no_client) < 0" "snd (ac_res no_client) = EAGAIN \<or> snd (ac_res no_client) = EWOULDBLOCK"
    by (simp_all add: no_client_def)
  have n: "a_type (sv_acc demo_server) < TCP_UNKNOWN" "unat (f_idbase (sv_fact demo_server)) + length demo_accepts < 4294967295"
    by (simp_all add: f x(2) empty_pool_def)
  obtain v' "is" where v': "acceptHandle (\<lambda>_. ''1.1.1.1'') (\<lambda>_. 0) (http_class (\<lambda>_. demo_hconn [])) demo_relisten (demo_accepts @ [no_client]) demo_server
      = Some (Returns EVENT_CALLBACK_CONTINUE v')" "length (is :: IDType list) = 2" "distinct is" "countAliveConnection (sv_fact v') = int (card (set is))"
    using acceptHandle_serves [OF r n(1) x(1) y n(2), where ntop = "\<lambda>_. ''1.1.1.1''" and inet = "\<lambda>_. 0" and rl = demo_relisten] x(2)
    unfolding x(2) Un_empty_left by blast
  then show ?thesis using distinct_card [OF v'(3)] by auto
qed

theorem client_ops_accept_witness:
  "\<exists>l'. loop_dos (client_ops 5 100 9) demo_loop = Some l' \<and> loop_ok l' \<and>
     accepted \<lparr>cf_arm = arm_view 5 l', cf_conn = demo_hconn [], cf_due = [], cf_timed = False\<rparr>"
proof -
  have "sock_chan demo_loop 5 = None" "100 \<notin> dom (chans demo_loop)" by (simp_all add: demo_loop_def)
  then show ?thesis using client_ops_accept [OF demo_loop_ok, of 5 100 9 "demo_hconn []"] by (simp add: demo_hconn_def)
qed

theorem returned_twice_shared_witness:
  "\<exists>f1 f2. createConnection (http_class (\<lambda>_. demo_hconn [])) 0
       (connection_recycle (http_class (\<lambda>_. demo_hconn [])) 0 3 (demo_hconn [])
         (connection_recycle (http_class (\<lambda>_. demo_hconn [])) 0 3 (demo_hconn []) (empty_pool\<lparr>f_conns := [(3, demo_hconn [])]\<rparr>))) = Some (3, f1) \<and>
     createConnection (http_class (\<lambda>_. demo_hconn [])) 0 f1 = Some (3, f2)"
  using returned_twice_shared [of "empty_pool\<lparr>f_conns := [(3, demo_hconn [])]\<rparr>" 0 3 "demo_hconn []" "http_class (\<lambda>_. demo_hconn [])" "demo_hconn []"]
  by (auto simp: empty_pool_def)

end
