(* ===== verification/Locks.thy ===== *)
theory Locks
  imports Kernel
begin

text \<open>
  \<open>core/FileLock.cpp\<close> and the locks of \<open>core/SysUtil.cpp\<close>: record locks on a file, shared memory, the
  mutex in shared memory, and the two guards. Several processes have copies of a lock
  object, made by a fork; a process is a number.
\<close>

type_synonym pid = nat

section \<open>Shared memory\<close>

text \<open>A mapped region, as far as it is a \<open>shm_mutex_t\<close>; new memory is zero.\<close>

datatype mutex = NoMutex | Free | Held pid | Destroyed

record region =
  rg_mutex :: mutex
  rg_name :: bytes
  rg_refer :: int

text \<open>The names of shared memory, the files of the working directory, the regions, and what each process has mapped.\<close>

record shmos =
  so_names :: "bytes \<rightharpoonup> nat"
  so_files :: "bytes set"
  so_region :: "nat \<rightharpoonup> region"
  so_maps :: "pid \<Rightarrow> nat set"

text \<open>What the kernel answers to a creation: whether the file of that name can be removed and the
  memory opened, and the region; and the results of the three \<open>pthread\<close> calls of an initialisation.\<close>

record shm_res =
  mr_unlink :: bool
  mr_open :: bool
  mr_region :: nat

definition zero_region :: region where
  "zero_region = \<lparr>rg_mutex = NoMutex, rg_name = [], rg_refer = 0\<rparr>"

definition shm_unlink :: "bytes \<Rightarrow> shmos \<Rightarrow> int \<times> shmos" where
  "shm_unlink name k = (if so_names k name = None then (-1, k) else (0, k\<lparr>so_names := (so_names k)(name := None)\<rparr>))"

definition create_process_shared_memory :: "shm_res \<Rightarrow> pid \<Rightarrow> bytes \<Rightarrow> nat \<Rightarrow> bool \<Rightarrow> shmos \<Rightarrow> nat option \<times> shmos" where
  "create_process_shared_memory r p name len clear k =
     (if name = [] \<or> len = 0 then (None, k)
      else if name \<in> so_files k \<and> clear \<and> \<not> mr_unlink r then (None, k)
      else
       (let k1 = (if name \<in> so_files k \<and> clear then k\<lparr>so_files := so_files k - {name}\<rparr> else k)
        in if so_names k1 name \<noteq> None \<or> \<not> mr_open r then (None, k1)
           else (Some (mr_region r),
                 k1\<lparr>so_names := (so_names k1)(name \<mapsto> mr_region r), so_region := (so_region k1)(mr_region r \<mapsto> zero_region),
                    so_maps := (so_maps k1)(p := insert (mr_region r) (so_maps k1 p))\<rparr>)))"

definition destroy_process_shared_memory :: "pid \<Rightarrow> bytes \<Rightarrow> nat option \<Rightarrow> nat \<Rightarrow> shmos \<Rightarrow> int \<times> shmos" where
  "destroy_process_shared_memory p name ptr len k =
     (case ptr of
        None \<Rightarrow> (-1, k)
      | Some a \<Rightarrow>
          if name = [] \<or> len = 0 then (-1, k)
          else shm_unlink name (k\<lparr>so_maps := (so_maps k)(p := so_maps k p - {a})\<rparr>))"

record SharedMemory =
  sh_name :: bytes
  sh_pid :: pid
  sh_ptr :: "nat option"
  sh_len :: nat

definition DEFAULT_SHM_MUTEX_FILENAME :: bytes where
  "DEFAULT_SHM_MUTEX_FILENAME = ''tigerso-mutex''"

text \<open>\<open>time\<close> is the formatted time.\<close>

definition SharedMemory_init :: "shm_res \<Rightarrow> bytes \<Rightarrow> pid \<Rightarrow> SharedMemory \<Rightarrow> shmos \<Rightarrow> int \<times> SharedMemory \<times> shmos" where
  "SharedMemory_init r time p m k =
     (let m0 = m\<lparr>sh_pid := p\<rparr>
      in if sh_len m0 = 0 then (-1, m0, k)
         else
          (let m1 = (if sh_name m0 = [] then m0\<lparr>sh_name := DEFAULT_SHM_MUTEX_FILENAME @ time\<rparr> else m0);
               (ptr, k1) = create_process_shared_memory r p (sh_name m1) (sh_len m1) True (snd (shm_unlink (sh_name m1) k))
           in (0, m1\<lparr>sh_ptr := ptr\<rparr>, k1)))"

definition SharedMemory_destroy :: "pid \<Rightarrow> SharedMemory \<Rightarrow> shmos \<Rightarrow> int \<times> shmos" where
  "SharedMemory_destroy p m k =
     (if sh_name m = [] \<or> sh_ptr m = None \<or> sh_len m = 0 then (-1, k)
      else (-1, snd (destroy_process_shared_memory p (sh_name m) (sh_ptr m) (sh_len m) k)))"

text \<open>The destructor; only the process that made the memory removes it.\<close>

definition SharedMemory_delete :: "pid \<Rightarrow> SharedMemory \<Rightarrow> shmos \<Rightarrow> shmos" where
  "SharedMemory_delete p m k = (if p \<noteq> sh_pid m then k else snd (SharedMemory_destroy p m k))"

section \<open>The mutex in shared memory\<close>

record ShmMutex =
  sm_ptr :: "nat option"
  sm_name :: bytes
  sm_pid :: pid
  sm_locked_pid :: pid
  sm_locked :: bool

abbreviation EBUSY :: int where "EBUSY \<equiv> 16"

text \<open>The region behind the pointer of process \<open>p\<close>; \<open>None\<close> when it is not mapped.\<close>

definition region_at :: "pid \<Rightarrow> nat \<Rightarrow> shmos \<Rightarrow> region option" where
  "region_at p a k = (if a \<in> so_maps k p then so_region k a else None)"

definition set_region :: "nat \<Rightarrow> region \<Rightarrow> shmos \<Rightarrow> shmos" where
  "set_region a g k = k\<lparr>so_region := (so_region k)(a \<mapsto> g)\<rparr>"

text \<open>\<open>rets\<close> are the results of \<open>pthread_mutexattr_init\<close>, \<open>pthread_mutexattr_setpshared\<close> and \<open>pthread_mutex_init\<close>. A name of more
  than 1024 characters runs past its array.\<close>

definition ShmMutex_init :: "shm_res \<Rightarrow> int \<times> int \<times> int \<Rightarrow> bytes \<Rightarrow> nat \<Rightarrow> pid \<Rightarrow> ShmMutex \<Rightarrow> shmos \<Rightarrow> (int \<times> ShmMutex \<times> shmos) option" where
  "ShmMutex_init r rets time len p m k =
     (if sm_ptr m \<noteq> None then Some (0, m, k)
      else
       (let m1 = (if sm_name m = [] then m\<lparr>sm_name := DEFAULT_SHM_MUTEX_FILENAME @ time\<rparr> else m);
            (ptr, k1) = create_process_shared_memory r p (sm_name m1) len True (snd (shm_unlink (sm_name m1) k))
        in case ptr of
             None \<Rightarrow> Some (-1, m1, k1)
           | Some a \<Rightarrow>
               if length (sm_name m1) > 1024 then None
               else
                (let m2 = m1\<lparr>sm_ptr := Some a\<rparr>; g = zero_region\<lparr>rg_name := sm_name m1\<rparr>; (r1, r2, r3) = rets
                 in if r1 \<noteq> 0 then Some (r1, m2, set_region a g k1)
                    else if r2 \<noteq> 0 then Some (r2, m2, set_region a g k1)
                    else if r3 \<noteq> 0 then Some (r3, m2, set_region a g k1)
                    else Some (0, m2, set_region a (g\<lparr>rg_mutex := Free\<rparr>) k1))))"

text \<open>The reference count, changed through the pointer if there is one.\<close>

definition set_refer :: "(int \<Rightarrow> int) \<Rightarrow> pid \<Rightarrow> nat option \<Rightarrow> shmos \<Rightarrow> shmos option" where
  "set_refer f p ptr k =
     (case ptr of
        None \<Rightarrow> Some k
      | Some a \<Rightarrow> map_option (\<lambda>g. set_region a (g\<lparr>rg_refer := f (rg_refer g)\<rparr>) k) (region_at p a k))"

definition ShmMutex_default :: "shm_res \<Rightarrow> int \<times> int \<times> int \<Rightarrow> bytes \<Rightarrow> nat \<Rightarrow> pid \<Rightarrow> pid \<Rightarrow> shmos \<Rightarrow> (ShmMutex \<times> shmos) option" where
  "ShmMutex_default r rets time len garbage p k =
     do { (_, m, k1) \<leftarrow> ShmMutex_init r rets time len p
                          \<lparr>sm_ptr = None, sm_name = [], sm_pid = p, sm_locked_pid = garbage, sm_locked = False\<rparr> k;
          k2 \<leftarrow> set_refer (\<lambda>_. 1) p (sm_ptr m) k1;
          Some (m, k2) }"

text \<open>The constructor with a name compares the pointer with null instead of setting it: it keeps
  the value that was in memory.\<close>

definition ShmMutex_named :: "shm_res \<Rightarrow> int \<times> int \<times> int \<Rightarrow> bytes \<Rightarrow> nat \<Rightarrow> pid \<Rightarrow> nat option \<Rightarrow> bytes \<Rightarrow> pid \<Rightarrow> shmos \<Rightarrow> (ShmMutex \<times> shmos) option" where
  "ShmMutex_named r rets time len garbage memory name p k =
     do { (_, m, k1) \<leftarrow> ShmMutex_init r rets time len p
                          \<lparr>sm_ptr = memory, sm_name = name, sm_pid = p, sm_locked_pid = garbage, sm_locked = False\<rparr> k;
          k2 \<leftarrow> set_refer (\<lambda>_. 1) p (sm_ptr m) k1;
          Some (m, k2) }"

definition ShmMutex_copy :: "pid \<Rightarrow> pid \<Rightarrow> ShmMutex \<Rightarrow> shmos \<Rightarrow> (ShmMutex \<times> shmos) option" where
  "ShmMutex_copy garbage p b k =
     do { k1 \<leftarrow> set_refer (\<lambda>n. n + 1) p (sm_ptr b) k;
          Some (\<lparr>sm_ptr = sm_ptr b, sm_name = sm_name b, sm_pid = p, sm_locked_pid = garbage, sm_locked = False\<rparr>, k1) }"

text \<open>Locking; a lock that is held blocks, and so does one that was never made free. No result is one that does not come.\<close>

definition ShmMutex_lock :: "pid \<Rightarrow> ShmMutex \<Rightarrow> shmos \<Rightarrow> (int \<times> ShmMutex \<times> shmos) option" where
  "ShmMutex_lock p m k =
     (case sm_ptr m of
        None \<Rightarrow> Some (-1, m, k)
      | Some a \<Rightarrow>
          do { g \<leftarrow> region_at p a k;
               case rg_mutex g of
                 Free \<Rightarrow> Some (0, m\<lparr>sm_locked_pid := p, sm_locked := True\<rparr>, set_region a (g\<lparr>rg_mutex := Held p\<rparr>) k)
               | _ \<Rightarrow> None })"

definition ShmMutex_try_lock :: "pid \<Rightarrow> ShmMutex \<Rightarrow> shmos \<Rightarrow> (int \<times> ShmMutex \<times> shmos) option" where
  "ShmMutex_try_lock p m k =
     (case sm_ptr m of
        None \<Rightarrow> Some (-1, m, k)
      | Some a \<Rightarrow>
          do { g \<leftarrow> region_at p a k;
               case rg_mutex g of
                 Free \<Rightarrow> Some (0, m\<lparr>sm_locked_pid := p, sm_locked := True\<rparr>, set_region a (g\<lparr>rg_mutex := Held p\<rparr>) k)
               | Held q \<Rightarrow> Some (EBUSY, m, k)
               | _ \<Rightarrow> None })"

definition ShmMutex_unlock :: "pid \<Rightarrow> ShmMutex \<Rightarrow> shmos \<Rightarrow> (int \<times> ShmMutex \<times> shmos) option" where
  "ShmMutex_unlock p m k =
     (case sm_ptr m of
        None \<Rightarrow> Some (-1, m, k)
      | Some a \<Rightarrow>
          do { g \<leftarrow> region_at p a k;
               if rg_mutex g = Held p
               then Some (0, m\<lparr>sm_locked_pid := 0, sm_locked := False\<rparr>, set_region a (g\<lparr>rg_mutex := Free\<rparr>) k)
               else None })"

definition ShmMutex_destroy :: "pid \<Rightarrow> ShmMutex \<Rightarrow> shmos \<Rightarrow> (int \<times> shmos) option" where
  "ShmMutex_destroy p m k =
     (case sm_ptr m of
        None \<Rightarrow> Some (0, k)
      | Some a \<Rightarrow>
          do { g \<leftarrow> region_at p a k;
               case rg_mutex g of
                 Free \<Rightarrow> Some (0, set_region a (g\<lparr>rg_mutex := Destroyed\<rparr>) k)
               | Held q \<Rightarrow> Some (EBUSY, k)
               | _ \<Rightarrow> None })"

text \<open>The destructor. The file it removes last lacks a slash in its name.\<close>

definition ShmMutex_delete :: "nat \<Rightarrow> pid \<Rightarrow> ShmMutex \<Rightarrow> shmos \<Rightarrow> shmos option" where
  "ShmMutex_delete len p m k =
     do { (m1, k1) \<leftarrow> (if sm_locked m then do { (_, m', k') \<leftarrow> ShmMutex_unlock p m k; Some (m', k') } else Some (m, k));
          k2 \<leftarrow> set_refer (\<lambda>n. n - 1) p (sm_ptr m1) k1;
          if p = sm_pid m1 then
            do { (_, k3) \<leftarrow> ShmMutex_destroy p m1 k2;
                 let k4 = snd (destroy_process_shared_memory p (sm_name m1) (sm_ptr m1) len k3);
                 Some (k4\<lparr>so_files := so_files k4 - {''/dev/shm'' @ sm_name m1}\<rparr>) }
          else Some k2 }"

text \<open>The assignment returns a copy, which the caller discards; \<open>self\<close> when an object is assigned to itself.\<close>

definition ShmMutex_assign :: "nat \<Rightarrow> pid \<Rightarrow> pid \<Rightarrow> bool \<Rightarrow> ShmMutex \<Rightarrow> ShmMutex \<Rightarrow> shmos \<Rightarrow> (ShmMutex \<times> shmos) option" where
  "ShmMutex_assign len garbage p self a b k =
     do { let a1 = (if self then a else a\<lparr>sm_name := sm_name b, sm_pid := p, sm_ptr := sm_ptr b\<rparr>);
          k1 \<leftarrow> (if self then Some k else set_refer (\<lambda>n. n + 1) p (sm_ptr a1) k);
          (c, k2) \<leftarrow> ShmMutex_copy garbage p a1 k1;
          k3 \<leftarrow> ShmMutex_delete len p c k2;
          Some (a1, k3) }"

section \<open>The lock on a file\<close>

datatype flock_kind = F_RDLCK | F_WRLCK | F_UNLCK

text \<open>Files by name and number, their contents, the record locks of the processes, and the open descriptors.\<close>

record filos =
  fo_names :: "bytes \<rightharpoonup> nat"
  fo_data :: "nat \<Rightarrow> bytes"
  fo_locks :: "nat \<Rightarrow> pid \<rightharpoonup> flock_kind"
  fo_open :: "pid \<Rightarrow> int \<rightharpoonup> nat"
  fo_next :: nat

text \<open>\<open>fcntl\<close> with \<open>F_SETLK\<close> on a whole file. A process's own lock is replaced.\<close>

definition setlk :: "pid \<Rightarrow> int \<Rightarrow> flock_kind \<Rightarrow> filos \<Rightarrow> int \<times> filos" where
  "setlk p fd kind k =
     (case fo_open k p fd of
        None \<Rightarrow> (-1, k)
      | Some i \<Rightarrow>
          let others = (fo_locks k i)(p := None); to = (\<lambda>x. k\<lparr>fo_locks := (fo_locks k)(i := (fo_locks k i)(p := x))\<rparr>)
          in case kind of
               F_UNLCK \<Rightarrow> (0, to None)
             | F_WRLCK \<Rightarrow> if others = Map.empty then (0, to (Some F_WRLCK)) else (-1, k)
             | F_RDLCK \<Rightarrow> if F_WRLCK \<in> ran others then (-1, k) else (0, to (Some F_RDLCK)))"

definition open_file :: "pid \<Rightarrow> bytes \<Rightarrow> int \<Rightarrow> filos \<Rightarrow> int \<times> filos" where
  "open_file p name nfd k =
     (if nfd < 0 then (-1, k)
      else
       (let i = (case fo_names k name of None \<Rightarrow> fo_next k | Some j \<Rightarrow> j)
        in (nfd, k\<lparr>fo_names := (fo_names k)(name \<mapsto> i), fo_data := (fo_data k)(i := []),
                   fo_next := (if fo_names k name = None then fo_next k + 1 else fo_next k),
                   fo_open := (fo_open k)(p := (fo_open k p)(nfd \<mapsto> i))\<rparr>)))"

definition write_file :: "pid \<Rightarrow> int \<Rightarrow> bytes \<Rightarrow> filos \<Rightarrow> filos" where
  "write_file p fd xs k = (case fo_open k p fd of None \<Rightarrow> k | Some i \<Rightarrow> k\<lparr>fo_data := (fo_data k)(i := xs)\<rparr>)"

text \<open>Closing any descriptor of a file drops all locks of the process on it.\<close>

definition close_file :: "pid \<Rightarrow> int \<Rightarrow> filos \<Rightarrow> filos" where
  "close_file p fd k =
     (case fo_open k p fd of
        None \<Rightarrow> k
      | Some i \<Rightarrow> k\<lparr>fo_locks := (fo_locks k)(i := (fo_locks k i)(p := None)), fo_open := (fo_open k)(p := (fo_open k p)(fd := None))\<rparr>)"

definition unlink_file :: "bytes \<Rightarrow> filos \<Rightarrow> int \<times> filos" where
  "unlink_file name k = (if fo_names k name = None then (-1, k) else (0, k\<lparr>fo_names := (fo_names k)(name := None)\<rparr>))"

record FileLock =
  fl_filename :: bytes
  fl_content :: bytes
  fl_locked :: bool
  fl_fd :: int

abbreviation LOCK_SUCCESS :: int where "LOCK_SUCCESS \<equiv> 0"
abbreviation LOCK_FAILURE :: int where "LOCK_FAILURE \<equiv> -1"

definition lock_cmd :: "pid \<Rightarrow> flock_kind \<Rightarrow> FileLock \<Rightarrow> filos \<Rightarrow> int \<times> filos" where
  "lock_cmd p kind m k = setlk p (fl_fd m) kind k"

definition FileLock_read_lock :: "pid \<Rightarrow> FileLock \<Rightarrow> filos \<Rightarrow> int \<times> filos" where
  "FileLock_read_lock p m k = (let (r, k1) = lock_cmd p F_RDLCK m k in (if r < 0 then LOCK_FAILURE else LOCK_SUCCESS, k1))"

definition FileLock_lock :: "pid \<Rightarrow> FileLock \<Rightarrow> filos \<Rightarrow> int \<times> FileLock \<times> filos" where
  "FileLock_lock p m k =
     (let (r, k1) = lock_cmd p F_WRLCK m k
      in if r < 0 then (LOCK_FAILURE, m, k1) else (LOCK_SUCCESS, m\<lparr>fl_locked := True\<rparr>, k1))"

definition FileLock_try_lock :: "pid \<Rightarrow> FileLock \<Rightarrow> filos \<Rightarrow> int \<times> FileLock \<times> filos" where
  "FileLock_try_lock p m k = FileLock_lock p m k"

definition FileLock_unlock :: "pid \<Rightarrow> FileLock \<Rightarrow> filos \<Rightarrow> int \<times> FileLock \<times> filos" where
  "FileLock_unlock p m k =
     (let (r, k1) = lock_cmd p F_UNLCK m k
      in if r < 0 then (LOCK_FAILURE, m, k1) else (LOCK_SUCCESS, m\<lparr>fl_locked := False\<rparr>, k1))"

text \<open>\<open>init\<close>; \<open>nfd\<close> is what \<open>open\<close> returns. The lock taken for writing the content is kept when the content is empty.\<close>

definition FileLock_init :: "int \<Rightarrow> pid \<Rightarrow> FileLock \<Rightarrow> filos \<Rightarrow> int \<times> FileLock \<times> filos" where
  "FileLock_init nfd p m k =
     (let (fd, k1) = open_file p (fl_filename m) nfd k; m1 = m\<lparr>fl_fd := fd\<rparr>
      in if fd < 0 then (-1, m1, k1)
         else if fl_locked m1 then (0, m1, if fl_content m1 \<noteq> [] then write_file p fd (fl_content m1) k1 else k1)
         else
          (let (r, m2, k2) = FileLock_lock p m1 k1
           in if r = LOCK_SUCCESS \<and> fl_content m2 \<noteq> []
              then (0, snd (FileLock_unlock p m2 (write_file p fd (fl_content m2) k2)))
              else (0, m2, k2)))"

definition FileLock_new :: "int \<Rightarrow> pid \<Rightarrow> bytes \<Rightarrow> bytes \<Rightarrow> filos \<Rightarrow> FileLock \<times> filos" where
  "FileLock_new nfd p name content k = snd (FileLock_init nfd p \<lparr>fl_filename = name, fl_content = content, fl_locked = False, fl_fd = 0\<rparr> k)"

definition FileLock_destroy :: "pid \<Rightarrow> FileLock \<Rightarrow> filos \<Rightarrow> int \<times> FileLock \<times> filos" where
  "FileLock_destroy p m k =
     (let (m1, k1) = (if fl_locked m then snd (FileLock_unlock p m k) else (m, k));
          (r, k2) = unlink_file (fl_filename m1) (close_file p (fl_fd m1) k1)
      in (r, m1, k2))"

section \<open>The guards\<close>

text \<open>What a process does under a guard: a world of locks, and the processes inside their sections. The
  try guard enters a section only when it has the lock, the plain guard in any case.\<close>

inductive try_sections :: "(pid \<Rightarrow> 'w \<Rightarrow> (int \<times> 'w) option) \<Rightarrow> (pid \<Rightarrow> 'w \<Rightarrow> (int \<times> 'w) option) \<Rightarrow> 'w \<Rightarrow> 'w \<times> pid set \<Rightarrow> bool" for tl ul w where
  try_start: "try_sections tl ul w (w, {})"
| try_enter: "try_sections tl ul w (v, inside) \<Longrightarrow> p \<notin> inside \<Longrightarrow> tl p v = Some (r, v') \<Longrightarrow>
              try_sections tl ul w (v', if r = 0 then insert p inside else inside)"
| try_leave: "try_sections tl ul w (v, inside) \<Longrightarrow> p \<in> inside \<Longrightarrow> ul p v = Some (r, v') \<Longrightarrow>
              try_sections tl ul w (v', inside - {p})"

inductive plain_sections :: "(pid \<Rightarrow> 'w \<Rightarrow> (int \<times> 'w) option) \<Rightarrow> (pid \<Rightarrow> 'w \<Rightarrow> (int \<times> 'w) option) \<Rightarrow> 'w \<Rightarrow> 'w \<times> pid set \<Rightarrow> bool" for lk ul w where
  plain_start: "plain_sections lk ul w (w, {})"
| plain_enter: "plain_sections lk ul w (v, inside) \<Longrightarrow> p \<notin> inside \<Longrightarrow> lk p v = Some (r, v') \<Longrightarrow>
                plain_sections lk ul w (v', insert p inside)"
| plain_leave: "plain_sections lk ul w (v, inside) \<Longrightarrow> p \<in> inside \<Longrightarrow> ul p v = Some (r, v') \<Longrightarrow>
                plain_sections lk ul w (v', inside - {p})"

text \<open>What a guard needs of a lock: a result of zero makes the caller the owner of a lock that nobody
  owned, any other result changes no owner, and the owner's unlocking frees it.\<close>

locale exclusive_lock =
  fixes tl ul :: "pid \<Rightarrow> 'w \<Rightarrow> (int \<times> 'w) option" and good :: "'w \<Rightarrow> bool" and owners :: "'w \<Rightarrow> pid set"
  assumes taken: "good w \<Longrightarrow> p \<notin> owners w \<Longrightarrow> tl p w = Some (r, w') \<Longrightarrow>
      good w' \<and> (if r = 0 then owners w = {} \<and> owners w' = {p} else owners w' = owners w)"
    and freed: "good w \<Longrightarrow> owners w = {p} \<Longrightarrow> ul p w = Some (r, w') \<Longrightarrow> good w' \<and> owners w' = {}"
begin

lemma sections_owners:
  assumes "try_sections tl ul w (v, inside)" "good w" "owners w = {}"
  shows "good v \<and> inside = owners v \<and> (\<forall>p \<in> owners v. owners v = {p})"
  using assms(1)
proof (induction "(v, inside)" arbitrary: v inside rule: try_sections.induct)
  case try_start
  then show ?case using assms(2,3) by simp
next
  case (try_enter v inside p r v')
  then have "p \<notin> owners v" "good v" by auto
  then have t: "good v' \<and> (if r = 0 then owners v = {} \<and> owners v' = {p} else owners v' = owners v)"
    using taken try_enter(4) by blast
  then show ?case using try_enter(2) by (cases "r = 0") auto
next
  case (try_leave v inside p r v')
  then have p: "owners v = {p}" "good v" by auto
  then have "good v' \<and> owners v' = {}" using freed try_leave(4) by blast
  then show ?case using try_leave(2) p by auto
qed

lemma excludes:
  assumes "try_sections tl ul w (v, inside)" "good w" "owners w = {}" "p \<in> inside" "q \<in> inside"
  shows "p = q"
  using sections_owners [OF assms(1-3)] assms(4,5) by blast

end

section \<open>The locks as worlds\<close>

text \<open>Every process has its own copy of the lock object.\<close>

type_synonym shm_world = "(pid \<Rightarrow> ShmMutex) \<times> shmos"
type_synonym file_world = "(pid \<Rightarrow> FileLock) \<times> filos"

definition on_shm :: "(pid \<Rightarrow> ShmMutex \<Rightarrow> shmos \<Rightarrow> (int \<times> ShmMutex \<times> shmos) option) \<Rightarrow> pid \<Rightarrow> shm_world \<Rightarrow> (int \<times> shm_world) option" where
  "on_shm f p w = map_option (\<lambda>(r, m, k). (r, (fst w)(p := m), k)) (f p (fst w p) (snd w))"

definition on_file :: "(pid \<Rightarrow> FileLock \<Rightarrow> filos \<Rightarrow> int \<times> FileLock \<times> filos) \<Rightarrow> pid \<Rightarrow> file_world \<Rightarrow> (int \<times> file_world) option" where
  "on_file f p w = (let (r, m, k) = f p (fst w p) (snd w) in Some (r, (fst w)(p := m), k))"

text \<open>All copies point to one initialised mutex; all copies have the same file open.\<close>

definition shm_good :: "nat \<Rightarrow> shm_world \<Rightarrow> bool" where
  "shm_good a w \<longleftrightarrow> (\<forall>p. sm_ptr (fst w p) = Some a \<and> a \<in> so_maps (snd w) p) \<and>
     (\<exists>g. so_region (snd w) a = Some g \<and> (rg_mutex g = Free \<or> (\<exists>q. rg_mutex g = Held q)))"

definition shm_owner :: "nat \<Rightarrow> shm_world \<Rightarrow> pid set" where
  "shm_owner a w = (case so_region (snd w) a of None \<Rightarrow> {} | Some g \<Rightarrow> (case rg_mutex g of Held q \<Rightarrow> {q} | _ \<Rightarrow> {}))"

definition file_owner :: "nat \<Rightarrow> file_world \<Rightarrow> pid set" where
  "file_owner i w = dom (fo_locks (snd w) i)"

definition file_good :: "nat \<Rightarrow> file_world \<Rightarrow> bool" where
  "file_good i w \<longleftrightarrow> (\<forall>p. fo_open (snd w) p (fl_fd (fst w p)) = Some i) \<and> (\<forall>p \<in> file_owner i w. file_owner i w = {p})"

lemma shm_state:
  assumes "shm_good a w"
  obtains (free) g where "so_region (snd w) a = Some g" "rg_mutex g = Free" "shm_owner a w = {}" "\<And>p. region_at p a (snd w) = Some g"
      "\<And>p. sm_ptr (fst w p) = Some a"
    | (held) g q where "so_region (snd w) a = Some g" "rg_mutex g = Held q" "shm_owner a w = {q}" "\<And>p. region_at p a (snd w) = Some g"
      "\<And>p. sm_ptr (fst w p) = Some a"
  using assms that by (auto simp: shm_good_def shm_owner_def region_at_def)

lemma shm_set:
  assumes "shm_good a w" "sm_ptr m = Some a"
  shows "rg_mutex g = Held q \<Longrightarrow> shm_good a ((fst w)(p := m), set_region a g (snd w)) \<and> shm_owner a ((fst w)(p := m), set_region a g (snd w)) = {q}"
    and "rg_mutex g = Free \<Longrightarrow> shm_good a ((fst w)(p := m), set_region a g (snd w)) \<and> shm_owner a ((fst w)(p := m), set_region a g (snd w)) = {}"
  using assms by (auto simp: shm_good_def shm_owner_def set_region_def)

lemma shm_taken:
  assumes "shm_good a w" "on_shm f p w = Some (r, w')" "f = ShmMutex_try_lock \<or> f = ShmMutex_lock"
  shows "shm_good a w' \<and> (if r = 0 then shm_owner a w = {} \<and> shm_owner a w' = {p} else shm_owner a w' = shm_owner a w)"
  using assms(1)
proof (cases rule: shm_state)
  case (free g)
  then have "w' = ((fst w)(p := (fst w p)\<lparr>sm_locked_pid := p, sm_locked := True\<rparr>), set_region a (g\<lparr>rg_mutex := Held p\<rparr>) (snd w))" "r = 0"
    using assms(2,3) by (auto simp: on_shm_def ShmMutex_try_lock_def ShmMutex_lock_def)
  then show ?thesis using shm_set(1) [OF assms(1)] free by simp
next
  case (held g q)
  then have "w' = ((fst w)(p := fst w p), snd w)" "r = EBUSY"
    using assms(2,3) by (auto simp: on_shm_def ShmMutex_try_lock_def ShmMutex_lock_def)
  then show ?thesis using assms(1) by simp
qed

lemma shm_freed:
  assumes "shm_good a w" "shm_owner a w = {p}" "on_shm ShmMutex_unlock p w = Some (r, w')"
  shows "shm_good a w' \<and> shm_owner a w' = {}"
  using assms(1)
proof (cases rule: shm_state)
  case (held g q)
  then have "w' = ((fst w)(p := (fst w p)\<lparr>sm_locked_pid := 0, sm_locked := False\<rparr>), set_region a (g\<lparr>rg_mutex := Free\<rparr>) (snd w))"
    using assms(2,3) by (auto simp: on_shm_def ShmMutex_unlock_def)
  then show ?thesis using shm_set(2) [OF assms(1)] held by simp
qed (use assms(2) in simp)

interpretation shm_try: exclusive_lock "on_shm ShmMutex_try_lock" "on_shm ShmMutex_unlock" "shm_good a" "shm_owner a" for a
  by unfold_locales (use shm_taken shm_freed in blast)+

interpretation shm_lock: exclusive_lock "on_shm ShmMutex_lock" "on_shm ShmMutex_unlock" "shm_good a" "shm_owner a" for a
  by unfold_locales (use shm_taken shm_freed in blast)+

text \<open>The same for the lock on a file, between processes.\<close>

lemma file_set:
  assumes "file_good i w" "fl_fd m = fl_fd (fst w p)" "\<forall>p \<in> dom x. dom x = {p}"
  shows "file_good i ((fst w)(p := m), (snd w)\<lparr>fo_locks := (fo_locks (snd w))(i := x)\<rparr>) \<and>
    file_owner i ((fst w)(p := m), (snd w)\<lparr>fo_locks := (fo_locks (snd w))(i := x)\<rparr>) = dom x"
  using assms by (auto simp: file_good_def file_owner_def)

lemma file_taken:
  assumes "file_good i w" "p \<notin> file_owner i w" "on_file FileLock_try_lock p w = Some (r, w')"
  shows "file_good i w' \<and> (if r = 0 then file_owner i w = {} \<and> file_owner i w' = {p} else file_owner i w' = file_owner i w)"
proof -
  have o: "fo_open (snd w) p (fl_fd (fst w p)) = Some i" using assms(1) by (simp add: file_good_def)
  have n: "(fo_locks (snd w) i)(p := None) = fo_locks (snd w) i" using assms(2) by (auto simp: file_owner_def)
  show ?thesis
  proof (cases "file_owner i w = {}")
    case True
    then have e: "fo_locks (snd w) i = Map.empty" by (simp add: file_owner_def)
    then have "r = 0" "w' = ((fst w)(p := (fst w p)\<lparr>fl_locked := True\<rparr>), (snd w)\<lparr>fo_locks := (fo_locks (snd w))(i := [p \<mapsto> F_WRLCK])\<rparr>)"
      using assms(3) o by (auto simp: on_file_def FileLock_try_lock_def FileLock_lock_def lock_cmd_def setlk_def Let_def)
    then show ?thesis using file_set [OF assms(1), of "(fst w p)\<lparr>fl_locked := True\<rparr>" p "[p \<mapsto> F_WRLCK]"] True by simp
  next
    case False
    then have "fo_locks (snd w) i \<noteq> Map.empty" by (simp add: file_owner_def)
    then have "r = LOCK_FAILURE" "w' = ((fst w)(p := fst w p), snd w)"
      using assms(3) o n by (auto simp: on_file_def FileLock_try_lock_def FileLock_lock_def lock_cmd_def setlk_def Let_def)
    then show ?thesis using assms(1) by simp
  qed
qed

lemma file_freed:
  assumes "file_good i w" "file_owner i w = {p}" "on_file FileLock_unlock p w = Some (r, w')"
  shows "file_good i w' \<and> file_owner i w' = {}"
proof -
  have o: "fo_open (snd w) p (fl_fd (fst w p)) = Some i" using assms(1) by (simp add: file_good_def)
  have e: "(fo_locks (snd w) i)(p := None) = Map.empty" using assms(2) by (auto simp: file_owner_def fun_eq_iff domIff)
  then have "w' = ((fst w)(p := (fst w p)\<lparr>fl_locked := False\<rparr>), (snd w)\<lparr>fo_locks := (fo_locks (snd w))(i := Map.empty)\<rparr>)"
    using assms(3) o by (auto simp: on_file_def FileLock_unlock_def lock_cmd_def setlk_def Let_def)
  then show ?thesis using file_set [OF assms(1), of "(fst w p)\<lparr>fl_locked := False\<rparr>" p Map.empty] by simp
qed

interpretation file_try: exclusive_lock "on_file FileLock_try_lock" "on_file FileLock_unlock" "file_good i" "file_owner i" for i
  by unfold_locales (use file_taken file_freed in blast)+

section \<open>What the guards give\<close>

text \<open>
  C16. Mutual exclusion. Any number of processes that share one initialised mutex, and run sections under the
  try guard or the plain guard of it, are never inside their sections at the same time, in any
  order of their steps; nor are processes with the same file open under the try guard of a file lock.
\<close>

theorem guards_exclude:
  assumes "shm_good a w" "shm_owner a w = {}" "file_good i u" "file_owner i u = {}"
  shows "(\<forall>v inside. try_sections (on_shm ShmMutex_try_lock) (on_shm ShmMutex_unlock) w (v, inside) \<longrightarrow> (\<forall>p \<in> inside. \<forall>q \<in> inside. p = q)) \<and>
    (\<forall>v inside. try_sections (on_shm ShmMutex_lock) (on_shm ShmMutex_unlock) w (v, inside) \<longrightarrow> (\<forall>p \<in> inside. \<forall>q \<in> inside. p = q)) \<and>
    (\<forall>v inside. try_sections (on_file FileLock_try_lock) (on_file FileLock_unlock) u (v, inside) \<longrightarrow> (\<forall>p \<in> inside. \<forall>q \<in> inside. p = q))"
  using shm_try.excludes [OF _ assms(1,2)] shm_lock.excludes [OF _ assms(1,2)] file_try.excludes [OF _ assms(3,4)] by blast

text \<open>
  The plain guard does not look at the result of \<open>lock\<close>, and the lock on a file does not wait:
  whoever holds the file's lock, any two processes get inside their sections together.
\<close>

theorem plain_guard_shares_file:
  assumes "file_good i w" "p \<noteq> q"
  shows "\<exists>v. plain_sections (on_file FileLock_lock) (on_file FileLock_unlock) w (v, {p, q})"
proof -
  obtain r1 v1 where 1: "on_file FileLock_lock p w = Some (r1, v1)" by (auto simp: on_file_def Let_def split_beta)
  obtain r2 v2 where 2: "on_file FileLock_lock q v1 = Some (r2, v2)" by (auto simp: on_file_def Let_def split_beta)
  have "plain_sections (on_file FileLock_lock) (on_file FileLock_unlock) w (v1, {p})"
    by (rule plain_enter [OF plain_start]) (simp_all add: 1)
  then have "plain_sections (on_file FileLock_lock) (on_file FileLock_unlock) w (v2, insert q {p})"
    by (rule plain_enter) (use assms(2) 2 in auto)
  then show ?thesis by (intro exI [of _ v2]) (simp add: insert_commute)
qed

text \<open>
  Assigning a mutex object destroys the mutex. The assignment returns a copy by value, and the copy's
  destructor, run by the process that assigned, destroys the shared mutex and unmaps its memory:
  the next use of the assigned object reads memory that is gone, in this process, and the mutex
  is of no use in any other.
\<close>

theorem assignment_destroys:
  assumes "sm_ptr b = Some r" "r \<in> so_maps k p" "so_region k r = Some g" "rg_mutex g = Free" "sm_name b \<noteq> []" "0 < len"
  shows "\<exists>a' k'. ShmMutex_assign len garbage p False a b k = Some (a', k') \<and>
    ShmMutex_try_lock p a' k' = None \<and> map_option rg_mutex (so_region k' r) = Some Destroyed \<and>
    (\<forall>q. sm_ptr (m q) = Some r \<longrightarrow> ShmMutex_try_lock q (m q) k' = None)"
proof -
  define g' where "g' = g\<lparr>rg_mutex := Destroyed\<rparr>"
  define k1 where "k1 = set_region r (g\<lparr>rg_refer := rg_refer g + 1\<rparr>) k"
  define k2 where "k2 = set_region r (g\<lparr>rg_refer := rg_refer g + 2\<rparr>) k1"
  define k3 where "k3 = set_region r (g\<lparr>rg_refer := 1 + rg_refer g\<rparr>) k2"
  define k4 where "k4 = set_region r (g\<lparr>rg_refer := 1 + rg_refer g, rg_mutex := Destroyed\<rparr>) k3"
  note ks = k1_def k2_def k3_def k4_def
  let ?a = "a\<lparr>sm_name := sm_name b, sm_pid := p, sm_ptr := Some r\<rparr>"
  let ?c = "\<lparr>sm_ptr = Some r, sm_name = sm_name b, sm_pid = p, sm_locked_pid = garbage, sm_locked = False\<rparr>"
  have at: "region_at p r k1 = Some (g\<lparr>rg_refer := rg_refer g + 1\<rparr>)" "region_at p r k2 = Some (g\<lparr>rg_refer := rg_refer g + 2\<rparr>)"
    "region_at p r k3 = Some (g\<lparr>rg_refer := 1 + rg_refer g\<rparr>)" "region_at p r k = Some g"
    using assms(2,3) by (simp_all add: ks region_at_def set_region_def)
  have c: "ShmMutex_copy garbage p ?a k1 = Some (?c, k2)" using at by (simp add: ShmMutex_copy_def set_refer_def k2_def add.commute)
  define k5 where "k5 = snd (destroy_process_shared_memory p (sm_name b) (Some r) len k4)"
  define k6 where "k6 = k5\<lparr>so_files := so_files k5 - {''/dev/shm'' @ sm_name b}\<rparr>"
  have d: "ShmMutex_delete len p ?c k2 = Some k6"
    using at assms(4) by (simp add: ShmMutex_delete_def set_refer_def ShmMutex_destroy_def k3_def [symmetric] k4_def [symmetric] k5_def [symmetric] k6_def)
  have e: "ShmMutex_assign len garbage p False a b k = Some (?a, k6)"
    using c d at assms(1) by (simp add: ShmMutex_assign_def set_refer_def k1_def [symmetric])
  have r: "so_region k6 r = Some (g\<lparr>rg_refer := 1 + rg_refer g, rg_mutex := Destroyed\<rparr>)" "r \<notin> so_maps k6 p"
    using assms(5,6) by (auto simp: k6_def k5_def k4_def destroy_process_shared_memory_def shm_unlink_def set_region_def)
  have "ShmMutex_try_lock q x k6 = None" if "sm_ptr x = Some r" for q x
    using r(1) that by (auto simp: ShmMutex_try_lock_def region_at_def bind_eq_None_conv)
  then show ?thesis using e r by (intro exI [of _ ?a] exI [of _ k6]) simp
qed

text \<open>
  The destructor of a file lock removes the file, whoever runs it. After one process has destroyed its
  copy, a lock object made for the same name locks a new file, and both it and the older object have
  their locks at the same time.
\<close>

theorem destroyed_file_lock_splits:
  assumes "fo_open k p (fl_fd m) = Some i" "fo_names k (fl_filename m) = Some i" "fl_filename m' = fl_filename m"
    "fl_locked m' = False" "fo_locks k i = Map.empty" "\<forall>j. fo_next k \<le> j \<longrightarrow> fo_locks k j = Map.empty" "i < fo_next k"
    "p \<noteq> q" "p \<noteq> s" "0 \<le> nfd" "content \<noteq> []"
  shows "let (_, _, k1) = FileLock_destroy q m' k; (l, k2) = FileLock_new nfd s (fl_filename m) content k1;
             (r3, _, k3) = FileLock_lock p m k2; (r4, _, k4) = FileLock_lock s l k3
         in r3 = LOCK_SUCCESS \<and> r4 = LOCK_SUCCESS"
proof -
  define k1 where "k1 = snd (snd (FileLock_destroy q m' k))"
  have k1: "fo_open k1 p = fo_open k p" "fo_names k1 (fl_filename m) = None" "fo_locks k1 i = Map.empty" "fo_next k1 = fo_next k"
    "fo_locks k1 (fo_next k) = Map.empty"
    using assms(2-8)
    by (auto simp: k1_def FileLock_destroy_def unlink_file_def close_file_def Let_def fun_eq_iff split: option.splits)
  obtain l k2 where n: "FileLock_new nfd s (fl_filename m) content k1 = (l, k2)" by fastforce
  have k2: "fo_open k2 p = fo_open k p" "fo_locks k2 i = Map.empty" "fo_open k2 s (fl_fd l) = Some (fo_next k)" "fo_locks k2 (fo_next k) = Map.empty"
    using n k1 assms(7,9,10,11)
    by (auto simp: FileLock_new_def FileLock_init_def open_file_def FileLock_lock_def FileLock_unlock_def lock_cmd_def setlk_def write_file_def
        Let_def fun_eq_iff)
  have d: "FileLock_destroy q m' k = (fst (FileLock_destroy q m' k), fst (snd (FileLock_destroy q m' k)), k1)" by (simp add: k1_def)
  have p: "FileLock_lock p m k2 = (LOCK_SUCCESS, m\<lparr>fl_locked := True\<rparr>, k2\<lparr>fo_locks := (fo_locks k2)(i := [p \<mapsto> F_WRLCK])\<rparr>)"
    using k2 assms(1) by (simp add: FileLock_lock_def lock_cmd_def setlk_def Let_def)
  have s: "fst (FileLock_lock s l (k2\<lparr>fo_locks := (fo_locks k2)(i := [p \<mapsto> F_WRLCK])\<rparr>)) = LOCK_SUCCESS"
    using k2 assms(7) by (simp add: FileLock_lock_def lock_cmd_def setlk_def Let_def)
  show ?thesis by (subst d) (use n p s in \<open>simp add: split_beta\<close>)
qed

section \<open>Examples\<close>

definition demo_shm :: shm_world where
  "demo_shm =
     (\<lambda>_. \<lparr>sm_ptr = Some 3, sm_name = ''m'', sm_pid = 1, sm_locked_pid = 0, sm_locked = False\<rparr>,
      \<lparr>so_names = [''m'' \<mapsto> 3], so_files = {}, so_region = [3 \<mapsto> \<lparr>rg_mutex = Free, rg_name = ''m'', rg_refer = 1\<rparr>], so_maps = (\<lambda>_. {3})\<rparr>)"

definition demo_files :: file_world where
  "demo_files =
     (\<lambda>_. \<lparr>fl_filename = ''l'', fl_content = ''x'', fl_locked = False, fl_fd = 5\<rparr>,
      \<lparr>fo_names = [''l'' \<mapsto> 0], fo_data = (\<lambda>_. ''x''), fo_locks = (\<lambda>_. Map.empty), fo_open = (\<lambda>_. [5 \<mapsto> 0]), fo_next = 1\<rparr>)"

lemma demo_good: "shm_good 3 demo_shm" "shm_owner 3 demo_shm = {}" "file_good 0 demo_files" "file_owner 0 demo_files = {}"
  by (simp_all add: demo_shm_def demo_files_def shm_good_def shm_owner_def file_good_def file_owner_def)

lemma demo_inside: "\<exists>v. try_sections (on_shm ShmMutex_try_lock) (on_shm ShmMutex_unlock) demo_shm (v, {1})"
proof -
  have "\<exists>v. on_shm ShmMutex_try_lock 1 demo_shm = Some (0, v)"
    by (simp add: on_shm_def demo_shm_def ShmMutex_try_lock_def region_at_def)
  then obtain v where v: "on_shm ShmMutex_try_lock 1 demo_shm = Some (0, v)" by blast
  have "try_sections (on_shm ShmMutex_try_lock) (on_shm ShmMutex_unlock) demo_shm (v, if (0 :: int) = 0 then insert 1 {} else {})"
    by (rule try_enter [OF try_start]) (simp, rule v)
  then show ?thesis by (intro exI [of _ v]) simp
qed

theorem guards_exclude_witness:
  "\<exists>v. try_sections (on_shm ShmMutex_try_lock) (on_shm ShmMutex_unlock) demo_shm (v, {1}) \<and>
     \<not> try_sections (on_shm ShmMutex_try_lock) (on_shm ShmMutex_unlock) demo_shm (v, {1, 2})"
proof -
  obtain v where "try_sections (on_shm ShmMutex_try_lock) (on_shm ShmMutex_unlock) demo_shm (v, {1})" using demo_inside by blast
  moreover have "\<not> try_sections (on_shm ShmMutex_try_lock) (on_shm ShmMutex_unlock) demo_shm (v, {1, 2})"
  proof
    assume t: "try_sections (on_shm ShmMutex_try_lock) (on_shm ShmMutex_unlock) demo_shm (v, {1, 2})"
    have "\<forall>p \<in> {1, 2}. \<forall>q \<in> {1, 2 :: nat}. p = q" using conjunct1 [OF guards_exclude [OF demo_good]] t by blast
    then show False by simp
  qed
  ultimately show ?thesis by blast
qed

theorem plain_guard_shares_file_witness:
  "\<exists>v. plain_sections (on_file FileLock_lock) (on_file FileLock_unlock) demo_files (v, {1, 2})"
  using plain_guard_shares_file [OF demo_good(3), of 1 2] by simp

theorem assignment_destroys_witness:
  "\<exists>a' k'. ShmMutex_assign 1100 0 1 False (fst demo_shm 1) (fst demo_shm 1) (snd demo_shm) = Some (a', k') \<and> ShmMutex_try_lock 1 a' k' = None"
  using assignment_destroys [of "fst demo_shm 1" 3 "snd demo_shm" 1 "\<lparr>rg_mutex = Free, rg_name = ''m'', rg_refer = 1\<rparr>" 1100 0 "fst demo_shm 1"]
  by (simp add: demo_shm_def) blast

theorem destroyed_file_lock_splits_witness:
  "let (_, _, k1) = FileLock_destroy 2 (fst demo_files 2) (snd demo_files); (l, k2) = FileLock_new 7 3 ''l'' ''y'' k1;
       (r3, _, k3) = FileLock_lock 1 (fst demo_files 1) k2; (r4, _, k4) = FileLock_lock 3 l k3
   in r3 = LOCK_SUCCESS \<and> r4 = LOCK_SUCCESS"
proof -
  have "fl_filename (fst demo_files 1) = ''l''" by (simp add: demo_files_def)
  then show ?thesis
    using destroyed_file_lock_splits [of "snd demo_files" 1 "fst demo_files 1" 0 "fst demo_files 2" 2 3 7 "''y''"]
    by (simp add: demo_files_def del: Let_def)
qed

end
