(* ===== verification/Threads.thy ===== *)
theory Threads
  imports Base
begin

text \<open>
  The directory \<open>thread\<close>: the number and name of the running thread, thread objects, the mutex
  with its holder, and the condition variable. A thread is a number, 0 is none.
\<close>

type_synonym tid = int

section \<open>The running thread\<close>

text \<open>The thread-local variables of \<open>CurrentThread\<close>.\<close>

record CurrentThread =
  cacheTid :: tid
  tidString :: bytes
  threadName :: bytes

definition main_thread :: CurrentThread where
  "main_thread = \<lparr>cacheTid = 0, tidString = [], threadName = ''unknow thread''\<rparr>"

text \<open>\<open>gettid\<close> is what the kernel answers.\<close>

definition CurrentThread_tid :: "tid \<Rightarrow> CurrentThread \<Rightarrow> tid \<times> CurrentThread" where
  "CurrentThread_tid gettid c =
     (let c1 = (if cacheTid c = 0 then c\<lparr>cacheTid := gettid, tidString := dec_str (nat gettid) @ '' ''\<rparr> else c)
      in (cacheTid c1, c1))"

definition isMainThread :: "tid \<Rightarrow> tid \<Rightarrow> CurrentThread \<Rightarrow> bool \<times> CurrentThread" where
  "isMainThread gettid getpid c = (let (t, c1) = CurrentThread_tid gettid c in (t = getpid, c1))"

text \<open>What a fork runs in the child; before \<open>main\<close> the constructor \<open>ThreadInit\<close> does the same without the first assignment.\<close>

definition afterFork :: "tid \<Rightarrow> CurrentThread \<Rightarrow> CurrentThread" where
  "afterFork gettid c = snd (CurrentThread_tid gettid (c\<lparr>cacheTid := 0, threadName := ''main''\<rparr>))"

definition ThreadInit :: "tid \<Rightarrow> CurrentThread \<Rightarrow> CurrentThread" where
  "ThreadInit gettid c = snd (CurrentThread_tid gettid (c\<lparr>threadName := ''main''\<rparr>))"

section \<open>Thread objects\<close>

text \<open>\<open>th_id\<close> is the \<open>pthread\<close> that was started, \<open>th_tid\<close> the shared number that the thread fills in.\<close>

record Thread =
  th_start :: bool
  th_joined :: bool
  th_id :: "tid option"
  th_tid :: tid
  th_name :: bytes

text \<open>The constructor, with the count of objects.\<close>

definition setDefaultName :: "bytes \<Rightarrow> int \<Rightarrow> bytes \<times> int" where
  "setDefaultName name created =
     (let n = created + 1
      in (if name = [] then take 31 (''Thread'' @ (if n < 0 then ''-'' else []) @ dec_str (nat \<bar>n\<bar>)) else name, n))"

definition Thread_new :: "bytes \<Rightarrow> int \<Rightarrow> Thread \<times> int" where
  "Thread_new name created =
     (let (name1, n) = setDefaultName name created
      in (\<lparr>th_start = False, th_joined = False, th_id = None, th_tid = 0, th_name = name1\<rparr>, n))"

definition Thread_delete :: "int \<Rightarrow> int" where
  "Thread_delete created = created - 1"

text \<open>\<open>created\<close> is the thread that \<open>pthread_create\<close> makes, if it succeeds.\<close>

definition Thread_start :: "tid option \<Rightarrow> Thread \<Rightarrow> Thread" where
  "Thread_start created h = (case created of None \<Rightarrow> h\<lparr>th_start := False\<rparr> | Some t \<Rightarrow> h\<lparr>th_start := True, th_id := Some t\<rparr>)"

text \<open>What the new thread does: \<open>alive\<close> is whether the object of the thread still exists, \<open>func\<close> the
  function of the thread on its variables.\<close>

definition ThreadData_runInThread :: "tid \<Rightarrow> bool \<Rightarrow> (CurrentThread \<Rightarrow> CurrentThread) \<Rightarrow> Thread \<Rightarrow> CurrentThread \<Rightarrow> Thread \<times> CurrentThread" where
  "ThreadData_runInThread gettid alive func h c =
     (let (t, c1) = CurrentThread_tid gettid c; h1 = (if alive then h\<lparr>th_tid := t\<rparr> else h)
      in (h1, (func (c1\<lparr>threadName := th_name h\<rparr>))\<lparr>threadName := ''finished''\<rparr>))"

text \<open>Whether a join waits for the thread; otherwise it returns at once.\<close>

definition Thread_join :: "Thread \<Rightarrow> tid option" where
  "Thread_join h = (if th_start h \<and> \<not> th_joined h then th_id h else None)"

section \<open>The mutex\<close>

text \<open>The owner of the \<open>pthread\<close> mutex, and the holder that the class keeps. The class sets the holder right
  after it has the mutex; it clears it only after the mutex is free, when another thread may have taken it.\<close>

record ThreadMutex =
  mx_owner :: "tid option"
  mx_holder :: tid

definition assignHolder :: "tid \<Rightarrow> ThreadMutex \<Rightarrow> ThreadMutex" where
  "assignHolder t m = m\<lparr>mx_holder := t\<rparr>"

definition unassignHolder :: "ThreadMutex \<Rightarrow> ThreadMutex" where
  "unassignHolder m = m\<lparr>mx_holder := 0\<rparr>"

definition isLockedByCurrentThread :: "tid \<Rightarrow> ThreadMutex \<Rightarrow> bool" where
  "isLockedByCurrentThread t m = (mx_holder m = t)"

definition ThreadMutex_lock :: "tid \<Rightarrow> ThreadMutex \<Rightarrow> ThreadMutex option" where
  "ThreadMutex_lock t m = (if mx_owner m = None then Some (assignHolder t (m\<lparr>mx_owner := Some t\<rparr>)) else None)"

definition ThreadMutex_try_lock :: "tid \<Rightarrow> ThreadMutex \<Rightarrow> int \<times> ThreadMutex" where
  "ThreadMutex_try_lock t m =
     (if mx_owner m = None then (0, assignHolder t (m\<lparr>mx_owner := Some t\<rparr>)) else (16, m))"

text \<open>The two steps of \<open>unlock\<close>.\<close>

definition mutex_release :: "tid \<Rightarrow> ThreadMutex \<Rightarrow> ThreadMutex option" where
  "mutex_release t m = (if mx_owner m = Some t then Some (m\<lparr>mx_owner := None\<rparr>) else None)"

definition ThreadMutex_unlock :: "tid \<Rightarrow> ThreadMutex \<Rightarrow> ThreadMutex option" where
  "ThreadMutex_unlock t m = map_option unassignHolder (mutex_release t m)"

section \<open>The condition variable\<close>

text \<open>The threads that wait and have not been woken. A wait gives the mutex up, and returns when the
  thread has been woken and the mutex is free; a thread may be woken for no reason.\<close>

type_synonym Condition = "tid list"

definition wait_begin :: "tid \<Rightarrow> ThreadMutex \<Rightarrow> Condition \<Rightarrow> (ThreadMutex \<times> Condition) option" where
  "wait_begin t m c =
     map_option (\<lambda>m1. (m1, c @ [t])) (mutex_release t (unassignHolder m))"

definition wait_end :: "tid \<Rightarrow> ThreadMutex \<Rightarrow> Condition \<Rightarrow> ThreadMutex option" where
  "wait_end t m c = (if t \<in> set c then None else ThreadMutex_lock t m)"

text \<open>\<open>w\<close> is the thread that the system chooses.\<close>

definition cond_notify :: "tid \<Rightarrow> Condition \<Rightarrow> Condition option" where
  "cond_notify w c = (if c = [] then Some [] else if w \<in> set c then Some (remove1 w c) else None)"

definition cond_notifyAll :: "Condition \<Rightarrow> Condition" where
  "cond_notifyAll c = []"

text \<open>The point of time that a wait with a limit is given, from the clock and the limit in nanoseconds.\<close>

definition kNanoSecondsPerSecond :: int where
  "kNanoSecondsPerSecond = 1000000000"

definition wait_deadline :: "int \<times> int \<Rightarrow> int \<Rightarrow> int \<times> int" where
  "wait_deadline now nanoseconds =
     (let (sec, nsec) = now; sec1 = sec + (sec + nanoseconds) div kNanoSecondsPerSecond
      in (sec1, (nsec + nanoseconds) mod kNanoSecondsPerSecond))"

section \<open>Properties\<close>

lemma tid_cached: "cacheTid c \<noteq> 0 \<Longrightarrow> CurrentThread_tid g c = (cacheTid c, c)"
  by (simp add: CurrentThread_tid_def)

lemma tid_first: "cacheTid c = 0 \<Longrightarrow> CurrentThread_tid g c = (g, c\<lparr>cacheTid := g, tidString := dec_str (nat g) @ '' ''\<rparr>)"
  by (simp add: CurrentThread_tid_def)

lemma afterFork_tid: "child \<noteq> 0 \<Longrightarrow> fst (CurrentThread_tid g (afterFork child c)) = child"
  by (simp add: afterFork_def tid_first tid_cached)

text \<open>Two living threads may have the same default name: the count goes down when an object is destroyed.\<close>

lemma default_names_collide:
  "let (a, n1) = Thread_new [] n; (b, n2) = Thread_new [] n1; (c, n3) = Thread_new [] (Thread_delete n2)
   in th_name b = th_name c"
  by (simp add: Thread_new_def setDefaultName_def Thread_delete_def Let_def)

text \<open>
  Waiting with a limit. Between the years 2001 and 2033 the wait never ends before its limit, ends at
  most two seconds after it, and one second after it when the limit is a number of whole seconds.
\<close>

theorem wait_deadline_late:
  assumes "1000000000 \<le> sec" "sec < 2000000000" "0 \<le> nsec" "nsec < 1000000000"
  shows "let (s, n) = wait_deadline (sec, nsec) limit; late = (s * 1000000000 + n) - (sec * 1000000000 + nsec + limit)
    in 0 \<le> late \<and> late \<le> 2000000000 \<and> 0 \<le> n \<and> n < 1000000000 \<and> (limit mod 1000000000 = 0 \<longrightarrow> late = 1000000000)"
proof -
  define a where "a = sec - 1000000000"
  have a: "0 \<le> a" "a < 1000000000" "sec = a + 1000000000" using assms by (simp_all add: a_def)
  define q where "q = limit div 1000000000"
  define r where "r = limit mod 1000000000"
  have l: "limit = 1000000000 * q + r" "0 \<le> r" "r < 1000000000" by (simp_all add: q_def r_def)
  have s: "(sec + limit) div 1000000000 = q + 1 + (a + r) div 1000000000"
    using a l by (simp add: algebra_simps)
  have m: "(nsec + limit) mod 1000000000 = (nsec + r) mod 1000000000" by (simp add: r_def mod_add_right_eq)
  have d: "x div 1000000000 \<in> {0, 1}" if "0 \<le> x" "x < 2000000000" for x :: int
    using that by (cases "x < 1000000000") (simp_all add: div_pos_pos_trivial div_pos_geq)
  have "(a + r) div 1000000000 \<in> {0, 1}" "(nsec + r) div 1000000000 \<in> {0, 1}"
    "r = 0 \<Longrightarrow> (a + r) div 1000000000 = 0 \<and> (nsec + r) div 1000000000 = 0"
    using d a l assms by simp_all
  moreover define A where "A = (a + r) div 1000000000"
  moreover define B where "B = (nsec + r) div 1000000000"
  moreover define R where "R = (nsec + r) mod 1000000000"
  ultimately have AB: "A \<in> {0, 1}" "B \<in> {0, 1}" "r = 0 \<Longrightarrow> A = 0 \<and> B = 0" by (simp_all only:)
  have R: "nsec + r = 1000000000 * B + R" "0 \<le> R" "R < 1000000000"
    unfolding B_def R_def by (rule mult_div_mod_eq [symmetric], rule pos_mod_sign, simp, rule pos_mod_bound, simp)
  have e: "wait_deadline (sec, nsec) limit = (sec + (q + 1 + A), R)"
    unfolding wait_deadline_def kNanoSecondsPerSecond_def A_def R_def prod.case Let_def by (simp only: s m)
  have late: "(sec + (q + 1 + A)) * 1000000000 + R - (sec * 1000000000 + nsec + limit) = (1 + A - B) * 1000000000"
    using R(1) l(1) by (simp add: left_diff_distrib distrib_right)
  show ?thesis
    unfolding e Let_def prod.case late r_def [symmetric] using AB R(2,3) by auto
qed

theorem wait_deadline_late_witness:
  "let (s, n) = wait_deadline (1500000000, 5) 3000000000; late = (s * 1000000000 + n) - (1500000000 * 1000000000 + 5 + 3000000000)
    in late = 1000000000"
  using wait_deadline_late [of 1500000000 5 3000000000] by (simp add: Let_def split_beta)

end
