(* ===== verification/ThreadPool.thy ===== *)
theory ThreadPool
  imports Threads
begin

text \<open>
  \<open>thread/ThreadPool.h\<close>: a bounded queue of tasks between the threads that call \<open>run\<close> and the worker
  threads, with one mutex and two condition variables, as a step relation over all threads.
\<close>

section \<open>The pool\<close>

text \<open>Where a thread is in the code of the pool. \<open>Unlock k\<close> and \<open>Unassign k\<close> are the two steps of the guard's
  destructor before \<open>k\<close>. An empty task is \<open>None\<close>.\<close>

datatype 'a pc =
    Outside
  | RunLock "'a option" | RunCheck "'a option" | RunWait "'a option"
  | WorkLoop | TakeLock | TakeCheck | TakeWait | Taken "'a option" | Finished
  | StopLock | StopSet | Joining "Thread list"
  | Unlock "'a pc" | Unassign "'a pc"

record 'a ThreadPool =
  tp_mutex :: ThreadMutex
  tp_notFull :: Condition
  tp_notEmpty :: Condition
  tp_threads :: "Thread list"
  tp_tasks :: "'a option list"
  tp_threadNum :: int
  tp_running :: bool
  tp_pc :: "tid \<Rightarrow> 'a pc"

text \<open>What can be seen of a step: a task is queued, taken from the queue, or run to its end.\<close>

datatype 'a event = Queued tid "'a option" | Took tid "'a option" | Ran tid 'a

definition ThreadPool_new :: "int \<Rightarrow> 'a ThreadPool" where
  "ThreadPool_new garbage =
     \<lparr>tp_mutex = \<lparr>mx_owner = None, mx_holder = 0\<rparr>, tp_notFull = [], tp_notEmpty = [], tp_threads = [], tp_tasks = [],
      tp_threadNum = garbage, tp_running = False, tp_pc = (\<lambda>_. Outside)\<rparr>"

text \<open>The size is compared as an unsigned number.\<close>

definition pool_full :: "'a ThreadPool \<Rightarrow> bool" where
  "pool_full p \<longleftrightarrow> int (length (tp_tasks p)) \<ge> tp_threadNum p mod 2 ^ 64"

definition go :: "tid \<Rightarrow> 'a pc \<Rightarrow> 'a ThreadPool \<Rightarrow> 'a ThreadPool" where
  "go t k p = p\<lparr>tp_pc := (tp_pc p)(t := k)\<rparr>"

text \<open>\<open>start\<close>: the object made last is appended, the object with the index of the round is started;
  \<open>created\<close> are the threads that the system makes, and the count of objects is \<open>n\<close>. The new threads touch nothing that the rest of the
  loop reads.\<close>

fun start_loop :: "nat \<Rightarrow> nat \<Rightarrow> tid option list \<Rightarrow> int \<Rightarrow> 'a ThreadPool \<Rightarrow> int \<times> 'a ThreadPool" where
  "start_loop i 0 created n p = (n, p)"
| "start_loop i (Suc k) [] n p = (n, p)"
| "start_loop i (Suc k) (c # cs) n p =
     (let (h, n1) = Thread_new (dec_str (i + 1)) n; hs = tp_threads p @ [h];
          p1 = p\<lparr>tp_threads := hs[i := Thread_start c (hs ! i)]\<rparr>
      in start_loop (i + 1) k cs n1 (case c of None \<Rightarrow> p1 | Some t \<Rightarrow> go t WorkLoop p1))"

definition ThreadPool_start :: "int \<Rightarrow> tid option list \<Rightarrow> int \<Rightarrow> 'a ThreadPool \<Rightarrow> int \<times> 'a ThreadPool" where
  "ThreadPool_start num created n p =
     start_loop 0 (nat num) created n (p\<lparr>tp_threadNum := num, tp_running := True\<rparr>)"

section \<open>The steps of a thread\<close>

text \<open>Each function is a step of the thread \<open>t\<close>, \<open>None\<close> when it cannot be taken now; \<open>w\<close> is the thread that the
  system wakes. What is done under the mutex between two waits is one step.\<close>

definition pool_lock :: "tid \<Rightarrow> 'a pc \<Rightarrow> 'a ThreadPool \<Rightarrow> 'a ThreadPool option" where
  "pool_lock t k p = map_option (\<lambda>m. go t k (p\<lparr>tp_mutex := m\<rparr>)) (ThreadMutex_lock t (tp_mutex p))"

definition pool_release :: "tid \<Rightarrow> 'a pc \<Rightarrow> 'a ThreadPool \<Rightarrow> 'a ThreadPool option" where
  "pool_release t k p = map_option (\<lambda>m. go t (Unassign k) (p\<lparr>tp_mutex := m\<rparr>)) (mutex_release t (tp_mutex p))"

definition pool_unassign :: "tid \<Rightarrow> 'a pc \<Rightarrow> 'a ThreadPool \<Rightarrow> 'a ThreadPool" where
  "pool_unassign t k p = go t k (p\<lparr>tp_mutex := unassignHolder (tp_mutex p)\<rparr>)"

definition pool_wake :: "tid \<Rightarrow> Condition \<Rightarrow> 'a pc \<Rightarrow> 'a ThreadPool \<Rightarrow> 'a ThreadPool option" where
  "pool_wake t c k p = map_option (\<lambda>m. go t k (p\<lparr>tp_mutex := m\<rparr>)) (wait_end t (tp_mutex p) c)"

text \<open>\<open>run\<close>: the loop over \<open>isFull\<close>, then the push and the notification.\<close>

definition run_check :: "tid \<Rightarrow> tid \<Rightarrow> 'a option \<Rightarrow> 'a ThreadPool \<Rightarrow> ('a event list \<times> 'a ThreadPool) option" where
  "run_check w t x p =
     (if pool_full p then
        map_option (\<lambda>(m, c). ([], go t (RunWait x) (p\<lparr>tp_mutex := m, tp_notFull := c\<rparr>))) (wait_begin t (tp_mutex p) (tp_notFull p))
      else
        map_option (\<lambda>c. ([Queued t x], go t (Unlock Outside) (p\<lparr>tp_tasks := tp_tasks p @ [x], tp_notEmpty := c\<rparr>)))
          (cond_notify w (tp_notEmpty p)))"

text \<open>\<open>take\<close>: the loop over the empty queue, then the first task or none.\<close>

definition take_check :: "tid \<Rightarrow> tid \<Rightarrow> 'a ThreadPool \<Rightarrow> ('a event list \<times> 'a ThreadPool) option" where
  "take_check w t p =
     (case tp_tasks p of
        [] \<Rightarrow>
          if tp_running p then
            map_option (\<lambda>(m, c). ([], go t TakeWait (p\<lparr>tp_mutex := m, tp_notEmpty := c\<rparr>))) (wait_begin t (tp_mutex p) (tp_notEmpty p))
          else Some ([], go t (Unlock (Taken None)) p)
      | x # xs \<Rightarrow>
          map_option (\<lambda>c. ([Took t x], go t (Unlock (Taken x)) (p\<lparr>tp_tasks := xs, tp_notFull := c\<rparr>)))
            (cond_notify w (tp_notFull p)))"

text \<open>\<open>runInThread\<close>: the test of \<open>running\<close>, and the task that was taken, if it is not empty. A task does not use the pool.\<close>

definition work_loop :: "tid \<Rightarrow> 'a ThreadPool \<Rightarrow> 'a ThreadPool" where
  "work_loop t p = go t (if tp_running p then TakeLock else Finished) p"

definition run_taken :: "tid \<Rightarrow> 'a option \<Rightarrow> 'a ThreadPool \<Rightarrow> 'a event list \<times> 'a ThreadPool" where
  "run_taken t x p = ((case x of None \<Rightarrow> [] | Some f \<Rightarrow> [Ran t f]), go t WorkLoop p)"

text \<open>\<open>stop\<close>: under the mutex, then the joins.\<close>

definition stop_set :: "tid \<Rightarrow> 'a ThreadPool \<Rightarrow> 'a ThreadPool" where
  "stop_set t p = go t (Unlock (Joining (tp_threads p))) (p\<lparr>tp_running := False, tp_notEmpty := cond_notifyAll (tp_notEmpty p)\<rparr>)"

definition join_next :: "tid \<Rightarrow> Thread list \<Rightarrow> 'a ThreadPool \<Rightarrow> 'a ThreadPool option" where
  "join_next t hs p =
     (case hs of
        [] \<Rightarrow> Some (go t Outside p)
      | h # hs' \<Rightarrow>
          case Thread_join h of
            None \<Rightarrow> Some (go t (Joining hs') p)
          | Some w \<Rightarrow> if tp_pc p w = Finished then Some (go t (Joining hs') p) else None)"

abbreviation silently :: "'a ThreadPool option \<Rightarrow> ('a event list \<times> 'a ThreadPool) option" where
  "silently q \<equiv> map_option (Pair []) q"

definition pool_step :: "tid \<Rightarrow> tid \<Rightarrow> 'a ThreadPool \<Rightarrow> ('a event list \<times> 'a ThreadPool) option" where
  "pool_step w t p =
     (case tp_pc p t of
        Outside \<Rightarrow> None
      | RunLock x \<Rightarrow> silently (pool_lock t (RunCheck x) p)
      | RunCheck x \<Rightarrow> run_check w t x p
      | RunWait x \<Rightarrow> silently (pool_wake t (tp_notFull p) (RunCheck x) p)
      | WorkLoop \<Rightarrow> Some ([], work_loop t p)
      | TakeLock \<Rightarrow> silently (pool_lock t TakeCheck p)
      | TakeCheck \<Rightarrow> take_check w t p
      | TakeWait \<Rightarrow> silently (pool_wake t (tp_notEmpty p) TakeCheck p)
      | Taken x \<Rightarrow> Some (run_taken t x p)
      | Finished \<Rightarrow> None
      | StopLock \<Rightarrow> silently (pool_lock t StopSet p)
      | StopSet \<Rightarrow> Some ([], stop_set t p)
      | Joining hs \<Rightarrow> silently (join_next t hs p)
      | Unlock k \<Rightarrow> silently (pool_release t k p)
      | Unassign k \<Rightarrow> Some ([], pool_unassign t k p))"

text \<open>Any interleaving: a thread makes its next step; a waiting thread wakes for no reason; a thread that is not in the pool
  calls \<open>run\<close>; the thread \<open>boss\<close> stops the pool when it is running, as the destructor does.\<close>

inductive pool_run :: "tid \<Rightarrow> 'a ThreadPool \<Rightarrow> 'a event list \<Rightarrow> 'a ThreadPool \<Rightarrow> bool" for boss p0 where
  pool_begin: "pool_run boss p0 [] p0"
| pool_next: "pool_run boss p0 tr p \<Longrightarrow> pool_step w t p = Some (es, p') \<Longrightarrow> pool_run boss p0 (tr @ es) p'"
| pool_spurious: "pool_run boss p0 tr p \<Longrightarrow>
    pool_run boss p0 tr (p\<lparr>tp_notFull := remove1 w (tp_notFull p), tp_notEmpty := remove1 w (tp_notEmpty p)\<rparr>)"
| pool_call: "pool_run boss p0 tr p \<Longrightarrow> tp_pc p t = Outside \<Longrightarrow> pool_run boss p0 tr (go t (RunLock x) p)"
| pool_stop: "pool_run boss p0 tr p \<Longrightarrow> tp_pc p boss = Outside \<Longrightarrow> tp_running p \<Longrightarrow> pool_run boss p0 tr (go boss StopLock p)"

section \<open>The invariant\<close>

text \<open>The places where a thread has the mutex, and those of a worker.\<close>

fun inside :: "'a pc \<Rightarrow> bool" where
  "inside (RunCheck x) = True"
| "inside TakeCheck = True"
| "inside StopSet = True"
| "inside (Unlock k) = True"
| "inside k = False"

fun next_pc :: "'a pc \<Rightarrow> 'a pc" where
  "next_pc (Unlock k) = k"
| "next_pc (Unassign k) = k"
| "next_pc k = k"

fun working :: "'a pc \<Rightarrow> bool" where
  "working WorkLoop = True"
| "working TakeLock = True"
| "working TakeCheck = True"
| "working TakeWait = True"
| "working (Taken x) = True"
| "working Finished = True"
| "working k = False"

text \<open>The threads at their places: the owner of the mutex is the one thread inside; the workers are \<open>W\<close>;
  a thread in a queue of waiters waits; after a guard comes a place without the mutex.\<close>

fun waits_full :: "'a pc \<Rightarrow> bool" where
  "waits_full (RunWait x) = True"
| "waits_full k = False"

fun after_guard :: "'a pc \<Rightarrow> bool" where
  "after_guard Outside = True"
| "after_guard (Taken x) = True"
| "after_guard (Joining hs) = True"
| "after_guard k = False"

fun shape :: "'a pc \<Rightarrow> bool" where
  "shape (Unlock k) = after_guard k"
| "shape (Unassign k) = after_guard k"
| "shape k = True"

definition place_ok :: "tid set \<Rightarrow> tid option \<Rightarrow> Condition \<Rightarrow> Condition \<Rightarrow> tid \<Rightarrow> 'a pc \<Rightarrow> bool" where
  "place_ok W m nf ne t k \<longleftrightarrow>
     (m = Some t \<longleftrightarrow> inside k) \<and> (working (next_pc k) \<longleftrightarrow> t \<in> W) \<and> shape k \<and>
     (t \<in> set nf \<longrightarrow> waits_full k) \<and> (t \<in> set ne \<longrightarrow> k = TakeWait)"

definition places_ok :: "tid set \<Rightarrow> 'a ThreadPool \<Rightarrow> bool" where
  "places_ok W p \<longleftrightarrow>
     (\<forall>t. place_ok W (mx_owner (tp_mutex p)) (tp_notFull p) (tp_notEmpty p) t (tp_pc p t)) \<and>
     distinct (tp_notFull p) \<and> distinct (tp_notEmpty p)"

text \<open>Stopping: without it no worker has finished, after it no worker waits.\<close>

definition stopping_ok :: "tid set \<Rightarrow> 'a ThreadPool \<Rightarrow> bool" where
  "stopping_ok W p \<longleftrightarrow>
     (\<not> tp_running p \<longrightarrow> tp_notEmpty p = []) \<and> (tp_running p \<longrightarrow> (\<forall>t. tp_pc p t \<noteq> Finished)) \<and>
     (\<forall>h \<in> set (tp_threads p). \<forall>w. th_id h = Some w \<longrightarrow> w \<in> W) \<and>
     (\<forall>t hs. next_pc (tp_pc p t) = Joining hs \<longrightarrow> \<not> tp_running p \<and> set hs \<subseteq> set (tp_threads p))"

text \<open>No wake-up is lost: with a task in the queue some worker is awake; with a waiting producer there is a
  task, or a producer is on its way to the test.\<close>

definition awake :: "'a ThreadPool \<Rightarrow> tid \<Rightarrow> bool" where
  "awake p t \<longleftrightarrow> (\<exists>x. tp_pc p t = RunCheck x \<or> (tp_pc p t = RunWait x \<and> t \<notin> set (tp_notFull p)))"

definition wakeups_ok :: "tid set \<Rightarrow> 'a ThreadPool \<Rightarrow> bool" where
  "wakeups_ok W p \<longleftrightarrow>
     (tp_tasks p \<noteq> [] \<longrightarrow> W \<subseteq> set (tp_notEmpty p) \<longrightarrow> W = {}) \<and>
     (tp_notFull p \<noteq> [] \<longrightarrow> tp_tasks p = [] \<longrightarrow> (\<exists>t. awake p t))"

definition bounded :: "'a ThreadPool \<Rightarrow> bool" where
  "bounded p \<longleftrightarrow> int (length (tp_tasks p)) \<le> tp_threadNum p mod 2 ^ 64"

lemmas step_defs = pool_step_def pool_lock_def pool_wake_def pool_release_def pool_unassign_def run_check_def take_check_def
  work_loop_def run_taken_def stop_set_def join_next_def ThreadMutex_lock_def wait_begin_def wait_end_def mutex_release_def
  cond_notify_def cond_notifyAll_def assignHolder_def unassignHolder_def go_def

text \<open>The shapes of a step.\<close>

lemma step_cases:
  assumes "pool_step w t p = Some (es, p')"
  obtains
    (locks) k m where "(\<exists>x. tp_pc p t = RunLock x \<and> k = RunCheck x) \<or> (tp_pc p t = TakeLock \<and> k = TakeCheck) \<or> (tp_pc p t = StopLock \<and> k = StopSet)"
      "mx_owner (tp_mutex p) = None" "mx_owner m = Some t" "es = []" "p' = go t k (p\<lparr>tp_mutex := m\<rparr>)"
  | (wakes) k m where "(\<exists>x. tp_pc p t = RunWait x \<and> k = RunCheck x \<and> t \<notin> set (tp_notFull p)) \<or> (tp_pc p t = TakeWait \<and> k = TakeCheck \<and> t \<notin> set (tp_notEmpty p))"
      "mx_owner (tp_mutex p) = None" "mx_owner m = Some t" "es = []" "p' = go t k (p\<lparr>tp_mutex := m\<rparr>)"
  | (full) x m where "tp_pc p t = RunCheck x" "pool_full p" "mx_owner (tp_mutex p) = Some t" "mx_owner m = None" "es = []"
      "p' = go t (RunWait x) (p\<lparr>tp_mutex := m, tp_notFull := tp_notFull p @ [t]\<rparr>)"
  | (push) x c where "tp_pc p t = RunCheck x" "\<not> pool_full p" "cond_notify w (tp_notEmpty p) = Some c" "es = [Queued t x]"
      "p' = go t (Unlock Outside) (p\<lparr>tp_tasks := tp_tasks p @ [x], tp_notEmpty := c\<rparr>)"
  | (empty) m where "tp_pc p t = TakeCheck" "tp_tasks p = []" "tp_running p" "mx_owner (tp_mutex p) = Some t" "mx_owner m = None" "es = []"
      "p' = go t TakeWait (p\<lparr>tp_mutex := m, tp_notEmpty := tp_notEmpty p @ [t]\<rparr>)"
  | (none) "tp_pc p t = TakeCheck" "tp_tasks p = []" "\<not> tp_running p" "es = []" "p' = go t (Unlock (Taken None)) p"
  | (pop) x xs c where "tp_pc p t = TakeCheck" "tp_tasks p = x # xs" "cond_notify w (tp_notFull p) = Some c" "es = [Took t x]"
      "p' = go t (Unlock (Taken x)) (p\<lparr>tp_tasks := xs, tp_notFull := c\<rparr>)"
  | (loop) "tp_pc p t = WorkLoop" "es = []" "p' = go t (if tp_running p then TakeLock else Finished) p"
  | (ran) x where "tp_pc p t = Taken x" "es = (case x of None \<Rightarrow> [] | Some f \<Rightarrow> [Ran t f])" "p' = go t WorkLoop p"
  | (stop) "tp_pc p t = StopSet" "es = []" "p' = go t (Unlock (Joining (tp_threads p))) (p\<lparr>tp_running := False, tp_notEmpty := []\<rparr>)"
  | (join) h hs where "tp_pc p t = Joining (h # hs)" "es = []" "p' = go t (Joining hs) p" "\<And>u. Thread_join h = Some u \<Longrightarrow> tp_pc p u = Finished"
  | (joined) "tp_pc p t = Joining []" "es = []" "p' = go t Outside p"
  | (release) k m where "tp_pc p t = Unlock k" "mx_owner (tp_mutex p) = Some t" "mx_owner m = None" "es = []" "p' = go t (Unassign k) (p\<lparr>tp_mutex := m\<rparr>)"
  | (unassign) k m where "tp_pc p t = Unassign k" "mx_owner m = mx_owner (tp_mutex p)" "es = []" "p' = go t k (p\<lparr>tp_mutex := m\<rparr>)"
proof (cases "tp_pc p t")
  case (RunCheck x)
  then show ?thesis using assms full [of x "(tp_mutex p)\<lparr>mx_holder := 0, mx_owner := None\<rparr>"] push
    by (auto simp: pool_step_def run_check_def wait_begin_def mutex_release_def unassignHolder_def split: if_splits)
next
  case TakeCheck
  then show ?thesis using assms empty [of "(tp_mutex p)\<lparr>mx_holder := 0, mx_owner := None\<rparr>"] none pop
    by (auto simp: pool_step_def take_check_def wait_begin_def mutex_release_def unassignHolder_def split: if_splits list.splits)
next
  case (Joining hs)
  then show ?thesis using assms join joined
    by (auto simp: pool_step_def join_next_def split: if_splits list.splits option.splits)
next
  case (RunLock x)
  then show ?thesis using assms locks [of "RunCheck x" "(tp_mutex p)\<lparr>mx_owner := Some t, mx_holder := t\<rparr>"]
    by (auto simp: pool_step_def pool_lock_def ThreadMutex_lock_def assignHolder_def split: if_splits)
next
  case TakeLock
  then show ?thesis using assms locks [of TakeCheck "(tp_mutex p)\<lparr>mx_owner := Some t, mx_holder := t\<rparr>"]
    by (auto simp: pool_step_def pool_lock_def ThreadMutex_lock_def assignHolder_def split: if_splits)
next
  case StopLock
  then show ?thesis using assms locks [of StopSet "(tp_mutex p)\<lparr>mx_owner := Some t, mx_holder := t\<rparr>"]
    by (auto simp: pool_step_def pool_lock_def ThreadMutex_lock_def assignHolder_def split: if_splits)
next
  case (RunWait x)
  then show ?thesis using assms wakes [of "RunCheck x" "(tp_mutex p)\<lparr>mx_owner := Some t, mx_holder := t\<rparr>"]
    by (auto simp: pool_step_def pool_wake_def wait_end_def ThreadMutex_lock_def assignHolder_def split: if_splits)
next
  case TakeWait
  then show ?thesis using assms wakes [of TakeCheck "(tp_mutex p)\<lparr>mx_owner := Some t, mx_holder := t\<rparr>"]
    by (auto simp: pool_step_def pool_wake_def wait_end_def ThreadMutex_lock_def assignHolder_def split: if_splits)
next
  case (Unlock k)
  then show ?thesis using assms release [of k "(tp_mutex p)\<lparr>mx_owner := None\<rparr>"]
    by (auto simp: pool_step_def pool_release_def mutex_release_def split: if_splits)
next
  case (Unassign k)
  then show ?thesis using assms unassign [of k "(tp_mutex p)\<lparr>mx_holder := 0\<rparr>"]
    by (auto simp: pool_step_def pool_unassign_def unassignHolder_def)
next
  case WorkLoop
  then show ?thesis using assms loop by (auto simp: pool_step_def work_loop_def)
next
  case (Taken x)
  then show ?thesis using assms ran by (auto simp: pool_step_def run_taken_def)
next
  case StopSet
  then show ?thesis using assms stop by (auto simp: pool_step_def stop_set_def cond_notifyAll_def)
qed (use assms in \<open>simp_all add: pool_step_def\<close>)

section \<open>Every step keeps the invariant\<close>

lemma pc_go [simp]: "tp_pc (go t k p) u = (if u = t then k else tp_pc p u)"
  by (simp add: go_def)

lemma go_fields [simp]:
  "tp_mutex (go t k p) = tp_mutex p" "tp_notFull (go t k p) = tp_notFull p" "tp_notEmpty (go t k p) = tp_notEmpty p"
  "tp_threads (go t k p) = tp_threads p" "tp_tasks (go t k p) = tp_tasks p" "tp_threadNum (go t k p) = tp_threadNum p"
  "tp_running (go t k p) = tp_running p"
  by (simp_all add: go_def)

lemma notified:
  assumes "cond_notify w c = Some d" "distinct c"
  shows "distinct d" "set d \<subseteq> set c" "c \<noteq> [] \<Longrightarrow> \<exists>w \<in> set c. w \<notin> set d"
  using assms by (auto simp: cond_notify_def split: if_splits)

text \<open>A step of one thread leaves the others where they are.\<close>

lemma places_go:
  assumes "places_ok W p" "distinct (tp_notFull p')" "distinct (tp_notEmpty p')"
    "place_ok W (mx_owner (tp_mutex p')) (tp_notFull p') (tp_notEmpty p') t (tp_pc p' t)"
    "\<And>u. u \<noteq> t \<Longrightarrow> (mx_owner (tp_mutex p') = Some u \<longleftrightarrow> mx_owner (tp_mutex p) = Some u) \<and> tp_pc p' u = tp_pc p u"
    "set (tp_notFull p') \<subseteq> insert t (set (tp_notFull p))" "set (tp_notEmpty p') \<subseteq> insert t (set (tp_notEmpty p))"
  shows "places_ok W p'"
proof -
  have "place_ok W (mx_owner (tp_mutex p')) (tp_notFull p') (tp_notEmpty p') u (tp_pc p' u)" if "u \<noteq> t" for u
    using assms(1) assms(5) [OF that] assms(6,7) that by (auto simp: places_ok_def place_ok_def)
  then show ?thesis using assms(2-4) unfolding places_ok_def by metis
qed

lemma places_step:
  assumes "places_ok W p" "pool_step w t p = Some (es, p')"
  shows "places_ok W p'"
proof -
  have t: "place_ok W (mx_owner (tp_mutex p)) (tp_notFull p) (tp_notEmpty p) t (tp_pc p t)"
    and d: "distinct (tp_notFull p)" "distinct (tp_notEmpty p)"
    using assms(1) by (simp_all add: places_ok_def)
  note go = places_go [OF assms(1), where t = t]
  show ?thesis
    using assms(2)
  proof (cases rule: step_cases)
    case (push x c)
    then show ?thesis using t d notified [OF push(3) d(2)] by (intro go) (auto simp: place_ok_def)
  next
    case (pop x xs c)
    then show ?thesis using t d notified [OF pop(3) d(1)] by (intro go) (auto simp: place_ok_def)
  next
    case (unassign k m)
    then show ?thesis using t d by (cases k) (auto intro!: go simp: place_ok_def)
  next
    case (release k m)
    then show ?thesis using t d by (cases k) (auto intro!: go simp: place_ok_def)
  next
    case (locks k m)
    then show ?thesis using t d by (intro go) (auto simp: place_ok_def)
  next
    case (wakes k m)
    then show ?thesis using t d by (intro go) (auto simp: place_ok_def)
  next
    case (full x m)
    then show ?thesis using t d by (intro go) (auto simp: place_ok_def)
  next
    case (empty m)
    then show ?thesis using t d by (intro go) (auto simp: place_ok_def)
  qed (use t d in \<open>intro go; auto simp: place_ok_def; fail\<close>)+
qed

lemma stopping_step:
  assumes "stopping_ok W p" "places_ok W p" "pool_step w t p = Some (es, p')"
  shows "stopping_ok W p'"
proof -
  have s: "\<not> tp_running p \<Longrightarrow> tp_notEmpty p = []" "tp_running p \<Longrightarrow> tp_pc p u \<noteq> Finished"
    "h \<in> set (tp_threads p) \<Longrightarrow> th_id h = Some v \<Longrightarrow> v \<in> W" "next_pc (tp_pc p u) = Joining hs \<Longrightarrow> \<not> tp_running p \<and> set hs \<subseteq> set (tp_threads p)"
    for u h v hs using assms(1) unfolding stopping_ok_def by blast+
  have sh: "shape (tp_pc p t)" using assms(2) by (simp add: places_ok_def place_ok_def)
  show ?thesis
    using assms(3)
  proof (cases rule: step_cases)
    case (locks k m)
    then show ?thesis using s by (auto simp: stopping_ok_def)
  next
    case (wakes k m)
    then show ?thesis using s by (auto simp: stopping_ok_def)
  next
    case (push x c)
    then show ?thesis using s by (auto simp: stopping_ok_def cond_notify_def split: if_splits)
  next
    case (unassign k m)
    then show ?thesis using s s(4) [of t] sh by (cases k) (auto simp: stopping_ok_def)
  next
    case (release k m)
    then show ?thesis using s s(4) [of t] by (auto simp: stopping_ok_def)
  next
    case (join h hs)
    then show ?thesis using s s(4) [of t "h # hs"] by (auto simp: stopping_ok_def)
  qed (use s in \<open>auto simp: stopping_ok_def\<close>)+
qed

lemma bounded_step:
  assumes "bounded p" "pool_step w t p = Some (es, p')"
  shows "bounded p'"
  using assms(2)
proof (cases rule: step_cases)
  case (push x c)
  then show ?thesis by (simp add: bounded_def pool_full_def)
qed (use assms(1) in \<open>auto simp: bounded_def\<close>)

lemma other_awake:
  assumes "\<exists>u. awake p u" "tp_pc p' = (tp_pc p)(t := k)" "tp_notFull p' = tp_notFull p" "\<not> awake p t \<or> (\<exists>x. k = RunCheck x)"
  shows "\<exists>u. awake p' u"
proof -
  obtain u where u: "awake p u" using assms(1) by blast
  show ?thesis
  proof (cases "u = t")
    case True
    then obtain x where "k = RunCheck x" using assms(4) u by blast
    then show ?thesis using assms(2) by (auto simp: awake_def intro!: exI [of _ t])
  next
    case False
    then show ?thesis using u assms(2,3) by (auto simp: awake_def intro!: exI [of _ u])
  qed
qed

lemma wakeups_same:
  assumes "wakeups_ok W p" "tp_pc p' = (tp_pc p)(t := k)" "tp_notFull p' = tp_notFull p" "\<not> awake p t \<or> (\<exists>x. k = RunCheck x)"
    "tp_tasks p' = tp_tasks p" "set (tp_notEmpty p') \<subseteq> set (tp_notEmpty p)"
  shows "wakeups_ok W p'"
  using other_awake [OF _ assms(2-4)] assms(1,3,5,6) unfolding wakeups_ok_def by (metis subset_trans)

lemma wakeups_step:
  assumes "wakeups_ok W p" "places_ok W p" "stopping_ok W p" "1 \<le> tp_threadNum p mod 2 ^ 64" "pool_step w t p = Some (es, p')"
  shows "wakeups_ok W p'"
proof -
  have ne: "tp_tasks p \<noteq> [] \<Longrightarrow> W \<subseteq> set (tp_notEmpty p) \<Longrightarrow> W = {}"
    using assms(1) unfolding wakeups_ok_def by blast+
  note same = wakeups_same [OF assms(1)]
  have place: "place_ok W (mx_owner (tp_mutex p)) (tp_notFull p) (tp_notEmpty p) u (tp_pc p u)" for u
    using assms(2) by (simp add: places_ok_def)
  have W: "u \<in> set (tp_notEmpty p) \<Longrightarrow> u \<in> W" "u \<in> set (tp_notFull p) \<Longrightarrow> \<exists>x. tp_pc p u = RunWait x" for u
    using place [of u] by (cases "tp_pc p u"; auto simp: place_ok_def)+
  have d: "distinct (tp_notFull p)" "distinct (tp_notEmpty p)" using assms(2) by (simp_all add: places_ok_def)
  have f: "pool_full p \<Longrightarrow> tp_tasks p \<noteq> []" using assms(4) by (auto simp: pool_full_def)
  show ?thesis
    using assms(5)
  proof (cases rule: step_cases)
    case (locks k m)
    then show ?thesis by (intro same [where t = t and k = "k"]) (auto simp: go_def awake_def)
  next
    case (wakes k m)
    then show ?thesis by (intro same [where t = t and k = "k"]) (auto simp: go_def awake_def)
  next
    case (full x m)
    then show ?thesis using ne f by (auto simp: wakeups_ok_def)
  next
    case (push x c)
    have "\<exists>u \<in> W. u \<notin> set c" if "W \<noteq> {}"
    proof (cases "tp_notEmpty p = []")
      case True
      then show ?thesis using push(3) that by (auto simp: cond_notify_def)
    next
      case False
      then show ?thesis using notified(3) [OF push(3) d(2)] W(1) by blast
    qed
    then show ?thesis using push by (auto simp: wakeups_ok_def)
  next
    case (empty m)
    then have "tp_notFull p \<noteq> [] \<Longrightarrow> \<exists>u. awake p' u"
      using other_awake [of p p' t TakeWait] assms(1) unfolding wakeups_ok_def by (simp add: go_def awake_def [of p t])
    then show ?thesis using empty by (auto simp: wakeups_ok_def)
  next
    case (pop x xs c)
    have "t \<in> W" "t \<notin> set (tp_notEmpty p)" using place [of t] pop(1) by (auto simp: place_ok_def)
    moreover have "\<exists>u. awake p' u" if "c \<noteq> []"
    proof -
      have f: "tp_notFull p \<noteq> []" using that pop(3) by (auto simp: cond_notify_def)
      then obtain u where u: "u \<in> set (tp_notFull p)" "u \<notin> set c" using notified(3) [OF pop(3) d(1) f] by blast
      then obtain x where "tp_pc p u = RunWait x" using W(2) by blast
      then show ?thesis using u pop by (auto simp: awake_def intro!: exI [of _ u])
    qed
    ultimately show ?thesis using pop by (auto simp: wakeups_ok_def)
  next
    case (release k m)
    then show ?thesis by (intro same [where t = t and k = "Unassign k"]) (auto simp: go_def awake_def)
  next
    case (unassign k m)
    then show ?thesis by (intro same [where t = t and k = "k"]) (auto simp: go_def awake_def)
  next
    case (stop)
    then show ?thesis by (intro same [where t = t and k = "Unlock (Joining (tp_threads p))"]) (auto simp: go_def awake_def)
  next
    case (none)
    then show ?thesis by (intro same [where t = t and k = "Unlock (Taken None)"]) (auto simp: go_def awake_def)
  next
    case (loop)
    then show ?thesis by (intro same [where t = t and k = "if tp_running p then TakeLock else Finished"]) (auto simp: go_def awake_def)
  next
    case (ran x)
    then show ?thesis by (intro same [where t = t and k = "WorkLoop"]) (auto simp: go_def awake_def)
  next
    case (join h hs)
    then show ?thesis by (intro same [where t = t and k = "Joining hs"]) (auto simp: go_def awake_def)
  next
    case (joined)
    then show ?thesis by (intro same [where t = t and k = "Outside"]) (auto simp: go_def awake_def)
  qed
qed

section \<open>All interleavings\<close>

definition pool_ok :: "tid set \<Rightarrow> 'a ThreadPool \<Rightarrow> bool" where
  "pool_ok W p \<longleftrightarrow> places_ok W p \<and> stopping_ok W p \<and> wakeups_ok W p \<and> bounded p"

lemma step_num: "pool_step w t p = Some (es, p') \<Longrightarrow> tp_threadNum p' = tp_threadNum p \<and> tp_threads p' = tp_threads p"
  by (erule step_cases) auto

lemma pool_ok_outside:
  assumes "pool_ok W p" "tp_pc p t = Outside" "k = RunLock x \<or> k = StopLock"
  shows "pool_ok W (go t k p)"
proof -
  have pl: "places_ok W p" and st: "stopping_ok W p" and wk: "wakeups_ok W p" using assms(1) by (simp_all add: pool_ok_def)
  have "\<forall>u. place_ok W (mx_owner (tp_mutex p)) (tp_notFull p) (tp_notEmpty p) u (tp_pc p u)"
    and d: "distinct (tp_notFull p)" "distinct (tp_notEmpty p)" using pl by (simp_all add: places_ok_def)
  then have t: "place_ok W (mx_owner (tp_mutex p)) (tp_notFull p) (tp_notEmpty p) t (tp_pc p t)" by blast
  have "places_ok W (go t k p)"
    by (rule places_go [OF pl, where t = t]) (use t d assms(2,3) in \<open>auto simp: place_ok_def\<close>)
  moreover have "stopping_ok W (go t k p)" using st assms(3) by (auto simp: stopping_ok_def)
  moreover have "wakeups_ok W (go t k p)"
    by (rule wakeups_same [OF wk, where t = t and k = k]) (use assms(2) in \<open>auto simp: go_def awake_def\<close>)
  moreover have "bounded (go t k p)" using assms(1) by (simp add: pool_ok_def bounded_def)
  ultimately show ?thesis by (simp add: pool_ok_def)
qed

lemma pool_ok_spurious:
  assumes "pool_ok W p"
  shows "pool_ok W (p\<lparr>tp_notFull := remove1 w (tp_notFull p), tp_notEmpty := remove1 w (tp_notEmpty p)\<rparr>)" (is "pool_ok W ?p")
proof -
  have sub: "set (remove1 w c) \<subseteq> set c" for c by (rule set_remove1_subset)
  have "places_ok W ?p"
    using assms notin_set_remove1 [of _ _ w] unfolding pool_ok_def places_ok_def place_ok_def by auto
  moreover have "stopping_ok W ?p" using assms by (auto simp: pool_ok_def stopping_ok_def)
  moreover have "wakeups_ok W ?p"
  proof -
    have "awake p u \<Longrightarrow> awake ?p u" for u using sub by (auto simp: awake_def)
    moreover have "W \<subseteq> set (remove1 w (tp_notEmpty p)) \<Longrightarrow> W \<subseteq> set (tp_notEmpty p)" using sub by blast
    ultimately show ?thesis using assms by (fastforce simp: pool_ok_def wakeups_ok_def)
  qed
  ultimately show ?thesis using assms by (simp add: pool_ok_def bounded_def)
qed

lemma interleaving_ok:
  assumes "pool_run boss p0 tr p" "pool_ok W p0" "1 \<le> tp_threadNum p0 mod 2 ^ 64"
  shows "pool_ok W p \<and> tp_threadNum p = tp_threadNum p0"
  using assms(1)
proof induction
  case pool_begin
  then show ?case using assms(2) by simp
next
  case (pool_next tr p w t es p')
  then show ?case
    using places_step stopping_step wakeups_step bounded_step step_num assms(3) unfolding pool_ok_def by metis
next
  case (pool_spurious tr p w)
  then show ?case using pool_ok_spurious [of W p w] by simp
next
  case (pool_call tr p t x)
  then show ?case using pool_ok_outside [of W p t "RunLock x"] by simp
next
  case (pool_stop tr p)
  then show ?case using pool_ok_outside [of W p boss StopLock] by simp
qed

text \<open>The task that a thread has in its hands.\<close>

fun in_hand :: "'a pc \<Rightarrow> 'a list" where
  "in_hand (Taken (Some f)) = [f]"
| "in_hand (Unlock (Taken (Some f))) = [f]"
| "in_hand (Unassign (Taken (Some f))) = [f]"
| "in_hand k = []"

text \<open>A pool that has just been started.\<close>

definition created_threads :: "tid option list \<Rightarrow> tid set" where
  "created_threads created = {t. Some t \<in> set created}"

definition started :: "int \<Rightarrow> tid option list \<Rightarrow> 'a ThreadPool \<Rightarrow> bool" where
  "started num created p \<longleftrightarrow> (\<exists>n g. p = snd (ThreadPool_start num created n (ThreadPool_new g))) \<and> length created = nat num"

lemma start_loop_result:
  assumes "start_loop i k created n p = (n', p')" "length created = k" "length (tp_threads p) = i"
  shows "tp_mutex p' = tp_mutex p \<and> tp_notFull p' = tp_notFull p \<and> tp_notEmpty p' = tp_notEmpty p \<and> tp_tasks p' = tp_tasks p \<and>
    tp_threadNum p' = tp_threadNum p \<and> tp_running p' = tp_running p \<and>
    (\<forall>t. tp_pc p' t = (if t \<in> created_threads created then WorkLoop else tp_pc p t)) \<and>
    (\<forall>h \<in> set (tp_threads p'). h \<in> set (tp_threads p) \<or> (\<forall>w. th_id h = Some w \<longrightarrow> w \<in> created_threads created))"
  using assms
proof (induction i k created n p arbitrary: n' p' rule: start_loop.induct)
  case (3 i k c cs n p)
  obtain h n1 where h: "Thread_new (dec_str (i + 1)) n = (h, n1)" by fastforce
  have "th_id h = None" using h by (auto simp: Thread_new_def Let_def split_beta)
  define hc where "hc = Thread_start c h"
  have hc: "\<forall>w. th_id hc = Some w \<longrightarrow> c = Some w" using \<open>th_id h = None\<close> by (auto simp: hc_def Thread_start_def split: option.splits)
  define p1 where "p1 = p\<lparr>tp_threads := tp_threads p @ [hc]\<rparr>"
  define p2 where "p2 = (case c of None \<Rightarrow> p1 | Some t \<Rightarrow> go t WorkLoop p1)"
  have u: "(tp_threads p @ [h])[i := Thread_start c ((tp_threads p @ [h]) ! i)] = tp_threads p @ [hc]"
    using 3(4) by (simp add: hc_def nth_append list_update_append)
  have s: "start_loop (i + 1) k cs n1 p2 = (n', p')"
    using 3(2) unfolding start_loop.simps h prod.case Let_def u p2_def p1_def .
  have ih: "start_loop (i + 1) k cs n1 p2 = (n', p') \<Longrightarrow> length cs = k \<Longrightarrow> length (tp_threads p2) = i + 1 \<Longrightarrow>
      tp_mutex p' = tp_mutex p2 \<and> tp_notFull p' = tp_notFull p2 \<and> tp_notEmpty p' = tp_notEmpty p2 \<and> tp_tasks p' = tp_tasks p2 \<and>
      tp_threadNum p' = tp_threadNum p2 \<and> tp_running p' = tp_running p2 \<and>
      (\<forall>t. tp_pc p' t = (if t \<in> created_threads cs then WorkLoop else tp_pc p2 t)) \<and>
      (\<forall>h \<in> set (tp_threads p'). h \<in> set (tp_threads p2) \<or> (\<forall>w. th_id h = Some w \<longrightarrow> w \<in> created_threads cs))"
    unfolding p2_def p1_def u [symmetric] by (rule 3(1) [OF h [symmetric] refl refl refl])
  have "length (tp_threads p2) = i + 1" using 3(4) by (simp add: p2_def p1_def split: option.splits)
  with ih s 3(3) show ?case
    using hc by (auto simp: p2_def p1_def created_threads_def split: option.splits)
qed (auto simp: created_threads_def)

lemma started_ok:
  assumes "started num created p"
  shows "pool_ok (created_threads created) p \<and> tp_threadNum p = num \<and> tp_running p \<and> tp_tasks p = [] \<and> (\<forall>t. in_hand (tp_pc p t) = [])"
proof -
  obtain n g n' where "start_loop 0 (nat num) created n ((ThreadPool_new g)\<lparr>tp_threadNum := num, tp_running := True\<rparr>) = (n', p)" "length created = nat num"
    using assms unfolding started_def ThreadPool_start_def by (metis prod.collapse)
  from start_loop_result [OF this] have r: "tp_mutex p = \<lparr>mx_owner = None, mx_holder = 0\<rparr>" "tp_notFull p = []" "tp_notEmpty p = []" "tp_tasks p = []"
    "tp_threadNum p = num" "tp_running p" "\<forall>t. tp_pc p t = (if t \<in> created_threads created then WorkLoop else Outside)"
    "\<forall>h \<in> set (tp_threads p). \<forall>w. th_id h = Some w \<longrightarrow> w \<in> created_threads created"
    by (simp_all add: ThreadPool_new_def)
  then show ?thesis
    by (auto simp: pool_ok_def places_ok_def place_ok_def stopping_ok_def wakeups_ok_def bounded_def split: if_splits)
qed

section \<open>What the pool promises\<close>

fun queued :: "'a event \<Rightarrow> 'a option list" where
  "queued (Queued t x) = [x]"
| "queued e = []"

fun took :: "'a event \<Rightarrow> 'a option list" where
  "took (Took t x) = [x]"
| "took e = []"

text \<open>The tasks that a thread took and those it ran.\<close>

fun took_by :: "tid \<Rightarrow> 'a event \<Rightarrow> 'a list" where
  "took_by t (Took u (Some f)) = (if t = u then [f] else [])"
| "took_by t e = []"

fun ran_by :: "tid \<Rightarrow> 'a event \<Rightarrow> 'a list" where
  "ran_by t (Ran u f) = (if t = u then [f] else [])"
| "ran_by t e = []"

lemma in_hand_next: "after_guard k \<Longrightarrow> in_hand (Unlock k) = in_hand k \<and> in_hand (Unassign k) = in_hand k"
  by (cases k rule: after_guard.cases) (auto split: option.split, (case_tac x, simp_all)+)

lemma fifo_step:
  assumes "pool_step w t p = Some (es, p')" "shape (tp_pc p t)"
  shows "tp_tasks p @ concat (map queued es) = concat (map took es) @ tp_tasks p'"
    "in_hand (tp_pc p u) @ concat (map (took_by u) es) = concat (map (ran_by u) es) @ in_hand (tp_pc p' u)"
proof -
  show "tp_tasks p @ concat (map queued es) = concat (map took es) @ tp_tasks p'"
    using assms(1) by (cases rule: step_cases) (auto split: option.splits)
  show "in_hand (tp_pc p u) @ concat (map (took_by u) es) = concat (map (ran_by u) es) @ in_hand (tp_pc p' u)"
    using assms(1)
  proof (cases rule: step_cases)
    case (pop x xs c)
    then show ?thesis by (cases x) auto
  next
    case (ran x)
    then show ?thesis by (cases x) auto
  next
    case (release k m)
    then show ?thesis using assms(2) in_hand_next [of k] by auto
  next
    case (unassign k m)
    then show ?thesis using assms(2) in_hand_next [of k] by auto
  qed auto
qed

lemma run_fifo:
  assumes "pool_run boss p0 tr p" "pool_ok W p0" "1 \<le> tp_threadNum p0 mod 2 ^ 64" "tp_tasks p0 = []" "\<forall>u. in_hand (tp_pc p0 u) = []"
  shows "concat (map queued tr) = concat (map took tr) @ tp_tasks p \<and>
    concat (map (took_by u) tr) = concat (map (ran_by u) tr) @ in_hand (tp_pc p u)"
  using assms(1)
proof induction
  case (pool_next tr p w t es p')
  have "shape (tp_pc p t)"
    using interleaving_ok [OF pool_next(1) assms(2,3)] by (simp add: pool_ok_def places_ok_def place_ok_def)
  from fifo_step [OF pool_next(2) this] pool_next(3) show ?case by (metis append_assoc concat_append map_append)
qed (use assms(4,5) in auto)

text \<open>
  C8. A bounded queue. From a started pool, whatever the threads do in whatever order: the tasks are taken from the
  queue in the order in which they were put into it, each once; every thread runs the tasks it took, in order,
  each once, and has at most one more in its hands; and the queue never has more tasks than the pool was started with threads.
\<close>

theorem pool_fifo:
  assumes "started num created p0" "1 \<le> num" "num < 2 ^ 64" "pool_run boss p0 tr p"
  shows "concat (map queued tr) = concat (map took tr) @ tp_tasks p \<and>
    (\<forall>t. concat (map (took_by t) tr) = concat (map (ran_by t) tr) @ in_hand (tp_pc p t)) \<and>
    int (length (tp_tasks p)) \<le> num"
proof -
  have s: "pool_ok (created_threads created) p0" "tp_threadNum p0 = num" "tp_tasks p0 = []" using started_ok [OF assms(1)] by simp_all
  have n: "1 \<le> tp_threadNum p0 mod 2 ^ 64" "num mod 2 ^ 64 = num" using s(2) assms(2,3) by simp_all
  have h: "\<forall>u. in_hand (tp_pc p0 u) = []" using started_ok [OF assms(1)] by blast
  have "bounded p" "tp_threadNum p = num" using interleaving_ok [OF assms(4) s(1) n(1)] s(2) by (simp_all add: pool_ok_def)
  then show ?thesis using run_fifo [OF assms(4) s(1) n(1) s(3) h] n(2) by (simp add: bounded_def)
qed

text \<open>
  C28. At most one thread has the mutex, and it is the owner the system knows; a thread that the pool created is
  always in the code of a worker, and no other thread ever is; a thread counted as waiting does wait;
  and once the pool is stopped no worker waits.
\<close>

theorem pool_well_formed:
  assumes "started num created p0" "1 \<le> num" "num < 2 ^ 64" "pool_run boss p0 tr p"
  shows "(\<forall>t u. inside (tp_pc p t) \<and> inside (tp_pc p u) \<longrightarrow> t = u) \<and>
    (\<forall>t. mx_owner (tp_mutex p) = Some t \<longleftrightarrow> inside (tp_pc p t)) \<and>
    (\<forall>t. working (next_pc (tp_pc p t)) \<longleftrightarrow> Some t \<in> set created) \<and>
    (\<forall>t \<in> set (tp_notFull p). waits_full (tp_pc p t)) \<and> (\<forall>t \<in> set (tp_notEmpty p). tp_pc p t = TakeWait) \<and>
    (\<not> tp_running p \<longrightarrow> tp_notEmpty p = [])"
proof -
  have s: "pool_ok (created_threads created) p0" "tp_threadNum p0 = num" using started_ok [OF assms(1)] by simp_all
  have n: "1 \<le> tp_threadNum p0 mod 2 ^ 64" using s(2) assms(2,3) by simp
  have p: "places_ok (created_threads created) p" "stopping_ok (created_threads created) p"
    using interleaving_ok [OF assms(4) s(1) n] by (simp_all add: pool_ok_def)
  then have o: "\<forall>t. mx_owner (tp_mutex p) = Some t \<longleftrightarrow> inside (tp_pc p t)" by (simp add: places_ok_def place_ok_def)
  then have "inside (tp_pc p t) \<Longrightarrow> inside (tp_pc p u) \<Longrightarrow> t = u" for t u by (metis option.inject)
  then show ?thesis
    using p o by (auto simp: places_ok_def place_ok_def stopping_ok_def created_threads_def)
qed

section \<open>Where the pool rests\<close>

lemma some_notify: "\<exists>w d. cond_notify w c = Some d"
  by (cases c) (auto simp: cond_notify_def)

lemma inside_steps:
  assumes "inside (tp_pc p t)" "mx_owner (tp_mutex p) = Some t"
  shows "\<exists>w es p'. pool_step w t p = Some (es, p')"
proof -
  obtain w1 d1 where w1: "cond_notify w1 (tp_notEmpty p) = Some d1" using some_notify by blast
  obtain w2 d2 where w2: "cond_notify w2 (tp_notFull p) = Some d2" using some_notify by blast
  show ?thesis
  proof (cases "tp_pc p t")
    case (RunCheck x)
    then show ?thesis using assms(2) w1
      by (cases "pool_full p") (auto simp: pool_step_def run_check_def wait_begin_def mutex_release_def unassignHolder_def intro!: exI [of _ w1])
  next
    case TakeCheck
    then show ?thesis using assms(2) w2
      by (cases "tp_tasks p") (auto simp: pool_step_def take_check_def wait_begin_def mutex_release_def unassignHolder_def intro!: exI [of _ w2])
  qed (use assms in \<open>auto simp: pool_step_def stop_set_def pool_release_def mutex_release_def\<close>)
qed

lemma resting_places:
  assumes "pool_ok W p" "\<forall>w t. pool_step w t p = None"
  shows "tp_pc p t = Outside \<or> (waits_full (tp_pc p t) \<and> t \<in> set (tp_notFull p)) \<or> (tp_pc p t = TakeWait \<and> t \<in> set (tp_notEmpty p)) \<or> tp_pc p t = Finished"
proof -
  have place: "place_ok W (mx_owner (tp_mutex p)) (tp_notFull p) (tp_notEmpty p) u (tp_pc p u)" for u
    using assms(1) by (simp add: pool_ok_def places_ok_def)
  have out: "\<not> inside (tp_pc p u)" for u
    using inside_steps [of p u] assms(2) place [of u] by (auto simp: place_ok_def)
  then have free: "mx_owner (tp_mutex p) = None" using place by (cases "mx_owner (tp_mutex p)") (auto simp: place_ok_def)
  have lock: "ThreadMutex_lock u (tp_mutex p) \<noteq> None" for u using free by (simp add: ThreadMutex_lock_def)
  have step: "pool_step w u p = None" for w u using assms(2) by simp
  have rest: "tp_pc p u = Outside \<or> (waits_full (tp_pc p u) \<and> u \<in> set (tp_notFull p)) \<or> (tp_pc p u = TakeWait \<and> u \<in> set (tp_notEmpty p)) \<or>
      tp_pc p u = Finished \<or> (\<exists>hs. tp_pc p u = Joining hs)" for u
    using step [of 0 u] out [of u] lock [of u]
    by (cases "tp_pc p u") (auto simp: pool_step_def pool_lock_def pool_wake_def wait_end_def split: if_splits)
  have "tp_pc p t \<noteq> Joining hs" for hs
  proof
    assume j: "tp_pc p t = Joining hs"
    then have "next_pc (tp_pc p t) = Joining hs" by simp
    then have st: "\<not> tp_running p" "tp_notEmpty p = []" "set hs \<subseteq> set (tp_threads p)"
      using assms(1) unfolding pool_ok_def stopping_ok_def by blast+
    from step [of 0 t] j obtain h hs' u where u: "hs = h # hs'" "Thread_join h = Some u" "tp_pc p u \<noteq> Finished"
      by (auto simp: pool_step_def join_next_def split: list.splits option.splits if_splits)
    then have "u \<in> W" using assms(1) st(3) by (auto simp: pool_ok_def stopping_ok_def Thread_join_def split: if_splits)
    then have "working (next_pc (tp_pc p u))" using place [of u] by (simp add: place_ok_def)
    then show False using rest [of u] st(2) u(3) by (cases "tp_pc p u") auto
  qed
  then show ?thesis using rest [of t] by blast
qed

text \<open>
  C7. No deadlock and no lost wake-up. When no thread can make a step without a new call, then either the pool is
  running, its queue is empty, all its workers wait for a task and nobody else is inside the pool; or it is
  stopped, all its workers have ended and \<open>stop\<close> has returned, and whoever is still inside is a
  producer that waits for room in the queue.
\<close>

theorem pool_rests:
  assumes "started num created p0" "1 \<le> num" "num < 2 ^ 64" "Some v \<in> set created" "pool_run boss p0 tr p"
    "\<forall>w t. pool_step w t p = None"
  shows "if tp_running p
    then tp_tasks p = [] \<and> (\<forall>t. tp_pc p t = (if Some t \<in> set created then TakeWait else Outside))
    else \<forall>t. if Some t \<in> set created then tp_pc p t = Finished else tp_pc p t = Outside \<or> waits_full (tp_pc p t) \<and> t \<in> set (tp_notFull p)"
proof -
  define W where "W = created_threads created"
  have s: "pool_ok W p0" "tp_threadNum p0 = num" using started_ok [OF assms(1)] by (simp_all add: W_def)
  have n: "1 \<le> tp_threadNum p0 mod 2 ^ 64" using s(2) assms(2,3) by simp
  have ok: "pool_ok W p" using interleaving_ok [OF assms(5) s(1) n] by simp
  have rest: "tp_pc p t = Outside \<or> (waits_full (tp_pc p t) \<and> t \<in> set (tp_notFull p)) \<or> (tp_pc p t = TakeWait \<and> t \<in> set (tp_notEmpty p)) \<or> tp_pc p t = Finished" for t
    by (rule resting_places [OF ok assms(6)])
  have W: "t \<in> W \<longleftrightarrow> working (next_pc (tp_pc p t))" "t \<in> W \<longleftrightarrow> Some t \<in> set created" for t
    using ok by (auto simp: pool_ok_def places_ok_def place_ok_def W_def created_threads_def)
  have wf: "waits_full k \<Longrightarrow> \<not> working (next_pc k)" for k :: "'a pc" by (cases k) auto
  show ?thesis
  proof (cases "tp_running p")
    case True
    then have fin: "tp_pc p t \<noteq> Finished" for t using ok by (simp add: pool_ok_def stopping_ok_def)
    then have w: "t \<in> W \<Longrightarrow> tp_pc p t = TakeWait \<and> t \<in> set (tp_notEmpty p)" for t
      using rest [of t] W(1) [of t] wf by auto
    have "v \<in> W" using assms(4) W(2) by simp
    then have "tp_tasks p = []" using ok w unfolding pool_ok_def wakeups_ok_def by blast
    moreover have "\<not> awake p u" for u using rest [of u] by (auto simp: awake_def)
    ultimately have "tp_notFull p = []" using ok unfolding pool_ok_def wakeups_ok_def by blast
    then have "t \<notin> W \<Longrightarrow> tp_pc p t = Outside" for t using rest [of t] W(1) [of t] fin [of t] by auto
    then show ?thesis using True w W(2) \<open>tp_tasks p = []\<close> by simp
  next
    case False
    then have "tp_notEmpty p = []" using ok by (simp add: pool_ok_def stopping_ok_def)
    then have "if t \<in> W then tp_pc p t = Finished else tp_pc p t = Outside \<or> waits_full (tp_pc p t) \<and> t \<in> set (tp_notFull p)" for t
      using rest [of t] W(1) [of t] wf by auto
    then show ?thesis using False W(2) by simp
  qed
qed

section \<open>What a stopped pool does not do\<close>

fun in_run :: "'a pc \<Rightarrow> bool" where
  "in_run (RunLock x) = True"
| "in_run (RunCheck x) = True"
| "in_run (RunWait x) = True"
| "in_run k = False"

text \<open>A stopped pool without workers whose queue is full.\<close>

definition dead :: "'a ThreadPool \<Rightarrow> bool" where
  "dead p \<longleftrightarrow> pool_full p \<and> (\<forall>t. shape (tp_pc p t) \<and> (working (next_pc (tp_pc p t)) \<longrightarrow> tp_pc p t = Finished))"

lemma dead_step:
  assumes "dead p" "pool_step w t p = Some (es, p')"
  shows "dead p' \<and> es = [] \<and> (in_run (tp_pc p u) \<longrightarrow> in_run (tp_pc p' u))"
proof -
  have t: "shape (tp_pc p t)" "working (next_pc (tp_pc p t)) \<Longrightarrow> tp_pc p t = Finished" and f: "pool_full p"
    and all: "\<forall>t. shape (tp_pc p t) \<and> (working (next_pc (tp_pc p t)) \<longrightarrow> tp_pc p t = Finished)"
    using assms(1) unfolding dead_def by blast+
  have keep: "dead q" if "tp_pc q = (tp_pc p)(t := k)" "pool_full q" "shape k" "\<not> working (next_pc k)" for q k
    using all that by (simp add: dead_def)
  show ?thesis
    using assms(2)
  proof (cases rule: step_cases)
    case (unassign k m)
    then show ?thesis using t f keep [of p' k] by (cases k) (auto simp: go_def pool_full_def)
  next
    case (release k m)
    then show ?thesis using t f keep [of p' "Unassign k"] by (auto simp: go_def pool_full_def)
  next
    case (locks k m)
    then show ?thesis using t f keep [of p' k] by (auto simp: go_def pool_full_def)
  next
    case (wakes k m)
    then show ?thesis using t f keep [of p' k] by (auto simp: go_def pool_full_def)
  next
    case (full x m)
    then show ?thesis using f keep [of p' "RunWait x"] by (auto simp: go_def pool_full_def)
  next
    case (stop)
    then show ?thesis using f keep [of p' "Unlock (Joining (tp_threads p))"] by (auto simp: go_def pool_full_def)
  next
    case (join h hs)
    then show ?thesis using f keep [of p' "Joining hs"] by (auto simp: go_def pool_full_def)
  next
    case (joined)
    then show ?thesis using f keep [of p' Outside] by (auto simp: go_def pool_full_def)
  qed (use t f in auto)
qed

lemma dead_run:
  assumes "pool_run boss p tr q" "dead p"
  shows "dead q \<and> tr = [] \<and> (in_run (tp_pc p u) \<longrightarrow> in_run (tp_pc q u))"
  using assms(1)
proof induction
  case (pool_next tr p1 w t es p')
  then show ?case using dead_step [of p1 w t es p' u] by auto
qed (use assms(2) in \<open>auto simp: dead_def pool_full_def\<close>)

text \<open>
  C37. \<open>stop\<close> wakes the workers only. When the workers of a stopped pool have ended and its queue is full, nothing is ever put into the queue
  or run again, and every producer that waits for room, or calls later, stays in \<open>run\<close> for ever.
\<close>

theorem stopped_pool_strands:
  assumes "started num created p0" "1 \<le> num" "num < 2 ^ 64" "pool_run boss p0 tr p" "\<not> tp_running p"
    "\<forall>t. Some t \<in> set created \<longrightarrow> tp_pc p t = Finished" "int (length (tp_tasks p)) = num" "pool_run boss p later q"
  shows "later = [] \<and> tp_tasks q \<noteq> [] \<and> (\<forall>t. in_run (tp_pc p t) \<longrightarrow> in_run (tp_pc q t))"
proof -
  define W where "W = created_threads created"
  have s: "pool_ok W p0" "tp_threadNum p0 = num" using started_ok [OF assms(1)] by (simp_all add: W_def)
  have n: "1 \<le> tp_threadNum p0 mod 2 ^ 64" using s(2) assms(2,3) by simp
  have ok: "pool_ok W p" "tp_threadNum p = num" using interleaving_ok [OF assms(4) s(1) n] s(2) by simp_all
  have "dead p"
    using ok assms(3,6,7) by (auto simp: dead_def pool_full_def pool_ok_def places_ok_def place_ok_def W_def created_threads_def)
  moreover have "tp_threadNum q = num" using assms(8) by induction (use ok(2) in \<open>auto dest: step_num\<close>)
  ultimately show ?thesis using dead_run [OF assms(8)] assms(2,3) by (auto simp: dead_def pool_full_def)
qed

text \<open>The holder is cleared after the mutex is free: a thread that takes the mutex in between loses its entry.\<close>

lemma holder_lost:
  assumes "tp_pc p t = Unassign k" "tp_pc p u = TakeLock" "mx_owner (tp_mutex p) = None" "t \<noteq> u" "u \<noteq> 0"
    "pool_step w u p = Some (es, p1)" "pool_step w t p1 = Some (es', p2)"
  shows "mx_owner (tp_mutex p2) = Some u \<and> \<not> isLockedByCurrentThread u (tp_mutex p2)"
proof -
  have p1: "p1 = go u TakeCheck (p\<lparr>tp_mutex := assignHolder u ((tp_mutex p)\<lparr>mx_owner := Some u\<rparr>)\<rparr>)"
    using assms(2,3,6) by (simp add: pool_step_def pool_lock_def ThreadMutex_lock_def)
  then have "tp_pc p1 t = Unassign k" using assms(1,4) by simp
  then have "p2 = pool_unassign t k p1" using assms(7) by (simp add: pool_step_def)
  then show ?thesis
    using assms(5) by (simp add: p1 pool_unassign_def unassignHolder_def assignHolder_def isLockedByCurrentThread_def)
qed

section \<open>Examples\<close>

text \<open>A schedule of steps; a run is one.\<close>

datatype 'a act = Step tid tid | Call tid "'a option" | Stop

fun schedule :: "tid \<Rightarrow> 'a act list \<Rightarrow> 'a ThreadPool \<Rightarrow> ('a event list \<times> 'a ThreadPool) option" where
  "schedule boss [] p = Some ([], p)"
| "schedule boss (Step w t # as) p =
     (case pool_step w t p of None \<Rightarrow> None | Some (es, p1) \<Rightarrow> map_option (\<lambda>(fs, q). (es @ fs, q)) (schedule boss as p1))"
| "schedule boss (Call t x # as) p = (if tp_pc p t = Outside then schedule boss as (go t (RunLock x) p) else None)"
| "schedule boss (Stop # as) p = (if tp_pc p boss = Outside \<and> tp_running p then schedule boss as (go boss StopLock p) else None)"

lemma schedule_run: "schedule boss as p = Some (es, q) \<Longrightarrow> pool_run boss p0 tr p \<Longrightarrow> pool_run boss p0 (tr @ es) q"
proof (induction boss as p arbitrary: es tr rule: schedule.induct)
  case (2 boss w t as p)
  then obtain fs p1 gs where s: "pool_step w t p = Some (fs, p1)" "schedule boss as p1 = Some (gs, q)" "es = fs @ gs"
    by (auto split: option.splits prod.splits)
  show ?case using 2(1) [OF s(1) refl s(2) pool_next [OF 2(3) s(1)]] s(3) by simp
qed (auto split: if_splits intro: pool_call pool_stop)

text \<open>A pool with one worker, thread 1; thread 9 owns it; the threads 5 and 6 give it tasks.\<close>

definition demo_pool :: "nat ThreadPool" where
  "demo_pool = snd (ThreadPool_start 1 [Some 1] 0 (ThreadPool_new 0))"

lemma demo_started: "started 1 [Some 1] demo_pool"
  unfolding started_def demo_pool_def by auto

lemma demo_run: "schedule 9 as demo_pool = Some (es, q) \<Longrightarrow> pool_run 9 demo_pool es q"
  using schedule_run [OF _ pool_begin, of 9 as demo_pool es q] by simp

text \<open>One task is queued, taken and run.\<close>

definition demo_work :: "nat act list" where
  "demo_work = [Call 5 (Some 7), Step 0 5, Step 0 5, Step 0 5, Step 0 5, Step 0 1, Step 0 1, Step 0 1, Step 0 1, Step 0 1, Step 0 1]"

text \<open>Two producers and a stop: the first task is queued, the second producer waits, the worker ends before it takes anything.\<close>

definition demo_stop :: "nat act list" where
  "demo_stop = [Call 5 (Some 7), Step 0 5, Step 0 5, Step 0 5, Step 0 5, Call 6 (Some 8), Step 0 6, Step 0 6,
     Stop, Step 0 9, Step 0 9, Step 0 9, Step 0 9, Step 0 1, Step 0 9, Step 0 9]"

lemmas demo_simps = demo_pool_def ThreadPool_start_def ThreadPool_new_def Thread_new_def setDefaultName_def Thread_start_def Thread_join_def
  step_defs pool_full_def

lemma demo_work_result: "\<exists>q. schedule 9 demo_work demo_pool = Some ([Queued 5 (Some 7), Took 1 (Some 7), Ran 1 7], q)"
  by (simp add: demo_work_def demo_simps)

lemma demo_stop_result:
  "\<exists>q. schedule 9 demo_stop demo_pool = Some ([Queued 5 (Some 7)], q) \<and> \<not> tp_running q \<and> tp_pc q 1 = Finished \<and>
    tp_tasks q = [Some 7] \<and> tp_pc q 6 = RunWait (Some 8)"
  by (simp add: demo_stop_def demo_simps)

theorem pool_fifo_witness:
  "\<exists>q. pool_run 9 demo_pool [Queued 5 (Some 7), Took 1 (Some 7), Ran 1 7] q \<and> tp_tasks q = [] \<and> in_hand (tp_pc q 1) = []"
proof -
  obtain q where q: "pool_run 9 demo_pool [Queued 5 (Some 7), Took 1 (Some 7), Ran 1 7] q"
    using demo_work_result demo_run by blast
  have f: "(1 :: int) \<le> 1" "(1 :: int) < 2 ^ 64" by simp_all
  from pool_fifo [OF demo_started f q]
  have "[Some 7] = [Some 7] @ tp_tasks q"
    "\<forall>t. concat (map (took_by t) [Queued 5 (Some 7), Took 1 (Some 7), Ran 1 7]) = concat (map (ran_by t) [Queued 5 (Some 7), Took 1 (Some 7), Ran 1 7]) @ in_hand (tp_pc q t)"
    by simp_all
  from this(1) spec [OF this(2), of 1] have "tp_tasks q = []" "in_hand (tp_pc q 1) = []" by simp_all
  then show ?thesis using q by blast
qed

theorem pool_well_formed_witness:
  "\<exists>q. pool_run 9 demo_pool [Queued 5 (Some 7), Took 1 (Some 7), Ran 1 7] q \<and>
     (mx_owner (tp_mutex q) = Some 1 \<longleftrightarrow> inside (tp_pc q 1)) \<and> working (next_pc (tp_pc q 1)) \<and> \<not> working (next_pc (tp_pc q 5))"
proof -
  obtain q where q: "pool_run 9 demo_pool [Queued 5 (Some 7), Took 1 (Some 7), Ran 1 7] q"
    using demo_work_result demo_run by blast
  have f: "(1 :: int) \<le> 1" "(1 :: int) < 2 ^ 64" by simp_all
  have "\<forall>t. mx_owner (tp_mutex q) = Some t \<longleftrightarrow> inside (tp_pc q t)" "\<forall>t. working (next_pc (tp_pc q t)) \<longleftrightarrow> Some t \<in> set [Some (1 :: tid)]"
    using pool_well_formed [OF demo_started f q] by blast+
  from spec [OF this(1), of 1] spec [OF this(2), of 1] spec [OF this(2), of 5] show ?thesis using q by auto
qed

theorem pool_rests_witness:
  "\<exists>q. pool_run 9 demo_pool [] q \<and> tp_tasks q = [] \<and> tp_pc q 1 = TakeWait \<and> tp_pc q 5 = Outside"
proof -
  have "\<exists>q. schedule 9 [Step 0 1, Step 0 1, Step 0 1] demo_pool = Some ([], q) \<and> (\<forall>w t. pool_step w t q = None) \<and> tp_running q"
    by (simp add: demo_simps)
  then obtain q where q: "pool_run 9 demo_pool [] q" "\<forall>w t. pool_step w t q = None" "tp_running q" using demo_run by blast
  from pool_rests [OF demo_started _ _ _ q(1,2), of 1] q(3) have "tp_tasks q = []" "tp_pc q 1 = TakeWait" "tp_pc q 5 = Outside" by auto
  then show ?thesis using q(1) by blast
qed

theorem stopped_pool_strands_witness:
  "\<exists>p. pool_run 9 demo_pool [Queued 5 (Some 7)] p \<and> in_run (tp_pc p 6) \<and> \<not> (\<exists>later q. pool_run 9 p later q \<and> (later \<noteq> [] \<or> \<not> in_run (tp_pc q 6)))"
proof -
  obtain p where p: "schedule 9 demo_stop demo_pool = Some ([Queued 5 (Some 7)], p)" "\<not> tp_running p" "tp_pc p 1 = Finished"
    "tp_tasks p = [Some 7]" "tp_pc p 6 = RunWait (Some 8)" using demo_stop_result by blast
  have r: "pool_run 9 demo_pool [Queued 5 (Some 7)] p" by (rule demo_run [OF p(1)])
  have "later = [] \<and> in_run (tp_pc q 6)" if "pool_run 9 p later q" for later q
    using stopped_pool_strands [OF demo_started _ _ r p(2) _ _ that] p(3-5) by auto
  then show ?thesis using r p(5) by (intro exI [of _ p]) auto
qed

end
