(* ===== verification/Daemon.thy ===== *)
theory Daemon
  imports Config FileIO
begin

text \<open>
  \<open>core/DaemonBase.cpp\<close>: a parent process that keeps a number of child processes running, its signal
  handler, its parameters and its file with the process number.
\<close>

section \<open>The state\<close>

datatype signal = SIGPIPE | SIGCHLD | SIGSEGV | SIGTERM | SIGUSR1
datatype disposition = SIG_DFL | SIG_IGN | SIG_HANDLER
datatype daemon_role = DAEMON_PARENT | DAEMON_CHILD

text \<open>The members of the object and the static variables of the file, then what they do to the system: the
  signal dispositions, the mode mask and the limits, the signals sent with \<open>kill\<close> and \<open>raise\<close>, and the settings of
  the log and of the resolver.\<close>

record daemon =
  dm_role :: daemon_role
  dm_parent_loop :: bool
  dm_child_loop :: bool
  dm_reload :: bool
  dm_childrens :: "int set"
  dm_parentPid :: int
  dm_childMaxNum :: int
  dm_pidFilename :: bytes
  dm_socketMaxNum :: int
  dm_config :: config
  dm_handler :: "signal \<Rightarrow> disposition"
  dm_umask :: nat
  dm_corelimit :: "int option"
  dm_filelimit :: "int option"
  dm_sent :: "(int \<times> signal) list"
  dm_raised :: "signal list"
  dm_log :: "bytes \<times> bytes"
  dm_dns :: "bytes \<times> bytes"

text \<open>The functions a daemon may override.\<close>

record daemon_class =
  daemonInit :: "daemon \<Rightarrow> daemon"
  processInit :: "daemon \<Rightarrow> daemon"
  processStart :: "daemon \<Rightarrow> daemon"
  processStop :: "daemon \<Rightarrow> daemon"

section \<open>The children\<close>

definition storeChildPid :: "int \<Rightarrow> daemon \<Rightarrow> daemon" where
  "storeChildPid pid d = (if dm_role d = DAEMON_PARENT then d\<lparr>dm_childrens := insert pid (dm_childrens d)\<rparr> else d)"

definition eraseChildPid :: "int \<Rightarrow> daemon \<Rightarrow> daemon" where
  "eraseChildPid pid d = (if dm_role d = DAEMON_PARENT then d\<lparr>dm_childrens := dm_childrens d - {pid}\<rparr> else d)"

definition killAllChildren :: "daemon \<Rightarrow> daemon" where
  "killAllChildren d = d\<lparr>dm_sent := dm_sent d @ map (\<lambda>p. (p, SIGTERM)) (sorted_list_of_set (dm_childrens d))\<rparr>"

definition daemon_raise :: "signal \<Rightarrow> daemon \<Rightarrow> daemon" where
  "daemon_raise s d = d\<lparr>dm_raised := dm_raised d @ [s]\<rparr>"

definition set_disposition :: "signal \<Rightarrow> disposition \<Rightarrow> daemon \<Rightarrow> daemon" where
  "set_disposition s x d = d\<lparr>dm_handler := (dm_handler d)(s := x)\<rparr>"

section \<open>The signal handler\<close>

text \<open>\<open>child\<close> is what \<open>waitpid\<close> returns if it is called. The back trace and the log are left out.\<close>

definition calls_waitpid :: "signal \<Rightarrow> daemon \<Rightarrow> bool" where
  "calls_waitpid s d \<longleftrightarrow> s = SIGCHLD \<and> dm_role d = DAEMON_PARENT \<and> dm_parent_loop d"

fun signalHandle :: "int \<Rightarrow> signal \<Rightarrow> daemon \<Rightarrow> daemon" where
  "signalHandle child SIGSEGV d =
     (let d1 = set_disposition SIGSEGV SIG_DFL d;
          d2 = (if dm_role d1 = DAEMON_PARENT then killAllChildren (set_disposition SIGCHLD SIG_IGN d1) else d1)
      in daemon_raise SIGSEGV d2)"
| "signalHandle child SIGTERM d =
     (if dm_role d = DAEMON_PARENT then d\<lparr>dm_parent_loop := False\<rparr> else d\<lparr>dm_child_loop := False\<rparr>)"
| "signalHandle child SIGCHLD d = (if calls_waitpid SIGCHLD d \<and> child > 0 then eraseChildPid child d else d)"
| "signalHandle child SIGUSR1 d = d\<lparr>dm_reload := True\<rparr>"
| "signalHandle child SIGPIPE d = d"

text \<open>\<open>set_signal_handler\<close> and the table of handlers; \<open>oks\<close> are the results of \<open>sigaction\<close>.\<close>

definition set_signal_handler :: "bool \<Rightarrow> signal \<Rightarrow> disposition \<Rightarrow> daemon \<Rightarrow> disposition option \<times> daemon" where
  "set_signal_handler ok s x d = (if ok then (Some (dm_handler d s), set_disposition s x d) else (None, d))"

definition DaemonSignals :: "(signal \<times> disposition) list" where
  "DaemonSignals = [(SIGPIPE, SIG_IGN), (SIGCHLD, SIG_HANDLER), (SIGSEGV, SIG_HANDLER), (SIGTERM, SIG_HANDLER), (SIGUSR1, SIG_HANDLER)]"

fun setup_loop :: "(signal \<times> disposition) list \<Rightarrow> bool list \<Rightarrow> daemon \<Rightarrow> int \<times> daemon" where
  "setup_loop [] oks d = (0, d)"
| "setup_loop ((s, x) # rest) oks d =
     (let (old, d1) = set_signal_handler (oks \<noteq> [] \<and> hd oks) s x d
      in if old = None then (-1, d1) else setup_loop rest (tl oks) d1)"

definition setupInterestedSignal :: "bool list \<Rightarrow> daemon \<Rightarrow> int \<times> daemon" where
  "setupInterestedSignal oks d = setup_loop DaemonSignals oks d"

section \<open>Parameters\<close>

definition RLIM_INFINITY :: int where
  "RLIM_INFINITY = 2 ^ 64 - 1"

definition adjustResources :: "daemon \<Rightarrow> daemon" where
  "adjustResources d =
     d\<lparr>dm_umask := 8 * 8 + 8 * 2 + 8 + 2 + 1, dm_corelimit := Some RLIM_INFINITY, dm_filelimit := Some (dm_socketMaxNum d mod 2 ^ 64)\<rparr>"

definition loadConfigParams :: "daemon \<Rightarrow> daemon" where
  "loadConfigParams d =
     (let get = getValueByKey (dm_config d);
          d1 = (if get ''core'' ''childnum'' \<noteq> [] then d\<lparr>dm_childMaxNum := atoi (get ''core'' ''childnum'')\<rparr> else d);
          d2 = (if get ''core'' ''socketlimit'' \<noteq> [] then d1\<lparr>dm_socketMaxNum := atoi (get ''core'' ''socketlimit'')\<rparr> else d1);
          d3 = d2\<lparr>dm_log := (get ''log'' ''path'', get ''log'' ''verbose'')\<rparr>;
          d4 = (if get ''dns'' ''primary'' \<noteq> [] then d3\<lparr>dm_dns := (get ''dns'' ''primary'', snd (dm_dns d3))\<rparr> else d3);
          d5 = (if get ''dns'' ''second'' \<noteq> [] then d4\<lparr>dm_dns := (fst (dm_dns d4), get ''dns'' ''second'')\<rparr> else d4)
      in adjustResources d5)"

definition daemon_refresh :: "fsys \<Rightarrow> daemon \<Rightarrow> daemon option" where
  "daemon_refresh fs d =
     do { c \<leftarrow> reload fs (dm_config d);
          Some (loadConfigParams (d\<lparr>dm_reload := False, dm_config := c\<rparr>)) }"

definition initilize :: "daemon_class \<Rightarrow> daemon \<Rightarrow> daemon" where
  "initilize C d = daemonInit C (loadConfigParams d)"

definition adjustPidFileName :: "bytes \<Rightarrow> daemon \<Rightarrow> daemon" where
  "adjustPidFileName name d =
     (let base = (if name \<noteq> [] then name else dm_pidFilename d) in d\<lparr>dm_pidFilename := ''.'' @ base @ ''.pid''\<rparr>)"

definition CONFIG_FILE :: bytes where
  "CONFIG_FILE = ''../etc/tigerso.ini''"

text \<open>The constructor; \<open>c\<close> is the one configuration object of the process, \<open>garbage\<close> the number in memory.\<close>

definition DaemonBase_new :: "fsys \<Rightarrow> config \<Rightarrow> int \<Rightarrow> bytes \<Rightarrow> daemon \<Rightarrow> daemon option" where
  "DaemonBase_new fs c garbage name d =
     do { c1 \<leftarrow> setConfigPath fs CONFIG_FILE c;
          Some (adjustPidFileName name
            (d\<lparr>dm_socketMaxNum := 1024, dm_config := c1, dm_parentPid := garbage, dm_childMaxNum := 1, dm_pidFilename := ''daemon-base''\<rparr>)) }"

section \<open>The file with the process number\<close>

text \<open>\<open>g\<close> is the memory of the file object; \<open>nfd\<close> and \<open>lim\<close> are the results of \<open>open\<close> and \<open>write\<close>.\<close>

definition checkOldDaemon :: "File \<Rightarrow> daemon \<Rightarrow> kern \<Rightarrow> (int \<times> kern) option" where
  "checkOldDaemon g d k =
     do { (f, k1) \<leftarrow> File_new (dm_pidFilename d) g k;
          Some (if testExist f k1 then -1 else 0, snd (File_reset f k1)) }"

definition writePidFile :: "int \<Rightarrow> int \<Rightarrow> int \<Rightarrow> File \<Rightarrow> daemon \<Rightarrow> kern \<Rightarrow> (int \<times> daemon \<times> kern) option" where
  "writePidFile getpid nfd lim g d k =
     do { (f, k1) \<leftarrow> File_new (dm_pidFilename d) g k;
          let d1 = d\<lparr>dm_parentPid := getpid\<rparr>;
          let (n, k2) = File_writeIn (dec_str (nat getpid)) nfd lim f k1;
          Some (if n < 0 then -1 else 0, d1, snd (File_reset f k2)) }"

definition unlinkPidFile :: "daemon \<Rightarrow> kern \<Rightarrow> kern" where
  "unlinkPidFile d k = k\<lparr>disk := (disk k)(c_str (dm_pidFilename d) := None)\<rparr>"

definition DaemonBase_delete :: "int \<Rightarrow> daemon \<Rightarrow> kern \<Rightarrow> kern" where
  "DaemonBase_delete getpid d k = (if getpid = dm_parentPid d then unlinkPidFile d k else k)"

section \<open>Start and stop\<close>

text \<open>What a call leads to: the process goes on, or it ends with a status.\<close>

datatype 'a outcome = Goes_on 'a | Exits int

text \<open>The two forks and \<open>setsid\<close>; the descriptors 0, 1 and 2 are then \<open>/dev/null\<close>.\<close>

definition daemonlize :: "int \<Rightarrow> int \<Rightarrow> int \<Rightarrow> unit outcome" where
  "daemonlize fork1 setsid fork2 =
     (if fork1 = -1 then Exits 1
      else if fork1 \<noteq> 0 then Exits 0
      else if setsid < 0 then Exits 1
      else if fork2 = -1 then Exits 1
      else if fork2 \<noteq> 0 then Exits 0
      else Goes_on ())"

definition childInit :: "daemon_class \<Rightarrow> daemon \<Rightarrow> daemon" where
  "childInit C d = processInit C d"

definition childStart :: "daemon_class \<Rightarrow> daemon \<Rightarrow> daemon" where
  "childStart C d = processStart C (childInit C d)"

definition childStop :: "daemon_class \<Rightarrow> daemon \<Rightarrow> daemon" where
  "childStop C d = processStop C d"

definition daemon_stop :: "daemon_class \<Rightarrow> daemon \<Rightarrow> daemon" where
  "daemon_stop C d =
     (case dm_role d of
        DAEMON_PARENT \<Rightarrow> (killAllChildren d)\<lparr>dm_parent_loop := False\<rparr>
      | DAEMON_CHILD \<Rightarrow> (childStop C d)\<lparr>dm_child_loop := False\<rparr>)"

definition isProcessNeedStop :: "daemon \<Rightarrow> bool" where
  "isProcessNeedStop d = dm_child_loop d"

definition isProcessNeedReload :: "daemon \<Rightarrow> bool" where
  "isProcessNeedReload d = dm_reload d"

text \<open>The number of children is compared as an unsigned number.\<close>

definition wants_child :: "daemon \<Rightarrow> bool" where
  "wants_child d \<longleftrightarrow> int (card (dm_childrens d)) < dm_childMaxNum d mod 2 ^ 64"

section \<open>The loop of the parent\<close>

text \<open>Where the parent is: at the top of the loop; at the test of the inner loop; after a fork, before the child is stored;
  after the inner loop; or it has returned, or ended. A new child continues with \<open>fork_child\<close>.\<close>

datatype parent_at = At_top | At_spawn | Forked int | At_check | Returned int | Ended int

definition fork_child :: "daemon_class \<Rightarrow> daemon \<Rightarrow> int \<times> daemon" where
  "fork_child C d = (0, childStart C (d\<lparr>dm_role := DAEMON_CHILD, dm_child_loop := True\<rparr>))"

definition parentStart :: "bool list \<Rightarrow> daemon \<Rightarrow> parent_at \<times> daemon" where
  "parentStart oks d =
     (let d1 = d\<lparr>dm_role := DAEMON_PARENT, dm_parent_loop := True\<rparr>; (r, d2) = setupInterestedSignal oks d1
      in if r = -1 then (Returned (-1), d2) else (At_top, d2))"

text \<open>One step; \<open>fork\<close> is what a fork returns in the parent, \<open>fs\<close> the file system at that time.\<close>

fun parent_step :: "daemon_class \<Rightarrow> fsys \<Rightarrow> int \<Rightarrow> parent_at \<times> daemon \<Rightarrow> (parent_at \<times> daemon) option" where
  "parent_step C fs fork (At_top, d) =
     (if dm_reload d then map_option (Pair At_spawn) (daemon_refresh fs d) else Some (At_spawn, d))"
| "parent_step C fs fork (At_spawn, d) =
     (if wants_child d then (if fork < 0 then Some (Ended 1, daemon_stop C d) else Some (Forked fork, d)) else Some (At_check, d))"
| "parent_step C fs fork (Forked pid, d) = Some (At_spawn, storeChildPid pid d)"
| "parent_step C fs fork (At_check, d) = Some (if dm_parent_loop d then (At_top, d) else (Returned (-1), daemon_stop C d))"
| "parent_step C fs fork (Returned r, d) = None"
| "parent_step C fs fork (Ended r, d) = None"

text \<open>\<open>start\<close> up to the loop.\<close>

definition daemon_start :: "daemon_class \<Rightarrow> int \<Rightarrow> int \<Rightarrow> int \<Rightarrow> int \<Rightarrow> int \<Rightarrow> int \<Rightarrow> bool list \<Rightarrow> File \<Rightarrow> daemon \<Rightarrow> kern
    \<Rightarrow> ((parent_at \<times> daemon) outcome \<times> kern) option" where
  "daemon_start C fork1 setsid fork2 getpid nfd lim oks g d k =
     do { (old, k1) \<leftarrow> checkOldDaemon g d k;
          if old \<noteq> 0 then Some (Exits 1, k1)
          else (case daemonlize fork1 setsid fork2 of
                  Exits r \<Rightarrow> Some (Exits r, k1)
                | Goes_on _ \<Rightarrow>
                    do { (_, d1, k2) \<leftarrow> writePidFile getpid nfd lim g d k1;
                         Some (Goes_on (parentStart oks (initilize C d1)), k2) }) }"

section \<open>The parent and its children\<close>

text \<open>The living children, those that have ended and were not waited for, and whether \<open>SIGCHLD\<close> is pending:
  the system keeps one pending signal of a kind.\<close>

record family =
  fa_alive :: "int set"
  fa_zombies :: "int set"
  fa_pending :: bool

text \<open>What \<open>waitpid\<close> may return to the handler: some child that has ended, or nothing.\<close>

definition reaps :: "family \<Rightarrow> int \<Rightarrow> bool" where
  "reaps k w \<longleftrightarrow> (if fa_zombies k = {} then w \<le> 0 else w \<in> fa_zombies k)"

inductive supervise :: "daemon_class \<Rightarrow> (parent_at \<times> daemon) \<times> family \<Rightarrow> (parent_at \<times> daemon) \<times> family \<Rightarrow> bool" for C s where
  sup_start: "supervise C s s"
| sup_fork: "supervise C s ((At_spawn, d), k) \<Longrightarrow> parent_step C fs pid (At_spawn, d) = Some (Forked pid, d') \<Longrightarrow>
    0 < pid \<Longrightarrow> pid \<notin> fa_alive k \<union> fa_zombies k \<Longrightarrow> supervise C s ((Forked pid, d'), k\<lparr>fa_alive := insert pid (fa_alive k)\<rparr>)"
| sup_parent: "supervise C s (x, k) \<Longrightarrow> parent_step C fs fork x = Some y \<Longrightarrow> fst y = At_top \<or> fst y = At_spawn \<or> fst y = At_check \<Longrightarrow>
    supervise C s (y, k)"
| sup_child_ends: "supervise C s (x, k) \<Longrightarrow> pid \<in> fa_alive k \<Longrightarrow>
    supervise C s (x, k\<lparr>fa_alive := fa_alive k - {pid}, fa_zombies := insert pid (fa_zombies k), fa_pending := True\<rparr>)"
| sup_sigchld: "supervise C s ((a, d), k) \<Longrightarrow> fa_pending k \<Longrightarrow> reaps k w \<Longrightarrow>
    supervise C s ((a, signalHandle w SIGCHLD d),
      k\<lparr>fa_zombies := (if calls_waitpid SIGCHLD d then fa_zombies k - {w} else fa_zombies k), fa_pending := False\<rparr>)"
| sup_signal: "supervise C s ((a, d), k) \<Longrightarrow> sig = SIGTERM \<or> sig = SIGUSR1 \<or> sig = SIGPIPE \<Longrightarrow>
    supervise C s ((a, signalHandle w sig d), k)"

text \<open>The child that is not stored yet.\<close>

fun in_flight :: "parent_at \<Rightarrow> int set" where
  "in_flight (Forked pid) = {pid}"
| "in_flight a = {}"

definition family_ok :: "(parent_at \<times> daemon) \<times> family \<Rightarrow> bool" where
  "family_ok s \<longleftrightarrow> (case s of ((a, d), k) \<Rightarrow>
     dm_role d = DAEMON_PARENT \<and> finite (dm_childrens d) \<and> finite (fa_alive k) \<and> finite (fa_zombies k) \<and> fa_alive k \<inter> fa_zombies k = {} \<and>
     (\<forall>p \<in> fa_alive k \<union> fa_zombies k. 0 < p) \<and> fa_alive k \<union> fa_zombies k \<subseteq> dm_childrens d \<union> in_flight a)"

text \<open>The children that no pending signal will wait for.\<close>

definition lost :: "family \<Rightarrow> int" where
  "lost k = int (card (fa_zombies k)) - (if fa_pending k then 1 else 0)"

lemma load_keeps: "dm_role (loadConfigParams d) = dm_role d \<and> dm_childrens (loadConfigParams d) = dm_childrens d \<and> dm_parent_loop (loadConfigParams d) = dm_parent_loop d"
  by (simp add: loadConfigParams_def adjustResources_def Let_def)

lemma refresh_keeps:
  "daemon_refresh fs d = Some d' \<Longrightarrow> dm_role d' = dm_role d \<and> dm_childrens d' = dm_childrens d \<and> dm_parent_loop d' = dm_parent_loop d"
  by (auto simp: daemon_refresh_def load_keeps bind_eq_Some_conv)

lemma parent_step_ok:
  assumes "parent_step C fs fork x = Some y" "fst y = At_top \<or> fst y = At_spawn \<or> fst y = At_check" "family_ok (x, k)"
  shows "family_ok (y, k)"
proof -
  obtain a d where x: "x = (a, d)" by fastforce
  show ?thesis
  proof (cases a)
    case At_top
    then obtain d' where "y = (At_spawn, d')" "daemon_refresh fs d = Some d' \<or> d' = d" using assms(1) x by (auto split: if_splits)
    then have "y = (At_spawn, d')" "dm_role d' = dm_role d \<and> dm_childrens d' = dm_childrens d" using refresh_keeps by blast+
    then show ?thesis using assms(3) x At_top by (simp add: family_ok_def)
  qed (use assms x in \<open>auto simp: family_ok_def storeChildPid_def split: if_splits\<close>)
qed

lemma supervise_ok:
  assumes "supervise C s t" "family_ok s"
  shows "family_ok t \<and> lost (snd s) \<le> lost (snd t)"
  using assms
proof (induction rule: supervise.induct)
  case (sup_fork d k fs pid d')
  then have "d' = d" by (auto split: if_splits)
  then show ?case using sup_fork by (auto simp: family_ok_def lost_def)
next
  case (sup_parent x k fs fork y)
  then show ?case using parent_step_ok [of C fs fork x y k] by simp
next
  case (sup_child_ends x k pid)
  then have "pid \<notin> fa_zombies k" "finite (fa_zombies k)" by (auto simp: family_ok_def split: prod.splits)
  then show ?case using sup_child_ends by (auto simp: family_ok_def lost_def split: prod.splits if_splits)
next
  case (sup_sigchld a d k w)
  then have z: "finite (fa_zombies k)" "\<forall>p \<in> fa_zombies k. 0 < p" by (auto simp: family_ok_def)
  have "card (fa_zombies k) \<le> card (fa_zombies k - {w}) + 1" using z(1) by (metis Suc_eq_plus1 card_Diff_singleton card_Suc_Diff1 Diff_insert_absorb Diff_idemp le_refl linear not_less_eq_eq card_mono Diff_subset le_SucI)
  then show ?case using sup_sigchld z
    by (auto simp: family_ok_def lost_def eraseChildPid_def calls_waitpid_def reaps_def split: if_splits)
next
  case (sup_signal a d k sig w)
  then show ?case by (auto simp: family_ok_def)
qed simp


text \<open>
  C31. One child at a time is replaced: when a child of a full family ends and its signal is handled before the parent
  tests the number again, the parent forks exactly once and the family is full again.
\<close>

theorem child_replaced:
  assumes "dm_role d = DAEMON_PARENT" "dm_parent_loop d" "\<not> dm_reload d" "finite (dm_childrens d)" "int (card (dm_childrens d)) = dm_childMaxNum d mod 2 ^ 64"
    "old \<in> dm_childrens d" "0 < old" "new \<notin> dm_childrens d" "0 < new"
  shows "do { x1 \<leftarrow> parent_step C fs new (At_top, signalHandle old SIGCHLD d);
              x2 \<leftarrow> parent_step C fs new x1;
              x3 \<leftarrow> parent_step C fs again x2;
              x4 \<leftarrow> parent_step C fs again x3;
              parent_step C fs again x4 } =
    Some (At_top, d\<lparr>dm_childrens := insert new (dm_childrens d - {old})\<rparr>)"
proof -
  define d1 where "d1 = d\<lparr>dm_childrens := dm_childrens d - {old}\<rparr>"
  define d2 where "d2 = d\<lparr>dm_childrens := insert new (dm_childrens d - {old})\<rparr>"
  have c: "card (dm_childrens d - {old}) < card (dm_childrens d)" using assms(4,6) by (metis card_Diff1_less)
  have n: "card (insert new (dm_childrens d - {old})) = card (dm_childrens d)"
    using assms(4,6,8) card_Suc_Diff1 [OF assms(4,6)] by simp
  have h: "signalHandle old SIGCHLD d = d1" using assms(1,2,7) by (simp add: calls_waitpid_def eraseChildPid_def d1_def)
  have w: "wants_child d1" "\<not> wants_child d2" using c n assms(5) by (simp_all add: wants_child_def d1_def d2_def)
  have st: "storeChildPid new d1 = d2" using assms(1) by (simp add: storeChildPid_def d1_def d2_def)
  have "\<not> dm_reload d1" "dm_parent_loop d2" using assms(2,3) by (simp_all add: d1_def d2_def)
  then show ?thesis unfolding h using w st assms(9) by (simp add: d2_def [symmetric])
qed

text \<open>
  The number of children is what the configuration says, as a number of 64 bits: nothing that is not a number gives
  any child, and a negative number gives a new child however many there are.
\<close>

theorem childnum_wanted:
  assumes "getValueByKey (dm_config d) ''core'' ''childnum'' = v" "v \<noteq> []" "atoi v = n" "- (2 ^ 31) \<le> n" "n < 2 ^ 31"
    "card (dm_childrens d) < 2 ^ 63"
  shows "wants_child (loadConfigParams d) \<longleftrightarrow> (n < 0 \<or> int (card (dm_childrens d)) < n)"
proof -
  have m: "dm_childMaxNum (loadConfigParams d) = n" "dm_childrens (loadConfigParams d) = dm_childrens d"
    using assms(1-3) by (simp_all add: loadConfigParams_def adjustResources_def Let_def)
  show ?thesis
  proof (cases "n < 0")
    case True
    then have "(n + 2 ^ 64) mod 2 ^ 64 = n + 2 ^ 64" using assms(4) by (intro mod_pos_pos_trivial) simp_all
    then have "n mod 2 ^ 64 = n + 2 ^ 64" by simp
    then show ?thesis using m True assms(4,6) by (simp add: wants_child_def)
  next
    case False
    then show ?thesis using m assms(5) by (simp add: wants_child_def)
  qed
qed

section \<open>Examples\<close>

definition demo_class :: daemon_class where
  "demo_class = \<lparr>daemonInit = (\<lambda>d. d), processInit = (\<lambda>d. d), processStart = (\<lambda>d. d), processStop = (\<lambda>d. d)\<rparr>"

definition demo_daemon :: "int set \<Rightarrow> daemon" where
  "demo_daemon cs =
     \<lparr>dm_role = DAEMON_PARENT, dm_parent_loop = True, dm_child_loop = True, dm_reload = False, dm_childrens = cs, dm_parentPid = 1,
      dm_childMaxNum = 2, dm_pidFilename = ''.p.pid'', dm_socketMaxNum = 1024,
      dm_config = \<lparr>filename = [], isFileExisted = True, configMap = [''core'' \<mapsto> [''childnum'' \<mapsto> ''-1'']]\<rparr>,
      dm_handler = (\<lambda>_. SIG_DFL), dm_umask = 0, dm_corelimit = None, dm_filelimit = None, dm_sent = [], dm_raised = [], dm_log = ([], []), dm_dns = ([], [])\<rparr>"

definition demo_family :: family where
  "demo_family = \<lparr>fa_alive = {11, 12}, fa_zombies = {}, fa_pending = False\<rparr>"

text \<open>Both children end, then the one signal is handled.\<close>

definition two_ended :: "(parent_at \<times> daemon) \<times> family" where
  "two_ended = ((At_top, demo_daemon {12}), \<lparr>fa_alive = {}, fa_zombies = {12}, fa_pending = False\<rparr>)"

lemma demo_two_ended: "supervise demo_class ((At_top, demo_daemon {11, 12}), demo_family) two_ended"
proof -
  let ?s = "((At_top, demo_daemon {11, 12}), demo_family)" and ?k = "\<lparr>fa_alive = {}, fa_zombies = {12, 11 :: int}, fa_pending = True\<rparr>"
  have "supervise demo_class ?s ((At_top, demo_daemon {11, 12}), demo_family\<lparr>fa_alive := {12}, fa_zombies := {11}, fa_pending := True\<rparr>)"
    using sup_child_ends [OF sup_start, of 11 demo_family demo_class "(At_top, demo_daemon {11, 12})"] by (simp add: demo_family_def insert_Diff_if)
  from sup_child_ends [OF this, of 12] have "supervise demo_class ?s ((At_top, demo_daemon {11, 12}), ?k)" by (simp add: demo_family_def)
  from sup_sigchld [OF this, of 11] show ?thesis
    by (simp add: two_ended_def reaps_def calls_waitpid_def eraseChildPid_def demo_daemon_def insert_Diff_if)
qed


theorem child_replaced_witness:
  "do { x1 \<leftarrow> parent_step demo_class Map.empty 13 (At_top, signalHandle 11 SIGCHLD (demo_daemon {11, 12}));
        x2 \<leftarrow> parent_step demo_class Map.empty 13 x1;
        x3 \<leftarrow> parent_step demo_class Map.empty 0 x2;
        x4 \<leftarrow> parent_step demo_class Map.empty 0 x3;
        parent_step demo_class Map.empty 0 x4 } = Some (At_top, demo_daemon {13, 12})"
  using child_replaced [of "demo_daemon {11, 12}" 11 13 demo_class Map.empty 0] by (simp add: demo_daemon_def insert_Diff_if)

theorem childnum_wanted_witness: "wants_child (loadConfigParams (demo_daemon {11, 12, 13}))"
proof -
  have a: "atoi ''-1'' = -1" by code_simp
  show ?thesis
    using childnum_wanted [of "demo_daemon {11, 12, 13}" "''-1''" "-1"] a by (simp add: demo_daemon_def getValueByKey_def)
qed

end
