(* ===== verification/SSLGlobals.thy ===== *)
theory SSLGlobals
  imports Config
begin

text \<open>
  The contexts of \<open>ssl/SSLContext.cpp\<close> that all connections share: the client's and the server's
  \<open>SSL_CTX\<close>, made when first asked for, and the certificate and key of the proxy's own authority. An
  object of OpenSSL is a number; what its functions answer is an argument.
\<close>

abbreviation SCTX_ERR :: int where "SCTX_ERR \<equiv> -1"
abbreviation SCTX_OK :: int where "SCTX_OK \<equiv> 0"

section \<open>The state\<close>

text \<open>What is set in a context.\<close>

record ssl_ctx =
  cx_client :: bool
  cx_ciphers :: bytes
  cx_partial_write :: bool
  cx_verify_depth :: "int option"
  cx_cache_off :: bool
  cx_trust :: "bytes option"
  cx_crl_dir :: "bytes option"
  cx_crl_check :: bool
  cx_ecdh_auto :: bool
  cx_cert :: "bytes option"
  cx_key :: "bytes option"

text \<open>The static variables, the living contexts, and the living certificates and keys.\<close>

record ssl_globals =
  gl_inited :: bool
  gl_client :: "nat option"
  gl_server :: "nat option"
  gl_ca_cert :: "nat option"
  gl_ca_pkey :: "nat option"
  gl_config :: config
  gl_ctxs :: "nat \<rightharpoonup> ssl_ctx"
  gl_certs :: "nat set"

text \<open>The answers: of \<open>SSL_CTX_new\<close>; of loading the trusted certificates, making the lookup and adding the directory of
  revocation lists; of loading the server's certificate and key; and the authority's certificate and key that are loaded.\<close>

record ssl_answers =
  as_new :: "nat option"
  as_verify :: int
  as_lookup :: bool
  as_add_dir :: int
  as_use_cert :: int
  as_use_key :: int
  as_ca_cert :: "nat option"
  as_ca_pkey :: "nat option"

definition empty_ctx :: "bool \<Rightarrow> ssl_ctx" where
  "empty_ctx client =
     \<lparr>cx_client = client, cx_ciphers = [], cx_partial_write = False, cx_verify_depth = None, cx_cache_off = False, cx_trust = None,
      cx_crl_dir = None, cx_crl_check = False, cx_ecdh_auto = False, cx_cert = None, cx_key = None\<rparr>"

definition set_ctx :: "nat \<Rightarrow> (ssl_ctx \<Rightarrow> ssl_ctx) \<Rightarrow> ssl_globals \<Rightarrow> ssl_globals" where
  "set_ctx n f g = (case gl_ctxs g n of None \<Rightarrow> g | Some c \<Rightarrow> g\<lparr>gl_ctxs := (gl_ctxs g)(n \<mapsto> f c)\<rparr>)"

definition alive :: "nat option \<Rightarrow> nat set" where
  "alive x = (case x of None \<Rightarrow> {} | Some n \<Rightarrow> {n})"

section \<open>The authority\<close>

text \<open>The old objects are not freed.\<close>

definition setCAEntity :: "ssl_answers \<Rightarrow> ssl_globals \<Rightarrow> int \<times> ssl_globals" where
  "setCAEntity r g =
     (let cert = (if getValueByKey (gl_config g) ''proxy'' ''cacert'' \<noteq> [] then as_ca_cert r else None);
          pkey = (if getValueByKey (gl_config g) ''proxy'' ''capkey'' \<noteq> [] then as_ca_pkey r else None);
          g1 = g\<lparr>gl_ca_cert := cert, gl_ca_pkey := pkey, gl_certs := gl_certs g \<union> alive cert \<union> alive pkey\<rparr>
      in if cert = None then (SCTX_ERR, g1) else if pkey = None then (SCTX_ERR, g1) else (SCTX_OK, g1))"

definition unsetCAEntity :: "ssl_globals \<Rightarrow> ssl_globals option" where
  "unsetCAEntity g =
     (if alive (gl_ca_cert g) \<subseteq> gl_certs g \<and> alive (gl_ca_pkey g) \<subseteq> gl_certs g - alive (gl_ca_cert g)
      then Some (g\<lparr>gl_ca_cert := None, gl_ca_pkey := None, gl_certs := gl_certs g - alive (gl_ca_cert g) - alive (gl_ca_pkey g)\<rparr>)
      else None)"

definition getCAEntity :: "ssl_answers \<Rightarrow> ssl_globals \<Rightarrow> int \<times> nat option \<times> nat option \<times> ssl_globals" where
  "getCAEntity r g =
     (let g1 = (if gl_ca_cert g = None \<or> gl_ca_pkey g = None then snd (setCAEntity r g) else g)
      in (if gl_ca_cert g1 = None \<or> gl_ca_pkey g1 = None then SCTX_ERR else SCTX_OK, gl_ca_cert g1, gl_ca_pkey g1, g1))"

section \<open>The library\<close>

definition initOpenssl :: "ssl_answers \<Rightarrow> ssl_globals \<Rightarrow> ssl_globals" where
  "initOpenssl r g = (if gl_inited g then g else (snd (setCAEntity r g))\<lparr>gl_inited := True\<rparr>)"

text \<open>Freeing a context that is not alive is undefined.\<close>

definition uinitClientContext :: "ssl_globals \<Rightarrow> ssl_globals option" where
  "uinitClientContext g =
     (case gl_client g of
        None \<Rightarrow> Some g
      | Some n \<Rightarrow> if gl_ctxs g n = None then None else Some (g\<lparr>gl_ctxs := (gl_ctxs g)(n := None), gl_client := None\<rparr>))"

definition uinitServerContext :: "ssl_globals \<Rightarrow> ssl_globals option" where
  "uinitServerContext g =
     (case gl_server g of
        None \<Rightarrow> Some g
      | Some n \<Rightarrow> if gl_ctxs g n = None then None else Some (g\<lparr>gl_ctxs := (gl_ctxs g)(n := None), gl_server := None\<rparr>))"

definition destoryOpenssl :: "ssl_globals \<Rightarrow> ssl_globals option" where
  "destoryOpenssl g =
     do { g1 \<leftarrow> uinitClientContext g; g2 \<leftarrow> uinitServerContext g1; g3 \<leftarrow> unsetCAEntity g2; Some (g3\<lparr>gl_inited := False\<rparr>) }"

text \<open>Whether a certificate is accepted: the callback overrules the result of the verification.\<close>

definition clientVerifyServerCertCallback :: "int \<Rightarrow> int" where
  "clientVerifyServerCertCallback ok = 1"

definition SCTX_CERT_VERIFY_MAX_DEPTH :: int where
  "SCTX_CERT_VERIFY_MAX_DEPTH = 9"

definition initClientContext :: "ssl_answers \<Rightarrow> bytes \<Rightarrow> bytes \<Rightarrow> ssl_globals \<Rightarrow> (int \<times> ssl_globals) option" where
  "initClientContext r trust crl g =
     (let g1 = initOpenssl r g
      in case as_new r of
           None \<Rightarrow> do { g2 \<leftarrow> uinitClientContext (g1\<lparr>gl_client := None\<rparr>); Some (SCTX_ERR, g2) }
         | Some n \<Rightarrow>
            (let c = (empty_ctx True)\<lparr>cx_ciphers := ''ALL'', cx_partial_write := True,
                        cx_verify_depth := Some (SCTX_CERT_VERIFY_MAX_DEPTH + 1), cx_cache_off := True\<rparr>;
                 g2 = g1\<lparr>gl_client := Some n, gl_ctxs := (gl_ctxs g1)(n \<mapsto> c)\<rparr>
             in if as_verify r \<noteq> 1 then do { g3 \<leftarrow> uinitClientContext g2; Some (SCTX_ERR, g3) }
                else
                 (let g3 = set_ctx n (\<lambda>c. c\<lparr>cx_trust := Some trust\<rparr>) g2
                  in if \<not> as_lookup r then Some (SCTX_ERR, g3)
                     else if as_add_dir r \<noteq> 1 then Some (SCTX_ERR, g3)
                     else Some (SCTX_OK, set_ctx n (\<lambda>c. c\<lparr>cx_crl_dir := Some crl, cx_crl_check := True\<rparr>) g3))))"

text \<open>The server's context; the mode of the session cache is set in the client's context, if there is one.\<close>

definition initServerContext :: "ssl_answers \<Rightarrow> bytes \<Rightarrow> bytes \<Rightarrow> ssl_globals \<Rightarrow> (int \<times> ssl_globals) option" where
  "initServerContext r cert key g =
     (let g1 = initOpenssl r g
      in case as_new r of
           None \<Rightarrow> do { g2 \<leftarrow> uinitServerContext (g1\<lparr>gl_server := None\<rparr>); Some (SCTX_ERR, g2) }
         | Some n \<Rightarrow>
            (let c = (empty_ctx False)\<lparr>cx_ciphers := ''ALL'', cx_partial_write := True\<rparr>;
                 g2 = g1\<lparr>gl_server := Some n, gl_ctxs := (gl_ctxs g1)(n \<mapsto> c)\<rparr>;
                 g3 = (case gl_client g2 of None \<Rightarrow> g2 | Some m \<Rightarrow> set_ctx m (\<lambda>c. c\<lparr>cx_cache_off := True\<rparr>) g2);
                 g4 = set_ctx n (\<lambda>c. c\<lparr>cx_ecdh_auto := True\<rparr>) g3
             in if as_use_cert r \<le> 0 then Some (SCTX_ERR, g4)
                else
                 (let g5 = set_ctx n (\<lambda>c. c\<lparr>cx_cert := Some cert\<rparr>) g4
                  in if as_use_key r \<le> 0 then Some (SCTX_ERR, g5)
                     else Some (SCTX_OK, set_ctx n (\<lambda>c. c\<lparr>cx_key := Some key\<rparr>) g5))))"

definition getClientSSLCTX :: "ssl_answers \<Rightarrow> ssl_globals \<Rightarrow> (nat option \<times> ssl_globals) option" where
  "getClientSSLCTX r g =
     (if gl_client g \<noteq> None then Some (gl_client g, g)
      else
       (let trust = getValueByKey (gl_config g) ''proxy'' ''truststore''; crl = getValueByKey (gl_config g) ''proxy'' ''crlpath''
        in if trust = [] \<or> crl = [] then Some (None, g)
           else do { (_, g1) \<leftarrow> initClientContext r trust crl g; Some (gl_client g1, g1) }))"

definition getServerSSLCTX :: "ssl_answers \<Rightarrow> ssl_globals \<Rightarrow> (nat option \<times> ssl_globals) option" where
  "getServerSSLCTX r g =
     (if gl_server g \<noteq> None then Some (gl_server g, g)
      else
       (let cert = getValueByKey (gl_config g) ''http'' ''cert''; key = getValueByKey (gl_config g) ''http'' ''pkey''
        in if cert = [] \<or> key = [] then Some (None, g)
           else do { (_, g1) \<leftarrow> initServerContext r cert key g; Some (gl_server g1, g1) }))"

section \<open>No context is lost or freed twice\<close>

datatype ssl_call = Init | Destory | ClientCtx | ServerCtx | CAEntity

fun ssl_do :: "ssl_call \<Rightarrow> ssl_answers \<Rightarrow> ssl_globals \<Rightarrow> ssl_globals option" where
  "ssl_do Init r g = Some (initOpenssl r g)"
| "ssl_do Destory r g = destoryOpenssl g"
| "ssl_do ClientCtx r g = map_option snd (getClientSSLCTX r g)"
| "ssl_do ServerCtx r g = map_option snd (getServerSSLCTX r g)"
| "ssl_do CAEntity r g = Some (snd (snd (snd (getCAEntity r g))))"

text \<open>New objects are new: their numbers are not in use, and the two of the authority differ.\<close>

definition fresh_answers :: "ssl_answers \<Rightarrow> ssl_globals \<Rightarrow> bool" where
  "fresh_answers r g \<longleftrightarrow> alive (as_new r) \<inter> dom (gl_ctxs g) = {} \<and> (alive (as_ca_cert r) \<union> alive (as_ca_pkey r)) \<inter> gl_certs g = {} \<and>
     alive (as_ca_cert r) \<inter> alive (as_ca_pkey r) = {}"

fun ssl_calls :: "(ssl_call \<times> ssl_answers) list \<Rightarrow> ssl_globals \<Rightarrow> ssl_globals option" where
  "ssl_calls [] g = Some g"
| "ssl_calls ((c, r) # cs) g = (case ssl_do c r g of None \<Rightarrow> None | Some g1 \<Rightarrow> ssl_calls cs g1)"

fun all_fresh :: "(ssl_call \<times> ssl_answers) list \<Rightarrow> ssl_globals \<Rightarrow> bool" where
  "all_fresh [] g = True"
| "all_fresh ((c, r) # cs) g = (fresh_answers r g \<and> (case ssl_do c r g of None \<Rightarrow> True | Some g1 \<Rightarrow> all_fresh cs g1))"

definition globals_ok :: "ssl_globals \<Rightarrow> bool" where
  "globals_ok g \<longleftrightarrow> dom (gl_ctxs g) = alive (gl_client g) \<union> alive (gl_server g) \<and> alive (gl_client g) \<inter> alive (gl_server g) = {} \<and>
     alive (gl_ca_cert g) \<union> alive (gl_ca_pkey g) \<subseteq> gl_certs g \<and> alive (gl_ca_cert g) \<inter> alive (gl_ca_pkey g) = {}"

lemma alive_simps [simp]: "alive None = {}" "alive (Some n) = {n}"
  by (simp_all add: alive_def)

lemma set_ctx_simps [simp]:
  "dom (gl_ctxs (set_ctx n f g)) = dom (gl_ctxs g)" "gl_client (set_ctx n f g) = gl_client g" "gl_server (set_ctx n f g) = gl_server g"
  "gl_ca_cert (set_ctx n f g) = gl_ca_cert g" "gl_ca_pkey (set_ctx n f g) = gl_ca_pkey g" "gl_certs (set_ctx n f g) = gl_certs g"
  by (auto simp: set_ctx_def split: option.splits)

lemma setCA_ok: "globals_ok g \<Longrightarrow> fresh_answers r g \<Longrightarrow> globals_ok (snd (setCAEntity r g)) \<and>
    gl_ctxs (snd (setCAEntity r g)) = gl_ctxs g \<and> gl_client (snd (setCAEntity r g)) = gl_client g \<and> gl_server (snd (setCAEntity r g)) = gl_server g"
  by (auto simp: setCAEntity_def Let_def globals_ok_def fresh_answers_def)

lemma initOpenssl_ok: "globals_ok g \<Longrightarrow> fresh_answers r g \<Longrightarrow> globals_ok (initOpenssl r g) \<and>
    gl_ctxs (initOpenssl r g) = gl_ctxs g \<and> gl_client (initOpenssl r g) = gl_client g \<and> gl_server (initOpenssl r g) = gl_server g"
  using setCA_ok [of g r] by (auto simp: initOpenssl_def globals_ok_def)

lemma set_ctx_ok [simp]: "globals_ok (set_ctx n f g) = globals_ok g"
  by (simp add: globals_ok_def)

lemma new_client_ok:
  assumes "globals_ok g" "gl_client g = None" "n \<notin> dom (gl_ctxs g)"
  shows "globals_ok (g\<lparr>gl_client := Some n, gl_ctxs := (gl_ctxs g)(n \<mapsto> c)\<rparr>)"
  using assms by (auto simp: globals_ok_def)

lemma new_server_ok:
  assumes "globals_ok g" "gl_server g = None" "n \<notin> dom (gl_ctxs g)"
  shows "globals_ok (g\<lparr>gl_server := Some n, gl_ctxs := (gl_ctxs g)(n \<mapsto> c)\<rparr>)"
  using assms by (auto simp: globals_ok_def)

lemma uinitClient_ok: "globals_ok g \<Longrightarrow> \<exists>g'. uinitClientContext g = Some g' \<and> globals_ok g' \<and> gl_client g' = None \<and> gl_server g' = gl_server g"
  by (cases "gl_client g") (auto simp: uinitClientContext_def globals_ok_def alive_def split: option.splits)

lemma uinitServer_ok: "globals_ok g \<Longrightarrow> \<exists>g'. uinitServerContext g = Some g' \<and> globals_ok g' \<and> gl_server g' = None \<and> gl_client g' = gl_client g"
  by (cases "gl_server g") (auto simp: uinitServerContext_def globals_ok_def alive_def split: option.splits)

lemma initClient_ok:
  assumes "globals_ok g" "fresh_answers r g" "gl_client g = None"
  shows "\<exists>x g'. initClientContext r trust crl g = Some (x, g') \<and> globals_ok g'"
proof -
  define g1 where "g1 = initOpenssl r g"
  have g1: "globals_ok g1" "gl_client g1 = None" "gl_ctxs g1 = gl_ctxs g" using initOpenssl_ok [OF assms(1,2)] assms(3) by (simp_all add: g1_def)
  show ?thesis
  proof (cases "as_new r")
    case None
    have "globals_ok (g1\<lparr>gl_client := None\<rparr>)" using g1 by (simp add: globals_ok_def)
    then show ?thesis using None g1 by (simp add: initClientContext_def g1_def [symmetric] Let_def uinitClientContext_def)
  next
    case (Some n)
    define g2 where "g2 = g1\<lparr>gl_client := Some n, gl_ctxs := (gl_ctxs g1)(n \<mapsto> (empty_ctx True)\<lparr>cx_ciphers := ''ALL'', cx_partial_write := True,
                        cx_verify_depth := Some (SCTX_CERT_VERIFY_MAX_DEPTH + 1), cx_cache_off := True\<rparr>)\<rparr>"
    have "n \<notin> dom (gl_ctxs g1)" using assms(2) Some g1(3) by (auto simp: fresh_answers_def)
    then have g2: "globals_ok g2" unfolding g2_def by (rule new_client_ok [OF g1(1,2)])
    obtain g3 where g3: "uinitClientContext g2 = Some g3" "globals_ok g3" using uinitClient_ok [OF g2] by blast
    show ?thesis using Some g2 g3 by (simp add: initClientContext_def g1_def [symmetric] Let_def g2_def [symmetric])
  qed
qed

lemma initServer_ok:
  assumes "globals_ok g" "fresh_answers r g" "gl_server g = None"
  shows "\<exists>x g'. initServerContext r cert key g = Some (x, g') \<and> globals_ok g'"
proof -
  define g1 where "g1 = initOpenssl r g"
  have g1: "globals_ok g1" "gl_server g1 = None" "gl_ctxs g1 = gl_ctxs g" using initOpenssl_ok [OF assms(1,2)] assms(3) by (simp_all add: g1_def)
  show ?thesis
  proof (cases "as_new r")
    case None
    have "globals_ok (g1\<lparr>gl_server := None\<rparr>)" using g1 by (simp add: globals_ok_def)
    then show ?thesis using None g1 by (simp add: initServerContext_def g1_def [symmetric] Let_def uinitServerContext_def)
  next
    case (Some n)
    define g2 where "g2 = g1\<lparr>gl_server := Some n, gl_ctxs := (gl_ctxs g1)(n \<mapsto> (empty_ctx False)\<lparr>cx_ciphers := ''ALL'', cx_partial_write := True\<rparr>)\<rparr>"
    have "n \<notin> dom (gl_ctxs g1)" using assms(2) Some g1(3) by (auto simp: fresh_answers_def)
    then have g2: "globals_ok g2" unfolding g2_def by (rule new_server_ok [OF g1(1,2)])
    then show ?thesis using Some
      by (cases "gl_client g2") (simp_all add: initServerContext_def g1_def [symmetric] Let_def g2_def [symmetric])
  qed
qed

lemma unsetCA_ok: "globals_ok g \<Longrightarrow> \<exists>g'. unsetCAEntity g = Some g' \<and> globals_ok g' \<and> gl_ctxs g' = gl_ctxs g"
  by (auto simp: unsetCAEntity_def globals_ok_def)

lemma destory_ok: "globals_ok g \<Longrightarrow> \<exists>g'. destoryOpenssl g = Some g' \<and> globals_ok g' \<and> gl_ctxs g' = Map.empty"
proof -
  assume g: "globals_ok g"
  obtain g1 where 1: "uinitClientContext g = Some g1" "globals_ok g1" "gl_client g1 = None" using uinitClient_ok [OF g] by blast
  obtain g2 where 2: "uinitServerContext g1 = Some g2" "globals_ok g2" "gl_server g2 = None" "gl_client g2 = None"
    using uinitServer_ok [OF 1(2)] 1(3) by auto
  obtain g3 where 3: "unsetCAEntity g2 = Some g3" "globals_ok g3" "gl_ctxs g3 = gl_ctxs g2" using unsetCA_ok [OF 2(2)] by blast
  have "dom (gl_ctxs g2) = {}" using 2 by (simp add: globals_ok_def)
  then show ?thesis using 1(1) 2(1) 3 by (auto simp: destoryOpenssl_def globals_ok_def)
qed

lemma ssl_do_ok:
  assumes "globals_ok g" "fresh_answers r g"
  shows "\<exists>g'. ssl_do c r g = Some g' \<and> globals_ok g'"
proof (cases c)
  case ClientCtx
  have "\<exists>x g'. getClientSSLCTX r g = Some (x, g') \<and> globals_ok g'"
  proof (cases "gl_client g = None \<and> getValueByKey (gl_config g) ''proxy'' ''truststore'' \<noteq> [] \<and> getValueByKey (gl_config g) ''proxy'' ''crlpath'' \<noteq> []")
    case True
    then obtain x g' where "initClientContext r (getValueByKey (gl_config g) ''proxy'' ''truststore'') (getValueByKey (gl_config g) ''proxy'' ''crlpath'') g = Some (x, g')" "globals_ok g'"
      using initClient_ok [OF assms] by blast
    then show ?thesis using True by (simp add: getClientSSLCTX_def)
  qed (use assms(1) in \<open>auto simp: getClientSSLCTX_def\<close>)
  then show ?thesis using ClientCtx by auto
next
  case ServerCtx
  have "\<exists>x g'. getServerSSLCTX r g = Some (x, g') \<and> globals_ok g'"
  proof (cases "gl_server g = None \<and> getValueByKey (gl_config g) ''http'' ''cert'' \<noteq> [] \<and> getValueByKey (gl_config g) ''http'' ''pkey'' \<noteq> []")
    case True
    then obtain x g' where "initServerContext r (getValueByKey (gl_config g) ''http'' ''cert'') (getValueByKey (gl_config g) ''http'' ''pkey'') g = Some (x, g')" "globals_ok g'"
      using initServer_ok [OF assms] by blast
    then show ?thesis using True by (simp add: getServerSSLCTX_def)
  qed (use assms(1) in \<open>auto simp: getServerSSLCTX_def\<close>)
  then show ?thesis using ServerCtx by auto
qed (use assms initOpenssl_ok [OF assms] setCA_ok [OF assms] destory_ok [OF assms(1)] in \<open>auto simp: getCAEntity_def Let_def\<close>)

text \<open>
  C27. Contexts are neither lost nor freed twice. For any sequence of initialisations, clean-ups and requests for a context or
  the authority, whatever OpenSSL answers, every call is defined, the contexts alive are those of the two variables, no
  variable has an object that is not alive, and a clean-up at the end frees every context.
\<close>

theorem ssl_contexts_kept:
  assumes "globals_ok g" "all_fresh cs g"
  shows "\<exists>g1 g2. ssl_calls cs g = Some g1 \<and> dom (gl_ctxs g1) = alive (gl_client g1) \<union> alive (gl_server g1) \<and>
    alive (gl_ca_cert g1) \<union> alive (gl_ca_pkey g1) \<subseteq> gl_certs g1 \<and> destoryOpenssl g1 = Some g2 \<and> gl_ctxs g2 = Map.empty"
proof -
  have "\<exists>g1. ssl_calls cs g = Some g1 \<and> globals_ok g1"
    using assms
  proof (induction cs arbitrary: g)
    case (Cons x cs)
    obtain c r where x: "x = (c, r)" by fastforce
    obtain g1 where "ssl_do c r g = Some g1" "globals_ok g1" using ssl_do_ok Cons.prems x by (metis all_fresh.simps(2))
    then show ?case using Cons x by simp
  qed simp
  then obtain g1 g2 where "ssl_calls cs g = Some g1" "globals_ok g1" "destoryOpenssl g1 = Some g2" "gl_ctxs g2 = Map.empty"
    using destory_ok by blast
  then show ?thesis unfolding globals_ok_def by blast
qed

text \<open>
  C36. Contexts that could not be set up are used. When the directory of revocation lists cannot be read, the client's context is
  returned all the same, now and ever after, without any check of revocation; when the server's certificate cannot be read, its context
  is returned without a certificate. And a server's certificate is accepted whatever its verification says.
\<close>

theorem half_made_contexts:
  assumes "gl_client g = None" "gl_server g' = None" "as_new r = Some n"
    "getValueByKey (gl_config g) ''proxy'' ''truststore'' \<noteq> []" "getValueByKey (gl_config g) ''proxy'' ''crlpath'' \<noteq> []"
    "getValueByKey (gl_config g') ''http'' ''cert'' \<noteq> []" "getValueByKey (gl_config g') ''http'' ''pkey'' \<noteq> []"
    "as_verify r = 1" "as_add_dir r \<noteq> 1" "as_use_cert r \<le> 0" "gl_client g' \<noteq> Some n"
  shows "(\<exists>h c. getClientSSLCTX r g = Some (Some n, h) \<and> gl_ctxs h n = Some c \<and> \<not> cx_crl_check c \<and> getClientSSLCTX later h = Some (Some n, h)) \<and>
    (\<exists>h c. getServerSSLCTX r g' = Some (Some n, h) \<and> gl_ctxs h n = Some c \<and> cx_cert c = None \<and> getServerSSLCTX later h = Some (Some n, h)) \<and>
    clientVerifyServerCertCallback result = 1"
proof -
  have "\<exists>h c. getClientSSLCTX r g = Some (Some n, h) \<and> gl_client h = Some n \<and> gl_ctxs h n = Some c \<and> \<not> cx_crl_check c"
    using assms(1,3-5,8,9) by (cases "as_lookup r") (simp_all add: getClientSSLCTX_def Let_def initClientContext_def set_ctx_def empty_ctx_def)
  moreover have "\<exists>h c. getServerSSLCTX r g' = Some (Some n, h) \<and> gl_server h = Some n \<and> gl_ctxs h n = Some c \<and> cx_cert c = None"
    using assms(2,3,6,7,10)
    by (auto simp: getServerSSLCTX_def Let_def initServerContext_def set_ctx_def empty_ctx_def split: option.splits)
  moreover have "gl_client h = Some n \<Longrightarrow> getClientSSLCTX later h = Some (Some n, h)"
    "gl_server h = Some n \<Longrightarrow> getServerSSLCTX later h = Some (Some n, h)" for h
    by (simp_all add: getClientSSLCTX_def getServerSSLCTX_def)
  ultimately show ?thesis by (auto simp: clientVerifyServerCertCallback_def)
qed

section \<open>Examples\<close>

definition demo_globals :: ssl_globals where
  "demo_globals =
     \<lparr>gl_inited = False, gl_client = None, gl_server = None, gl_ca_cert = None, gl_ca_pkey = None,
      gl_config = \<lparr>filename = [], isFileExisted = True,
        configMap = [''proxy'' \<mapsto> [''truststore'' \<mapsto> ''ca'', ''crlpath'' \<mapsto> ''crl'', ''cacert'' \<mapsto> ''c'', ''capkey'' \<mapsto> ''k''], ''http'' \<mapsto> [''cert'' \<mapsto> ''s'', ''pkey'' \<mapsto> ''p'']]\<rparr>,
      gl_ctxs = Map.empty, gl_certs = {}\<rparr>"

definition demo_answers :: ssl_answers where
  "demo_answers = \<lparr>as_new = Some 1, as_verify = 1, as_lookup = True, as_add_dir = 0, as_use_cert = 0, as_use_key = 0, as_ca_cert = Some 5, as_ca_pkey = Some 6\<rparr>"

theorem ssl_contexts_kept_witness:
  "\<exists>g1 g2. ssl_calls [(ClientCtx, demo_answers)] demo_globals = Some g1 \<and> dom (gl_ctxs g1) = alive (gl_client g1) \<union> alive (gl_server g1) \<and>
    destoryOpenssl g1 = Some g2 \<and> gl_ctxs g2 = Map.empty"
proof -
  have "globals_ok demo_globals" "fresh_answers demo_answers demo_globals"
    by (simp_all add: globals_ok_def demo_globals_def demo_answers_def fresh_answers_def)
  then have "all_fresh [(ClientCtx, demo_answers)] demo_globals" by (simp split: option.split)
  from ssl_contexts_kept [OF \<open>globals_ok demo_globals\<close> this] show ?thesis by blast
qed

theorem half_made_contexts_witness:
  "\<exists>h c. getClientSSLCTX demo_answers demo_globals = Some (Some 1, h) \<and> gl_ctxs h 1 = Some c \<and> \<not> cx_crl_check c"
proof -
  have "gl_client demo_globals = None" "gl_server demo_globals = None" "as_new demo_answers = Some 1"
    "getValueByKey (gl_config demo_globals) ''proxy'' ''truststore'' \<noteq> []" "getValueByKey (gl_config demo_globals) ''proxy'' ''crlpath'' \<noteq> []"
    "getValueByKey (gl_config demo_globals) ''http'' ''cert'' \<noteq> []" "getValueByKey (gl_config demo_globals) ''http'' ''pkey'' \<noteq> []"
    "as_verify demo_answers = 1" "as_add_dir demo_answers \<noteq> 1" "as_use_cert demo_answers \<le> 0" "gl_client demo_globals \<noteq> Some 1"
    by (simp_all add: demo_globals_def demo_answers_def getValueByKey_def)
  from half_made_contexts [OF this, of demo_answers 0] show ?thesis by blast
qed

end
