(* ===== verification/Logging.thy ===== *)
theory Logging
  imports Kernel
begin

text \<open>
  \<open>core/Logging.cpp\<close>: the level of the log, the name of its file, and the writing of a line. The expansion of a
  format with its arguments is a parameter.
\<close>

abbreviation LOG_INFO :: nat where "LOG_INFO \<equiv> 1"
abbreviation LOG_DEBUG :: nat where "LOG_DEBUG \<equiv> 2"
abbreviation LOG_ALL :: nat where "LOG_ALL \<equiv> 3"

record Logging =
  lg_path :: bytes
  lg_file :: bytes
  lg_level :: nat

definition LOGNAME :: bytes where
  "LOGNAME = ''httpd''"

text \<open>\<open>rfind\<close> of a character.\<close>

definition rfind_char :: "char \<Rightarrow> bytes \<Rightarrow> nat option" where
  "rfind_char c s = map_option (\<lambda>i. length s - 1 - i) (find_char c (rev s))"

text \<open>\<open>access\<close>, 0 or -1; a directory is a name of the disk too.\<close>

definition access_file :: "bytes \<Rightarrow> kern \<Rightarrow> int" where
  "access_file name k = (if disk k name = None then -1 else 0)"

definition access_write :: "bytes \<Rightarrow> kern \<Rightarrow> int" where
  "access_write name k = (if disk k name = None \<or> \<not> wperm k name then -1 else 0)"

definition setLogFile :: "bytes \<Rightarrow> Logging \<Rightarrow> kern \<Rightarrow> int \<times> Logging" where
  "setLogFile file l k =
     (let pos = rfind_char CHR ''/'' file; isPath = (pos \<noteq> None); path = (case pos of None \<Rightarrow> file | Some i \<Rightarrow> take i file)
      in if (access_file path k < 0 \<or> access_write path k < 0) \<and> (isPath \<or> access_file path k > 0)
         then (-1, l) else (0, l\<lparr>lg_file := file\<rparr>))"

definition setLogPath :: "bytes \<Rightarrow> Logging \<Rightarrow> Logging" where
  "setLogPath path l = l\<lparr>lg_path := path\<rparr>"

definition setLevel :: "bytes \<Rightarrow> Logging \<Rightarrow> Logging" where
  "setLevel le l = l\<lparr>lg_level := (if le = ''enable'' then LOG_ALL else LOG_INFO)\<rparr>"

text \<open>\<open>day\<close> is the date as \<open>.YYYYMMDD\<close>, \<open>time\<close> the time as \<open>HH:MM:SS\<close>.\<close>

definition getLogFile :: "bytes \<Rightarrow> Logging \<Rightarrow> bytes" where
  "getLogFile day l = lg_path l @ ''/'' @ LOGNAME @ day @ ''.log''"

definition log_head :: "bytes \<Rightarrow> bytes \<Rightarrow> nat \<Rightarrow> bytes" where
  "log_head sign time pid = sign @ ''>'' @ time @ ''<['' @ dec_str pid @ ''] ''"

text \<open>A line is appended to the file, which is made if it is not there. The head has an array of 128 characters. \<open>ok\<close> tells whether the file can be opened.\<close>

definition write_log :: "nat \<Rightarrow> bytes \<Rightarrow> (bytes \<Rightarrow> bytes) \<Rightarrow> bytes \<Rightarrow> bytes \<Rightarrow> nat \<Rightarrow> bool \<Rightarrow> bytes \<Rightarrow> Logging \<Rightarrow> kern \<Rightarrow> (int \<times> Logging \<times> kern) option" where
  "write_log lev sign expand day time pid ok fmt l k =
     (let l1 = l\<lparr>lg_file := getLogFile day l\<rparr>
      in if \<not> odd (lg_level l1 div lev) \<or> lg_file l1 = [] then Some (-1, l1, k)
         else if length (log_head sign time pid) \<ge> 128 then None
         else if \<not> ok then Some (-1, l1, k)
         else Some (0, l1, k\<lparr>disk := (disk k)(lg_file l1 \<mapsto> file_content k (lg_file l1) @ expand (log_head sign time pid @ fmt @ [CHR 0x0A]))\<rparr>))"

definition dbgLog :: "(bytes \<Rightarrow> bytes) \<Rightarrow> bytes \<Rightarrow> bytes \<Rightarrow> nat \<Rightarrow> bool \<Rightarrow> bytes \<Rightarrow> Logging \<Rightarrow> kern \<Rightarrow> (int \<times> Logging \<times> kern) option" where
  "dbgLog = write_log LOG_DEBUG ''[DBG]''"

definition infoLog :: "(bytes \<Rightarrow> bytes) \<Rightarrow> bytes \<Rightarrow> bytes \<Rightarrow> nat \<Rightarrow> bool \<Rightarrow> bytes \<Rightarrow> Logging \<Rightarrow> kern \<Rightarrow> (int \<times> Logging \<times> kern) option" where
  "infoLog = write_log LOG_INFO ''[INF]''"

section \<open>Properties\<close>

text \<open>The head always fits its array.\<close>

lemma dec_str_length: "n < 10 ^ k \<Longrightarrow> 0 < k \<Longrightarrow> length (dec_str n) \<le> k"
proof (induction k arbitrary: n)
  case (Suc k)
  show ?case
  proof (cases "n < 10")
    case True
    then show ?thesis by (subst dec_str.simps) simp
  next
    case False
    then have "0 < k" using Suc.prems(1) by (cases k) auto
    moreover have "n div 10 < 10 ^ k" using Suc.prems(1) by (simp add: div_less_iff_less_mult mult.commute)
    ultimately have "length (dec_str (n div 10)) \<le> k" by (intro Suc.IH)
    then show ?thesis using False by (subst dec_str.simps) simp
  qed
qed simp

lemma log_head_fits: "length sign = 5 \<Longrightarrow> length time = 8 \<Longrightarrow> pid < 10 ^ 10 \<Longrightarrow> length (log_head sign time pid) < 128"
  using dec_str_length [of pid 10] by (simp add: log_head_def)

text \<open>After a level other than \<open>enable\<close> exactly the information lines are written, each to the end of the day's file; with \<open>enable\<close> both kinds are.\<close>

lemma log_levels:
  assumes "length time = 8" "pid < 10 ^ 10"
  shows "\<exists>l' k'. dbgLog expand day time pid True fmt (setLevel le l) k = Some (if le = ''enable'' then 0 else -1, l', k') \<and>
      (le \<noteq> ''enable'' \<longrightarrow> k' = k)"
    and "\<exists>l'. infoLog expand day time pid True fmt (setLevel le l) k =
      Some (0, l', k\<lparr>disk := (disk k)(getLogFile day l \<mapsto> file_content k (getLogFile day l) @ expand (log_head ''[INF]'' time pid @ fmt @ [CHR 0x0A]))\<rparr>)"
  using log_head_fits [OF _ assms, of "''[DBG]''"] log_head_fits [OF _ assms, of "''[INF]''"]
  by (auto simp: dbgLog_def infoLog_def write_log_def setLevel_def getLogFile_def Let_def)

end
